(* ===== verification/Go_Prelude.thy ===== *)
theory Go_Prelude
  imports Main "HOL-Library.Word" "HOL-Library.AList" "HOL-Library.List_Lexorder"
    "HOL-Library.Char_ord"
begin

text \<open>
  What every component of the model shares.

  \<^item> Results: a Go function returning \<open>(T, error)\<close> is a function into \<open>'e + 'a\<close>, with
    \<open>Inl\<close> the error; \<open>bind_r\<close> is the early return \<open>if err != nil { return err }\<close>.
  \<^item> Bytes and strings: \<open>[]byte\<close> is a list of 8-bit words. A Go string is a sequence of
    bytes; it is a list of \<open>char\<close>, each \<open>char\<close> one byte (so \<open>length\<close> is Go's \<open>len\<close>).
  \<^item> The functions of Go's \<open>strings\<close>, \<open>encoding/binary\<close> and \<open>encoding/hex\<close> packages the code
    uses. \<open>TrimSpace\<close> removes every white space of Unicode in its UTF-8 form, as Go does.
    \<open>ToLower\<close> and \<open>EqualFold\<close> are exact on ASCII; a byte of a multi-byte sequence is left
    unchanged, where Go would consult the case tables of Unicode.
  \<^item> Maps: a Go \<open>map\<close> is an association list with distinct keys (\<open>wf_map\<close>); the order of the
    list stands for the unspecified order in which Go iterates, so a fact proved for every
    list holds for every iteration order.
  \<^item> Reachable states of a transition system and the interface \<open>step_system\<close>, through which
    every component proves its invariants.
\<close>

subsection \<open>Results\<close>

definition bind_r :: "('e + 'a) \<Rightarrow> ('a \<Rightarrow> 'e + 'b) \<Rightarrow> ('e + 'b)" where
  "bind_r r f = (case r of Inl e \<Rightarrow> Inl e | Inr x \<Rightarrow> f x)"

lemma bind_r_simps [simp]:
  "bind_r (Inl e) f = Inl e"
  "bind_r (Inr x) f = f x"
  by (simp_all add: bind_r_def)

lemma bind_r_eq_Inr [simp]: "bind_r r f = Inr y \<longleftrightarrow> (\<exists>x. r = Inr x \<and> f x = Inr y)"
  by (cases r) auto

lemma bind_r_eq_Inl: "bind_r r f = Inl e \<longleftrightarrow> r = Inl e \<or> (\<exists>x. r = Inr x \<and> f x = Inl e)"
  by (cases r) auto

lemma bind_r_cong [fundef_cong]:
  "r = r' \<Longrightarrow> (\<And>x. r' = Inr x \<Longrightarrow> f x = g x) \<Longrightarrow> bind_r r f = bind_r r' g"
  by (cases r') auto

text \<open>A computation that may not return: \<open>None\<close> is not returning.\<close>

type_synonym ('e, 'a) partial_r = "('e + 'a) option"

definition bind_o :: "('e, 'a) partial_r \<Rightarrow> ('a \<Rightarrow> ('e, 'b) partial_r) \<Rightarrow> ('e, 'b) partial_r" where
  "bind_o r f = (case r of None \<Rightarrow> None | Some (Inl e) \<Rightarrow> Some (Inl e) | Some (Inr x) \<Rightarrow> f x)"

lemma bind_o_simps [simp]:
  "bind_o None f = None"
  "bind_o (Some (Inl e)) f = Some (Inl e)"
  "bind_o (Some (Inr x)) f = f x"
  by (simp_all add: bind_o_def)

lemma bind_o_eq_Inr:
  "bind_o r f = Some (Inr y) \<longleftrightarrow> (\<exists>x. r = Some (Inr x) \<and> f x = Some (Inr y))"
  by (auto simp: bind_o_def split: option.splits sum.splits)

lemma bind_o_eq_None: "bind_o r f = None \<longleftrightarrow> r = None \<or> (\<exists>x. r = Some (Inr x) \<and> f x = None)"
  by (auto simp: bind_o_def split: option.splits sum.splits)

lemma bind_o_cong [fundef_cong]:
  "r = r' \<Longrightarrow> (\<And>x. r' = Some (Inr x) \<Longrightarrow> f x = g x) \<Longrightarrow> bind_o r f = bind_o r' g"
  by (auto simp: bind_o_def split: option.splits sum.splits)

subsection \<open>Bytes, strings\<close>

type_synonym byte = "8 word"
type_synonym bytes = "byte list"

definition byte_of_char :: "char \<Rightarrow> byte" where
  "byte_of_char c = word_of_nat (of_char c)"

definition char_of_byte :: "byte \<Rightarrow> char" where
  "char_of_byte b = char_of (unat b)"

definition str_bytes :: "string \<Rightarrow> bytes" where
  "str_bytes s = map byte_of_char s"

definition bytes_str :: "bytes \<Rightarrow> string" where
  "bytes_str bs = map char_of_byte bs"

lemma of_char_lt_256: "of_char c < (256::nat)"
proof -
  have "(of_char c :: nat) = of_char c mod 256" by (cases c) (simp add: of_char_def)
  then show ?thesis by (metis mod_less_divisor zero_less_numeral)
qed

lemma char_of_byte_of_char [simp]: "char_of_byte (byte_of_char c) = c"
proof -
  have "unat (word_of_nat (of_char c) :: byte) = of_char c"
    by (simp add: unsigned_of_nat take_bit_eq_mod of_char_lt_256)
  then show ?thesis by (simp add: char_of_byte_def byte_of_char_def)
qed

lemma byte_of_char_of_byte [simp]: "byte_of_char (char_of_byte b) = b"
proof -
  have "unat b < 256" using unsigned_less [of b, where ?'a = nat] by simp
  then show ?thesis
    by (simp add: char_of_byte_def byte_of_char_def of_char_of take_bit_eq_mod)
qed

lemma bytes_str_inverse [simp]: "str_bytes (bytes_str bs) = bs"
  by (simp add: str_bytes_def bytes_str_def o_def)

lemma str_bytes_inverse [simp]: "bytes_str (str_bytes s) = s"
  by (simp add: str_bytes_def bytes_str_def o_def)

lemma length_str_bytes [simp]: "length (str_bytes s) = length s"
  by (simp add: str_bytes_def)

lemma length_bytes_str [simp]: "length (bytes_str s) = length s"
  by (simp add: bytes_str_def)

lemma bytes_str_append [simp]: "bytes_str (a @ b) = bytes_str a @ bytes_str b"
  by (simp add: bytes_str_def)

lemma str_bytes_append [simp]: "str_bytes (a @ b) = str_bytes a @ str_bytes b"
  by (simp add: str_bytes_def)

lemma str_bytes_inject [simp]: "str_bytes a = str_bytes b \<longleftrightarrow> a = b"
  by (metis str_bytes_inverse)

subsection \<open>Big-endian integers (encoding/binary)\<close>

definition put_u16 :: "16 word \<Rightarrow> bytes" where
  "put_u16 w = [ucast (drop_bit 8 w), ucast w]"

definition get_u16 :: "byte \<Rightarrow> byte \<Rightarrow> 16 word" where
  "get_u16 b0 b1 = or (ucast b1) (push_bit 8 (ucast b0))"

definition put_u32 :: "32 word \<Rightarrow> bytes" where
  "put_u32 w = [ucast (drop_bit 24 w), ucast (drop_bit 16 w), ucast (drop_bit 8 w), ucast w]"

definition get_u32 :: "byte \<Rightarrow> byte \<Rightarrow> byte \<Rightarrow> byte \<Rightarrow> 32 word" where
  "get_u32 b0 b1 b2 b3 =
     or (or (or (ucast b3) (push_bit 8 (ucast b2))) (push_bit 16 (ucast b1)))
        (push_bit 24 (ucast b0))"

lemma length_put_u16 [simp]: "length (put_u16 w) = 2"
  by (simp add: put_u16_def)

lemma length_put_u32 [simp]: "length (put_u32 w) = 4"
  by (simp add: put_u32_def)

lemma get_put_u16 [simp]: "get_u16 (ucast (drop_bit 8 w)) (ucast w) = w"
  by (rule bit_word_eqI) (auto simp: get_u16_def bit_simps)

lemma get_put_u32 [simp]:
  "get_u32 (ucast (drop_bit 24 w)) (ucast (drop_bit 16 w)) (ucast (drop_bit 8 w)) (ucast w) = w"
proof (rule bit_word_eqI)
  fix n assume "n < LENGTH(32)"
  then consider "n < 8" | "8 \<le> n \<and> n < 16" | "16 \<le> n \<and> n < 24" | "24 \<le> n \<and> n < 32"
    by force
  then show "bit (get_u32 (ucast (drop_bit 24 w)) (ucast (drop_bit 16 w))
      (ucast (drop_bit 8 w)) (ucast w)) n \<longleftrightarrow> bit w n"
    by cases (auto simp: get_u32_def bit_simps)
qed

lemma put_get_u16: "put_u16 (get_u16 a b) = [a, b]"
proof -
  have "\<not> bit b (8 + n)" for n
    using bit_imp_le_length [of b "8 + n"] by auto
  then show ?thesis
    unfolding put_u16_def get_u16_def
    by (auto intro!: bit_word_eqI simp: bit_simps)
qed

lemma put_u16_inject [simp]: "put_u16 a = put_u16 b \<longleftrightarrow> a = b"
  by (auto simp: put_u16_def) (metis get_put_u16)

subsection \<open>The package strings\<close>

definition has_prefix :: "string \<Rightarrow> string \<Rightarrow> bool" where
  "has_prefix s p \<longleftrightarrow> take (length p) s = p"

definition has_suffix :: "string \<Rightarrow> string \<Rightarrow> bool" where
  "has_suffix s p \<longleftrightarrow> has_prefix (rev s) (rev p)"

definition trim_prefix :: "string \<Rightarrow> string \<Rightarrow> string" where
  "trim_prefix s p = (if has_prefix s p then drop (length p) s else s)"

definition trim_suffix :: "string \<Rightarrow> string \<Rightarrow> string" where
  "trim_suffix s p = (if has_suffix s p then take (length s - length p) s else s)"

lemma has_prefix_append [simp]: "has_prefix (p @ s) p"
  by (simp add: has_prefix_def)

lemma has_prefix_conv: "has_prefix s p \<longleftrightarrow> (\<exists>t. s = p @ t)"
  by (metis append_take_drop_id has_prefix_append has_prefix_def)

lemma has_suffix_conv: "has_suffix s p \<longleftrightarrow> (\<exists>t. s = t @ p)"
  by (metis (no_types, lifting) has_prefix_conv has_suffix_def rev_append rev_rev_ident)

lemma trim_suffix_append [simp]: "trim_suffix (s @ p) p = s"
  by (auto simp: trim_suffix_def has_suffix_conv)

lemma trim_suffix_inject:
  "has_suffix a p \<Longrightarrow> has_suffix b p \<Longrightarrow> trim_suffix a p = trim_suffix b p \<longleftrightarrow> a = b"
  by (auto simp: has_suffix_conv)

text \<open>\<open>strings.Split(s, string(c))\<close> for a separator of one byte: always at least one part.\<close>

fun split_on :: "char \<Rightarrow> string \<Rightarrow> string list" where
  "split_on c [] = [[]]"
| "split_on c (x # xs) =
     (if x = c then [] # split_on c xs
      else (case split_on c xs of [] \<Rightarrow> [[x]] | p # ps \<Rightarrow> (x # p) # ps))"

fun join_with :: "string \<Rightarrow> string list \<Rightarrow> string" where
  "join_with sep [] = []"
| "join_with sep [p] = p"
| "join_with sep (p # q # ps) = p @ sep @ join_with sep (q # ps)"

lemma split_on_not_Nil [simp]: "split_on c s \<noteq> []"
  by (induction s) (auto split: list.splits)

lemma split_on_no_sep: "p \<in> set (split_on c s) \<Longrightarrow> c \<notin> set p"
proof (induction s arbitrary: p)
  case (Cons x xs)
  then show ?case by (auto split: if_splits list.splits)
qed simp

lemma join_split_on: "join_with [c] (split_on c s) = s"
proof (induction s)
  case (Cons x xs)
  then show ?case by (cases "split_on c xs" rule: remdups_adj.cases) auto
qed simp

lemma split_on_clean: "c \<notin> set p \<Longrightarrow> split_on c p = [p]"
  by (induction p) auto

lemma split_on_append: "c \<notin> set p \<Longrightarrow> split_on c (p @ c # s) = p # split_on c s"
  by (induction p) auto

lemma split_join_with:
  "ps \<noteq> [] \<Longrightarrow> \<forall>p \<in> set ps. c \<notin> set p \<Longrightarrow> split_on c (join_with [c] ps) = ps"
  by (induction "[c]" ps rule: join_with.induct) (simp_all add: split_on_clean split_on_append)

text \<open>\<open>strings.Cut(s, string(c))\<close>.\<close>

fun cut_at :: "char \<Rightarrow> string \<Rightarrow> (string \<times> string) option" where
  "cut_at c [] = None"
| "cut_at c (x # xs) =
     (if x = c then Some ([], xs)
      else (case cut_at c xs of None \<Rightarrow> None | Some (a, b) \<Rightarrow> Some (x # a, b)))"

lemma cut_at_append: "c \<notin> set k \<Longrightarrow> cut_at c (k @ c # v) = Some (k, v)"
  by (induction k) auto

text \<open>\<open>unicode.IsSpace\<close>: the white space characters of Unicode, as their UTF-8 bytes.\<close>

definition space_seqs :: "string list" where
  "space_seqs =
     [[CHR 0x09], [CHR 0x0A], [CHR 0x0B], [CHR 0x0C], [CHR 0x0D], [CHR 0x20],
      [CHR 0xC2, CHR 0x85], [CHR 0xC2, CHR 0xA0], [CHR 0xE1, CHR 0x9A, CHR 0x80],
      [CHR 0xE2, CHR 0x80, CHR 0x80], [CHR 0xE2, CHR 0x80, CHR 0x81],
      [CHR 0xE2, CHR 0x80, CHR 0x82], [CHR 0xE2, CHR 0x80, CHR 0x83],
      [CHR 0xE2, CHR 0x80, CHR 0x84], [CHR 0xE2, CHR 0x80, CHR 0x85],
      [CHR 0xE2, CHR 0x80, CHR 0x86], [CHR 0xE2, CHR 0x80, CHR 0x87],
      [CHR 0xE2, CHR 0x80, CHR 0x88], [CHR 0xE2, CHR 0x80, CHR 0x89],
      [CHR 0xE2, CHR 0x80, CHR 0x8A], [CHR 0xE2, CHR 0x80, CHR 0xA8],
      [CHR 0xE2, CHR 0x80, CHR 0xA9], [CHR 0xE2, CHR 0x80, CHR 0xAF],
      [CHR 0xE2, CHR 0x81, CHR 0x9F], [CHR 0xE3, CHR 0x80, CHR 0x80]]"

function strip_seqs :: "string list \<Rightarrow> string \<Rightarrow> string" where
  "strip_seqs ws s =
     (case find (\<lambda>w. w \<noteq> [] \<and> has_prefix s w) ws of
        None \<Rightarrow> s
      | Some w \<Rightarrow> strip_seqs ws (drop (length w) s))"
  by pat_completeness auto
termination
proof (relation "measure (\<lambda>(ws, s). length s)")
  fix ws s w
  assume "find (\<lambda>w. w \<noteq> [] \<and> has_prefix s w) ws = Some w"
  then have "w \<noteq> []" and "has_prefix s w" by (auto simp: find_Some_iff)
  then show "((ws, drop (length w) s), ws, s) \<in> measure (\<lambda>(ws, s). length s)"
    by (auto simp: has_prefix_conv)
qed simp

declare strip_seqs.simps [simp del]

definition trim_space :: "string \<Rightarrow> string" where
  "trim_space s = rev (strip_seqs (map rev space_seqs) (rev (strip_seqs space_seqs s)))"

text \<open>\<open>strings.ToLower\<close> and \<open>strings.EqualFold\<close> (see the head of the theory).\<close>

definition lower_char :: "char \<Rightarrow> char" where
  "lower_char c = (if CHR ''A'' \<le> c \<and> c \<le> CHR ''Z'' then char_of (of_char c + (32::nat)) else c)"

definition to_lower :: "string \<Rightarrow> string" where
  "to_lower s = map lower_char s"

definition equal_fold :: "string \<Rightarrow> string \<Rightarrow> bool" where
  "equal_fold a b \<longleftrightarrow> to_lower a = to_lower b"

definition canon :: "string \<Rightarrow> string" where
  "canon s = to_lower (trim_space s)"

definition is_upper :: "char \<Rightarrow> bool" where
  "is_upper c \<longleftrightarrow> 65 \<le> (of_char c :: nat) \<and> (of_char c :: nat) \<le> 90"

definition is_lower :: "char \<Rightarrow> bool" where
  "is_lower c \<longleftrightarrow> 97 \<le> (of_char c :: nat) \<and> (of_char c :: nat) \<le> 122"

lemma lower_char_alt: "lower_char c = (if is_upper c then char_of (of_char c + (32::nat)) else c)"
  by (simp add: lower_char_def is_upper_def less_eq_char_def)

lemma is_lower_lower_char: "is_upper c \<Longrightarrow> is_lower (lower_char c)"
  by (simp add: lower_char_alt is_upper_def is_lower_def of_char_of)

lemma not_upper_lower_char [simp]: "\<not> is_upper (lower_char c)"
  by (auto simp: lower_char_alt is_upper_def of_char_of)

lemma lower_char_idem [simp]: "lower_char (lower_char c) = lower_char c"
  by (simp add: lower_char_alt [of "lower_char c"])

lemma to_lower_idem [simp]: "to_lower (to_lower s) = to_lower s"
  by (simp add: to_lower_def)

lemma length_to_lower [simp]: "length (to_lower s) = length s"
  by (simp add: to_lower_def)

definition caseless :: "char \<Rightarrow> bool" where
  "caseless x \<longleftrightarrow> \<not> is_upper x \<and> \<not> is_lower x"

lemma caselessD: "caseless x \<Longrightarrow> lower_char c = x \<longleftrightarrow> c = x"
  using is_lower_lower_char [of c] by (cases "is_upper c") (auto simp: caseless_def lower_char_alt)

lemma space_seqs_caseless: "\<forall>w \<in> set space_seqs. \<forall>x \<in> set w. caseless x"
  by (simp add: space_seqs_def caseless_def is_upper_def is_lower_def)

lemma has_prefix_map_lower:
  "\<forall>x \<in> set w. caseless x \<Longrightarrow> has_prefix (map lower_char s) w = has_prefix s w"
  unfolding has_prefix_def
proof (induction w arbitrary: s)
  case (Cons x w)
  then show ?case by (cases s) (auto dest: caselessD)
qed simp

lemma find_cong_set: "(\<And>x. x \<in> set xs \<Longrightarrow> P x = Q x) \<Longrightarrow> find P xs = find Q xs"
  by (induction xs) auto

lemma strip_seqs_map_lower:
  assumes "\<forall>w \<in> set ws. \<forall>x \<in> set w. caseless x"
  shows "strip_seqs ws (map lower_char s) = map lower_char (strip_seqs ws s)"
  using assms
proof (induction ws s rule: strip_seqs.induct)
  case (1 ws s)
  have eq: "find (\<lambda>w. w \<noteq> [] \<and> has_prefix (map lower_char s) w) ws =
            find (\<lambda>w. w \<noteq> [] \<and> has_prefix s w) ws"
    by (rule find_cong_set) (use "1.prems" has_prefix_map_lower in auto)
  show ?case
  proof (cases "find (\<lambda>w. w \<noteq> [] \<and> has_prefix s w) ws")
    case None
    then show ?thesis by (simp add: strip_seqs.simps [of ws s] strip_seqs.simps [of ws "map _ s"] eq)
  next
    case (Some w)
    with "1.IH" "1.prems"
    have "strip_seqs ws (map lower_char (drop (length w) s)) =
          map lower_char (strip_seqs ws (drop (length w) s))" by blast
    with Some show ?thesis
      by (simp add: strip_seqs.simps [of ws s] strip_seqs.simps [of ws "map _ s"] eq drop_map)
  qed
qed

definition no_lead :: "string list \<Rightarrow> string \<Rightarrow> bool" where
  "no_lead ws s \<longleftrightarrow> find (\<lambda>w. w \<noteq> [] \<and> has_prefix s w) ws = None"

lemma strip_seqs_no_lead: "no_lead ws (strip_seqs ws s)"
proof (induction ws s rule: strip_seqs.induct)
  case (1 ws s)
  then show ?case
    by (cases "find (\<lambda>w. w \<noteq> [] \<and> has_prefix s w) ws")
      (auto simp: strip_seqs.simps [of ws s] no_lead_def)
qed

lemma strip_seqs_id: "no_lead ws s \<Longrightarrow> strip_seqs ws s = s"
  by (simp add: no_lead_def strip_seqs.simps [of ws s])

lemma no_lead_take: "no_lead ws (r @ x) \<Longrightarrow> no_lead ws r"
  by (auto simp: no_lead_def find_None_iff has_prefix_conv)

lemma strip_seqs_suffix: "\<exists>x. s = x @ strip_seqs ws s"
proof (induction ws s rule: strip_seqs.induct)
  case (1 ws s)
  show ?case
  proof (cases "find (\<lambda>w. w \<noteq> [] \<and> has_prefix s w) ws")
    case None
    then show ?thesis by (simp add: strip_seqs.simps [of ws s])
  next
    case (Some w)
    with "1.IH" obtain x where "drop (length w) s = x @ strip_seqs ws (drop (length w) s)" by blast
    then have eq: "s = (take (length w) s @ x) @ strip_seqs ws (drop (length w) s)"
      by (metis append.assoc append_take_drop_id)
    have "strip_seqs ws s = strip_seqs ws (drop (length w) s)"
      using Some by (simp add: strip_seqs.simps [of ws s])
    with eq show ?thesis by metis
  qed
qed

lemma trim_space_lead: "no_lead space_seqs (trim_space s)"
proof -
  obtain x where "rev (strip_seqs space_seqs s) = x @ rev (trim_space s)"
    unfolding trim_space_def using strip_seqs_suffix by fastforce
  then have "strip_seqs space_seqs s = trim_space s @ rev x"
    by (metis rev_append rev_rev_ident)
  then show ?thesis by (metis no_lead_take strip_seqs_no_lead)
qed

lemma trim_space_id:
  "no_lead space_seqs s \<Longrightarrow> no_lead (map rev space_seqs) (rev s) \<Longrightarrow> trim_space s = s"
  by (simp add: trim_space_def strip_seqs_id)

lemma trim_space_idem [simp]: "trim_space (trim_space s) = trim_space s"
proof (rule trim_space_id [OF trim_space_lead])
  show "no_lead (map rev space_seqs) (rev (trim_space s))"
    by (simp add: trim_space_def strip_seqs_no_lead)
qed

lemma trim_space_to_lower: "trim_space (to_lower s) = to_lower (trim_space s)"
proof -
  have "\<forall>w \<in> set (map rev space_seqs). \<forall>x \<in> set w. caseless x"
    using space_seqs_caseless by auto
  then show ?thesis
    using space_seqs_caseless
    by (simp add: trim_space_def to_lower_def strip_seqs_map_lower rev_map)
qed

lemma no_lead_Nil [simp]: "no_lead ws []"
  by (auto simp: no_lead_def find_None_iff has_prefix_def)

lemma trim_space_Nil [simp]: "trim_space [] = []"
  by (simp add: trim_space_id)

lemma canon_idem [simp]: "canon (canon s) = canon s"
  by (simp add: canon_def trim_space_to_lower)

lemma canon_Nil [simp]: "canon [] = []"
  by (simp add: canon_def to_lower_def)

lemma canon_to_lower: "to_lower (canon s) = canon s"
  by (simp add: canon_def)

text \<open>A string without white space at its ends and without capitals is its own canonical form.\<close>

lemma canon_id:
  "no_lead space_seqs s \<Longrightarrow> no_lead (map rev space_seqs) (rev s) \<Longrightarrow>
   \<forall>c \<in> set s. \<not> is_upper c \<Longrightarrow> canon s = s"
  by (simp add: canon_def trim_space_id to_lower_def lower_char_alt map_idI)

subsection \<open>The package encoding/hex\<close>

definition hex_digit :: "nat \<Rightarrow> char" where
  "hex_digit n = ''0123456789abcdef'' ! n"

definition hex_encode :: "bytes \<Rightarrow> string" where
  "hex_encode bs = concat (map (\<lambda>b. [hex_digit (unat b div 16), hex_digit (unat b mod 16)]) bs)"

definition hex_val :: "char \<Rightarrow> nat" where
  "hex_val c = (if is_lower c then of_char c - 87 else of_char c - 48)"

lemma less_16_cases: "(n::nat) < 16 \<Longrightarrow> n \<in> {0, 1, 2, 3, 4, 5, 6, 7, 8, 9, 10, 11, 12, 13, 14, 15}"
  unfolding insert_iff empty_iff by arith

lemma hex_val_digit [simp]: "n < 16 \<Longrightarrow> hex_val (hex_digit n) = n"
  by (drule less_16_cases) (auto simp: hex_digit_def hex_val_def is_lower_def)

lemma hex_digit_facts:
  "n < 16 \<Longrightarrow> \<not> is_upper (hex_digit n) \<and> 48 \<le> (of_char (hex_digit n) :: nat)
     \<and> (of_char (hex_digit n) :: nat) < 128"
  by (drule less_16_cases) (auto simp: hex_digit_def is_upper_def)

lemma hex_encode_simps [simp]:
  "hex_encode [] = []"
  "hex_encode (b # bs) = hex_digit (unat b div 16) # hex_digit (unat b mod 16) # hex_encode bs"
  by (simp_all add: hex_encode_def)

lemma length_hex_encode [simp]: "length (hex_encode bs) = 2 * length bs"
  by (induction bs) auto

lemma unat_byte_div: "unat (b :: byte) div 16 < 16"
  using unsigned_less [of b, where ?'a = nat] by (simp add: less_mult_imp_div_less)

lemma hex_encode_inject [simp]: "hex_encode a = hex_encode b \<longleftrightarrow> a = b"
proof (induction a arbitrary: b)
  case Nil
  then show ?case by (cases b) auto
next
  case (Cons x xs)
  show ?case
  proof (cases b)
    case (Cons y ys)
    have "hex_digit (unat x div 16) = hex_digit (unat y div 16) \<Longrightarrow> unat x div 16 = unat y div 16"
      by (metis hex_val_digit unat_byte_div)
    moreover have "hex_digit (unat x mod 16) = hex_digit (unat y mod 16) \<Longrightarrow>
        unat x mod 16 = unat y mod 16"
      by (metis hex_val_digit mod_less_divisor zero_less_numeral)
    ultimately show ?thesis
      using Cons.IH [of ys] Cons
      by (auto simp: word_eq_iff_unsigned [where ?'a = nat]) (metis div_mult_mod_eq)
  qed simp
qed

lemma hex_encode_chars:
  "c \<in> set (hex_encode bs) \<Longrightarrow>
   \<not> is_upper c \<and> 48 \<le> (of_char c :: nat) \<and> (of_char c :: nat) < 128"
  by (induction bs) (auto simp: hex_digit_facts unat_byte_div)

lemma space_seq_ends:
  "\<forall>w \<in> set space_seqs. (of_char (hd w) :: nat) < 48 \<or> 128 \<le> (of_char (hd w) :: nat)"
  "\<forall>w \<in> set space_seqs. (of_char (hd (rev w)) :: nat) < 48 \<or> 128 \<le> (of_char (hd (rev w)) :: nat)"
  by (simp_all add: space_seqs_def)

lemma no_lead_plain:
  assumes "\<forall>w \<in> set ws. (of_char (hd w) :: nat) < 48 \<or> 128 \<le> (of_char (hd w) :: nat)"
    and "\<forall>c \<in> set s. 48 \<le> (of_char c :: nat) \<and> (of_char c :: nat) < 128"
  shows "no_lead ws s"
proof -
  have "\<not> (w \<noteq> [] \<and> has_prefix s w)" if "w \<in> set ws" for w
  proof
    assume w: "w \<noteq> [] \<and> has_prefix s w"
    then have "hd w \<in> set s" by (cases w) (auto simp: has_prefix_conv)
    with assms that show False by fastforce
  qed
  then show ?thesis by (auto simp: no_lead_def find_None_iff)
qed

lemma canon_hex_encode [simp]: "canon (hex_encode bs) = hex_encode bs"
proof (rule canon_id)
  have c: "\<forall>c \<in> set (hex_encode bs). 48 \<le> (of_char c :: nat) \<and> (of_char c :: nat) < 128"
    using hex_encode_chars by blast
  then show "no_lead space_seqs (hex_encode bs)"
    by (intro no_lead_plain space_seq_ends(1))
  show "no_lead (map rev space_seqs) (rev (hex_encode bs))"
    using c space_seq_ends(2) by (intro no_lead_plain) auto
qed (use hex_encode_chars in blast)

subsection \<open>Decimal numbers (package strconv)\<close>

definition dec_digit :: "nat \<Rightarrow> char" where
  "dec_digit n = char_of (48 + n)"

fun dec_nat :: "nat \<Rightarrow> string" where
  "dec_nat n = (if n < 10 then [dec_digit n] else dec_nat (n div 10) @ [dec_digit (n mod 10)])"

declare dec_nat.simps [simp del]

definition itoa :: "int \<Rightarrow> string" where
  "itoa i = (if i < 0 then CHR ''-'' # dec_nat (nat (- i)) else dec_nat (nat i))"

definition is_digit :: "char \<Rightarrow> bool" where
  "is_digit c \<longleftrightarrow> 48 \<le> (of_char c :: nat) \<and> (of_char c :: nat) \<le> 57"

lemma of_char_dec_digit [simp]: "n < 10 \<Longrightarrow> of_char (dec_digit n) = 48 + n"
  by (simp add: dec_digit_def of_char_of)

lemma dec_digit_inject: "m < 10 \<Longrightarrow> n < 10 \<Longrightarrow> dec_digit m = dec_digit n \<longleftrightarrow> m = n"
  by (metis add_left_cancel of_char_dec_digit)

lemma dec_nat_digits: "\<forall>c \<in> set (dec_nat n). is_digit c"
  by (induction n rule: dec_nat.induct) (subst dec_nat.simps, auto simp: is_digit_def)

lemma dec_nat_not_Nil [simp]: "dec_nat n \<noteq> []" "[] \<noteq> dec_nat n"
  by (subst dec_nat.simps, simp)+

lemma dec_nat_inject [simp]: "dec_nat m = dec_nat n \<longleftrightarrow> m = n"
proof (induction m arbitrary: n rule: dec_nat.induct)
  case (1 m)
  show ?case
  proof
    assume eq: "dec_nat m = dec_nat n"
    show "m = n"
    proof (cases "m < 10")
      case True
      then show ?thesis
        using eq by (subst (asm) (1 2) dec_nat.simps) (auto simp: dec_digit_inject split: if_splits)
    next
      case False
      then have "\<not> n < 10"
        using eq by (subst (asm) (1 2) dec_nat.simps) (auto split: if_splits)
      with False eq have "dec_nat (m div 10) = dec_nat (n div 10)" "m mod 10 = n mod 10"
        by (subst (asm) (1 2) dec_nat.simps, simp add: dec_digit_inject)+
      with 1 [OF False, of "n div 10"] show ?thesis by (metis div_mult_mod_eq)
    qed
  qed simp
qed

lemma itoa_inject_nonneg: "0 \<le> i \<Longrightarrow> 0 \<le> j \<Longrightarrow> itoa i = itoa j \<longleftrightarrow> i = j"
  by (simp add: itoa_def eq_nat_nat_iff)

subsection \<open>Maps\<close>

type_synonym ('k, 'v) gomap = "('k \<times> 'v) list"

abbreviation wf_map :: "('k, 'v) gomap \<Rightarrow> bool" where
  "wf_map m \<equiv> distinct (map fst m)"

abbreviation map_put :: "'k \<Rightarrow> 'v \<Rightarrow> ('k, 'v) gomap \<Rightarrow> ('k, 'v) gomap" where
  "map_put \<equiv> AList.update"

abbreviation map_del :: "'k \<Rightarrow> ('k, 'v) gomap \<Rightarrow> ('k, 'v) gomap" where
  "map_del \<equiv> AList.delete"

abbreviation map_has :: "('k, 'v) gomap \<Rightarrow> 'k \<Rightarrow> bool" where
  "map_has m k \<equiv> map_of m k \<noteq> None"

declare update_conv' [simp] delete_conv' [simp] distinct_update [simp] distinct_delete [simp]

text \<open>\<open>m[k]\<close> on a missing key is the zero value of the element type.\<close>

definition get_or :: "'v \<Rightarrow> ('k, 'v) gomap \<Rightarrow> 'k \<Rightarrow> 'v" where
  "get_or z m k = (case map_of m k of None \<Rightarrow> z | Some v \<Rightarrow> v)"

lemma get_or_put [simp]: "get_or z (map_put k v m) k' = (if k' = k then v else get_or z m k')"
  by (simp add: get_or_def)

lemma get_or_del [simp]: "get_or z (map_del k m) k' = (if k' = k then z else get_or z m k')"
  by (simp add: get_or_def)

declare map_of_eq_Some_iff [simp del] Some_eq_map_of_iff [simp del]

lemma map_entry: "wf_map m \<Longrightarrow> (k, v) \<in> set m \<longleftrightarrow> map_of m k = Some v"
  by (simp add: map_of_eq_Some_iff)

lemma map_has_iff: "map_has m k \<longleftrightarrow> k \<in> fst ` set m"
  by (simp add: map_of_eq_None_iff)

lemma set_map_put:
  fixes m :: "('k, 'v) gomap"
  shows "wf_map m \<Longrightarrow>
  set (map_put k v m) = insert (k, v) {e \<in> set m. fst e \<noteq> k}"
proof (rule set_eqI)
  fix e :: "'k \<times> 'v" assume wf: "wf_map m"
  obtain k' v' where e: "e = (k', v')" by (cases e)
  have "e \<in> set (map_put k v m) \<longleftrightarrow> map_of (map_put k v m) k' = Some v'"
    unfolding e by (rule map_entry) (simp add: wf)
  also have "\<dots> \<longleftrightarrow> (k' = k \<and> v' = v) \<or> (k' \<noteq> k \<and> map_of m k' = Some v')"
    by auto
  also have "\<dots> \<longleftrightarrow> e \<in> insert (k, v) {e \<in> set m. fst e \<noteq> k}"
    using map_entry [OF wf, of k' v'] by (auto simp: e)
  finally show "e \<in> set (map_put k v m) \<longleftrightarrow> e \<in> insert (k, v) {e \<in> set m. fst e \<noteq> k}" .
qed

lemma set_map_del: "set (map_del k m) = {e \<in> set m. fst e \<noteq> k}"
  by (auto simp: AList.delete_eq)

subsection \<open>Codecs on byte streams\<close>

text \<open>
  \<open>read_n d n\<close> reads \<open>n\<close> values one after the other. A \<open>stream_codec\<close> is an encoder and a
  decoder that reads one value off the front and leaves the rest; the client's facts are that
  any number of values written one after the other is read back, and that encodings of valid
  values never collide. An \<open>offset_codec\<close> is the same contract for a decoder that takes the
  whole buffer and a position, and that may not return.
\<close>

fun read_n :: "('s \<Rightarrow> 'e + 'a \<times> 's) \<Rightarrow> nat \<Rightarrow> 's \<Rightarrow> 'e + 'a list \<times> 's" where
  "read_n d 0 s = Inr ([], s)"
| "read_n d (Suc n) s =
     bind_r (d s) (\<lambda>(x, s'). bind_r (read_n d n s') (\<lambda>(xs, s''). Inr (x # xs, s'')))"

fun read_n_o :: "('s \<Rightarrow> ('e, 'a \<times> 's) partial_r) \<Rightarrow> nat \<Rightarrow> 's \<Rightarrow> ('e, 'a list \<times> 's) partial_r" where
  "read_n_o d 0 s = Some (Inr ([], s))"
| "read_n_o d (Suc n) s =
     bind_o (d s) (\<lambda>(x, s'). bind_o (read_n_o d n s') (\<lambda>(xs, s''). Some (Inr (x # xs, s''))))"

definition at_offset :: "(bytes \<Rightarrow> 'e + 'a \<times> bytes) \<Rightarrow> bytes \<Rightarrow> int \<Rightarrow> ('e, 'a \<times> int) partial_r" where
  "at_offset d data off =
     Some (bind_r (d (drop (nat off) data))
       (\<lambda>(x, rest). Inr (x, int (length data) - int (length rest))))"

locale offset_codec =
  fixes enc :: "'a \<Rightarrow> bytes"
    and dec :: "bytes \<Rightarrow> int \<Rightarrow> ('e, 'a \<times> int) partial_r"
    and ok :: "'a \<Rightarrow> bool"
  assumes dec_at: "ok x \<Longrightarrow> dec (pre @ enc x @ rest) (int (length pre))
     = Some (Inr (x, int (length pre + length (enc x))))"
begin

lemma read_many_at:
  "list_all ok xs \<Longrightarrow>
   read_n_o (dec (pre @ concat (map enc xs) @ rest)) (length xs) (int (length pre))
     = Some (Inr (xs, int (length pre + length (concat (map enc xs)))))"
proof (induction xs arbitrary: pre)
  case Nil
  then show ?case by simp
next
  case (Cons x xs)
  have "dec (pre @ enc x @ concat (map enc xs) @ rest) (int (length pre))
      = Some (Inr (x, int (length (pre @ enc x))))"
    using dec_at [of x pre "concat (map enc xs) @ rest"] Cons.prems by simp
  with Cons.IH [of "pre @ enc x"] Cons.prems show ?case by simp
qed

end

locale stream_codec =
  fixes enc :: "'a \<Rightarrow> bytes"
    and dec :: "bytes \<Rightarrow> 'e + 'a \<times> bytes"
    and ok :: "'a \<Rightarrow> bool"
  assumes dec_enc: "ok x \<Longrightarrow> dec (enc x @ rest) = Inr (x, rest)"
begin

lemma read_many:
  "list_all ok xs \<Longrightarrow> read_n dec (length xs) (concat (map enc xs) @ rest) = Inr (xs, rest)"
proof (induction xs)
  case (Cons x xs)
  then have "dec (enc x @ concat (map enc xs) @ rest) = Inr (x, concat (map enc xs) @ rest)"
    by (simp add: dec_enc)
  with Cons show ?case by simp
qed simp

lemma enc_prefix_free: "ok x \<Longrightarrow> ok y \<Longrightarrow> enc x @ r = enc y @ s \<Longrightarrow> x = y \<and> r = s"
  by (metis Inr_inject dec_enc prod.inject)

end

sublocale stream_codec \<subseteq> at: offset_codec enc "at_offset dec" ok
  by unfold_locales (simp add: at_offset_def dec_enc)

subsection \<open>Reachable states\<close>

inductive reach :: "('s \<Rightarrow> bool) \<Rightarrow> ('s \<Rightarrow> 's \<Rightarrow> bool) \<Rightarrow> 's \<Rightarrow> bool"
  for init :: "'s \<Rightarrow> bool" and step :: "'s \<Rightarrow> 's \<Rightarrow> bool" where
  reach_init: "init s \<Longrightarrow> reach init step s"
| reach_step: "reach init step s \<Longrightarrow> step s t \<Longrightarrow> reach init step t"

locale step_system =
  fixes init :: "'s \<Rightarrow> bool"
    and step :: "'s \<Rightarrow> 's \<Rightarrow> bool"
    and inv :: "'s \<Rightarrow> bool"
  assumes init_inv: "init s \<Longrightarrow> inv s"
    and step_inv: "inv s \<Longrightarrow> step s t \<Longrightarrow> inv t"
begin

lemma reach_inv: "reach init step s \<Longrightarrow> inv s"
  by (induction rule: reach.induct) (auto intro: init_inv step_inv)

lemma steps_inv: "step\<^sup>*\<^sup>* s t \<Longrightarrow> inv s \<Longrightarrow> inv t"
  by (induction rule: rtranclp_induct) (auto intro: step_inv)

end

end
