(* ===== verification/Wire_Message.thy ===== *)
theory Wire_Message
  imports Go_Prelude Complex_Main
begin

text \<open>
  Protocol messages: \<open>libquava/protocol/constants.go\<close>, \<open>session.go\<close> and the message part of
  \<open>message.go\<close> (the type \<open>Message\<close>, \<open>NewMessage\<close>, \<open>EncodeMessage\<close>, \<open>DecodeMessage\<close>, the
  payload accessors, \<open>ValidatePong\<close>).

  Go's type \<open>any\<close> is the datatype \<open>any\<close> below, one constructor per dynamic type the code
  switches on or stores in a payload. The CBOR library is a parameter: \<open>marshal\<close> and
  \<open>unmarshal\<close> of type \<open>marshaller\<close> and \<open>unmarshaller\<close>. Floats are reals with the three
  special values; a signed zero is \<open>Fin 0\<close>.
\<close>

subsection \<open>Values of type any\<close>

datatype float64 = Fin real | NaN | PosInf | NegInf

datatype any =
    AUint64 "64 word" | AUint32 "32 word" | AUint16 "16 word" | AUint8 byte
  | AInt "64 word" | AInt64 "64 word" | AInt32 "32 word"
  | AFloat64 float64 | AFloat32 float64
  | AString string | ABytes bytes | ABytes16 bytes | ABool bool | ANil
  | ASlice "any list" | AUint64s "64 word list" | AStrings "string list"
  | AMapAny "(any \<times> any) list" | AMapUint "(64 word \<times> any) list"
  | AMapString "(string \<times> any) list"

type_synonym payload = "(64 word, any) gomap"

record message =
  version :: "64 word"
  mtype :: "64 word"
  transaction_id :: bytes
  payload :: payload

datatype wire_error =
    ErrZeroLengthFrame
  | ErrFrameTooLarge nat nat
  | ErrInvalidCBOR
  | ErrInvalidMessage string
  | ErrUnexpectedType "64 word"
  | ErrUnexpectedID
  | ErrNegativeInteger int
  | ErrUnexpectedValue
  | ErrMissingField "64 word"
  | ErrFieldType "64 word"
  | ErrMarshal
  | ErrNilConnection
  | ErrDecrypt
  | ErrCounterExhausted
  | ErrFrameKey
  | ErrAlreadyEncrypted
  | ErrUnexpectedEOF
  | ErrContext
  | ErrIO

subsection \<open>Constants\<close>

definition DefaultMaxFrameSize :: nat where "DefaultMaxFrameSize = 64 * 1024"
definition MaxClipboardBytes :: nat where "MaxClipboardBytes = 48 * 1024"
definition MaxArtworkBytes :: nat where "MaxArtworkBytes = 48 * 1024"
definition ProtocolVersion :: "64 word" where "ProtocolVersion = 2"

definition MessageTypePairRequest :: "64 word" where "MessageTypePairRequest = 0x01"
definition MessageTypePairChallenge :: "64 word" where "MessageTypePairChallenge = 0x02"
definition MessageTypePairAuthenticate :: "64 word" where "MessageTypePairAuthenticate = 0x03"
definition MessageTypePairConfirm :: "64 word" where "MessageTypePairConfirm = 0x04"
definition MessageTypePairComplete :: "64 word" where "MessageTypePairComplete = 0x05"
definition MessageTypePairCancel :: "64 word" where "MessageTypePairCancel = 0x07"
definition MessageTypeSessionHello :: "64 word" where "MessageTypeSessionHello = 0x10"
definition MessageTypeSessionChallenge :: "64 word" where "MessageTypeSessionChallenge = 0x11"
definition MessageTypeSessionAuthenticate :: "64 word" where
  "MessageTypeSessionAuthenticate = 0x12"
definition MessageTypeSessionReady :: "64 word" where "MessageTypeSessionReady = 0x13"
definition MessageTypePing :: "64 word" where "MessageTypePing = 0x20"
definition MessageTypePingAck :: "64 word" where "MessageTypePingAck = 0x21"
definition MessageTypeRing :: "64 word" where "MessageTypeRing = 0x22"
definition MessageTypeRingAck :: "64 word" where "MessageTypeRingAck = 0x23"
definition MessageTypeSyncClipboard :: "64 word" where "MessageTypeSyncClipboard = 0x24"
definition MessageTypeSyncClipboardAck :: "64 word" where "MessageTypeSyncClipboardAck = 0x25"
definition MessageTypeSyncNotification :: "64 word" where "MessageTypeSyncNotification = 0x26"
definition MessageTypeSyncNotificationAck :: "64 word" where
  "MessageTypeSyncNotificationAck = 0x27"
definition MessageTypeClearNotification :: "64 word" where "MessageTypeClearNotification = 0x28"
definition MessageTypeClearNotificationAck :: "64 word" where
  "MessageTypeClearNotificationAck = 0x29"
definition MessageTypeNotificationAction :: "64 word" where
  "MessageTypeNotificationAction = 0x2a"
definition MessageTypeNotificationActionAck :: "64 word" where
  "MessageTypeNotificationActionAck = 0x2b"
definition MessageTypeDismissAndroidNotification :: "64 word" where
  "MessageTypeDismissAndroidNotification = 0x2c"
definition MessageTypeDismissAndroidNotificationAck :: "64 word" where
  "MessageTypeDismissAndroidNotificationAck = 0x2d"
definition MessageTypeInputEvent :: "64 word" where "MessageTypeInputEvent = 0x2e"
definition MessageTypeInputEventAck :: "64 word" where "MessageTypeInputEventAck = 0x2f"
definition MessageTypeMultimedia :: "64 word" where "MessageTypeMultimedia = 0x30"
definition MessageTypeMultimediaAck :: "64 word" where "MessageTypeMultimediaAck = 0x31"
definition MessageTypeMultimediaState :: "64 word" where "MessageTypeMultimediaState = 0x32"
definition MessageTypeUnpair :: "64 word" where "MessageTypeUnpair = 0x33"
definition MessageTypeUnpairAck :: "64 word" where "MessageTypeUnpairAck = 0x34"
definition MessageTypeDeviceStatus :: "64 word" where "MessageTypeDeviceStatus = 0x35"
definition MessageTypeCallState :: "64 word" where "MessageTypeCallState = 0x36"
definition MessageTypeCallStateAck :: "64 word" where "MessageTypeCallStateAck = 0x37"

definition MultimediaStateUpdateType :: "64 word" where "MultimediaStateUpdateType = 20"
definition MultimediaStateFull :: "64 word" where "MultimediaStateFull = 0"
definition MultimediaStatePosition :: "64 word" where "MultimediaStatePosition = 1"
definition MultimediaStateIcon :: "64 word" where "MultimediaStateIcon = 2"
definition PingPayloadSilent :: "64 word" where "PingPayloadSilent = 0"
definition ReasonUserRejected :: "64 word" where "ReasonUserRejected = 0x01"
definition SessionReadyMAC :: "64 word" where "SessionReadyMAC = 0"
definition SessionReadyHostname :: "64 word" where "SessionReadyHostname = 1"

lemmas request_type_defs =
  MessageTypePing_def MessageTypePingAck_def MessageTypeRing_def MessageTypeRingAck_def
  MessageTypeSyncClipboard_def MessageTypeSyncClipboardAck_def
  MessageTypeSyncNotification_def MessageTypeSyncNotificationAck_def
  MessageTypeClearNotification_def MessageTypeClearNotificationAck_def
  MessageTypeNotificationAction_def MessageTypeNotificationActionAck_def
  MessageTypeDismissAndroidNotification_def MessageTypeDismissAndroidNotificationAck_def
  MessageTypeUnpair_def MessageTypeUnpairAck_def

lemmas event_type_defs =
  MessageTypeInputEvent_def MessageTypeInputEventAck_def MessageTypeMultimedia_def
  MessageTypeMultimediaAck_def MessageTypeMultimediaState_def MessageTypeDeviceStatus_def
  MessageTypeCallState_def MessageTypeCallStateAck_def

subsection \<open>Reading values and payload fields\<close>

fun uint64_value :: "any \<Rightarrow> wire_error + 64 word" where
  "uint64_value (AUint64 w) = Inr w"
| "uint64_value (AUint32 w) = Inr (ucast w)"
| "uint64_value (AUint16 w) = Inr (ucast w)"
| "uint64_value (AUint8 w) = Inr (ucast w)"
| "uint64_value (AInt w) = (if sint w < 0 then Inl (ErrNegativeInteger (sint w)) else Inr w)"
| "uint64_value (AInt64 w) = (if sint w < 0 then Inl (ErrNegativeInteger (sint w)) else Inr w)"
| "uint64_value (AInt32 w) =
     (if sint w < 0 then Inl (ErrNegativeInteger (sint w)) else Inr (scast w))"
| "uint64_value _ = Inl ErrUnexpectedValue"

fun bytes_value :: "any \<Rightarrow> wire_error + bytes" where
  "bytes_value (ABytes bs) = Inr bs"
| "bytes_value (ABytes16 bs) = Inr bs"
| "bytes_value _ = Inl ErrUnexpectedValue"

definition payload_bytes :: "payload \<Rightarrow> 64 word \<Rightarrow> wire_error + bytes" where
  "payload_bytes p k = (case map_of p k of None \<Rightarrow> Inl (ErrMissingField k) | Some v \<Rightarrow> bytes_value v)"

definition payload_string :: "payload \<Rightarrow> 64 word \<Rightarrow> wire_error + string" where
  "payload_string p k =
     (case map_of p k of
        None \<Rightarrow> Inl (ErrMissingField k)
      | Some v \<Rightarrow> (case v of AString s \<Rightarrow> Inr s | _ \<Rightarrow> Inl (ErrFieldType k)))"

definition payload_uint :: "payload \<Rightarrow> 64 word \<Rightarrow> wire_error + 64 word" where
  "payload_uint p k = (case map_of p k of None \<Rightarrow> Inl (ErrMissingField k) | Some v \<Rightarrow> uint64_value v)"

text \<open>\<open>v, ok := payload[k].(T)\<close> for \<open>T\<close> bool and string.\<close>

definition payload_bool_opt :: "payload \<Rightarrow> 64 word \<Rightarrow> bool option" where
  "payload_bool_opt p k = (case map_of p k of Some (ABool b) \<Rightarrow> Some b | _ \<Rightarrow> None)"

definition payload_string_opt :: "payload \<Rightarrow> 64 word \<Rightarrow> string option" where
  "payload_string_opt p k = (case map_of p k of Some (AString s) \<Rightarrow> Some s | _ \<Rightarrow> None)"

definition new_message :: "64 word \<Rightarrow> bytes \<Rightarrow> payload \<Rightarrow> message" where
  "new_message t tx p =
     \<lparr>version = ProtocolVersion, mtype = t, transaction_id = tx, payload = p\<rparr>"

lemma new_message_simps [simp]:
  "version (new_message t tx p) = ProtocolVersion"
  "mtype (new_message t tx p) = t"
  "transaction_id (new_message t tx p) = tx"
  "payload (new_message t tx p) = p"
  by (simp_all add: new_message_def)

definition validate_pong :: "message \<Rightarrow> bytes \<Rightarrow> wire_error + unit" where
  "validate_pong m tx =
     (if mtype m \<noteq> MessageTypePingAck then Inl (ErrUnexpectedType (mtype m))
      else if transaction_id m \<noteq> tx then Inl ErrUnexpectedID
      else Inr ())"

subsection \<open>Encoding and decoding\<close>

type_synonym marshaller = "payload \<Rightarrow> bytes option"
type_synonym unmarshaller = "bytes \<Rightarrow> payload option"

definition envelope :: "message \<Rightarrow> payload" where
  "envelope m =
     [(0, AUint64 (version m)), (1, AUint64 (mtype m)), (2, ABytes (transaction_id m)),
      (3, AMapUint (payload m))]"

definition encode_message :: "marshaller \<Rightarrow> message \<Rightarrow> wire_error + bytes" where
  "encode_message marshal m = (case marshal (envelope m) of None \<Rightarrow> Inl ErrMarshal | Some bs \<Rightarrow> Inr bs)"

text \<open>The loop of \<open>DecodeMessage\<close> over a payload with keys of any type.\<close>

fun uint_keys :: "(any \<times> any) list \<Rightarrow> payload \<Rightarrow> wire_error + payload" where
  "uint_keys [] acc = Inr acc"
| "uint_keys ((k, v) # kvs) acc =
     (case uint64_value k of
        Inl _ \<Rightarrow> Inl (ErrInvalidMessage ''payload key'')
      | Inr w \<Rightarrow> uint_keys kvs (map_put w v acc))"

definition field :: "payload \<Rightarrow> 64 word \<Rightarrow> 'a \<Rightarrow> (any \<Rightarrow> wire_error + 'a) \<Rightarrow> string \<Rightarrow> wire_error + 'a" where
  "field enc k z conv name =
     (case map_of enc k of
        None \<Rightarrow> Inr z
      | Some v \<Rightarrow> (case conv v of Inl _ \<Rightarrow> Inl (ErrInvalidMessage name) | Inr x \<Rightarrow> Inr x))"

definition payload_value :: "any \<Rightarrow> wire_error + payload" where
  "payload_value v =
     (case v of
        AMapAny kvs \<Rightarrow> uint_keys kvs []
      | AMapUint kvs \<Rightarrow> Inr kvs
      | _ \<Rightarrow> Inl (ErrInvalidMessage ''payload''))"

definition decode_message :: "unmarshaller \<Rightarrow> bytes \<Rightarrow> wire_error + message" where
  "decode_message unmarshal bs =
     (case unmarshal bs of
        None \<Rightarrow> Inl ErrInvalidCBOR
      | Some enc \<Rightarrow>
          bind_r (field enc 0 0 uint64_value ''version'') (\<lambda>v.
          bind_r (field enc 1 0 uint64_value ''type'') (\<lambda>t.
          bind_r (field enc 2 [] bytes_value ''transaction_id'') (\<lambda>tx.
          bind_r (case map_of enc 3 of
                    None \<Rightarrow> Inl (ErrInvalidMessage ''missing payload'')
                  | Some p \<Rightarrow> payload_value p) (\<lambda>p.
            if v = 0 \<or> t = 0 \<or> length tx = 0 \<or> length tx > 64
            then Inl (ErrInvalidMessage ''missing or invalid envelope field'')
            else Inr \<lparr>version = v, mtype = t, transaction_id = tx, payload = p\<rparr>)))))"

definition valid_envelope :: "message \<Rightarrow> bool" where
  "valid_envelope m \<longleftrightarrow> version m \<noteq> 0 \<and> mtype m \<noteq> 0 \<and>
     0 < length (transaction_id m) \<and> length (transaction_id m) \<le> 64"

text \<open>What a decoder of generic CBOR makes of an encoded envelope: the payload's integer keys
  come back as keys of type \<open>any\<close>.\<close>

definition generic_envelope :: "message \<Rightarrow> payload" where
  "generic_envelope m =
     [(0, AUint64 (version m)), (1, AUint64 (mtype m)), (2, ABytes (transaction_id m)),
      (3, AMapAny (map (\<lambda>(k, v). (AUint64 k, v)) (payload m)))]"

lemma update_fresh: "k \<notin> fst ` set m \<Longrightarrow> map_put k v m = m @ [(k, v)]"
  by (induction m) auto

lemma uint_keys_uint64:
  "wf_map (acc @ p) \<Longrightarrow> uint_keys (map (\<lambda>(k, v). (AUint64 k, v)) p) acc = Inr (acc @ p)"
proof (induction p arbitrary: acc)
  case (Cons kv p)
  then show ?case by (cases kv) (auto simp: update_fresh)
qed simp

lemma decode_generic_envelope:
  assumes "unmarshal bs = Some (generic_envelope m)" "wf_map (payload m)" "valid_envelope m"
  shows "decode_message unmarshal bs = Inr m"
proof -
  have p: "payload_value (AMapAny (map (\<lambda>(k, v). (AUint64 k, v)) (payload m))) = Inr (payload m)"
    using assms(2) uint_keys_uint64 [of "[]" "payload m"] by (simp add: payload_value_def)
  show ?thesis
    using assms(1,3) p
    by (simp add: decode_message_def generic_envelope_def field_def valid_envelope_def)
qed

lemma decode_message_valid: "decode_message unmarshal bs = Inr m \<Longrightarrow> valid_envelope m"
  by (auto simp: decode_message_def valid_envelope_def split: option.splits if_splits)

lemma new_message_valid:
  "t \<noteq> 0 \<Longrightarrow> 0 < length tx \<Longrightarrow> length tx \<le> 64 \<Longrightarrow> valid_envelope (new_message t tx p)"
  by (simp add: valid_envelope_def ProtocolVersion_def)

subsection \<open>Properties\<close>

text \<open>The CBOR library reads the encoded envelope back as the same tree, integer keys coming back
  as generic keys.\<close>

definition cbor_roundtrip :: "marshaller \<Rightarrow> unmarshaller \<Rightarrow> bool" where
  "cbor_roundtrip marshal unmarshal \<longleftrightarrow>
     (\<forall>m bs. marshal (envelope m) = Some bs \<longrightarrow> unmarshal bs = Some (generic_envelope m))"

lemma envelope_inject: "envelope m = envelope m' \<Longrightarrow> m = m'" for m m' :: message
  by (simp add: envelope_def)

text \<open>A library for one message, for the witness.\<close>

definition cbor_one :: "message \<Rightarrow> marshaller \<times> unmarshaller" where
  "cbor_one m = (\<lambda>p. if p = envelope m then Some [7] else None, \<lambda>_. Some (generic_envelope m))"

lemma cbor_one_roundtrip: "cbor_roundtrip (fst (cbor_one m)) (snd (cbor_one m))"
  unfolding cbor_roundtrip_def cbor_one_def
  using envelope_inject by (auto split: if_split_asm)

text \<open>Message round trip: decoding an encoded message with distinct payload keys and a valid
  envelope gives the message back; and whatever decodes at all has a non-zero version and type
  and a transaction ID of 1 to 64 bytes.\<close>

theorem message_roundtrip:
  assumes "cbor_roundtrip marshal unmarshal" "encode_message marshal m = Inr bs"
    and "wf_map (payload m)" "valid_envelope m"
  shows "decode_message unmarshal bs = Inr m \<and>
    (\<forall>bs' m'. decode_message unmarshal bs' = Inr m' \<longrightarrow> valid_envelope m')"
proof -
  have "marshal (envelope m) = Some bs"
    using assms(2) by (simp add: encode_message_def split: option.splits)
  then show ?thesis
    using assms decode_generic_envelope decode_message_valid unfolding cbor_roundtrip_def by blast
qed

lemma message_roundtrip_witness:
  "decode_message (snd (cbor_one (new_message 32 [1, 2] [(0, ABool True)]))) [7] =
     Inr (new_message 32 [1, 2] [(0, ABool True)])"
  using message_roundtrip [OF cbor_one_roundtrip [of "new_message 32 [1, 2] [(0, ABool True)]"],
      of "new_message 32 [1, 2] [(0, ABool True)]" "[7]"]
  by (simp add: encode_message_def cbor_one_def new_message_valid)

end
