(* ===== verification/Framing.thy ===== *)
theory Framing
  imports Wire_Message
begin

text \<open>
  Length-prefixed frames: \<open>Framer\<close>, \<open>readExact\<close> and \<open>writeExact\<close> of
  \<open>libquava/protocol/message.go\<close>.

  A reader is the list of what its calls of \<open>Read\<close> meet: bytes that arrive together with the
  error the call reports (none, a timeout, the end of the stream, another error), or the
  cancellation of the context. A chunk that is larger than the buffer stays, less what was
  read. A reader whose list is used up blocks for ever: \<open>None\<close>. A writer is the list of what
  its calls of \<open>Write\<close> report. \<open>read_frame_bytes\<close> is the decoder on the plain bytes of a
  stream; \<open>read_frame\<close> is shown to agree with it however the bytes were cut into chunks.
\<close>

subsection \<open>Reading\<close>

datatype io_status = IoOk | IoTimeout | IoEof | IoErr

datatype read_event = Arrive bytes io_status | ReadCancel

type_synonym 'a read_result = "((wire_error + 'a) \<times> read_event list) option"

fun read_exact :: "nat \<Rightarrow> read_event list \<Rightarrow> bytes read_result" where
  "read_exact 0 es = Some (Inr [], es)"
| "read_exact (Suc n) [] = None"
| "read_exact (Suc n) (ReadCancel # es) = Some (Inl ErrContext, ReadCancel # es)"
| "read_exact (Suc n) (Arrive bs st # es) =
     (if Suc n < length bs then Some (Inr (take (Suc n) bs), Arrive (drop (Suc n) bs) st # es)
      else (case st of
          IoEof \<Rightarrow> Some (Inl ErrUnexpectedEOF, es)
        | IoErr \<Rightarrow> Some (Inl ErrIO, es)
        | _ \<Rightarrow>
            (if st = IoTimeout \<and> es \<noteq> [] \<and> hd es = ReadCancel then Some (Inl ErrContext, es)
             else (case read_exact (Suc n - length bs) es of
                 Some (Inr r, es') \<Rightarrow> Some (Inr (bs @ r), es')
               | x \<Rightarrow> x))))"

record framer =
  max_frame_size :: "32 word"

definition new_framer :: "32 word \<Rightarrow> framer" where
  "new_framer n = \<lparr>max_frame_size = (if n = 0 then of_nat DefaultMaxFrameSize else n)\<rparr>"

definition frame_length :: "bytes \<Rightarrow> 32 word" where
  "frame_length h = get_u32 (h ! 0) (h ! 1) (h ! 2) (h ! 3)"

definition read_frame :: "framer \<Rightarrow> read_event list \<Rightarrow> bytes read_result" where
  "read_frame f es =
     (case read_exact 4 es of
        Some (Inr h, es') \<Rightarrow>
          (let n = frame_length h in
           if n = 0 then Some (Inl ErrZeroLengthFrame, es')
           else if n > max_frame_size f
                then Some (Inl (ErrFrameTooLarge (unat n) (unat (max_frame_size f))), es')
           else read_exact (unat n) es')
      | x \<Rightarrow> x)"

definition read_message :: "unmarshaller \<Rightarrow> framer \<Rightarrow> read_event list \<Rightarrow> message read_result" where
  "read_message unmarshal f es =
     (case read_frame f es of
        None \<Rightarrow> None
      | Some (r, es') \<Rightarrow> Some (bind_r r (decode_message unmarshal), es'))"

subsection \<open>Writing\<close>

datatype write_event = Accept nat io_status | WriteCancel

type_synonym write_result = "((wire_error + unit) \<times> bytes \<times> write_event list) option"

text \<open>The second component is what reached the wire; \<open>Write\<close> accepts at most what it is given.\<close>

function write_exact :: "bytes \<Rightarrow> write_event list \<Rightarrow> write_result" where
  "write_exact [] es = Some (Inr (), [], es)"
| "write_exact (b # bs) [] = None"
| "write_exact (b # bs) (WriteCancel # es) = Some (Inl ErrContext, [], WriteCancel # es)"
| "write_exact (b # bs) (Accept n st # es) =
     (let buf = b # bs; sent = take n buf in
      case st of
        IoErr \<Rightarrow> Some (Inl ErrIO, sent, es)
      | IoEof \<Rightarrow> Some (Inl ErrIO, sent, es)
      | _ \<Rightarrow>
          (if st = IoTimeout \<and> es \<noteq> [] \<and> hd es = WriteCancel then Some (Inl ErrContext, sent, es)
           else (case write_exact (drop n buf) es of
               Some (r, w, es') \<Rightarrow> Some (r, sent @ w, es')
             | None \<Rightarrow> None)))"
  by pat_completeness auto
termination by (relation "measure (\<lambda>(b, es). length es)") auto

definition frame_bytes :: "bytes \<Rightarrow> bytes" where
  "frame_bytes p = put_u32 (of_nat (length p)) @ p"

definition write_frame :: "framer \<Rightarrow> bytes \<Rightarrow> write_event list \<Rightarrow> write_result" where
  "write_frame f p es =
     (if (of_nat (length p) :: 32 word) > max_frame_size f
      then Some (Inl (ErrFrameTooLarge (length p) (unat (max_frame_size f))), [], es)
      else write_exact (frame_bytes p) es)"

definition write_message ::
    "marshaller \<Rightarrow> framer \<Rightarrow> message \<Rightarrow> write_event list \<Rightarrow> write_result" where
  "write_message marshal f m es =
     (case encode_message marshal m of
        Inl e \<Rightarrow> Some (Inl e, [], es)
      | Inr p \<Rightarrow> write_frame f p es)"

subsection \<open>The decoder on plain bytes\<close>

definition take_exact :: "nat \<Rightarrow> bytes \<Rightarrow> wire_error + bytes \<times> bytes" where
  "take_exact n bs = (if length bs < n then Inl ErrUnexpectedEOF else Inr (take n bs, drop n bs))"

definition read_frame_bytes :: "framer \<Rightarrow> bytes \<Rightarrow> wire_error + bytes \<times> bytes" where
  "read_frame_bytes f bs =
     bind_r (take_exact 4 bs) (\<lambda>(h, rest).
       let n = frame_length h in
       if n = 0 then Inl ErrZeroLengthFrame
       else if n > max_frame_size f
            then Inl (ErrFrameTooLarge (unat n) (unat (max_frame_size f)))
       else take_exact (unat n) rest)"

definition frame_ok :: "framer \<Rightarrow> bytes \<Rightarrow> bool" where
  "frame_ok f p \<longleftrightarrow> p \<noteq> [] \<and> length p \<le> unat (max_frame_size f)"

lemma unat_frame_length:
  "frame_ok f p \<Longrightarrow> unat (of_nat (length p) :: 32 word) = length p"
  using unsigned_less [of "max_frame_size f", where ?'a = nat]
  by (simp add: frame_ok_def unsigned_of_nat take_bit_nat_eq_self)

lemma frame_ok_word:
  assumes "frame_ok f p"
  shows "(of_nat (length p) :: 32 word) \<noteq> 0" "\<not> (of_nat (length p) :: 32 word) > max_frame_size f"
  using assms unat_frame_length [OF assms]
  by (auto simp: frame_ok_def word_less_nat_alt simp flip: unat_eq_zero)

lemma frame_length_put [simp]: "frame_length (put_u32 n) = n"
  by (simp add: frame_length_def put_u32_def numeral_3_eq_3 numeral_2_eq_2)

lemma read_frame_bytes_frame:
  assumes "frame_ok f p"
  shows "read_frame_bytes f (frame_bytes p @ rest) = Inr (p, rest)"
proof -
  have "take_exact 4 (frame_bytes p @ rest) = Inr (put_u32 (of_nat (length p)), p @ rest)"
    by (simp add: take_exact_def frame_bytes_def)
  then show ?thesis
    using frame_ok_word [OF assms]
    by (simp add: read_frame_bytes_def Let_def take_exact_def unat_frame_length [OF assms])
qed

interpretation frames: stream_codec frame_bytes "read_frame_bytes f" "frame_ok f" for f
  by unfold_locales (rule read_frame_bytes_frame)

subsection \<open>Chunks\<close>

text \<open>A quiet reader reports bytes and timeouts only; \<open>arrived\<close> are the bytes it delivers.\<close>

fun quiet :: "read_event list \<Rightarrow> bool" where
  "quiet [] = True"
| "quiet (Arrive bs st # es) \<longleftrightarrow> (st = IoOk \<or> st = IoTimeout) \<and> quiet es"
| "quiet (ReadCancel # es) = False"

fun arrived :: "read_event list \<Rightarrow> bytes" where
  "arrived [] = []"
| "arrived (Arrive bs st # es) = bs @ arrived es"
| "arrived (ReadCancel # es) = arrived es"

lemma quiet_hd: "quiet es \<Longrightarrow> es = [] \<or> hd es \<noteq> ReadCancel"
  by (cases es rule: quiet.cases) auto

lemma read_exact_quiet:
  "quiet es \<Longrightarrow> n \<le> length (arrived es) \<Longrightarrow>
   \<exists>es'. read_exact n es = Some (Inr (take n (arrived es)), es')
     \<and> quiet es' \<and> arrived es' = drop n (arrived es)"
proof (induction n es rule: read_exact.induct)
  case (4 n bs st es)
  show ?case
  proof (cases "Suc n < length bs")
    case False
    from "4.prems" have st: "st = IoOk \<or> st = IoTimeout" and q: "quiet es" by auto
    have "\<exists>es'. read_exact (Suc n - length bs) es
        = Some (Inr (take (Suc n - length bs) (arrived es)), es')
      \<and> quiet es' \<and> arrived es' = drop (Suc n - length bs) (arrived es)"
      using st False q quiet_hd [OF q] "4.prems" "4.IH" by (cases st) auto
    then show ?thesis using False st quiet_hd [OF q] by (auto split: io_status.splits)
  qed (use "4.prems" in auto)
qed auto

lemma read_exact_short:
  "quiet es \<Longrightarrow> length (arrived es) < n \<Longrightarrow> read_exact n es = None"
proof (induction n es rule: read_exact.induct)
  case (4 n bs st es)
  from "4.prems" have st: "st = IoOk \<or> st = IoTimeout" and q: "quiet es" by auto
  have "read_exact (Suc n - length bs) es = None"
    using st q quiet_hd [OF q] "4.prems" "4.IH" by (cases st) auto
  then show ?case using "4.prems" st quiet_hd [OF q] by (auto split: io_status.splits)
qed auto

lemma read_exact_outcome:
  "quiet es \<Longrightarrow> read_exact n es = Some (r, es') \<Longrightarrow> r = Inr (take n (arrived es))
     \<and> n \<le> length (arrived es) \<and> quiet es' \<and> arrived es' = drop n (arrived es)"
  using read_exact_quiet [of es n] read_exact_short [of es n]
  by (cases "n \<le> length (arrived es)") auto

lemma read_frame_quiet:
  assumes "quiet es" "read_frame_bytes f (arrived es) = Inr (p, rest)"
  shows "\<exists>es'. read_frame f es = Some (Inr p, es') \<and> quiet es' \<and> arrived es' = rest"
proof -
  let ?s = "arrived es"
  let ?n = "frame_length (take 4 ?s)"
  have four: "4 \<le> length ?s" and n0: "?n \<noteq> 0" and nmax: "\<not> ?n > max_frame_size f"
    and enough: "unat ?n \<le> length (drop 4 ?s)"
    and p: "p = take (unat ?n) (drop 4 ?s)" and rest: "rest = drop (unat ?n) (drop 4 ?s)"
    using assms(2) by (auto simp: read_frame_bytes_def take_exact_def Let_def split: if_splits)
  obtain es1 where es1: "read_exact 4 es = Some (Inr (take 4 ?s), es1)" "quiet es1"
      "arrived es1 = drop 4 ?s"
    using read_exact_quiet [OF assms(1) four] by blast
  obtain es2 where es2: "read_exact (unat ?n) es1 = Some (Inr p, es2)" "quiet es2"
      "arrived es2 = rest"
    using read_exact_quiet [OF es1(2), of "unat ?n"] enough es1(3) p rest by auto
  show ?thesis using es1 es2 n0 nmax by (auto simp: read_frame_def Let_def)
qed

lemma read_frame_outcome:
  assumes q: "quiet es" and rf: "read_frame f es = Some (Inr p, es')"
  shows "read_frame_bytes f (arrived es) = Inr (p, arrived es') \<and> quiet es'"
proof -
  let ?n = "frame_length (take 4 (arrived es))"
  obtain h es1 where "read_exact 4 es = Some (Inr h, es1)"
    using rf by (cases "read_exact 4 es" rule: option.exhaust)
      (auto simp: read_frame_def split: sum.splits)
  note es1 = this read_exact_outcome [OF q this]
  then have n: "?n \<noteq> 0" "\<not> ?n > max_frame_size f"
    and r: "read_exact (unat ?n) es1 = Some (Inr p, es')"
    using rf by (simp_all add: read_frame_def Let_def split: if_splits)
  from read_exact_outcome [OF _ r] n es1 show ?thesis
    by (simp add: read_frame_bytes_def take_exact_def Let_def)
qed

lemma write_exact_prefix:
  "write_exact bs es = Some (r, w, es') \<Longrightarrow>
   \<exists>rest. bs = w @ rest \<and> (r = Inr () \<longrightarrow> rest = [])"
proof (induction bs es arbitrary: w rule: write_exact.induct)
  case (4 b bs n st es)
  let ?next = "write_exact (drop n (b # bs)) es"
  let ?sent = "take n (b # bs)"
  let ?go = "st = IoOk \<or> (st = IoTimeout \<and> (es = [] \<or> hd es \<noteq> WriteCancel))"
  have split: "\<exists>rest. b # bs = ?sent @ rest" by (metis append_take_drop_id)
  show ?case
  proof (cases ?go)
    case True
    then have "write_exact (b # bs) (Accept n st # es) =
        (case ?next of Some (r, w, es') \<Rightarrow> Some (r, ?sent @ w, es') | None \<Rightarrow> None)"
      by (cases st) (auto simp: Let_def)
    with "4.prems" obtain w' where w': "?next = Some (r, w', es')" and w: "w = ?sent @ w'"
      by (auto split: option.splits)
    have "\<exists>rest. drop n (b # bs) = w' @ rest \<and> (r = Inr () \<longrightarrow> rest = [])"
      using "4.IH" True w' by (cases st) auto
    then show ?thesis using w by (metis append.assoc append_take_drop_id)
  next
    case False
    then have "w = ?sent" and "r \<noteq> Inr ()"
      using "4.prems" by (cases st; auto simp: Let_def)+
    then show ?thesis using split by auto
  qed
qed auto

lemma write_frame_ok:
  "frame_ok f p \<Longrightarrow> write_frame f p es = write_exact (frame_bytes p) es"
  using frame_ok_word(2) [of f p] by (simp add: write_frame_def)

lemma write_frame_sent:
  "frame_ok f p \<Longrightarrow> write_frame f p es = Some (Inr (), w, es') \<Longrightarrow> w = frame_bytes p"
  using write_exact_prefix [of "frame_bytes p" es "Inr ()" w es'] by (simp add: write_frame_ok)

subsection \<open>Properties\<close>

lemma read_exact_arrived:
  assumes "quiet es"
  shows "if n \<le> length (arrived es)
    then \<exists>es'. read_exact n es = Some (Inr (take n (arrived es)), es') \<and> quiet es' \<and>
      arrived es' = drop n (arrived es)
    else read_exact n es = None"
  using read_exact_quiet [OF assms, of n] read_exact_short [OF assms, of n] by auto

text \<open>What \<open>ReadFrame\<close> returns, and the bytes it leaves unread, depend on the bytes that
  arrive and not on how the network cut them into chunks or how often a read timed out.\<close>

theorem read_frame_chunking:
  assumes "quiet es" "quiet es'" "arrived es = arrived es'"
  shows "map_option (\<lambda>(r, t). (r, arrived t)) (read_frame f es) =
    map_option (\<lambda>(r, t). (r, arrived t)) (read_frame f es')"
proof (cases "4 \<le> length (arrived es)")
  case True
  let ?h = "take 4 (arrived es)"
  obtain a where a: "read_exact 4 es = Some (Inr ?h, a)" "quiet a" "arrived a = drop 4 (arrived es)"
    using read_exact_quiet [OF assms(1) True] by blast
  obtain b where b: "read_exact 4 es' = Some (Inr ?h, b)" "quiet b" "arrived b = drop 4 (arrived es)"
    using read_exact_quiet [OF assms(2), of 4] True assms(3) by auto
  show ?thesis
    using a b read_exact_arrived [OF a(2), of "unat (frame_length ?h)"]
      read_exact_arrived [OF b(2), of "unat (frame_length ?h)"]
    by (auto simp: read_frame_def Let_def split: if_split_asm)
next
  case False
  then show ?thesis
    using read_exact_short [OF assms(1), of 4] read_exact_short [OF assms(2), of 4] assms(3)
    by (simp add: read_frame_def)
qed

lemma read_frame_chunking_witness:
  "map_option (\<lambda>(r, t). (r, arrived t)) (read_frame (new_framer 0) [Arrive [0, 0] IoOk,
      Arrive [] IoTimeout, Arrive [0, 2, 7] IoOk, Arrive [8, 9] IoOk]) =
    map_option (\<lambda>(r, t). (r, arrived t))
      (read_frame (new_framer 0) [Arrive [0, 0, 0, 2, 7, 8, 9] IoOk])"
  by (rule read_frame_chunking) simp_all

text \<open>A frame that was written completely is read back exactly, and the reader stops at its
  end; a write that fails has put a prefix of the frame on the wire and nothing else.\<close>

theorem frame_roundtrip:
  assumes "frame_ok f p" "write_frame f p wes = Some (r, w, wes')"
  shows "(\<exists>rest. frame_bytes p = w @ rest) \<and>
    (r = Inr () \<longrightarrow> quiet es \<longrightarrow> arrived es = w @ later \<longrightarrow>
      (\<exists>es'. read_frame f es = Some (Inr p, es') \<and> quiet es' \<and> arrived es' = later))"
proof (intro conjI impI)
  show "\<exists>rest. frame_bytes p = w @ rest"
    using write_exact_prefix assms by (metis write_frame_ok)
  show "\<exists>es'. read_frame f es = Some (Inr p, es') \<and> quiet es' \<and> arrived es' = later"
    if "r = Inr ()" "quiet es" "arrived es = w @ later"
    using that assms write_frame_sent [OF assms(1), of wes w wes']
      read_frame_quiet [OF that(2), of f p later] frames.dec_enc [OF assms(1)]
    by metis
qed

lemma frame_roundtrip_witness:
  "(\<exists>rest. frame_bytes [5, 6] = [0, 0, 0, 2, 5, 6] @ rest) \<and>
   (\<exists>es'. read_frame (new_framer 9) [Arrive [0, 0, 0] IoOk, Arrive [2, 5, 6, 1] IoOk] =
      Some (Inr [5, 6], es') \<and> quiet es' \<and> arrived es' = [1])"
proof -
  have ok: "frame_ok (new_framer 9) [5, 6]" by (simp add: frame_ok_def new_framer_def)
  have w: "write_frame (new_framer 9) [5, 6] [Accept 3 IoOk, Accept 9 IoOk] =
      Some (Inr (), [0, 0, 0, 2, 5, 6], [])"
    by (simp add: write_frame_def new_framer_def frame_bytes_def put_u32_def Let_def)
  show ?thesis
    using frame_roundtrip [OF ok w, of "[Arrive [0, 0, 0] IoOk, Arrive [2, 5, 6, 1] IoOk]" "[1]"]
    by simp
qed

end
