(* ===== verification/Secure_Channel.thy ===== *)
theory Secure_Channel
  imports Framing
begin

text \<open>
  Encrypted frames and the connection: \<open>libquava/protocol/secure.go\<close> and the type \<open>Conn\<close> of
  \<open>libquava/protocol/message.go\<close>.

  The cipher is a parameter, a record of what \<open>chacha20poly1305\<close> offers: its sizes, \<open>New\<close>,
  \<open>Seal\<close> and \<open>Open\<close>. \<open>aead_correct\<close> states its documented sizes and that \<open>Open\<close> undoes
  \<open>Seal\<close>; \<open>aead_binds\<close> is the usual symbolic reading of authenticated encryption, that a
  sealed frame opens under the key and nonce it was sealed with and under no other.
\<close>

subsection \<open>The frame cipher\<close>

record aead_lib =
  key_size :: nat
  nonce_size :: nat
  overhead :: nat
  aead_new :: "bytes \<Rightarrow> bool"
  aead_seal :: "bytes \<Rightarrow> bytes \<Rightarrow> bytes \<Rightarrow> bytes \<Rightarrow> bytes"
  aead_open :: "bytes \<Rightarrow> bytes \<Rightarrow> bytes \<Rightarrow> bytes \<Rightarrow> bytes option"

definition aead_correct :: "aead_lib \<Rightarrow> bool" where
  "aead_correct L \<longleftrightarrow> key_size L = 32 \<and> nonce_size L = 12 \<and> overhead L = 16 \<and>
     (\<forall>k. length k = key_size L \<longrightarrow> aead_new L k) \<and>
     (\<forall>k n p ad. aead_open L k n (aead_seal L k n p ad) ad = Some p) \<and>
     (\<forall>k n p ad. length (aead_seal L k n p ad) = length p + overhead L)"

definition aead_binds :: "aead_lib \<Rightarrow> bool" where
  "aead_binds L \<longleftrightarrow> (\<forall>k n p ad k' n' ad' q.
     aead_open L k' n' (aead_seal L k n p ad) ad' = Some q \<longrightarrow> k' = k \<and> n' = n \<and> q = p)"

definition frame_associated_data :: bytes where
  "frame_associated_data = str_bytes ''quava-frame-v1''"

record frame_cipher =
  aead_key :: bytes
  counter :: "64 word"

definition new_frame_cipher :: "aead_lib \<Rightarrow> bytes \<Rightarrow> wire_error + frame_cipher" where
  "new_frame_cipher L key =
     (if length key \<noteq> key_size L then Inl ErrFrameKey
      else if \<not> aead_new L key then Inl ErrFrameKey
      else Inr \<lparr>aead_key = key, counter = 0\<rparr>)"

definition counter_nonce :: "nat \<Rightarrow> 64 word \<Rightarrow> bytes" where
  "counter_nonce sz c =
     fold (\<lambda>i n. n[length n - 1 - i := ucast (drop_bit (8 * i) c)]) [0..<8] (replicate sz 0)"

definition next_nonce :: "aead_lib \<Rightarrow> frame_cipher \<Rightarrow> wire_error + bytes \<times> frame_cipher" where
  "next_nonce L f =
     (if counter f = not 0 then Inl ErrCounterExhausted
      else Inr (counter_nonce (nonce_size L) (counter f), f\<lparr>counter := counter f + 1\<rparr>))"

definition seal_frame :: "aead_lib \<Rightarrow> frame_cipher \<Rightarrow> bytes \<Rightarrow> wire_error + bytes \<times> frame_cipher" where
  "seal_frame L f p =
     bind_r (next_nonce L f) (\<lambda>(n, f').
       Inr (aead_seal L (aead_key f) n p frame_associated_data, f'))"

text \<open>\<open>open\<close> uses up a counter value even when the frame is rejected.\<close>

definition open_frame :: "aead_lib \<Rightarrow> frame_cipher \<Rightarrow> bytes \<Rightarrow> (wire_error + bytes) \<times> frame_cipher" where
  "open_frame L f c =
     (case next_nonce L f of
        Inl e \<Rightarrow> (Inl e, f)
      | Inr (n, f') \<Rightarrow>
          (case aead_open L (aead_key f) n c frame_associated_data of
             None \<Rightarrow> (Inl ErrDecrypt, f')
           | Some p \<Rightarrow> (Inr p, f')))"

subsection \<open>The connection\<close>

text \<open>\<open>conn_nil\<close> is the test \<open>c == nil || c.conn == nil\<close>. Sealing and writing run under one
  lock, so they are one step here.\<close>

record conn =
  conn_nil :: bool
  conn_framer :: framer
  send_cipher :: "frame_cipher option"
  recv_cipher :: "frame_cipher option"
  sealed_framer :: framer

definition new_conn :: conn where
  "new_conn = \<lparr>conn_nil = False, conn_framer = new_framer (of_nat DefaultMaxFrameSize),
     send_cipher = None, recv_cipher = None, sealed_framer = \<lparr>max_frame_size = 0\<rparr>\<rparr>"

definition enable_encryption :: "aead_lib \<Rightarrow> bytes \<Rightarrow> bytes \<Rightarrow> conn \<Rightarrow> wire_error + conn" where
  "enable_encryption L send_key recv_key c =
     (if conn_nil c then Inl ErrNilConnection
      else bind_r (new_frame_cipher L send_key) (\<lambda>s.
           bind_r (new_frame_cipher L recv_key) (\<lambda>r.
             if send_cipher c \<noteq> None then Inl ErrAlreadyEncrypted
             else Inr (c\<lparr>send_cipher := Some s, recv_cipher := Some r,
                    sealed_framer := new_framer (of_nat (DefaultMaxFrameSize + overhead L))\<rparr>))))"

definition conn_write_message ::
    "aead_lib \<Rightarrow> marshaller \<Rightarrow> conn \<Rightarrow> message \<Rightarrow> write_event list \<Rightarrow>
     ((wire_error + unit) \<times> bytes \<times> conn \<times> write_event list) option" where
  "conn_write_message L marshal c m es =
     (if conn_nil c then Some (Inl ErrNilConnection, [], c, es)
      else case encode_message marshal m of
        Inl e \<Rightarrow> Some (Inl e, [], c, es)
      | Inr p \<Rightarrow>
          (case send_cipher c of
             None \<Rightarrow> map_option (\<lambda>(r, w, es'). (r, w, c, es')) (write_frame (conn_framer c) p es)
           | Some s \<Rightarrow>
               if (of_nat (length p) :: 32 word) > of_nat DefaultMaxFrameSize
               then Some (Inl (ErrFrameTooLarge (length p) DefaultMaxFrameSize), [], c, es)
               else (case seal_frame L s p of
                   Inl e \<Rightarrow> Some (Inl e, [], c, es)
                 | Inr (sealed, s') \<Rightarrow>
                     map_option (\<lambda>(r, w, es'). (r, w, c\<lparr>send_cipher := Some s'\<rparr>, es'))
                       (write_frame (sealed_framer c) sealed es))))"

definition conn_read_message ::
    "aead_lib \<Rightarrow> unmarshaller \<Rightarrow> conn \<Rightarrow> read_event list \<Rightarrow>
     ((wire_error + message) \<times> conn \<times> read_event list) option" where
  "conn_read_message L unmarshal c es =
     (if conn_nil c then Some (Inl ErrNilConnection, c, es)
      else case recv_cipher c of
        None \<Rightarrow> map_option (\<lambda>(r, es'). (r, c, es')) (read_message unmarshal (conn_framer c) es)
      | Some f \<Rightarrow>
          (case read_frame (sealed_framer c) es of
             None \<Rightarrow> None
           | Some (Inl e, es') \<Rightarrow> Some (Inl e, c, es')
           | Some (Inr sealed, es') \<Rightarrow>
               (case open_frame L f sealed of
                  (r, f') \<Rightarrow> Some (bind_r r (decode_message unmarshal),
                                  c\<lparr>recv_cipher := Some f'\<rparr>, es'))))"

subsection \<open>Nonces\<close>

lemma upt_8: "[0..<8] = [0, 1, 2, 3, 4, 5, 6, 7::nat]"
  by (simp add: upt_rec)

lemma counter_nonce_12:
  "counter_nonce 12 c = [0, 0, 0, 0, ucast (drop_bit 56 c), ucast (drop_bit 48 c),
     ucast (drop_bit 40 c), ucast (drop_bit 32 c), ucast (drop_bit 24 c), ucast (drop_bit 16 c),
     ucast (drop_bit 8 c), ucast c]"
proof -
  have "replicate 12 (0::byte) = [0, 0, 0, 0, 0, 0, 0, 0, 0, 0, 0, 0]"
    by (simp add: numeral_eq_Suc)
  then show ?thesis by (simp add: counter_nonce_def upt_8)
qed

lemma byte_of_word_eqD:
  "(ucast (drop_bit k c) :: byte) = ucast (drop_bit k d) \<Longrightarrow> i < 8 \<Longrightarrow> bit c (k + i) = bit d (k + i)"
  for c d :: "64 word"
  by (drule arg_cong [where f = "\<lambda>b. bit b i"]) (simp add: bit_simps)

lemma bytes_of_word_inject:
  fixes c d :: "64 word"
  assumes "\<And>i. i < 8 \<Longrightarrow> (ucast (drop_bit (8 * i) c) :: byte) = ucast (drop_bit (8 * i) d)"
  shows "c = d"
proof (rule bit_word_eqI)
  fix n assume "n < LENGTH(64)"
  then have "n div 8 < 8" and "n = 8 * (n div 8) + n mod 8" by simp_all
  then show "bit c n = bit d n"
    using byte_of_word_eqD [OF assms, of "n div 8" "n mod 8"] by simp
qed

lemma counter_nonce_inject [simp]: "counter_nonce 12 c = counter_nonce 12 d \<longleftrightarrow> c = d"
proof
  assume eq: "counter_nonce 12 c = counter_nonce 12 d"
  have "(ucast (drop_bit (8 * i) c) :: byte) = ucast (drop_bit (8 * i) d)" if "i < 8" for i
  proof -
    from that consider "i = 0" | "i = 1" | "i = 2" | "i = 3" | "i = 4" | "i = 5" | "i = 6" | "i = 7"
      by linarith
    then show ?thesis using eq by cases (simp_all add: counter_nonce_12)
  qed
  then show "c = d" by (rule bytes_of_word_inject)
qed simp

lemma unat_counter_Suc: "c \<noteq> - 1 \<Longrightarrow> unat (c + 1) = Suc (unat c)" for c :: "64 word"
  using unatSuc [of c] by (simp add: add_eq_0_iff add.commute)

lemma next_nonce_Inr:
  "next_nonce L f = Inr (n, f') \<Longrightarrow> n = counter_nonce (nonce_size L) (counter f)
     \<and> aead_key f' = aead_key f \<and> unat (counter f') = Suc (unat (counter f))"
  by (auto simp: next_nonce_def unat_counter_Suc split: if_splits)

text \<open>The nonces of \<open>n\<close> frames, up to the exhaustion of the counter.\<close>

fun nonces_used :: "aead_lib \<Rightarrow> nat \<Rightarrow> frame_cipher \<Rightarrow> bytes list" where
  "nonces_used L 0 f = []"
| "nonces_used L (Suc n) f =
     (case next_nonce L f of Inl e \<Rightarrow> [] | Inr (x, f') \<Rightarrow> x # nonces_used L n f')"

lemma nonces_used_counters:
  "x \<in> set (nonces_used L n f) \<Longrightarrow>
   \<exists>c. x = counter_nonce (nonce_size L) c \<and> counter f \<le> c"
proof (induction n arbitrary: f)
  case (Suc n)
  show ?case
  proof (cases "next_nonce L f")
    case (Inr p)
    obtain y f' where p: "p = (y, f')" by (cases p)
    note nn = next_nonce_Inr [OF Inr [unfolded p]]
    then have "counter f \<le> counter f'" by (simp add: word_le_nat_alt)
    then show ?thesis using Suc Inr p nn by fastforce
  qed (use Suc.prems in simp)
qed simp

lemma nonces_used_distinct:
  "nonce_size L = 12 \<Longrightarrow> distinct (nonces_used L n f)"
proof (induction n arbitrary: f)
  case (Suc n)
  show ?case
  proof (cases "next_nonce L f")
    case (Inr p)
    obtain y f' where p: "p = (y, f')" by (cases p)
    note nn = next_nonce_Inr [OF Inr [unfolded p]]
    have "y \<notin> set (nonces_used L n f')"
    proof
      assume "y \<in> set (nonces_used L n f')"
      from nonces_used_counters [OF this] nn Suc.prems have "counter f' \<le> counter f" by auto
      with nn show False by (simp add: word_le_nat_alt)
    qed
    then show ?thesis using Suc Inr p by simp
  qed simp
qed simp

lemma nonces_used_length:
  "length (nonces_used L n f) = min n (2 ^ 64 - 1 - unat (counter f))"
proof (induction n arbitrary: f)
  case (Suc n)
  have top: "unat (- 1 :: 64 word) = 2 ^ 64 - 1" by (simp add: unsigned_minus_1_eq_mask mask_eq_exp_minus_1)
  show ?case
  proof (cases "counter f = - 1")
    case True
    then show ?thesis by (simp add: next_nonce_def top)
  next
    case False
    then have "unat (counter f) \<noteq> 2 ^ 64 - 1" using top by (metis word_eq_iff_unsigned)
    then have "unat (counter f) < 2 ^ 64 - 1"
      using unsigned_less [of "counter f", where ?'a = nat] by simp
    then show ?thesis using False Suc by (simp add: next_nonce_def unat_counter_Suc)
  qed
qed simp

subsection \<open>A conversation\<close>

text \<open>What the two ends of a connection agree on in one direction: the writer \<open>c\<close> seals with
  the cipher state the reader \<open>d\<close> opens with.\<close>

definition sealed_link :: "aead_lib \<Rightarrow> conn \<Rightarrow> conn \<Rightarrow> bool" where
  "sealed_link L c d \<longleftrightarrow> \<not> conn_nil d \<and> send_cipher c \<noteq> None \<and> send_cipher c = recv_cipher d \<and>
     sealed_framer c = new_framer (of_nat (DefaultMaxFrameSize + overhead L)) \<and>
     sealed_framer d = sealed_framer c"

definition fits :: "marshaller \<Rightarrow> message \<Rightarrow> bool" where
  "fits marshal m \<longleftrightarrow>
     (\<exists>p. encode_message marshal m = Inr p \<and> length p \<le> DefaultMaxFrameSize)"

lemma seal_then_open:
  assumes "aead_correct L" "seal_frame L f p = Inr (c, f')"
  shows "open_frame L f c = (Inr p, f')"
  using assms by (auto simp: seal_frame_def open_frame_def aead_correct_def next_nonce_def
      split: if_splits)

lemma sealed_frame_ok:
  assumes "aead_correct L" "seal_frame L f p = Inr (c, f')" "length p \<le> DefaultMaxFrameSize"
  shows "frame_ok (new_framer (of_nat (DefaultMaxFrameSize + overhead L))) c"
proof -
  have "length c = length p + 16"
    using assms(1,2) by (auto simp: seal_frame_def aead_correct_def next_nonce_def split: if_splits)
  moreover have "overhead L = 16" using assms(1) by (simp add: aead_correct_def)
  ultimately show ?thesis
    using assms(3) by (auto simp: frame_ok_def new_framer_def DefaultMaxFrameSize_def)
qed

lemma write_then_read:
  assumes L: "aead_correct L" and link: "sealed_link L c d" and fits: "fits marshal m"
    and wr: "conn_write_message L marshal c m wes = Some (Inr (), w, c', wes')"
    and q: "quiet es" and a: "arrived es = w @ rest"
    and un: "\<And>p. encode_message marshal m = Inr p \<Longrightarrow> decode_message unmarshal p = Inr m"
  shows "\<exists>d' es'. conn_read_message L unmarshal d es = Some (Inr m, d', es') \<and>
     sealed_link L c' d' \<and> quiet es' \<and> arrived es' = rest"
proof -
  let ?F = "new_framer (of_nat (DefaultMaxFrameSize + overhead L))"
  obtain f where f: "send_cipher c = Some f" "recv_cipher d = Some f"
    using link by (auto simp: sealed_link_def)
  have fr: "sealed_framer c = ?F" "sealed_framer d = ?F" "\<not> conn_nil d"
    using link by (auto simp: sealed_link_def)
  obtain p where p: "encode_message marshal m = Inr p" and len: "length p \<le> DefaultMaxFrameSize"
    using fits by (auto simp: fits_def)
  obtain sealed f' where s: "seal_frame L f p = Inr (sealed, f')"
      and wf: "write_frame ?F sealed wes = Some (Inr (), w, wes')"
      and c': "c' = c\<lparr>send_cipher := Some f'\<rparr>"
    using wr p f fr by (auto simp: conn_write_message_def split: if_splits sum.splits)
  have ok: "frame_ok ?F sealed" by (rule sealed_frame_ok [OF L s len])
  have w: "w = frame_bytes sealed" by (rule write_frame_sent [OF ok wf])
  obtain es' where es': "read_frame ?F es = Some (Inr sealed, es')" "quiet es'" "arrived es' = rest"
    using read_frame_quiet [OF q] read_frame_bytes_frame [OF ok] a w by metis
  have rd: "conn_read_message L unmarshal d es = Some (Inr m, d\<lparr>recv_cipher := Some f'\<rparr>, es')"
    using fr f es'(1) seal_then_open [OF L s] un [OF p]
    by (simp add: conn_read_message_def)
  have "sealed_link L c' (d\<lparr>recv_cipher := Some f'\<rparr>)"
    using link c' by (simp add: sealed_link_def)
  with rd es' show ?thesis by blast
qed

fun send_all :: "aead_lib \<Rightarrow> marshaller \<Rightarrow> conn \<Rightarrow> (message \<times> write_event list) list \<Rightarrow>
    (bytes \<times> conn) option" where
  "send_all L marshal c [] = Some ([], c)"
| "send_all L marshal c ((m, wes) # ms) =
     (case conn_write_message L marshal c m wes of
        Some (Inr _, w, c', _) \<Rightarrow>
          map_option (\<lambda>(ws, c''). (w @ ws, c'')) (send_all L marshal c' ms)
      | _ \<Rightarrow> None)"

fun receive_n :: "aead_lib \<Rightarrow> unmarshaller \<Rightarrow> nat \<Rightarrow> conn \<Rightarrow> read_event list \<Rightarrow>
    (message list \<times> conn) option" where
  "receive_n L unmarshal 0 d es = Some ([], d)"
| "receive_n L unmarshal (Suc n) d es =
     (case conn_read_message L unmarshal d es of
        Some (Inr m, d', es') \<Rightarrow>
          map_option (\<lambda>(ms, d''). (m # ms, d'')) (receive_n L unmarshal n d' es')
      | _ \<Rightarrow> None)"

lemma send_all_Cons:
  assumes "send_all L marshal c ((m, wes) # ms) = Some (w, c')"
  shows "\<exists>w1 c1 wes1 w2. conn_write_message L marshal c m wes = Some (Inr (), w1, c1, wes1)
     \<and> send_all L marshal c1 ms = Some (w2, c') \<and> w = w1 @ w2"
proof (cases "conn_write_message L marshal c m wes")
  case (Some t)
  obtain r w1 c1 wes1 where t: "t = (r, w1, c1, wes1)" by (cases t)
  show ?thesis
  proof (cases r)
    case (Inr u)
    then have t': "conn_write_message L marshal c m wes = Some (Inr (), w1, c1, wes1)"
      using Some t by simp
    then obtain z where z: "send_all L marshal c1 ms = Some z" and "(w, c') = (w1 @ fst z, snd z)"
      using assms by (cases "send_all L marshal c1 ms") (simp_all add: case_prod_unfold)
    then have "send_all L marshal c1 ms = Some (fst z, c')" "w = w1 @ fst z" by simp_all
    with t' show ?thesis by blast
  qed (use assms Some t in simp)
qed (use assms in simp)

lemma conversation:
  "sealed_link L c d \<Longrightarrow> aead_correct L \<Longrightarrow> send_all L marshal c ms = Some (w, c') \<Longrightarrow>
   quiet es \<Longrightarrow> arrived es = w @ rest \<Longrightarrow>
   (\<forall>(m, _) \<in> set ms. fits marshal m \<and>
      (\<forall>p. encode_message marshal m = Inr p \<longrightarrow> decode_message unmarshal p = Inr m)) \<Longrightarrow>
   \<exists>d'. receive_n L unmarshal (length ms) d es = Some (map fst ms, d') \<and> sealed_link L c' d'"
proof (induction ms arbitrary: c d es w)
  case (Cons x ms)
  obtain m wes where x: "x = (m, wes)" by (cases x)
  obtain w1 c1 wes1 w2 where wr: "conn_write_message L marshal c m wes = Some (Inr (), w1, c1, wes1)"
      and more: "send_all L marshal c1 ms = Some (w2, c')" and w: "w = w1 @ w2"
    using send_all_Cons [OF Cons.prems(3) [unfolded x]] by blast
  have a: "arrived es = w1 @ (w2 @ rest)" using Cons.prems(5) w by simp
  have m: "fits marshal m"
    "\<And>p. encode_message marshal m = Inr p \<Longrightarrow> decode_message unmarshal p = Inr m"
    using Cons.prems(6) x by auto
  obtain d1 es1 where rd: "conn_read_message L unmarshal d es = Some (Inr m, d1, es1)"
      and l1: "sealed_link L c1 d1" and q1: "quiet es1" and a1: "arrived es1 = w2 @ rest"
    using write_then_read [OF Cons.prems(2,1) m(1) wr Cons.prems(4) a m(2)] by blast
  have "\<exists>d'. receive_n L unmarshal (length ms) d1 es1 = Some (map fst ms, d') \<and> sealed_link L c' d'"
    by (rule Cons.IH [OF l1 Cons.prems(2) more q1 a1]) (use Cons.prems(6) in auto)
  then show ?case using rd x by auto
qed simp

subsection \<open>Properties\<close>

text \<open>A cipher that hides nothing but has the sizes and the laws of \<open>aead_correct\<close>; the
  witnesses below run the model with it.\<close>

definition padding_aead :: aead_lib where
  "padding_aead = \<lparr>key_size = 32, nonce_size = 12, overhead = 16, aead_new = (\<lambda>_. True),
     aead_seal = (\<lambda>k n p ad. p @ replicate 16 0),
     aead_open = (\<lambda>k n c ad. if 16 \<le> length c then Some (take (length c - 16) c) else None)\<rparr>"

lemma padding_aead_correct: "aead_correct padding_aead"
  by (simp add: aead_correct_def padding_aead_def)

text \<open>No nonce is used twice under one key: the nonces a cipher hands out, one per frame, are
  pairwise different, and it hands out one for every frame until the counter reaches its last
  value, after which sealing and opening fail instead of starting over.\<close>

theorem nonces_never_repeat:
  assumes "nonce_size L = 12"
  shows "distinct (nonces_used L n f) \<and>
    length (nonces_used L n f) = min n (2 ^ 64 - 1 - unat (counter f)) \<and>
    (counter f = - 1 \<longrightarrow> seal_frame L f p = Inl ErrCounterExhausted \<and>
      open_frame L f c = (Inl ErrCounterExhausted, f))"
  using nonces_used_distinct [OF assms] nonces_used_length
  by (simp add: seal_frame_def open_frame_def next_nonce_def)

lemma nonces_never_repeat_witness:
  "distinct (nonces_used padding_aead 5 \<lparr>aead_key = [], counter = 7\<rparr>) \<and>
   length (nonces_used padding_aead 5 \<lparr>aead_key = [], counter = 7\<rparr>) = 5"
  using nonces_never_repeat [of padding_aead 5 "\<lparr>aead_key = [], counter = 7\<rparr>" "[]" "[]"]
  by (simp add: padding_aead_def)

text \<open>Messages sent over an encrypted connection arrive as they were sent, in order and
  however the bytes are cut into reads: if the ends agree on keys and counters, the writer's
  \<open>WriteMessage\<close> calls all succeed and every message fits a frame, then as many \<open>ReadMessage\<close>
  calls return exactly these messages and the ends still agree.\<close>

theorem sealed_conversation:
  assumes "aead_correct L" "sealed_link L c d" "send_all L marshal c ms = Some (w, c')"
    and "quiet es" "arrived es = w @ later"
    and "\<forall>(m, _) \<in> set ms. fits marshal m \<and>
      (\<forall>p. encode_message marshal m = Inr p \<longrightarrow> decode_message unmarshal p = Inr m)"
  shows "\<exists>d'. receive_n L unmarshal (length ms) d es = Some (map fst ms, d') \<and> sealed_link L c' d'"
  by (rule conversation [OF assms(2,1,3-6)])

lemma sealed_conversation_witness:
  "\<exists>d'. receive_n padding_aead (\<lambda>_. Some (generic_envelope (new_message 32 [1] []))) 1
      (new_conn\<lparr>send_cipher := Some \<lparr>aead_key = [4], counter = 0\<rparr>,
         recv_cipher := Some \<lparr>aead_key = [4], counter = 0\<rparr>,
         sealed_framer := new_framer (of_nat (DefaultMaxFrameSize + 16))\<rparr>)
      [Arrive ([0, 0, 0, 17, 3] @ replicate 16 0) IoOk] = Some ([new_message 32 [1] []], d')"
proof -
  let ?c = "new_conn\<lparr>send_cipher := Some \<lparr>aead_key = [4], counter = 0\<rparr>,
         recv_cipher := Some \<lparr>aead_key = [4], counter = 0\<rparr>,
         sealed_framer := new_framer (of_nat (DefaultMaxFrameSize + 16))\<rparr>"
  let ?m = "new_message 32 [1] []"
  have link: "sealed_link padding_aead ?c ?c"
    by (simp add: sealed_link_def new_conn_def padding_aead_def)
  have enc: "encode_message (\<lambda>_. Some [3]) ?m = Inr [3]" by (simp add: encode_message_def)
  have fr: "frame_bytes ([3] @ replicate 16 0) = [0, 0, 0, 17, 3] @ replicate 16 0"
    by (simp add: frame_bytes_def put_u32_def)
  have "\<exists>c'. send_all padding_aead (\<lambda>_. Some [3]) ?c [(?m, [Accept 30 IoOk])] =
      Some ([0, 0, 0, 17, 3] @ replicate 16 0, c')"
    using fr
    by (simp add: conn_write_message_def enc new_conn_def DefaultMaxFrameSize_def seal_frame_def
        next_nonce_def padding_aead_def write_frame_def new_framer_def Let_def
        frame_bytes_def put_u32_def)
  then obtain c' where c': "send_all padding_aead (\<lambda>_. Some [3]) ?c [(?m, [Accept 30 IoOk])] =
      Some ([0, 0, 0, 17, 3] @ replicate 16 0, c')" by blast
  have dec: "decode_message (\<lambda>_. Some (generic_envelope ?m)) p = Inr ?m" for p
    by (rule decode_generic_envelope) (simp_all add: new_message_valid)
  have ok: "fits (\<lambda>_. Some [3]) ?m"
    by (simp add: fits_def enc DefaultMaxFrameSize_def)
  show ?thesis
    using sealed_conversation [OF padding_aead_correct link c', where later = "[]"
        and es = "[Arrive ([0, 0, 0, 17, 3] @ replicate 16 0) IoOk]"
        and unmarshal = "\<lambda>_. Some (generic_envelope ?m)"] ok dec by auto
qed

end
