(* ===== verification/Channel_Attacker.thy ===== *)
theory Channel_Attacker
  imports Secure_Channel
begin

text \<open>
  The promise at the head of \<open>libquava/protocol/secure.go\<close>, that a frame can neither be
  altered, replayed, reordered nor reflected: a transition system in which each of two ends
  seals frames of its own choice and is given any frame an attacker can produce, that is any
  frame either end has ever sealed or bytes that open under no nonce of the session.
\<close>

record endpoint =
  e_send :: frame_cipher
  e_recv :: frame_cipher
  sent :: "bytes list"
  accepted :: "(nat \<times> bytes) list"

record network =
  ends :: "bool \<Rightarrow> endpoint"
  pool :: "bytes list"

definition forged :: "aead_lib \<Rightarrow> (bool \<Rightarrow> bytes) \<Rightarrow> bytes \<Rightarrow> bool" where
  "forged L k c \<longleftrightarrow> (\<forall>s n. aead_open L (k s) n c frame_associated_data = None)"

definition seal_step :: "endpoint \<Rightarrow> bytes \<Rightarrow> frame_cipher \<Rightarrow> endpoint" where
  "seal_step e p f' = e\<lparr>e_send := f', sent := sent e @ [p]\<rparr>"

definition open_step :: "aead_lib \<Rightarrow> endpoint \<Rightarrow> bytes \<Rightarrow> endpoint" where
  "open_step L e c =
     (case open_frame L (e_recv e) c of
        (Inl _, f') \<Rightarrow> e\<lparr>e_recv := f'\<rparr>
      | (Inr p, f') \<Rightarrow>
          e\<lparr>e_recv := f', accepted := accepted e @ [(unat (counter (e_recv e)), p)]\<rparr>)"

inductive channel_step :: "aead_lib \<Rightarrow> (bool \<Rightarrow> bytes) \<Rightarrow> network \<Rightarrow> network \<Rightarrow> bool"
  for L :: aead_lib and k :: "bool \<Rightarrow> bytes" where
  channel_seal: "seal_frame L (e_send (ends N s)) p = Inr (c, f') \<Longrightarrow>
    channel_step L k N
      (N\<lparr>ends := (ends N)(s := seal_step (ends N s) p f'), pool := c # pool N\<rparr>)"
| channel_open: "c \<in> set (pool N) \<or> forged L k c \<Longrightarrow>
    channel_step L k N (N\<lparr>ends := (ends N)(s := open_step L (ends N s) c)\<rparr>)"

inductive_cases channel_stepE: "channel_step L k N N'"

text \<open>Fresh ciphers over two keys; each end receives with the key the other sends with.\<close>

definition channel_init :: "aead_lib \<Rightarrow> (bool \<Rightarrow> bytes) \<Rightarrow> network \<Rightarrow> bool" where
  "channel_init L k N \<longleftrightarrow> nonce_size L = 12 \<and> aead_binds L \<and> k True \<noteq> k False \<and> pool N = [] \<and>
     (\<forall>s. ends N s = \<lparr>e_send = \<lparr>aead_key = k s, counter = 0\<rparr>,
        e_recv = \<lparr>aead_key = k (\<not> s), counter = 0\<rparr>, sent = [], accepted = []\<rparr>)"

definition sealed_by :: "aead_lib \<Rightarrow> (bool \<Rightarrow> bytes) \<Rightarrow> network \<Rightarrow> bytes \<Rightarrow> bool" where
  "sealed_by L k N c \<longleftrightarrow> (\<exists>s i. i < length (sent (ends N s)) \<and> length (sent (ends N s)) < 2 ^ 64 \<and>
     c = aead_seal L (k s) (counter_nonce 12 (of_nat i)) (sent (ends N s) ! i)
           frame_associated_data)"

definition end_inv :: "(bool \<Rightarrow> bytes) \<Rightarrow> network \<Rightarrow> bool \<Rightarrow> bool" where
  "end_inv k N s \<longleftrightarrow>
     aead_key (e_send (ends N s)) = k s \<and> aead_key (e_recv (ends N s)) = k (\<not> s) \<and>
     length (sent (ends N s)) = unat (counter (e_send (ends N s))) \<and>
     sorted_wrt (<) (map fst (accepted (ends N s))) \<and>
     (\<forall>(i, p) \<in> set (accepted (ends N s)). i < unat (counter (e_recv (ends N s))) \<and>
        i < length (sent (ends N (\<not> s))) \<and> sent (ends N (\<not> s)) ! i = p)"

definition channel_inv :: "aead_lib \<Rightarrow> (bool \<Rightarrow> bytes) \<Rightarrow> network \<Rightarrow> bool" where
  "channel_inv L k N \<longleftrightarrow> nonce_size L = 12 \<and> aead_binds L \<and> k True \<noteq> k False \<and>
     (\<forall>c \<in> set (pool N). sealed_by L k N c) \<and> (\<forall>s. end_inv k N s)"

lemma channel_init_inv: "channel_init L k N \<Longrightarrow> channel_inv L k N"
  by (simp add: channel_init_def channel_inv_def end_inv_def)

lemma seal_frame_Inr:
  "seal_frame L f p = Inr (c, f') \<Longrightarrow>
   c = aead_seal L (aead_key f) (counter_nonce (nonce_size L) (counter f)) p frame_associated_data
     \<and> aead_key f' = aead_key f \<and> unat (counter f') = Suc (unat (counter f))"
  unfolding seal_frame_def by (auto dest: next_nonce_Inr)

lemma open_frame_Inr:
  "open_frame L f c = (Inr p, f') \<Longrightarrow>
   aead_open L (aead_key f) (counter_nonce (nonce_size L) (counter f)) c frame_associated_data
     = Some p \<and> aead_key f' = aead_key f \<and> unat (counter f') = Suc (unat (counter f))"
  unfolding open_frame_def by (auto split: sum.splits option.splits prod.splits dest: next_nonce_Inr)

lemma open_frame_Inl:
  "open_frame L f c = (Inl e, f') \<Longrightarrow>
   aead_key f' = aead_key f \<and> unat (counter f) \<le> unat (counter f')"
  unfolding open_frame_def by (auto split: sum.splits option.splits prod.splits dest: next_nonce_Inr)

text \<open>A frame that opens was sealed by the other end, at the position the counter names.\<close>

lemma opened_was_sent:
  assumes inv: "channel_inv L k N" and c: "c \<in> set (pool N) \<or> forged L k c"
    and o: "open_frame L (e_recv (ends N s)) c = (Inr p, f')"
  defines "i \<equiv> unat (counter (e_recv (ends N s)))"
  shows "i < length (sent (ends N (\<not> s))) \<and> sent (ends N (\<not> s)) ! i = p"
proof -
  have key: "aead_key (e_recv (ends N s)) = k (\<not> s)" and L: "nonce_size L = 12" "aead_binds L"
    using inv by (auto simp: channel_inv_def end_inv_def)
  let ?n = "counter_nonce 12 (counter (e_recv (ends N s)))"
  have op: "aead_open L (k (\<not> s)) ?n c frame_associated_data = Some p"
    using open_frame_Inr [OF o] key L by simp
  then have "\<not> forged L k c" by (auto simp: forged_def)
  then have "sealed_by L k N c" using c inv by (auto simp: channel_inv_def)
  then obtain s' j where j: "j < length (sent (ends N s'))" "length (sent (ends N s')) < 2 ^ 64"
      and cs: "c = aead_seal L (k s') (counter_nonce 12 (of_nat j)) (sent (ends N s') ! j)
                 frame_associated_data"
    by (auto simp: sealed_by_def)
  have b: "k (\<not> s) = k s' \<and> ?n = counter_nonce 12 (of_nat j) \<and> p = sent (ends N s') ! j"
    using op L(2) cs unfolding aead_binds_def by blast
  then have "s' = (\<not> s)" using inv by (cases s; cases s') (auto simp: channel_inv_def)
  moreover have "i = j"
    using b j by (simp add: i_def unsigned_of_nat take_bit_nat_eq_self)
  ultimately show ?thesis using b j by simp
qed

lemma sealed_by_mono:
  "sealed_by L k N c \<Longrightarrow> (\<And>s. \<exists>x. sent (ends N' s) = sent (ends N s) @ x) \<Longrightarrow>
   (\<And>s. length (sent (ends N' s)) < 2 ^ 64) \<Longrightarrow> sealed_by L k N' c"
  unfolding sealed_by_def by (metis length_append nth_append trans_less_add1)

lemma end_inv_bound: "end_inv k N s \<Longrightarrow> length (sent (ends N s)) < 2 ^ 64"
  using unsigned_less [of "counter (e_send (ends N s))", where ?'a = nat]
  by (simp add: end_inv_def)

lemma seal_step_simps [simp]:
  "e_send (seal_step e p f) = f" "e_recv (seal_step e p f) = e_recv e"
  "sent (seal_step e p f) = sent e @ [p]" "accepted (seal_step e p f) = accepted e"
  by (simp_all add: seal_step_def)

lemma open_step_simps [simp]:
  "e_send (open_step L e c) = e_send e" "sent (open_step L e c) = sent e"
  by (auto simp: open_step_def split: prod.splits sum.splits)

lemma channel_seal_inv:
  assumes inv: "channel_inv L k N" and s: "seal_frame L (e_send (ends N s)) p = Inr (c, f')"
  defines "N' \<equiv> N\<lparr>ends := (ends N)(s := seal_step (ends N s) p f'), pool := c # pool N\<rparr>"
  shows "channel_inv L k N'"
proof -
  have all: "end_inv k N t" for t using inv by (simp add: channel_inv_def)
  note f = seal_frame_Inr [OF s]
  have grow: "\<exists>x. sent (ends N' t) = sent (ends N t) @ x" for t by (simp add: N'_def)
  have old: "i < length (sent (ends N' t)) \<and> sent (ends N' t) ! i = q"
    if "i < length (sent (ends N t)) \<and> sent (ends N t) ! i = q" for i q t
    using that by (auto simp: N'_def nth_append)
  have same: "e_recv (ends N' t) = e_recv (ends N t)" "accepted (ends N' t) = accepted (ends N t)"
    for t by (simp_all add: N'_def)
  have send: "aead_key (e_send (ends N' t)) = k t \<and>
      length (sent (ends N' t)) = unat (counter (e_send (ends N' t)))" for t
    using all [of t] f by (auto simp: end_inv_def N'_def)
  have e: "end_inv k N' t" for t
  proof -
    have key: "aead_key (e_recv (ends N t)) = k (\<not> t)"
      and srt: "sorted_wrt (<) (map fst (accepted (ends N t)))"
      and acc: "\<And>i q. (i, q) \<in> set (accepted (ends N t)) \<Longrightarrow>
        i < unat (counter (e_recv (ends N t))) \<and>
        i < length (sent (ends N (\<not> t))) \<and> sent (ends N (\<not> t)) ! i = q"
      using all [of t] by (auto simp: end_inv_def)
    have "i < unat (counter (e_recv (ends N t))) \<and>
        i < length (sent (ends N' (\<not> t))) \<and> sent (ends N' (\<not> t)) ! i = q"
      if "(i, q) \<in> set (accepted (ends N t))" for i q
      using acc [OF that] old [of i "\<not> t" q] by simp
    then show ?thesis
      unfolding end_inv_def same using key srt send [of t] by blast
  qed
  have "sealed_by L k N' c"
    unfolding sealed_by_def
  proof (intro exI conjI)
    let ?i = "length (sent (ends N s))"
    show "?i < length (sent (ends N' s))" by (simp add: N'_def)
    show "length (sent (ends N' s)) < 2 ^ 64" by (rule end_inv_bound [OF e])
    show "c = aead_seal L (k s) (counter_nonce 12 (of_nat ?i)) (sent (ends N' s) ! ?i)
        frame_associated_data"
    proof -
      have "nonce_size L = 12" using inv by (simp add: channel_inv_def)
      moreover have "of_nat ?i = counter (e_send (ends N s))" "aead_key (e_send (ends N s)) = k s"
        using all [of s] by (simp_all add: end_inv_def)
      moreover have "sent (ends N' s) ! ?i = p" by (simp add: N'_def)
      ultimately show ?thesis using f by simp
    qed
  qed
  moreover have "sealed_by L k N' x" if "x \<in> set (pool N)" for x
    using that inv sealed_by_mono [OF _ grow end_inv_bound [OF e]] by (simp add: channel_inv_def)
  ultimately show ?thesis using inv e by (auto simp: channel_inv_def N'_def)
qed

lemma channel_open_inv:
  assumes inv: "channel_inv L k N" and c: "c \<in> set (pool N) \<or> forged L k c"
  defines "N' \<equiv> \<lambda>s. N\<lparr>ends := (ends N)(s := open_step L (ends N s) c)\<rparr>"
  shows "channel_inv L k (N' s)"
proof -
  have all: "end_inv k N t" for t using inv by (simp add: channel_inv_def)
  have same: "sent (ends (N' s) t) = sent (ends N t)" for t by (simp add: N'_def)
  have "end_inv k (N' s) t" for t
  proof (cases "t = s")
    case False
    then show ?thesis using all [of t] by (auto simp: end_inv_def N'_def)
  next
    case True
    obtain r f' where o: "open_frame L (e_recv (ends N s)) c = (r, f')" by force
    show ?thesis
    proof (cases r)
      case (Inl e)
      then show ?thesis
        using all [of s] open_frame_Inl [of L "e_recv (ends N s)" c e f'] o True
        by (fastforce simp: end_inv_def N'_def open_step_def)
    next
      case (Inr p)
      note f = open_frame_Inr [OF o [unfolded Inr]] opened_was_sent [OF inv c o [unfolded Inr]]
      show ?thesis
        using all [of s] f o True Inr
        by (fastforce simp: end_inv_def N'_def open_step_def sorted_wrt_append)
    qed
  qed
  moreover have "sealed_by L k (N' s) x" if "sealed_by L k N x" for x
    using that by (simp add: sealed_by_def same)
  ultimately show ?thesis using inv by (simp add: channel_inv_def N'_def)
qed

interpretation channel: step_system "channel_init L k" "channel_step L k" "channel_inv L k" for L k
  by unfold_locales
    (auto intro: channel_init_inv channel_seal_inv channel_open_inv elim!: channel_stepE)

subsection \<open>Properties\<close>

text \<open>A cipher that seals by writing key, nonce and text one after the other, so that a sealed
  frame opens under its own key and nonce only.\<close>

fun escaped :: "bytes \<Rightarrow> bytes" where
  "escaped [] = [0]"
| "escaped (b # bs) = 1 # b # escaped bs"

lemma escaped_inject: "escaped xs @ r = escaped ys @ s \<Longrightarrow> xs = ys \<and> r = s"
proof (induction xs arbitrary: ys)
  case Nil
  then show ?case by (cases ys) auto
next
  case (Cons x xs)
  then show ?case by (cases ys) auto
qed

definition envelope_aead :: aead_lib where
  "envelope_aead = \<lparr>key_size = 32, nonce_size = 12, overhead = 16, aead_new = (\<lambda>_. True),
     aead_seal = (\<lambda>k n p ad. escaped k @ escaped n @ p),
     aead_open = (\<lambda>k n c ad. let h = escaped k @ escaped n in
       if take (length h) c = h then Some (drop (length h) c) else None)\<rparr>"

lemma envelope_open:
  "aead_open envelope_aead k n c ad = Some q \<Longrightarrow> c = escaped k @ escaped n @ q"
  by (simp add: envelope_aead_def Let_def split: if_split_asm)
    (metis append_take_drop_id append.assoc length_append)

lemma envelope_aead_binds: "aead_binds envelope_aead"
  unfolding aead_binds_def
proof (intro allI impI)
  fix k n p ad k' n' ad' q
  assume "aead_open envelope_aead k' n' (aead_seal envelope_aead k n p ad) ad' = Some q"
  then have "escaped k @ escaped n @ p = escaped k' @ escaped n' @ q"
    using envelope_open [of k' n'] by (simp add: envelope_aead_def)
  then show "k' = k \<and> n' = n \<and> q = p"
    using escaped_inject by blast
qed

text \<open>On an encrypted channel an attacker who keeps, drops, reorders, repeats and reflects
  frames and injects forged ones cannot make an end accept anything but what the other end sent:
  every accepted frame is the one the peer sealed at that position, each position is accepted at
  most once, and in increasing order.\<close>

theorem channel_accepts_only_sent:
  assumes "reach (channel_init L k) (channel_step L k) N"
  shows "sorted_wrt (<) (map fst (accepted (ends N s))) \<and>
    (\<forall>(i, p) \<in> set (accepted (ends N s)).
       i < length (sent (ends N (\<not> s))) \<and> sent (ends N (\<not> s)) ! i = p)"
proof -
  have e: "end_inv k N s"
    using channel.reach_inv [OF assms] unfolding channel_inv_def by (elim conjE) (erule spec)
  then show ?thesis by (auto simp: end_inv_def)
qed

lemma channel_accepts_only_sent_witness:
  "\<exists>N. reach (channel_init envelope_aead (\<lambda>s. if s then [1] else [2]))
      (channel_step envelope_aead (\<lambda>s. if s then [1] else [2])) N \<and>
    accepted (ends N False) = [(0, [9])] \<and> sent (ends N True) = [[9]] \<and>
    sorted_wrt (<) (map fst (accepted (ends N False)))"
proof -
  define k :: "bool \<Rightarrow> bytes" where "k = (\<lambda>s. if s then [1] else [2])"
  define e where "e s = \<lparr>e_send = \<lparr>aead_key = k s, counter = 0\<rparr>,
      e_recv = \<lparr>aead_key = k (\<not> s), counter = 0\<rparr>, sent = [], accepted = []\<rparr>" for s
  define N where "N = \<lparr>ends = e, pool = []\<rparr>"
  define c where "c = escaped (k True) @ escaped (counter_nonce 12 0) @ [9 :: byte]"
  define f where "f = \<lparr>aead_key = k True, counter = 1\<rparr>"
  define N1 where "N1 = N\<lparr>ends := (ends N)(True := seal_step (ends N True) [9] f), pool := c # pool N\<rparr>"
  define N2 where "N2 = N1\<lparr>ends := (ends N1)(False := open_step envelope_aead (ends N1 False) c)\<rparr>"
  have k: "k True \<noteq> k False" by (simp add: k_def)
  have L: "nonce_size envelope_aead = 12" by (simp add: envelope_aead_def)
  have "channel_init envelope_aead k N"
    unfolding channel_init_def using k L envelope_aead_binds by (simp add: N_def e_def)
  then have r0: "reach (channel_init envelope_aead k) (channel_step envelope_aead k) N"
    by (rule reach_init)
  have "seal_frame envelope_aead (e_send (ends N True)) [9] = Inr (c, f)"
    by (simp add: seal_frame_def next_nonce_def L N_def e_def f_def c_def)
      (simp add: envelope_aead_def)
  then have "channel_step envelope_aead k N N1"
    unfolding N1_def by (rule channel_seal)
  with r0 have r1: "reach (channel_init envelope_aead k) (channel_step envelope_aead k) N1"
    by (rule reach_step)
  have "c \<in> set (pool N1) \<or> forged envelope_aead k c" by (simp add: N1_def)
  then have "channel_step envelope_aead k N1 N2"
    unfolding N2_def by (rule channel_open)
  with r1 have r2: "reach (channel_init envelope_aead k) (channel_step envelope_aead k) N2"
    by (rule reach_step)
  have N1s: "ends N1 False = e False" "ends N1 True = seal_step (e True) [9] f"
    by (simp_all add: N1_def N_def)
  have op: "aead_open envelope_aead (k True) (counter_nonce 12 0) c ad = Some [9]" for ad
    by (simp add: envelope_aead_def c_def)
  have "open_frame envelope_aead (e_recv (e False)) c = (Inr [9], f)"
    by (simp add: open_frame_def next_nonce_def L e_def op f_def)
  then have "accepted (ends N2 False) = [(0, [9])]"
    by (simp add: N2_def N1s open_step_def) (simp add: e_def)
  moreover have "sent (ends N2 True) = [[9]]"
    by (simp add: N2_def N1s) (simp add: e_def seal_step_def)
  ultimately show ?thesis
    using r2 channel_accepts_only_sent [OF r2, of False] unfolding k_def by blast
qed

end
