(* ===== verification/Dns_Packet.thy ===== *)
theory Dns_Packet
  imports Go_Prelude
begin

text \<open>
  DNS packets: \<open>libquava/discovery/packet.go\<close> with the types of
  \<open>libquava/models/discovery.go\<close>.

  \<open>DecodeDNSName\<close> follows compression pointers without a limit, so its loop may not end: it is
  a \<open>partial_function\<close> whose value \<open>None\<close> is not returning, and everything that calls it
  returns a value of type \<open>partial_r\<close>. Offsets are \<open>int\<close>, as in the code.
\<close>

datatype dns_error =
    DnsShortHeader
  | DnsBadOffset int
  | DnsTruncatedName
  | DnsBadPointer
  | DnsLabelExceeds
  | DnsTruncatedQuestion
  | DnsTruncatedRecord
  | DnsRecordTooLarge
  | DnsWrongType "16 word"
  | DnsShortSRV
  | DnsBadALength
  | DnsBadTXT
  | DnsTruncatedTXT
  | PanicLabelTooLong

subsection \<open>Data\<close>

definition TypeA :: "16 word" where "TypeA = 1"
definition TypePTR :: "16 word" where "TypePTR = 12"
definition TypeTXT :: "16 word" where "TypeTXT = 16"
definition TypeSRV :: "16 word" where "TypeSRV = 33"
definition ClassINET :: "16 word" where "ClassINET = 1"

lemmas dns_type_defs = TypeA_def TypePTR_def TypeTXT_def TypeSRV_def ClassINET_def

record dns_header =
  hdr_id :: "16 word"
  hdr_flags :: "16 word"
  qd_count :: "16 word"
  an_count :: "16 word"
  ns_count :: "16 word"
  ar_count :: "16 word"

record question =
  q_name :: string
  q_type :: "16 word"
  q_class :: "16 word"

record resource_record =
  rr_name :: string
  rr_type :: "16 word"
  rr_class :: "16 word"
  rr_ttl :: "32 word"
  rr_data :: bytes
  rr_offset :: int

record packet =
  header :: dns_header
  questions :: "question list"
  answers :: "resource_record list"
  additional :: "resource_record list"

record srv_record =
  srv_name :: string
  srv_target :: string
  srv_port :: int
  srv_priority :: "16 word"
  srv_weight :: "16 word"

record txt_record =
  txt_name :: string
  attributes :: "(string, string) gomap"

subsection \<open>Names\<close>

definition byte_at :: "bytes \<Rightarrow> int \<Rightarrow> byte" where
  "byte_at data i = data ! nat i"

definition u16_at :: "bytes \<Rightarrow> int \<Rightarrow> 16 word" where
  "u16_at data i = get_u16 (byte_at data i) (byte_at data (i + 1))"

definition u32_at :: "bytes \<Rightarrow> int \<Rightarrow> 32 word" where
  "u32_at data i = get_u32 (byte_at data i) (byte_at data (i + 1)) (byte_at data (i + 2))
     (byte_at data (i + 3))"

definition byte_slice :: "bytes \<Rightarrow> int \<Rightarrow> int \<Rightarrow> bytes" where
  "byte_slice data i j = take (nat (j - i)) (drop (nat i) data)"

text \<open>The loop of \<open>DecodeDNSName\<close>: the labels read, whether a pointer was followed, the offset
  after the first pointer, the offset reached.\<close>

partial_function (option) name_loop ::
    "bytes \<Rightarrow> int \<Rightarrow> string list \<Rightarrow> bool \<Rightarrow> int \<Rightarrow>
     (dns_error, string list \<times> bool \<times> int \<times> int) partial_r" where
  [code]: "name_loop data off labels seen orig =
     (if off \<ge> int (length data) then Some (Inl DnsTruncatedName)
      else let len = byte_at data off in
        if len = 0 then Some (Inr (labels, seen, orig, off + 1))
        else if and len 0xC0 = 0xC0
        then (if off + 1 \<ge> int (length data) then Some (Inl DnsBadPointer)
              else name_loop data (uint (and (u16_at data off) 0x3FFF)) labels True
                     (if seen then orig else off + 2))
        else if off + 1 + uint len > int (length data) then Some (Inl DnsLabelExceeds)
        else name_loop data (off + 1 + uint len)
               (labels @ [bytes_str (byte_slice data (off + 1) (off + 1 + uint len))]) seen orig)"

definition decode_dns_name :: "bytes \<Rightarrow> int \<Rightarrow> (dns_error, string \<times> int) partial_r" where
  "decode_dns_name data off =
     (if off < 0 \<or> off \<ge> int (length data) then Some (Inl (DnsBadOffset off))
      else bind_o (name_loop data off [] False off) (\<lambda>(labels, seen, orig, off').
        Some (Inr (if labels = [] then ''.'' else join_with ''.'' labels @ ''.'',
                   if seen then orig else off'))))"

definition encode_label :: "string \<Rightarrow> dns_error + bytes" where
  "encode_label l =
     (if length l > 63 then Inl PanicLabelTooLong
      else Inr (of_nat (length l) # str_bytes l))"

fun encode_labels :: "string list \<Rightarrow> dns_error + bytes" where
  "encode_labels [] = Inr []"
| "encode_labels (l # ls) =
     bind_r (encode_label l) (\<lambda>b. bind_r (encode_labels ls) (\<lambda>bs. Inr (b @ bs)))"

text \<open>A label of more than 63 bytes makes \<open>EncodeDNSName\<close> panic.\<close>

definition encode_dns_name :: "string \<Rightarrow> dns_error + bytes" where
  "encode_dns_name name =
     (let trimmed = trim_suffix name ''.'' in
      if trimmed = [] then Inr [0]
      else bind_r (encode_labels (split_on CHR ''.'' trimmed)) (\<lambda>bs. Inr (bs @ [0])))"

subsection \<open>Headers, questions, records\<close>

definition parse_header :: "bytes \<Rightarrow> dns_error + dns_header" where
  "parse_header data =
     (if length data < 12 then Inl DnsShortHeader
      else Inr \<lparr>hdr_id = u16_at data 0, hdr_flags = u16_at data 2, qd_count = u16_at data 4,
                an_count = u16_at data 6, ns_count = u16_at data 8, ar_count = u16_at data 10\<rparr>)"

definition encode_header :: "dns_header \<Rightarrow> bytes" where
  "encode_header h =
     put_u16 (hdr_id h) @ put_u16 (hdr_flags h) @ put_u16 (qd_count h) @ put_u16 (an_count h)
       @ put_u16 (ns_count h) @ put_u16 (ar_count h)"

definition parse_question :: "bytes \<Rightarrow> int \<Rightarrow> (dns_error, question \<times> int) partial_r" where
  "parse_question data off =
     bind_o (decode_dns_name data off) (\<lambda>(name, next).
       Some (if next + 4 > int (length data) then Inl DnsTruncatedQuestion
             else Inr (\<lparr>q_name = name, q_type = u16_at data next,
                        q_class = u16_at data (next + 2)\<rparr>, next + 4)))"

definition parse_resource_record ::
    "bytes \<Rightarrow> int \<Rightarrow> (dns_error, resource_record \<times> int) partial_r" where
  "parse_resource_record data off =
     bind_o (decode_dns_name data off) (\<lambda>(name, next).
       if next + 10 > int (length data) then Some (Inl DnsTruncatedRecord)
       else let rdlength = uint (u16_at data (next + 8)) in
         if next + 10 + rdlength > int (length data) then Some (Inl DnsRecordTooLarge)
         else Some (Inr (\<lparr>rr_name = name, rr_type = u16_at data next,
                rr_class = u16_at data (next + 2), rr_ttl = u32_at data (next + 4),
                rr_data = byte_slice data (next + 10) (next + 10 + rdlength),
                rr_offset = next + 10\<rparr>, next + 10 + rdlength)))"

definition parse_packet :: "bytes \<Rightarrow> (dns_error, packet) partial_r" where
  "parse_packet data =
     bind_o (Some (parse_header data)) (\<lambda>h.
     bind_o (read_n_o (parse_question data) (unat (qd_count h)) 12) (\<lambda>(qs, o1).
     bind_o (read_n_o (parse_resource_record data) (unat (an_count h)) o1) (\<lambda>(ans, o2).
     bind_o (read_n_o (parse_resource_record data) (unat (ns_count h)) o2) (\<lambda>(_, o3).
     bind_o (read_n_o (parse_resource_record data) (unat (ar_count h)) o3) (\<lambda>(ars, _).
       Some (Inr \<lparr>header = h, questions = qs, answers = ans, additional = ars\<rparr>))))))"

definition encode_question :: "question \<Rightarrow> dns_error + bytes" where
  "encode_question q =
     bind_r (encode_dns_name (q_name q)) (\<lambda>bs.
       Inr (bs @ put_u16 (q_type q) @ put_u16 (q_class q)))"

definition build_ptr_query :: "string \<Rightarrow> dns_error + bytes" where
  "build_ptr_query name =
     bind_r (encode_question \<lparr>q_name = name, q_type = TypePTR, q_class = ClassINET\<rparr>) (\<lambda>q.
       Inr (encode_header \<lparr>hdr_id = 0x1234, hdr_flags = 0x0100, qd_count = 1, an_count = 0,
              ns_count = 0, ar_count = 0\<rparr> @ q))"

subsection \<open>Record payloads\<close>

definition parse_ptr_record ::
    "bytes \<Rightarrow> resource_record \<Rightarrow> (dns_error, string \<times> string) partial_r" where
  "parse_ptr_record data rr =
     (if rr_type rr \<noteq> TypePTR then Some (Inl (DnsWrongType (rr_type rr)))
      else bind_o (decode_dns_name data (rr_offset rr)) (\<lambda>(name, _).
             Some (Inr (rr_name rr, name))))"

definition parse_srv_record ::
    "bytes \<Rightarrow> resource_record \<Rightarrow> (dns_error, srv_record) partial_r" where
  "parse_srv_record data rr =
     (if rr_type rr \<noteq> TypeSRV then Some (Inl (DnsWrongType (rr_type rr)))
      else if length (rr_data rr) < 7 then Some (Inl DnsShortSRV)
      else bind_o (decode_dns_name data (rr_offset rr + 6)) (\<lambda>(target, _).
             Some (Inr \<lparr>srv_name = rr_name rr, srv_target = target,
               srv_port = uint (u16_at (rr_data rr) 4), srv_priority = u16_at (rr_data rr) 0,
               srv_weight = u16_at (rr_data rr) 2\<rparr>)))"

definition parse_a_record :: "resource_record \<Rightarrow> dns_error + string \<times> string" where
  "parse_a_record rr =
     (if rr_type rr \<noteq> TypeA then Inl (DnsWrongType (rr_type rr))
      else if length (rr_data rr) \<noteq> 4 then Inl DnsBadALength
      else Inr (rr_name rr, join_with ''.'' (map (\<lambda>b. dec_nat (unat b)) (rr_data rr))))"

text \<open>The loop over the strings of a TXT record, on the bytes between the two offsets.\<close>

function txt_loop :: "bytes \<Rightarrow> (string, string) gomap \<Rightarrow> dns_error + (string, string) gomap" where
  "txt_loop [] m = Inr m"
| "txt_loop (n # bs) m =
     (if unat n > length bs then Inl DnsTruncatedTXT
      else txt_loop (drop (unat n) bs)
             (case cut_at CHR ''='' (bytes_str (take (unat n) bs)) of
                None \<Rightarrow> m
              | Some (k, v) \<Rightarrow> map_put k v m))"
  by pat_completeness auto
termination by (relation "measure (\<lambda>(bs, m). length bs)") auto

definition parse_txt_record :: "bytes \<Rightarrow> resource_record \<Rightarrow> dns_error + txt_record" where
  "parse_txt_record data rr =
     (if rr_type rr \<noteq> TypeTXT then Inl (DnsWrongType (rr_type rr))
      else let end_off = rr_offset rr + int (length (rr_data rr)) in
        if rr_offset rr < 0 \<or> end_off > int (length data) then Inl DnsBadTXT
        else bind_r (txt_loop (byte_slice data (rr_offset rr) end_off) []) (\<lambda>m.
               Inr \<lparr>txt_name = rr_name rr, attributes = m\<rparr>))"

subsection \<open>Reading at a position\<close>

named_theorems at_pos

lemma byte_at_prefix [at_pos]:
  "byte_at (pre @ x # rest) (int (length pre)) = x"
  by (simp add: byte_at_def)

lemma byte_at_append [at_pos]: "0 \<le> i \<Longrightarrow> byte_at (pre @ bs) (int (length pre) + i) = byte_at bs i"
  by (simp add: byte_at_def nat_add_distrib nth_append)

lemma byte_at_append_num [at_pos]:
  "byte_at (pre @ bs) (int (length pre) + numeral k) = byte_at bs (numeral k)"
  "byte_at (pre @ bs) (int (length pre) + 1) = byte_at bs 1"
  by (simp_all add: byte_at_def nat_add_distrib nth_append)

lemma byte_slice_at:
  "i = int (length pre) \<Longrightarrow> j = i + int (length mid) \<Longrightarrow> byte_slice (pre @ mid @ rest) i j = mid"
  by (simp add: byte_slice_def)

lemma u16_at_put: "0 \<le> i \<Longrightarrow> u16_at (pre @ bs) (int (length pre) + i) = u16_at bs i"
  by (simp add: u16_at_def byte_at_def nat_add_distrib nth_append ac_simps)

lemma u16_at_put_u16 [simp]: "u16_at (put_u16 w @ rest) 0 = w"
  by (simp add: u16_at_def byte_at_def put_u16_def)

lemma u16_at_pre: "u16_at (pre @ put_u16 w @ rest) (int (length pre)) = w"
  using u16_at_put [of 0 pre "put_u16 w @ rest"] by simp

lemma parse_encode_header: "parse_header (encode_header h @ rest) = Inr h"
  by (simp add: parse_header_def encode_header_def u16_at_def byte_at_def put_u16_def)

lemma length_encode_header [simp]: "length (encode_header h) = 12"
  by (simp add: encode_header_def)

lemma encode_parse_header:
  assumes "length data \<ge> 12" "parse_header data = Inr h"
  shows "encode_header h = take 12 data"
proof -
  have "take 12 data = [data!0, data!1, data!2, data!3, data!4, data!5, data!6, data!7, data!8,
      data!9, data!10, data!11]"
    using assms(1) by (intro nth_equalityI) (auto simp: less_Suc_eq numeral_eq_Suc)
  then show ?thesis
    using assms(2)
    by (auto simp: parse_header_def encode_header_def u16_at_def byte_at_def put_get_u16
        split: if_splits)
qed

subsection \<open>Names are read back\<close>

definition valid_label :: "string \<Rightarrow> bool" where
  "valid_label l \<longleftrightarrow> 0 < length l \<and> length l \<le> 63"

definition label_bytes :: "string list \<Rightarrow> bytes" where
  "label_bytes ls = concat (map (\<lambda>l. of_nat (length l) # str_bytes l) ls)"

lemma label_bytes_simps [simp]:
  "label_bytes [] = []"
  "label_bytes (l # ls) = of_nat (length l) # str_bytes l @ label_bytes ls"
  by (simp_all add: label_bytes_def)

lemma encode_labels_valid: "list_all valid_label ls \<Longrightarrow> encode_labels ls = Inr (label_bytes ls)"
  by (induction ls) (auto simp: encode_label_def valid_label_def)

lemma label_length_byte:
  assumes "valid_label l"
  shows "uint (of_nat (length l) :: byte) = int (length l)"
    and "(of_nat (length l) :: byte) \<noteq> 0"
    and "and (of_nat (length l) :: byte) 0xC0 \<noteq> 0xC0"
proof -
  have u: "unat (of_nat (length l) :: byte) = length l"
    using assms by (simp add: valid_label_def unsigned_of_nat take_bit_nat_eq_self)
  then show "uint (of_nat (length l) :: byte) = int (length l)" by (metis uint_nat)
  show "(of_nat (length l) :: byte) \<noteq> 0" using u assms by (auto simp: valid_label_def)
  show "and (of_nat (length l) :: byte) 0xC0 \<noteq> 0xC0"
  proof
    assume "and (of_nat (length l) :: byte) 0xC0 = 0xC0"
    then have "(0xC0 :: byte) \<le> of_nat (length l)" by (metis word_and_le2 word_and_le1)
    then have "unat (0xC0 :: byte) \<le> length l" using u by (metis word_le_nat_alt)
    then show False using assms by (simp add: valid_label_def)
  qed
qed

lemma name_loop_label:
  assumes "valid_label l"
  shows "name_loop (pre @ of_nat (length l) # str_bytes l @ rest) (int (length pre)) acc seen orig =
     name_loop (pre @ of_nat (length l) # str_bytes l @ rest)
       (int (length pre) + 1 + int (length l)) (acc @ [l]) seen orig"
proof -
  let ?d = "pre @ of_nat (length l) # str_bytes l @ rest"
  have "byte_slice ?d (int (length pre) + 1) (int (length pre) + 1 + int (length l)) = str_bytes l"
    using byte_slice_at [of "int (length pre) + 1" "pre @ [of_nat (length l)]"
        "int (length pre) + 1 + int (length l)" "str_bytes l" rest] by simp
  then show ?thesis
    by (subst name_loop.simps) (simp add: Let_def at_pos label_length_byte [OF assms])
qed

lemma name_loop_labels:
  "list_all valid_label ls \<Longrightarrow>
   name_loop (pre @ label_bytes ls @ rest) (int (length pre)) acc seen orig =
   name_loop (pre @ label_bytes ls @ rest) (int (length pre + length (label_bytes ls)))
     (acc @ ls) seen orig"
proof (induction ls arbitrary: pre acc)
  case (Cons l ls)
  let ?pre = "pre @ of_nat (length l) # str_bytes l"
  have "name_loop (pre @ label_bytes (l # ls) @ rest) (int (length pre)) acc seen orig =
      name_loop (?pre @ label_bytes ls @ rest) (int (length ?pre)) (acc @ [l]) seen orig"
    using name_loop_label [of l pre "label_bytes ls @ rest"] Cons.prems by (simp add: ac_simps)
  also have "\<dots> = name_loop (?pre @ label_bytes ls @ rest)
      (int (length ?pre + length (label_bytes ls))) (acc @ l # ls) seen orig"
    using Cons.IH [of ?pre "acc @ [l]"] Cons.prems by simp
  finally show ?case by (simp add: ac_simps)
qed simp

lemma name_loop_end:
  "name_loop (pre @ 0 # rest) (int (length pre)) acc seen orig =
   Some (Inr (acc, seen, orig, int (length pre) + 1))"
  by (subst name_loop.simps) (simp add: at_pos Let_def)

definition name_of :: "string list \<Rightarrow> string" where
  "name_of ls = (if ls = [] then ''.'' else join_with ''.'' ls @ ''.'')"

lemma decode_labels:
  assumes "list_all valid_label ls"
  shows "decode_dns_name (pre @ label_bytes ls @ 0 # rest) (int (length pre)) =
    Some (Inr (name_of ls, int (length pre + length (label_bytes ls) + 1)))"
  using name_loop_labels [OF assms, of pre "0 # rest"]
    name_loop_end [of "pre @ label_bytes ls" rest]
  by (simp add: decode_dns_name_def name_of_def)

text \<open>The names the protocol uses: a final dot, and labels of 1 to 63 bytes.\<close>

definition valid_name :: "string \<Rightarrow> bool" where
  "valid_name n \<longleftrightarrow> n = ''.'' \<or>
     (has_suffix n ''.'' \<and> list_all valid_label (split_on CHR ''.'' (trim_suffix n ''.'')))"

definition name_bytes :: "string \<Rightarrow> bytes" where
  "name_bytes n = (case encode_dns_name n of Inl _ \<Rightarrow> [] | Inr bs \<Rightarrow> bs)"

lemma valid_name_cases:
  assumes "valid_name n"
  obtains "n = ''.''" "encode_dns_name n = Inr [0]"
  | ls where "ls \<noteq> []" "list_all valid_label ls" "n = name_of ls"
      "encode_dns_name n = Inr (label_bytes ls @ [0])"
proof (cases "n = ''.''")
  case True
  have "trim_suffix (''.'' :: string) ''.'' = []"
    using trim_suffix_append [of "[]" "''.''"] by simp
  then show ?thesis using True that(1) by (simp add: encode_dns_name_def Let_def)
next
  case False
  then obtain t where t: "n = t @ ''.''"
    and ls: "list_all valid_label (split_on CHR ''.'' t)"
    using assms by (auto simp: valid_name_def has_suffix_conv)
  have "n = name_of (split_on CHR ''.'' t)" using join_split_on t by (simp add: name_of_def)
  moreover have "t \<noteq> []" using False t by auto
  then have "encode_dns_name n = Inr (label_bytes (split_on CHR ''.'' t) @ [0])"
    using t encode_labels_valid [OF ls] by (simp add: encode_dns_name_def Let_def)
  ultimately show ?thesis using that(2) [OF split_on_not_Nil ls] by simp
qed

lemma decode_encode_name:
  assumes "valid_name n"
  shows "decode_dns_name (pre @ name_bytes n @ rest) (int (length pre)) =
    Some (Inr (n, int (length pre + length (name_bytes n))))"
  using assms
proof (cases rule: valid_name_cases)
  case 1
  then show ?thesis using decode_labels [of "[]" pre rest] by (simp add: name_bytes_def name_of_def)
next
  case (2 ls)
  then show ?thesis using decode_labels [of ls pre rest] by (simp add: name_bytes_def)
qed

interpretation dns_names: offset_codec name_bytes decode_dns_name valid_name
  by unfold_locales (rule decode_encode_name)

subsection \<open>Questions and records are read back\<close>

definition question_bytes :: "question \<Rightarrow> bytes" where
  "question_bytes q = name_bytes (q_name q) @ put_u16 (q_type q) @ put_u16 (q_class q)"

definition valid_question :: "question \<Rightarrow> bool" where
  "valid_question q \<longleftrightarrow> valid_name (q_name q)"

lemma encode_question_valid: "valid_question q \<Longrightarrow> encode_question q = Inr (question_bytes q)"
  by (auto simp: valid_question_def encode_question_def question_bytes_def name_bytes_def
      elim: valid_name_cases)

lemma at_end: "i = int (length pre + length x) \<Longrightarrow> u16_at (pre @ x @ put_u16 w @ rest) i = w"
  using u16_at_pre [of "pre @ x" w rest] by simp

lemma parse_question_bytes:
  assumes "valid_question q"
  shows "parse_question (pre @ question_bytes q @ rest) (int (length pre)) =
    Some (Inr (q, int (length pre + length (question_bytes q))))"
proof -
  let ?n = "name_bytes (q_name q)" and ?t = "put_u16 (q_type q)" and ?c = "put_u16 (q_class q)"
  have d: "decode_dns_name (pre @ ?n @ ?t @ ?c @ rest) (int (length pre)) =
      Some (Inr (q_name q, int (length pre + length ?n)))"
    using decode_encode_name assms by (simp add: valid_question_def)
  have t: "u16_at (pre @ ?n @ ?t @ ?c @ rest) (int (length pre) + int (length ?n)) = q_type q"
    by (rule at_end) simp
  have c: "u16_at (pre @ ?n @ ?t @ ?c @ rest) (int (length pre) + int (length ?n) + 2) = q_class q"
    using at_end [of "int (length pre) + int (length ?n) + 2" pre "?n @ ?t" "q_class q" rest] by simp
  show ?thesis
    using d t c by (simp add: parse_question_def question_bytes_def)
qed

interpretation dns_questions: offset_codec question_bytes parse_question valid_question
  by unfold_locales (rule parse_question_bytes)

text \<open>The wire form of a record, as a responder sends it without compression.\<close>

definition record_bytes :: "resource_record \<Rightarrow> bytes" where
  "record_bytes rr = name_bytes (rr_name rr) @ put_u16 (rr_type rr) @ put_u16 (rr_class rr) @
     put_u32 (rr_ttl rr) @ put_u16 (of_nat (length (rr_data rr))) @ rr_data rr"

lemma u32_at_pre: "i = int (length pre) \<Longrightarrow> u32_at (pre @ put_u32 w @ rest) i = w"
  by (simp add: u32_at_def byte_at_def put_u32_def nth_append nat_add_distrib numeral_3_eq_3)

lemma parse_record_bytes:
  assumes name: "valid_name (rr_name rr)" and len: "length (rr_data rr) < 65536"
  shows "parse_resource_record (pre @ record_bytes rr @ rest) (int (length pre)) =
    Some (Inr (rr\<lparr>rr_offset := int (length pre + length (record_bytes rr))
                   - int (length (rr_data rr))\<rparr>,
      int (length pre + length (record_bytes rr))))"
proof -
  let ?n = "name_bytes (rr_name rr)" and ?t = "put_u16 (rr_type rr)"
  let ?c = "put_u16 (rr_class rr)" and ?l = "put_u32 (rr_ttl rr)"
  let ?z = "put_u16 (of_nat (length (rr_data rr)))"
  let ?d = "pre @ ?n @ ?t @ ?c @ ?l @ ?z @ rr_data rr @ rest"
  let ?o = "int (length pre) + int (length ?n)"
  have sz: "uint (of_nat (length (rr_data rr)) :: 16 word) = int (length (rr_data rr))"
    using len by (simp add: uint_nat unsigned_of_nat take_bit_nat_eq_self)
  have nm: "decode_dns_name ?d (int (length pre)) = Some (Inr (rr_name rr, ?o))"
    using decode_encode_name [OF name, of pre] by simp
  have "u16_at ?d ?o = rr_type rr" "u16_at ?d (?o + 2) = rr_class rr"
    "u16_at ?d (?o + 8) = of_nat (length (rr_data rr))"
    using at_end [of ?o pre ?n "rr_type rr" "?c @ ?l @ ?z @ rr_data rr @ rest"]
      at_end [of "?o + 2" pre "?n @ ?t" "rr_class rr" "?l @ ?z @ rr_data rr @ rest"]
      at_end [of "?o + 8" pre "?n @ ?t @ ?c @ ?l" "of_nat (length (rr_data rr))"
        "rr_data rr @ rest"]
    by simp_all
  moreover have "u32_at ?d (?o + 4) = rr_ttl rr"
    using u32_at_pre [of "?o + 4" "pre @ ?n @ ?t @ ?c" "rr_ttl rr" "?z @ rr_data rr @ rest"]
    by simp
  moreover have "byte_slice ?d (?o + 10) (?o + 10 + int (length (rr_data rr))) = rr_data rr"
    using byte_slice_at [of "?o + 10" "pre @ ?n @ ?t @ ?c @ ?l @ ?z" _ "rr_data rr" rest] by simp
  ultimately show ?thesis
    using nm sz by (simp add: parse_resource_record_def record_bytes_def Let_def)
qed

lemma parse_questions_packet:
  assumes "list_all valid_question qs" "length qs < 65536"
    and "qd_count h = of_nat (length qs)" "an_count h = 0" "ns_count h = 0" "ar_count h = 0"
  shows "parse_packet (encode_header h @ concat (map question_bytes qs)) =
    Some (Inr \<lparr>header = h, questions = qs, answers = [], additional = []\<rparr>)"
proof -
  have "unat (of_nat (length qs) :: 16 word) = length qs"
    using assms(2) by (simp add: unsigned_of_nat take_bit_nat_eq_self)
  then show ?thesis
    using dns_questions.read_many_at [OF assms(1), of "encode_header h" "[]"] assms(3-)
    by (simp add: parse_packet_def parse_encode_header)
qed

subsection \<open>Compression pointers\<close>

lemma name_loop_pointer:
  assumes "and b 0xC0 = 0xC0" "off + 1 < int (length data)" "0 \<le> off" "byte_at data off = b"
  shows "name_loop data off acc seen orig =
    name_loop data (uint (and (u16_at data off) 0x3FFF)) acc True (if seen then orig else off + 2)"
proof -
  have "b \<noteq> 0" using assms(1) by auto
  then show ?thesis using assms by (subst name_loop.simps) (simp add: Let_def)
qed

text \<open>A set of offsets that the loop never leaves: each holds a label or a pointer that leads
  back into the set.\<close>

definition name_hop :: "bytes \<Rightarrow> int \<Rightarrow> int option" where
  "name_hop data off =
     (if off \<ge> int (length data) then None
      else let len = byte_at data off in
        if len = 0 then None
        else if and len 0xC0 = 0xC0
        then (if off + 1 \<ge> int (length data) then None
              else Some (uint (and (u16_at data off) 0x3FFF)))
        else if off + 1 + uint len > int (length data) then None
        else Some (off + 1 + uint len))"

lemma name_loop_hop:
  assumes "name_loop data off acc seen orig = Some r"
  shows "(\<forall>x \<in> S. \<exists>y \<in> S. name_hop data x = Some y) \<longrightarrow> off \<notin> S"
proof (rule name_loop.raw_induct [where P = "\<lambda>data off acc seen orig r.
    (\<forall>x \<in> S. \<exists>y \<in> S. name_hop data x = Some y) \<longrightarrow> off \<notin> S", OF _ assms], intro impI notI)
  fix loop data off acc seen orig r
  assume ih: "\<And>data off acc seen orig r. loop data off acc seen orig = Some r \<Longrightarrow>
      (\<forall>x \<in> S. \<exists>y \<in> S. name_hop data x = Some y) \<longrightarrow> off \<notin> S"
    and run: "(if int (length data) \<le> off then Some (Inl DnsTruncatedName)
      else let len = byte_at data off in
        if len = 0 then Some (Inr (acc, seen, orig, off + 1))
        else if and len 192 = 192
        then if int (length data) \<le> off + 1 then Some (Inl DnsBadPointer)
             else loop data (uint (and (u16_at data off) 16383)) acc True
                    (if seen then orig else off + 2)
        else if int (length data) < off + 1 + uint len then Some (Inl DnsLabelExceeds)
        else loop data (off + 1 + uint len)
               (acc @ [bytes_str (byte_slice data (off + 1) (off + 1 + uint len))]) seen orig) = Some r"
    and closed: "\<forall>x \<in> S. \<exists>y \<in> S. name_hop data x = Some y" and "off \<in> S"
  then obtain y where y: "y \<in> S" "name_hop data off = Some y" by blast
  then have "\<exists>acc' seen' orig'. loop data y acc' seen' orig' = Some r"
    using run by (simp add: name_hop_def Let_def split: if_split_asm) blast+
  then show False using ih closed y(1) by blast
qed

lemma name_loop_cycle:
  "off \<in> S \<Longrightarrow> \<forall>x \<in> S. \<exists>y \<in> S. name_hop data x = Some y \<Longrightarrow>
   name_loop data off acc seen orig = None"
  using name_loop_hop by (metis not_Some_eq)

definition name_pointer :: "nat \<Rightarrow> 16 word" where
  "name_pointer p = or 0xC000 (of_nat p)"

lemma name_pointer_facts:
  assumes "p < 0x4000"
  shows "and (ucast (drop_bit 8 (name_pointer p)) :: byte) 0xC0 = 0xC0"
    and "uint (and (name_pointer p) 0x3FFF) = int p"
proof -
  show "and (ucast (drop_bit 8 (name_pointer p)) :: byte) 0xC0 = 0xC0"
    by (rule bit_word_eqI) (auto simp: name_pointer_def bit_simps numeral_eq_Suc less_Suc_eq)
  have "take_bit 14 (of_nat p :: 16 word) = of_nat (take_bit 14 p)" by (simp add: take_bit_of_nat)
  then have p: "take_bit 14 (of_nat p :: 16 word) = of_nat p"
    using assms by (simp add: take_bit_nat_eq_self)
  have m: "(0x3FFF :: 16 word) = mask 14" by (simp add: mask_eq_exp_minus_1)
  have "and (name_pointer p) 0x3FFF = (of_nat p :: 16 word)"
    unfolding m name_pointer_def take_bit_eq_mask [symmetric]
    by (simp add: p)
  then show "uint (and (name_pointer p) 0x3FFF) = int p"
    using assms by (simp add: unsigned_of_nat take_bit_nat_eq_self)
qed

lemma decode_compressed:
  assumes ls: "list_all valid_label ls" and ms: "list_all valid_label ms"
    and data: "data = pre @ label_bytes ls @ put_u16 (name_pointer (length pre')) @ rest"
    and target: "data = pre' @ label_bytes ms @ 0 # rest'"
    and p: "length pre' < 0x4000"
  shows "decode_dns_name data (int (length pre)) =
    Some (Inr (name_of (ls @ ms), int (length pre + length (label_bytes ls) + 2)))"
proof -
  let ?at = "int (length pre + length (label_bytes ls))"
  let ?w = "name_pointer (length pre')"
  have u: "u16_at data ?at = ?w" unfolding data by (rule at_end) simp
  have b: "byte_at data ?at = ucast (drop_bit 8 ?w)"
    using byte_at_prefix [of "pre @ label_bytes ls" "ucast (drop_bit 8 ?w)" "ucast ?w # rest"]
    by (simp add: data put_u16_def)
  have len: "?at + 1 < int (length data)" by (simp add: data)
  have "name_loop data (int (length pre)) [] False (int (length pre)) =
      name_loop data ?at ls False (int (length pre))"
    using name_loop_labels [OF ls, of pre _ "[]"] by (simp add: data)
  also have "\<dots> = name_loop data (int (length pre')) ls True (?at + 2)"
    using name_loop_pointer [OF name_pointer_facts(1) [OF p] len _ b] u name_pointer_facts(2) [OF p]
    by simp
  also have "\<dots> = Some (Inr (ls @ ms, True, ?at + 2, int (length pre' + length (label_bytes ms)) + 1))"
    using name_loop_labels [OF ms, of pre' "0 # rest'"] name_loop_end [of "pre' @ label_bytes ms" rest']
    by (simp add: target)
  finally show ?thesis
    using len by (simp add: decode_dns_name_def name_of_def)
qed

subsection \<open>Properties\<close>

text \<open>C33. A query that \<open>BuildPTRQuery\<close> builds for a valid name is parsed back: the packet has
  the fixed header, exactly the one question, of type PTR and class IN, and no records.\<close>

theorem ptr_query_roundtrip:
  assumes "valid_name n"
  shows "\<exists>bs. build_ptr_query n = Inr bs \<and>
    parse_packet bs = Some (Inr
      \<lparr>header = \<lparr>hdr_id = 0x1234, hdr_flags = 0x0100, qd_count = 1, an_count = 0, ns_count = 0,
         ar_count = 0\<rparr>,
       questions = [\<lparr>q_name = n, q_type = TypePTR, q_class = ClassINET\<rparr>],
       answers = [], additional = []\<rparr>)"
proof -
  let ?q = "\<lparr>q_name = n, q_type = TypePTR, q_class = ClassINET\<rparr>"
  let ?h = "\<lparr>hdr_id = 0x1234, hdr_flags = 0x0100, qd_count = 1, an_count = 0, ns_count = 0,
      ar_count = 0\<rparr>"
  have q: "valid_question ?q" using assms by (simp add: valid_question_def)
  show ?thesis
    using parse_questions_packet [of "[?q]" ?h] q
    by (simp add: build_ptr_query_def encode_question_valid [OF q])
qed

lemma ptr_query_roundtrip_witness:
  "\<exists>bs p. build_ptr_query ''_quava._udp.local.'' = Inr bs \<and> parse_packet bs = Some (Inr p) \<and>
     map q_name (questions p) = [''_quava._udp.local.'']"
proof -
  have "valid_name ''_quava._udp.local.''" by code_simp
  from ptr_query_roundtrip [OF this] show ?thesis by fastforce
qed

text \<open>A record whose name is written without compression and whose data fits the 16-bit
  length is parsed back with every field, wherever it stands in the packet, and parsing goes on
  right after it; \<open>Offset\<close> is the position of its data.\<close>

theorem resource_record_roundtrip:
  assumes "valid_name (rr_name rr)" "length (rr_data rr) < 65536"
  shows "parse_resource_record (pre @ record_bytes rr @ rest) (int (length pre)) =
    Some (Inr (rr\<lparr>rr_offset := int (length pre + length (record_bytes rr)) - int (length (rr_data rr))\<rparr>,
      int (length pre + length (record_bytes rr))))"
  by (rule parse_record_bytes [OF assms])

lemma resource_record_roundtrip_witness:
  "parse_resource_record ([9] @ [1, 97, 0, 0, 1, 0, 1, 0, 0, 0, 5, 0, 4, 10, 0, 0, 7] @ [3]) 1 =
     Some (Inr (\<lparr>rr_name = ''a.'', rr_type = 1, rr_class = 1, rr_ttl = 5, rr_data = [10, 0, 0, 7],
       rr_offset = 14\<rparr>, 18))"
proof -
  let ?r = "\<lparr>rr_name = ''a.'', rr_type = 1, rr_class = 1, rr_ttl = 5, rr_data = [10, 0, 0, 7],
      rr_offset = 0\<rparr>"
  have v: "valid_name (rr_name ?r)" by code_simp
  have n: "name_bytes ''a.'' = [1, 97, 0]" by code_simp
  have b: "record_bytes ?r = [1, 97, 0, 0, 1, 0, 1, 0, 0, 0, 5, 0, 4, 10, 0, 0, 7]"
    by (simp add: record_bytes_def n put_u16_def put_u32_def)
  show ?thesis using resource_record_roundtrip [OF v, of "[9]" "[3]"] by (simp add: b)
qed

text \<open>A name that ends in a compression pointer is the labels before it followed by the labels
  at its target, and decoding continues after the pointer, not after the target.\<close>

theorem name_compression:
  assumes "list_all valid_label ls" "list_all valid_label ms" "length pre' < 0x4000"
    and "data = pre @ label_bytes ls @ put_u16 (name_pointer (length pre')) @ rest"
    and "data = pre' @ label_bytes ms @ 0 # rest'"
  shows "decode_dns_name data (int (length pre)) =
    Some (Inr (name_of (ls @ ms), int (length pre + length (label_bytes ls) + 2)))"
  by (rule decode_compressed [OF assms(1,2,4,5,3)])

lemma name_compression_witness:
  "decode_dns_name ([0, 1, 98, 0] @ [1, 97] @ [0xC0, 1]) 4 = Some (Inr (''a.b.'', 8))"
proof -
  let ?d = "[0, 1, 98, 0] @ [1, 97] @ [0xC0, 1 :: byte]"
  have a: "?d = [0, 1, 98, 0] @ label_bytes [''a''] @ put_u16 (name_pointer (length [0 :: byte])) @ []"
    and b: "?d = [0] @ label_bytes [''b''] @ 0 # [1, 97, 0xC0, 1]"
    and v: "list_all valid_label [''a'']" "list_all valid_label [''b'']"
    by code_simp+
  have n: "name_of ([''a''] @ [''b'']) = ''a.b.''"
    "int (length [0, 1, 98, 0 :: byte] + length (label_bytes [''a'']) + 2) = 8"
    "int (length [0, 1, 98, 0 :: byte]) = 4" by code_simp+
  show ?thesis using name_compression [OF v _ a b] n by simp
qed

text \<open>C34. \<open>DecodeDNSName\<close> has no limit on compression pointers: on offsets whose labels and
  pointers lead back among themselves it never returns.\<close>

theorem name_cycle_never_returns:
  assumes "off \<in> S" "0 \<le> off" "off < int (length data)"
    and "\<forall>x \<in> S. \<exists>y \<in> S. name_hop data x = Some y"
  shows "decode_dns_name data off = None"
  using assms by (simp add: decode_dns_name_def name_loop_cycle)

lemma name_cycle_never_returns_witness: "decode_dns_name [0xC0, 2, 0xC0, 0] 0 = None"
proof -
  have "name_hop [0xC0, 2, 0xC0, 0] 0 = Some 2" "name_hop [0xC0, 2, 0xC0, 0] 2 = Some 0"
    by code_simp+
  then show ?thesis by (intro name_cycle_never_returns [of 0 "{0, 2}"]) auto
qed

end
