(* ===== verification/Discovery_Collector.thy ===== *)
theory Discovery_Collector
  imports Dns_Packet
begin

text \<open>
  Assembling devices from mDNS records: \<open>collector\<close>, \<open>addDevice\<close> and \<open>deviceListFromMaps\<close> of
  \<open>libquava/discovery/client.go\<close>, and the checks of \<open>Device.Connect\<close> in \<open>connection.go\<close>.

  \<open>ingest\<close> decodes each record (\<open>read_record\<close>) and then changes the maps (\<open>collect\<close>); the
  split follows the switch of the code. A packet on which the name decoder does not return
  makes \<open>ingest\<close> not return (\<open>None\<close>).
\<close>

definition service_suffix :: string where
  "service_suffix = ''._quava._udp.local.''"

record device =
  peer_device_id :: string
  dev_name :: string
  dev_host :: string
  dev_address :: string
  dev_port :: int

record collector =
  ptr_targets :: "(string, unit) gomap"
  srv_by_name :: "(string, srv_record) gomap"
  address_by_host :: "(string, string) gomap"
  devices_by_key :: "(string, device) gomap"
  id_by_name :: "(string, string) gomap"

definition new_collector :: collector where
  "new_collector = \<lparr>ptr_targets = [], srv_by_name = [], address_by_host = [],
     devices_by_key = [], id_by_name = []\<rparr>"

definition device_key :: "device \<Rightarrow> string" where
  "device_key d = dev_name d @ ''|'' @ dev_host d @ ''|'' @ itoa (dev_port d)"

definition instance_name :: "string \<Rightarrow> srv_record \<Rightarrow> string" where
  "instance_name inst srv =
     (let name = trim_suffix inst service_suffix;
          name = (if name = [] then trim_suffix (srv_name srv) service_suffix else name)
      in if name = [] then inst else name)"

definition add_device ::
    "(string, device) gomap \<Rightarrow> string \<Rightarrow> srv_record \<Rightarrow> string \<Rightarrow> string \<Rightarrow>
     (string, device) gomap \<times> device \<times> bool" where
  "add_device m inst srv address pid =
     (let d = \<lparr>peer_device_id = pid, dev_name = instance_name inst srv, dev_host = srv_target srv,
               dev_address = address, dev_port = srv_port srv\<rparr>;
          key = device_key d
      in case map_of m key of
           Some existing \<Rightarrow>
             (if dev_address existing = [] \<and> dev_address d \<noteq> []
              then (map_put key d m, d, True) else (m, existing, False))
         | None \<Rightarrow> (map_put key d m, d, True))"

text \<open>What one record of a packet says, once decoded; a record that the code skips is \<open>RSkip\<close>.\<close>

datatype dns_fact =
    RAddress string string
  | RPointer string
  | RService srv_record
  | RText txt_record
  | RSkip

definition read_record :: "bytes \<Rightarrow> resource_record \<Rightarrow> dns_fact option" where
  "read_record raw rr =
     (if rr_type rr = TypeA then
        (case parse_a_record rr of Inl _ \<Rightarrow> Some RSkip | Inr (n, a) \<Rightarrow> Some (RAddress n a))
      else if rr_type rr = TypePTR then
        (case parse_ptr_record raw rr of
           None \<Rightarrow> None
         | Some (Inl _) \<Rightarrow> Some RSkip
         | Some (Inr (_, target)) \<Rightarrow>
             Some (if has_suffix target service_suffix then RPointer target else RSkip))
      else if rr_type rr = TypeSRV then
        (case parse_srv_record raw rr of
           None \<Rightarrow> None
         | Some (Inl _) \<Rightarrow> Some RSkip
         | Some (Inr srv) \<Rightarrow>
             Some (if has_suffix (srv_name srv) service_suffix then RService srv else RSkip))
      else if rr_type rr = TypeTXT then
        (case parse_txt_record raw rr of Inl _ \<Rightarrow> Some RSkip | Inr txt \<Rightarrow> Some (RText txt))
      else Some RSkip)"

text \<open>\<open>add_known\<close> is \<open>addDevice\<close> followed by \<open>updated = append(updated, device)\<close>.\<close>

definition add_known ::
    "string \<Rightarrow> srv_record \<Rightarrow> string \<Rightarrow> collector \<times> device list \<Rightarrow> collector \<times> device list" where
  "add_known inst srv address st =
     (let (c, upd) = st;
          (m, d, added) = add_device (devices_by_key c) inst srv address
                            (get_or [] (id_by_name c) inst)
      in (c\<lparr>devices_by_key := m\<rparr>, if added then upd @ [d] else upd))"

definition text_id :: "txt_record \<Rightarrow> string" where
  "text_id txt = to_lower (get_or [] (attributes txt) ''peer_device_id'')"

definition name_matches :: "string \<Rightarrow> string \<Rightarrow> bool" where
  "name_matches name key = has_prefix key (trim_suffix name service_suffix @ ''|'')"

fun collect :: "dns_fact \<Rightarrow> collector \<times> device list \<Rightarrow> collector \<times> device list" where
  "collect (RAddress name address) (c, upd) =
     (let c = c\<lparr>address_by_host := map_put name address (address_by_host c)\<rparr> in
      fold (\<lambda>(_, srv) st.
          if srv_target srv = name \<and> map_has (ptr_targets c) (srv_name srv)
          then add_known (srv_name srv) srv address st else st)
        (srv_by_name c) (c, upd))"
| "collect (RPointer target) (c, upd) =
     (let c = c\<lparr>ptr_targets := map_put target () (ptr_targets c)\<rparr> in
      case map_of (srv_by_name c) target of
        None \<Rightarrow> (c, upd)
      | Some srv \<Rightarrow>
          add_known target srv (get_or [] (address_by_host c) (srv_target srv)) (c, upd))"
| "collect (RService srv) (c, upd) =
     (let c = c\<lparr>srv_by_name := map_put (srv_name srv) srv (srv_by_name c)\<rparr> in
      if map_has (ptr_targets c) (srv_name srv)
      then add_known (srv_name srv) srv (get_or [] (address_by_host c) (srv_target srv)) (c, upd)
      else (c, upd))"
| "collect (RText txt) (c, upd) =
     (let pid = text_id txt;
          hit = (\<lambda>(key, d). name_matches (txt_name txt) key);
          set_id = (\<lambda>d. d\<lparr>peer_device_id := pid\<rparr>)
      in (c\<lparr>id_by_name := map_put (txt_name txt) pid (id_by_name c),
            devices_by_key := map (\<lambda>(key, d). (key, if hit (key, d) then set_id d else d))
              (devices_by_key c)\<rparr>,
          upd @ map (set_id \<circ> snd) (filter hit (devices_by_key c))))"
| "collect RSkip st = st"

fun ingest_records ::
    "bytes \<Rightarrow> resource_record list \<Rightarrow> collector \<times> device list \<Rightarrow> (collector \<times> device list) option" where
  "ingest_records raw [] st = Some st"
| "ingest_records raw (rr # rrs) st =
     (case read_record raw rr of
        None \<Rightarrow> None
      | Some f \<Rightarrow> ingest_records raw rrs (collect f st))"

definition ingest :: "bytes \<Rightarrow> collector \<Rightarrow> (collector \<times> device list) option" where
  "ingest raw c =
     (case parse_packet raw of
        None \<Rightarrow> None
      | Some (Inl _) \<Rightarrow> Some (c, [])
      | Some (Inr p) \<Rightarrow> ingest_records raw (answers p @ additional p) (c, []))"

subsection \<open>The list of devices\<close>

text \<open>The order of \<open>sort.Slice\<close> in \<open>deviceListFromMaps\<close>, as an instance of the library's
  linear orders.\<close>

datatype device_rank = Rank (rank_name: string) (rank_host: string) (rank_port: int)

instantiation device_rank :: linorder
begin

definition less_device_rank :: "device_rank \<Rightarrow> device_rank \<Rightarrow> bool" where
  "less_device_rank a b \<longleftrightarrow>
     (if rank_name a = rank_name b
      then if rank_host a = rank_host b then rank_port a < rank_port b
           else rank_host a < rank_host b
      else rank_name a < rank_name b)"

definition less_eq_device_rank :: "device_rank \<Rightarrow> device_rank \<Rightarrow> bool" where
  "less_eq_device_rank a b \<longleftrightarrow> a < b \<or> a = b"

instance
proof
  fix a b c :: device_rank
  show "(a < b) = (a \<le> b \<and> \<not> b \<le> a)"
    by (cases a; cases b) (auto simp: less_device_rank_def less_eq_device_rank_def split: if_splits)
  show "a \<le> a" by (simp add: less_eq_device_rank_def)
  show "a \<le> b \<Longrightarrow> b \<le> c \<Longrightarrow> a \<le> c"
    by (cases a; cases b; cases c)
      (auto simp: less_device_rank_def less_eq_device_rank_def split: if_splits)
  show "a \<le> b \<Longrightarrow> b \<le> a \<Longrightarrow> a = b"
    by (cases a; cases b) (auto simp: less_device_rank_def less_eq_device_rank_def split: if_splits)
  show "a \<le> b \<or> b \<le> a"
    by (cases a; cases b) (auto simp: less_device_rank_def less_eq_device_rank_def split: if_splits)
qed

end

definition rank_of :: "device \<Rightarrow> device_rank" where
  "rank_of d = Rank (dev_name d) (dev_host d) (dev_port d)"

definition device_list :: "(string, device) gomap \<Rightarrow> device list" where
  "device_list m = sort_key rank_of (map snd m)"

subsection \<open>Connecting\<close>

datatype connect_error = ErrEmptyHost string | ErrInvalidPort int | ErrDial

text \<open>The host and port that \<open>Device.Connect\<close> dials; dialling itself is the network's.\<close>

definition dial_target :: "device \<Rightarrow> connect_error + string \<times> int" where
  "dial_target d =
     (if trim_space (dev_host d) = [] then Inl (ErrEmptyHost (dev_name d))
      else if dev_port d \<le> 0 \<or> dev_port d > 65535 then Inl (ErrInvalidPort (dev_port d))
      else let host = trim_space (dev_address d) in
        Inr (if host = [] then trim_suffix (dev_host d) ''.'' else host, dev_port d))"

subsection \<open>Any order of records gives the same device\<close>

text \<open>One announced service: its instance name, SRV record, address and TXT record. The
  collector after any of its four records have been seen, in any order and any number of
  times, is \<open>announced\<close> of which ones were seen.\<close>

record announcement =
  inst :: string
  service :: srv_record
  host_address :: string
  svc_text :: txt_record

definition full_name :: "announcement \<Rightarrow> string" where
  "full_name w = inst w @ service_suffix"

definition announcement_ok :: "announcement \<Rightarrow> bool" where
  "announcement_ok w \<longleftrightarrow> inst w \<noteq> [] \<and> srv_name (service w) = full_name w \<and>
     txt_name (svc_text w) = full_name w \<and> host_address w \<noteq> []"

definition announced_device :: "announcement \<Rightarrow> bool \<Rightarrow> bool \<Rightarrow> device" where
  "announced_device w a t =
     \<lparr>peer_device_id = (if t then text_id (svc_text w) else []), dev_name = inst w,
      dev_host = srv_target (service w), dev_address = (if a then host_address w else []),
      dev_port = srv_port (service w)\<rparr>"

definition announced :: "announcement \<Rightarrow> bool \<Rightarrow> bool \<Rightarrow> bool \<Rightarrow> bool \<Rightarrow> collector" where
  "announced w p s a t =
     \<lparr>ptr_targets = (if p then [(full_name w, ())] else []),
      srv_by_name = (if s then [(full_name w, service w)] else []),
      address_by_host = (if a then [(srv_target (service w), host_address w)] else []),
      devices_by_key = (if p \<and> s then [(device_key (announced_device w a t), announced_device w a t)]
                        else []),
      id_by_name = (if t then [(full_name w, text_id (svc_text w))] else [])\<rparr>"

definition announcement_facts :: "announcement \<Rightarrow> dns_fact set" where
  "announcement_facts w =
     {RAddress (srv_target (service w)) (host_address w), RPointer (full_name w),
      RService (service w), RText (svc_text w)}"

lemma instance_name_full:
  "announcement_ok w \<Longrightarrow> instance_name (full_name w) srv = inst w"
  by (simp add: instance_name_def announcement_ok_def full_name_def Let_def)

lemma announced_key:
  "device_key (announced_device w a t) = device_key (announced_device w True True)"
  by (simp add: device_key_def announced_device_def)

lemma name_matches_key:
  "announcement_ok w \<Longrightarrow> name_matches (full_name w) (device_key (announced_device w a t))"
  by (simp add: name_matches_def full_name_def device_key_def announced_device_def has_prefix_conv)

lemmas announced_defs = announced_def announcement_ok_def add_known_def add_device_def Let_def
  get_or_def announced_device_def

lemma collect_announced:
  fixes p s a t :: bool
  assumes ok: "announcement_ok w" and f: "f \<in> announcement_facts w"
  defines "p' \<equiv> p \<or> f = RPointer (full_name w)" and "s' \<equiv> s \<or> f = RService (service w)"
    and "a' \<equiv> a \<or> f = RAddress (srv_target (service w)) (host_address w)"
    and "t' \<equiv> t \<or> f = RText (svc_text w)"
  shows "\<exists>new. collect f (announced w p s a t, upd) = (announced w p' s' a' t', upd @ new) \<and>
    (p' \<and> s' \<and> a' \<and> t' \<and> \<not> (p \<and> s \<and> a \<and> t) \<longrightarrow> announced_device w True True \<in> set new)"
proof -
  note [simp] = instance_name_full [OF ok] name_matches_key [OF ok]
  have n: "srv_name (service w) = full_name w" "txt_name (svc_text w) = full_name w"
    "host_address w \<noteq> []" using ok by (simp_all add: announcement_ok_def)
  have k: "device_key (announced_device w a t) = device_key (announced_device w True True)" for a t
    by (rule announced_key)
  consider "f = RAddress (srv_target (service w)) (host_address w)" | "f = RPointer (full_name w)"
    | "f = RService (service w)" | "f = RText (svc_text w)"
    using f by (auto simp: announcement_facts_def)
  then show ?thesis
  proof cases
    case 1
    then show ?thesis using n
      by (cases p; cases s; cases a)
        (auto simp: p'_def s'_def a'_def t'_def announced_defs device_key_def)
  next
    case 2
    then show ?thesis using n
      by (cases p; cases s; cases a)
        (auto simp: p'_def s'_def a'_def t'_def announced_defs device_key_def)
  next
    case 3
    then show ?thesis using n
      by (cases p; cases s; cases a)
        (auto simp: p'_def s'_def a'_def t'_def announced_defs device_key_def)
  next
    case 4
    have m: "name_matches (full_name w) (device_key (announced_device w a t))" by simp
    show ?thesis using 4 n m
      by (cases p; cases s)
        (auto simp: p'_def s'_def a'_def t'_def announced_def announced_device_def device_key_def
          Let_def)
  qed
qed

lemma fold_collect_announced:
  fixes p s a t :: bool
  assumes ok: "announcement_ok w" and fs: "set fs \<subseteq> announcement_facts w"
  defines "p' \<equiv> p \<or> RPointer (full_name w) \<in> set fs"
    and "s' \<equiv> s \<or> RService (service w) \<in> set fs"
    and "a' \<equiv> a \<or> RAddress (srv_target (service w)) (host_address w) \<in> set fs"
    and "t' \<equiv> t \<or> RText (svc_text w) \<in> set fs"
  shows "\<exists>new. fold collect fs (announced w p s a t, upd) = (announced w p' s' a' t', upd @ new) \<and>
    (p' \<and> s' \<and> a' \<and> t' \<and> \<not> (p \<and> s \<and> a \<and> t) \<longrightarrow> announced_device w True True \<in> set new)"
  using fs unfolding p'_def s'_def a'_def t'_def
proof (induction fs arbitrary: p s a t upd)
  case (Cons f fs)
  have f: "f \<in> announcement_facts w" and more: "set fs \<subseteq> announcement_facts w"
    using Cons.prems by auto
  let ?p = "p \<or> f = RPointer (full_name w)" and ?s = "s \<or> f = RService (service w)"
  let ?a = "a \<or> f = RAddress (srv_target (service w)) (host_address w)"
  let ?t = "t \<or> f = RText (svc_text w)"
  obtain new where new: "collect f (announced w p s a t, upd) = (announced w ?p ?s ?a ?t, upd @ new)"
      "?p \<and> ?s \<and> ?a \<and> ?t \<and> \<not> (p \<and> s \<and> a \<and> t) \<longrightarrow> announced_device w True True \<in> set new"
    using collect_announced [OF ok f, of p s a t upd] by (elim exE conjE) (rule that)
  obtain new' where new': "fold collect fs (announced w ?p ?s ?a ?t, upd @ new) =
      (announced w (?p \<or> RPointer (full_name w) \<in> set fs) (?s \<or> RService (service w) \<in> set fs)
        (?a \<or> RAddress (srv_target (service w)) (host_address w) \<in> set fs)
        (?t \<or> RText (svc_text w) \<in> set fs), (upd @ new) @ new')"
      "(?p \<or> RPointer (full_name w) \<in> set fs) \<and> (?s \<or> RService (service w) \<in> set fs) \<and>
        (?a \<or> RAddress (srv_target (service w)) (host_address w) \<in> set fs) \<and>
        (?t \<or> RText (svc_text w) \<in> set fs) \<and> \<not> (?p \<and> ?s \<and> ?a \<and> ?t) \<longrightarrow>
        announced_device w True True \<in> set new'"
    using Cons.IH [OF more, of ?p ?s ?a ?t "upd @ new"] by (elim exE conjE) (rule that)
  show ?case
  proof (intro exI conjI)
    show "fold collect (f # fs) (announced w p s a t, upd) =
      (announced w (p \<or> RPointer (full_name w) \<in> set (f # fs))
        (s \<or> RService (service w) \<in> set (f # fs))
        (a \<or> RAddress (srv_target (service w)) (host_address w) \<in> set (f # fs))
        (t \<or> RText (svc_text w) \<in> set (f # fs)), upd @ new @ new')"
      using new(1) new'(1) by (simp add: disj_assoc eq_commute [of f])
  qed (use new(2) new'(2) in auto)
qed simp

lemma announced_init: "announced w False False False False = new_collector"
  by (simp add: announced_def new_collector_def)

lemma announced_list:
  "device_list (devices_by_key (announced w True True True True)) = [announced_device w True True]"
  by (simp add: announced_def device_list_def)

subsection \<open>The maps stay consistent\<close>

definition device_entry_ok :: "string \<times> device \<Rightarrow> bool" where
  "device_entry_ok e \<longleftrightarrow> fst e = device_key (snd e) \<and> to_lower (peer_device_id (snd e)) = peer_device_id (snd e)
     \<and> 0 \<le> dev_port (snd e) \<and> dev_port (snd e) < 65536"

definition srv_entry_ok :: "string \<times> srv_record \<Rightarrow> bool" where
  "srv_entry_ok e \<longleftrightarrow> fst e = srv_name (snd e) \<and> has_suffix (fst e) service_suffix \<and>
     0 \<le> srv_port (snd e) \<and> srv_port (snd e) < 65536"

definition collector_inv :: "collector \<Rightarrow> bool" where
  "collector_inv c \<longleftrightarrow> wf_map (devices_by_key c) \<and> wf_map (srv_by_name c) \<and> wf_map (id_by_name c) \<and>
     (\<forall>e \<in> set (devices_by_key c). device_entry_ok e) \<and>
     (\<forall>e \<in> set (srv_by_name c). srv_entry_ok e) \<and>
     (\<forall>(_, i) \<in> set (id_by_name c). to_lower i = i) \<and>
     (\<forall>(n, _) \<in> set (ptr_targets c). has_suffix n service_suffix)"

definition fact_ok :: "dns_fact \<Rightarrow> bool" where
  "fact_ok f = (case f of
      RPointer n \<Rightarrow> has_suffix n service_suffix
    | RService srv \<Rightarrow> srv_entry_ok (srv_name srv, srv)
    | _ \<Rightarrow> True)"

lemma parse_srv_port:
  "parse_srv_record raw rr = Some (Inr srv) \<Longrightarrow> 0 \<le> srv_port srv \<and> srv_port srv < 65536"
  using uint_lt2p [of "u16_at (rr_data rr) 4"]
  by (auto simp: parse_srv_record_def bind_o_eq_Inr split: if_split_asm)

lemma read_record_pointer:
  "read_record raw rr = Some (RPointer n) \<Longrightarrow> has_suffix n service_suffix"
  by (simp add: read_record_def split: if_split_asm option.split_asm sum.split_asm prod.split_asm)

lemma read_record_service:
  "read_record raw rr = Some (RService srv) \<Longrightarrow>
   parse_srv_record raw rr = Some (Inr srv) \<and> has_suffix (srv_name srv) service_suffix"
  by (simp add: read_record_def split: if_split_asm option.split_asm sum.split_asm prod.split_asm)

lemma read_record_ok: "read_record raw rr = Some f \<Longrightarrow> fact_ok f"
  by (cases f) (auto simp: fact_ok_def srv_entry_ok_def
      dest!: read_record_pointer read_record_service parse_srv_port)

lemma get_or_in: "get_or z m k = z \<or> (k, get_or z m k) \<in> set m"
  by (cases "map_of m k") (auto simp: get_or_def dest: map_of_SomeD)

lemma to_lower_Nil [simp]: "to_lower [] = []"
  by (simp add: to_lower_def)

lemma collector_id_lower: "collector_inv c \<Longrightarrow> to_lower (get_or [] (id_by_name c) n) = get_or [] (id_by_name c) n"
  using get_or_in [of "[]" "id_by_name c" n] by (auto simp: collector_inv_def)

lemma add_device_inv:
  assumes "wf_map m" "\<forall>e \<in> set m. device_entry_ok e" "to_lower pid = pid"
    "srv_entry_ok e" "snd e = srv"
  shows "wf_map (fst (add_device m i srv a pid)) \<and>
    (\<forall>e \<in> set (fst (add_device m i srv a pid)). device_entry_ok e)"
  using assms
  by (auto simp: add_device_def Let_def set_map_put device_entry_ok_def srv_entry_ok_def
      split: option.splits)

lemma add_known_inv:
  assumes "collector_inv (fst st)" "srv_entry_ok e" "snd e = srv"
  shows "collector_inv (fst (add_known i srv a st)) \<and>
    srv_by_name (fst (add_known i srv a st)) = srv_by_name (fst st) \<and>
    ptr_targets (fst (add_known i srv a st)) = ptr_targets (fst st)"
proof -
  obtain c upd where st: "st = (c, upd)" by (cases st)
  have "wf_map (fst (add_device (devices_by_key c) i srv a (get_or [] (id_by_name c) i))) \<and>
      (\<forall>e \<in> set (fst (add_device (devices_by_key c) i srv a (get_or [] (id_by_name c) i))).
        device_entry_ok e)"
    using assms st collector_id_lower [of c i]
    by (intro add_device_inv) (auto simp: collector_inv_def)
  then show ?thesis
    using assms(1) by (simp add: st add_known_def case_prod_unfold Let_def collector_inv_def)
qed

lemma srv_entries: "collector_inv c \<Longrightarrow> map_of (srv_by_name c) n = Some srv \<Longrightarrow> srv_entry_ok (n, srv)"
  by (auto simp: collector_inv_def dest: map_of_SomeD)

lemma fold_inv:
  assumes "P s" "\<And>x t. x \<in> set xs \<Longrightarrow> P t \<Longrightarrow> P (f x t)"
  shows "P (fold f xs s)"
  using assms
  by (induction xs arbitrary: s) auto

lemma set_update_sub: "set (map_put k v m) \<subseteq> insert (k, v) (set m)"
  by (induction m) auto

lemma map_keys_only: "map fst (map (\<lambda>(k, d). (k, g k d)) m) = map fst m"
  by (simp add: case_prod_unfold o_def)

lemma collect_inv:
  assumes "collector_inv c" "fact_ok f"
  shows "collector_inv (fst (collect f (c, upd)))"
proof (cases f)
  case (RAddress n a)
  let ?c = "c\<lparr>address_by_host := map_put n a (address_by_host c)\<rparr>"
  have c: "collector_inv ?c" using assms(1) by (simp add: collector_inv_def)
  have ok: "srv_entry_ok e" if "e \<in> set (srv_by_name c)" for e
    using that assms(1) by (simp add: collector_inv_def)
  have "collector_inv (fst (fold (\<lambda>(_, srv) st.
      if srv_target srv = n \<and> map_has (ptr_targets ?c) (srv_name srv)
      then add_known (srv_name srv) srv a st else st) (srv_by_name ?c) (?c, upd)))"
    by (rule fold_inv [where P = "\<lambda>st. collector_inv (fst st)"])
      (use c ok in \<open>auto intro!: add_known_inv [THEN conjunct1] split: prod.splits\<close>)
  then show ?thesis using RAddress by (simp add: Let_def)
next
  case (RPointer n)
  have c: "collector_inv (c\<lparr>ptr_targets := map_put n () (ptr_targets c)\<rparr>)"
  proof -
    have "set (map_put n () (ptr_targets c)) \<subseteq> insert (n, ()) (set (ptr_targets c))"
      by (rule set_update_sub)
    then show ?thesis using assms RPointer by (auto simp: collector_inv_def fact_ok_def)
  qed
  show ?thesis
    using c RPointer
    by (auto simp: Let_def intro!: add_known_inv [THEN conjunct1] srv_entries [OF assms(1)]
        split: option.splits)
next
  case (RService srv)
  have "collector_inv (c\<lparr>srv_by_name := map_put (srv_name srv) srv (srv_by_name c)\<rparr>)"
    using assms RService by (auto simp: collector_inv_def fact_ok_def set_map_put)
  then show ?thesis
    using assms(2) RService
    by (auto simp: Let_def fact_ok_def intro!: add_known_inv [THEN conjunct1])
next
  case (RText x)
  let ?pid = "text_id x"
  let ?m = "map (\<lambda>(key, d). (key, if name_matches (txt_name x) key
      then d\<lparr>peer_device_id := ?pid\<rparr> else d)) (devices_by_key c)"
  let ?i = "map_put (txt_name x) ?pid (id_by_name c)"
  have low: "to_lower ?pid = ?pid" by (simp add: text_id_def)
  have "map fst ?m = map fst (devices_by_key c)" by (simp add: case_prod_unfold o_def)
  then have keys: "wf_map ?m" using assms(1) by (simp only: collector_inv_def)
  have entries: "\<forall>e \<in> set ?m. device_entry_ok e"
    using assms(1) low by (auto simp: collector_inv_def device_entry_ok_def device_key_def)
  have ids: "\<forall>(_, i) \<in> set ?i. to_lower i = i"
    using assms(1) low set_update_sub [of "txt_name x" ?pid "id_by_name c"]
    by (auto simp: collector_inv_def)
  have "fst (collect f (c, upd)) = c\<lparr>id_by_name := ?i, devices_by_key := ?m\<rparr>"
    by (simp add: RText Let_def)
  then show ?thesis
    using assms(1) keys entries ids by (simp add: collector_inv_def)
next
  case RSkip
  then show ?thesis using assms by simp
qed

lemma ingest_records_inv:
  "ingest_records raw rrs st = Some st' \<Longrightarrow> collector_inv (fst st) \<Longrightarrow> collector_inv (fst st')"
proof (induction rrs arbitrary: st)
  case (Cons rr rrs)
  obtain f where f: "read_record raw rr = Some f" "ingest_records raw rrs (collect f st) = Some st'"
    using Cons.prems(1) by (auto split: option.splits)
  obtain c upd where st: "st = (c, upd)" by (cases st)
  have "collector_inv (fst (collect f st))"
    unfolding st by (rule collect_inv) (use Cons.prems(2) st read_record_ok [OF f(1)] in simp_all)
  with Cons.IH [OF f(2)] show ?case .
qed simp

lemma new_collector_inv: "collector_inv new_collector"
  by (simp add: collector_inv_def new_collector_def)

lemma ingest_inv:
  assumes "collector_inv c" "ingest raw c = Some (c', upd)"
  shows "collector_inv c'"
proof (cases "parse_packet raw")
  case (Some r)
  show ?thesis
  proof (cases r)
    case (Inr p)
    then show ?thesis
      using assms Some ingest_records_inv [of raw "answers p @ additional p" "(c, [])" "(c', upd)"]
      by (simp add: ingest_def)
  qed (use assms Some in \<open>simp add: ingest_def\<close>)
qed (use assms in \<open>simp add: ingest_def\<close>)

interpretation ingesting: step_system "\<lambda>c. c = new_collector"
    "\<lambda>c c'. \<exists>raw upd. ingest raw c = Some (c', upd)" collector_inv
  by unfold_locales (auto simp: new_collector_inv intro: ingest_inv)

subsection \<open>The list does not depend on the order of the map\<close>

lemma rank_of_key: "rank_of d = rank_of e \<Longrightarrow> device_key d = device_key e"
  by (simp add: rank_of_def device_key_def)

lemma rank_inj:
  assumes "wf_map m" "\<forall>e \<in> set m. device_entry_ok e"
  shows "distinct (map rank_of (map snd m))"
  using assms
proof (induction m)
  case (Cons e m)
  have "rank_of (snd e) \<noteq> rank_of (snd x)" if "x \<in> set m" for x
  proof
    assume "rank_of (snd e) = rank_of (snd x)"
    then have "fst e = fst x"
      using Cons.prems(2) that rank_of_key [of "snd e" "snd x"] by (simp add: device_entry_ok_def)
    then show False using Cons.prems(1) that by simp
  qed
  then have "rank_of (snd e) \<notin> rank_of ` snd ` set m" by blast
  then show ?case using Cons by auto
qed simp

lemma device_list_sorted:
  assumes "wf_map m" "\<forall>e \<in> set m. device_entry_ok e"
  shows "sorted_wrt (<) (map rank_of (device_list m)) \<and> set (device_list m) = snd ` set m"
proof -
  have "distinct (map snd m)" "inj_on rank_of (set (map snd m))"
    using rank_inj [OF assms] by (simp_all only: distinct_map [of rank_of])
  then have "distinct (map rank_of (device_list m))"
    by (simp add: distinct_map [of rank_of] device_list_def)
  then show ?thesis by (simp add: strict_sorted_iff device_list_def)
qed

lemma device_list_order:
  assumes "wf_map m" "wf_map m'" "set m = set m'" "\<forall>e \<in> set m. device_entry_ok e"
  shows "device_list m = device_list m'"
proof -
  have ok: "\<forall>e \<in> set m'. device_entry_ok e" using assms by simp
  note s = device_list_sorted [OF assms(1,4)] device_list_sorted [OF assms(2) ok]
  have same: "set (device_list m) = set (device_list m')" using s assms(3) by simp
  have "set (map rank_of (device_list m)) = set (map rank_of (device_list m'))" using same by simp
  then have "map rank_of (device_list m) = map rank_of (device_list m')"
    using s strict_sorted_equal by blast
  moreover have "inj_on rank_of (set (device_list m) \<union> set (device_list m'))"
    using rank_inj [OF assms(1,4)] s same by (simp only: distinct_map [of rank_of]) simp
  ultimately show ?thesis by (rule map_inj_on)
qed

subsection \<open>Properties\<close>

text \<open>In whatever order the PTR, SRV, A and TXT records of a phone's announcement arrive, and
  however often each is repeated, the collector ends with exactly this device, complete with its
  address and identifier, and it was reported as updated in complete form.\<close>

theorem announcement_any_order:
  assumes "announcement_ok w" "set fs = announcement_facts w"
  shows "\<exists>c upd. fold collect fs (new_collector, []) = (c, upd) \<and>
    device_list (devices_by_key c) = [announced_device w True True] \<and>
    announced_device w True True \<in> set upd"
proof -
  have all: "RPointer (full_name w) \<in> set fs" "RService (service w) \<in> set fs"
    "RAddress (srv_target (service w)) (host_address w) \<in> set fs" "RText (svc_text w) \<in> set fs"
    using assms(2) by (simp_all add: announcement_facts_def)
  obtain new where "fold collect fs (announced w False False False False, []) =
      (announced w True True True True, [] @ new)" "announced_device w True True \<in> set new"
    using fold_collect_announced [OF assms(1), of fs False False False False "[]"] assms(2) all
    by auto
  then show ?thesis by (auto simp: announced_init announced_list)
qed

definition sample_announcement :: announcement where
  "sample_announcement =
     \<lparr>inst = ''Pixel'', service = \<lparr>srv_name = ''Pixel._quava._udp.local.'', srv_target = ''p.local.'',
        srv_port = 4242, srv_priority = 0, srv_weight = 0\<rparr>, host_address = ''10.0.0.7'',
      svc_text = \<lparr>txt_name = ''Pixel._quava._udp.local.'', attributes = [(''peer_device_id'', ''AB'')]\<rparr>\<rparr>"

lemma announcement_any_order_witness:
  "\<exists>c upd. fold collect [RText (svc_text sample_announcement), RService (service sample_announcement),
      RAddress ''p.local.'' ''10.0.0.7'', RPointer ''Pixel._quava._udp.local.'',
      RService (service sample_announcement)] (new_collector, []) = (c, upd) \<and>
    device_list (devices_by_key c) = [\<lparr>peer_device_id = ''ab'', dev_name = ''Pixel'',
      dev_host = ''p.local.'', dev_address = ''10.0.0.7'', dev_port = 4242\<rparr>]"
proof -
  have ok: "announcement_ok sample_announcement" by code_simp
  have f: "full_name sample_announcement = ''Pixel._quava._udp.local.''" by code_simp
  have s: "set [RText (svc_text sample_announcement), RService (service sample_announcement),
      RAddress ''p.local.'' ''10.0.0.7'', RPointer ''Pixel._quava._udp.local.'',
      RService (service sample_announcement)] = announcement_facts sample_announcement"
    unfolding announcement_facts_def f by (auto simp: sample_announcement_def)
  have d: "announced_device sample_announcement True True = \<lparr>peer_device_id = ''ab'', dev_name = ''Pixel'',
      dev_host = ''p.local.'', dev_address = ''10.0.0.7'', dev_port = 4242\<rparr>" by code_simp
  show ?thesis using announcement_any_order [OF ok s] d by metis
qed

text \<open>Whatever packets are ingested, the collector's maps stay consistent (keys match their
  devices, identifiers are lower case, ports are 16-bit, only Quava services are kept), and the
  list of devices is strictly sorted by name, host and port, so it does not depend on the order in
  which Go iterates over the map.\<close>

theorem collector_consistent:
  assumes "reach (\<lambda>c. c = new_collector) (\<lambda>c c'. \<exists>raw upd. ingest raw c = Some (c', upd)) c"
  shows "collector_inv c \<and> sorted_wrt (<) (map rank_of (device_list (devices_by_key c))) \<and>
    (\<forall>m. wf_map m \<and> set m = set (devices_by_key c) \<longrightarrow> device_list m = device_list (devices_by_key c))"
proof -
  have i: "collector_inv c" by (rule ingesting.reach_inv [OF assms])
  then have w: "wf_map (devices_by_key c)" "\<forall>e \<in> set (devices_by_key c). device_entry_ok e"
    by (simp_all add: collector_inv_def)
  have "device_list m = device_list (devices_by_key c)"
    if "wf_map m" "set m = set (devices_by_key c)" for m
    using device_list_order [OF that(1) w(1) that(2)] w(2) that(2) by simp
  then show ?thesis using i device_list_sorted [OF w] by blast
qed

lemma collector_consistent_witness:
  "\<exists>c. ingest (replicate 12 0) new_collector = Some (c, []) \<and> collector_inv c"
proof -
  have "ingest (replicate 12 0) new_collector = Some (new_collector, [])" by code_simp
  moreover from this have "reach (\<lambda>c. c = new_collector) (\<lambda>c c'. \<exists>raw upd. ingest raw c = Some (c', upd)) new_collector"
    by (intro reach_init) simp
  ultimately show ?thesis using collector_consistent by blast
qed

end
