(* ===== verification/Watcher.thy ===== *)
theory Watcher
  imports Discovery_Collector
begin

text \<open>
  The discovery watcher: \<open>libquava/discovery/watcher.go\<close>, with the choice of the network
  interface from \<open>client.go\<close>.

  Every critical section under the watcher's mutex is one function on its state; \<open>remember\<close> has
  two, the store and the broadcast, between which others may run. The
  channel \<open>changed\<close>, closed and replaced by \<open>broadcast\<close>, is its generation number: a
  goroutine that waits on generation \<open>g\<close> is woken once the number is no longer \<open>g\<close>. Times are
  nanoseconds; \<open>last_query\<close> is \<open>None\<close> before the first query (Go's zero time). \<open>watch_step\<close>
  interleaves the operations of the listener and of any number of sessions.
\<close>

definition seconds :: "int \<Rightarrow> int" where
  "seconds n = n * 1000000000"

definition query_backoff_start :: int where "query_backoff_start = seconds 3"
definition query_backoff_max :: int where "query_backoff_max = seconds 60"
definition min_query_gap :: int where "min_query_gap = seconds 2"

lemmas watcher_times =
  query_backoff_start_def query_backoff_max_def min_query_gap_def seconds_def

record watcher =
  w_client :: bool
  seen :: "(string, device) gomap"
  changed :: nat
  last_query :: "int option"

definition new_watcher :: watcher where
  "new_watcher = \<lparr>w_client = False, seen = [], changed = 0, last_query = None\<rparr>"

definition broadcast :: "watcher \<Rightarrow> watcher" where
  "broadcast w = w\<lparr>changed := Suc (changed w)\<rparr>"

definition set_client :: "bool \<Rightarrow> watcher \<Rightarrow> watcher" where
  "set_client c w = w\<lparr>w_client := c\<rparr>"

text \<open>The first critical section of \<open>remember\<close>, with whether a broadcast follows.\<close>

definition remember_store :: "device \<Rightarrow> watcher \<Rightarrow> watcher \<times> bool" where
  "remember_store d w =
     (let i = to_lower (peer_device_id d)
      in (w\<lparr>seen := map_put i d (seen w)\<rparr>,
          case map_of (seen w) i of
            None \<Rightarrow> True
          | Some p \<Rightarrow> dev_address p \<noteq> dev_address d \<or> dev_port p \<noteq> dev_port d))"

definition remember :: "device \<Rightarrow> watcher \<Rightarrow> watcher" where
  "remember d w = (case remember_store d w of (w', new) \<Rightarrow> if new then broadcast w' else w')"

definition forget :: "string \<Rightarrow> watcher \<Rightarrow> watcher" where
  "forget i w = w\<lparr>seen := map_del (canon i) (seen w)\<rparr>"

text \<open>\<open>ask now ok\<close>: the query is sent if there is a socket and the gap has passed; \<open>ok\<close> is
  whether \<open>WriteToUDP\<close> succeeded. The second component tells whether it went out.\<close>

definition ask :: "int \<Rightarrow> bool \<Rightarrow> watcher \<Rightarrow> watcher \<times> bool" where
  "ask now ok w =
     (if \<not> w_client w \<or> (case last_query w of None \<Rightarrow> False | Some t \<Rightarrow> now - t < min_query_gap)
      then (w, False)
      else if ok then (w\<lparr>last_query := Some now\<rparr>, True)
      else (w, False))"

text \<open>One packet in \<open>listen\<close>.\<close>

definition listen_packet :: "bytes \<Rightarrow> collector \<times> watcher \<Rightarrow> (collector \<times> watcher) option" where
  "listen_packet raw cw =
     (case ingest raw (fst cw) of
        None \<Rightarrow> None
      | Some (c, ds) \<Rightarrow>
          Some (c, fold (\<lambda>d w. if peer_device_id d \<noteq> [] \<and> dev_address d \<noteq> [] then remember d w else w)
                     ds (snd cw)))"

subsection \<open>Find\<close>

record finder =
  f_id :: string
  f_backoff :: int
  f_timer :: int
  f_gen :: nat

datatype find_outcome = Found device | Waiting finder | FindCancelled

datatype wake = WakeDone | WakeChanged | WakeTimer

definition find_look :: "watcher \<Rightarrow> finder \<Rightarrow> find_outcome" where
  "find_look w f =
     (case map_of (seen w) (f_id f) of
        Some d \<Rightarrow> Found d
      | None \<Rightarrow> Waiting (f\<lparr>f_gen := changed w\<rparr>))"

definition find_start :: "watcher \<Rightarrow> string \<Rightarrow> int \<Rightarrow> find_outcome" where
  "find_start w i now =
     find_look w \<lparr>f_id = canon i, f_backoff = query_backoff_start, f_timer = now, f_gen = 0\<rparr>"

definition find_wake :: "wake \<Rightarrow> int \<Rightarrow> bool \<Rightarrow> watcher \<Rightarrow> finder \<Rightarrow> watcher \<times> find_outcome" where
  "find_wake k now ok w f =
     (case k of
        WakeDone \<Rightarrow> (w, FindCancelled)
      | WakeChanged \<Rightarrow> (w, find_look w f)
      | WakeTimer \<Rightarrow>
          (let (w', _) = ask now ok w;
               f' = f\<lparr>f_timer := now + f_backoff f,
                      f_backoff := min (f_backoff f * 2) query_backoff_max\<rparr>
           in (w', find_look w' f')))"

subsection \<open>The interface\<close>

record ip_address =
  ip_net :: bool
  ip_v4 :: bool
  ip_loopback :: bool
  ip_text :: string

record net_interface =
  if_name :: string
  if_up :: bool
  if_multicast :: bool
  if_addrs :: "ip_address list option"

definition usable_interface :: "net_interface \<Rightarrow> bool" where
  "usable_interface i \<longleftrightarrow> if_up i \<and> if_multicast i \<and>
     (case if_addrs i of
        None \<Rightarrow> False
      | Some as \<Rightarrow> list_ex (\<lambda>a. ip_net a \<and> ip_v4 a \<and> \<not> ip_loopback a) as)"

definition find_mdns_interface :: "net_interface list option \<Rightarrow> net_interface option" where
  "find_mdns_interface is = (case is of None \<Rightarrow> None | Some l \<Rightarrow> find usable_interface l)"

definition current_interface :: "net_interface list option \<Rightarrow> (net_interface \<times> string) option" where
  "current_interface is =
     (case find_mdns_interface is of
        None \<Rightarrow> None
      | Some i \<Rightarrow>
          Some (i, if_name i @
            (case if_addrs i of
               None \<Rightarrow> []
             | Some as \<Rightarrow>
                 concat (map (\<lambda>a. if ip_net a \<and> ip_v4 a then ''|'' @ ip_text a else []) as))))"

subsection \<open>Queries are never closer together than the gap\<close>

text \<open>The watcher among its users, with whether the listener is about to broadcast, the clock and
  the times of the queries sent, the latest first.\<close>

record watch_sys =
  ws_watcher :: watcher
  ws_pending :: bool
  ws_now :: int
  ws_log :: "int list"

inductive watch_step :: "watch_sys \<Rightarrow> watch_sys \<Rightarrow> bool" where
  tick: "0 \<le> d \<Longrightarrow> watch_step s (s\<lparr>ws_now := ws_now s + d\<rparr>)"
| heard: "\<not> ws_pending s \<Longrightarrow> remember_store d (ws_watcher s) = (w, new) \<Longrightarrow>
    watch_step s (s\<lparr>ws_watcher := w, ws_pending := new\<rparr>)"
| signalled: "ws_pending s \<Longrightarrow>
    watch_step s (s\<lparr>ws_watcher := broadcast (ws_watcher s), ws_pending := False\<rparr>)"
| forgot: "watch_step s (s\<lparr>ws_watcher := forget i (ws_watcher s)\<rparr>)"
| socket: "watch_step s (s\<lparr>ws_watcher := set_client c (ws_watcher s)\<rparr>)"
| network: "watch_step s (s\<lparr>ws_watcher := broadcast (ws_watcher s)\<rparr>)"
| asked: "ask (ws_now s) ok (ws_watcher s) = (w, out) \<Longrightarrow>
    watch_step s (s\<lparr>ws_watcher := w, ws_log := (if out then ws_now s # ws_log s else ws_log s)\<rparr>)"

inductive_cases watch_stepE: "watch_step s t"

definition watch_init :: "watch_sys \<Rightarrow> bool" where
  "watch_init s \<longleftrightarrow> ws_watcher s = new_watcher \<and> \<not> ws_pending s \<and> ws_log s = []"

definition gaps_inv :: "watch_sys \<Rightarrow> bool" where
  "gaps_inv s \<longleftrightarrow>
     (case ws_log s of
        [] \<Rightarrow> last_query (ws_watcher s) = None
      | t # _ \<Rightarrow> last_query (ws_watcher s) = Some t \<and> t \<le> ws_now s) \<and>
     sorted_wrt (\<lambda>a b. b + min_query_gap \<le> a) (ws_log s)"

lemma broadcast_simps [simp]:
  "seen (broadcast w) = seen w" "last_query (broadcast w) = last_query w"
  "changed (broadcast w) = Suc (changed w)" "w_client (broadcast w) = w_client w"
  by (simp_all add: broadcast_def)

lemma set_client_simps [simp]:
  "seen (set_client c w) = seen w" "last_query (set_client c w) = last_query w"
  "changed (set_client c w) = changed w"
  by (simp_all add: set_client_def)

lemma remember_store_simps:
  assumes "remember_store d w = (w', new)"
  shows "last_query w' = last_query w" "changed w' = changed w"
    "seen w' = map_put (to_lower (peer_device_id d)) d (seen w)"
    "map_of (seen w) (to_lower (peer_device_id d)) = None \<Longrightarrow> new"
  using assms by (auto simp: remember_store_def Let_def split: option.splits)

lemma forget_simps [simp]:
  "last_query (forget i w) = last_query w" "changed (forget i w) = changed w"
  "seen (forget i w) = map_del (canon i) (seen w)"
  by (simp_all add: forget_def)

lemma ask_simps [simp]:
  "seen (fst (ask now ok w)) = seen w" "changed (fst (ask now ok w)) = changed w"
  by (auto simp: ask_def)

lemma ask_cases:
  assumes "ask now ok w = (w', out)"
  shows "\<not> out \<and> w' = w \<or> out \<and> w' = w\<lparr>last_query := Some now\<rparr> \<and>
    (\<forall>t. last_query w = Some t \<longrightarrow> t + min_query_gap \<le> now)"
  using assms by (auto simp: ask_def split: if_splits option.splits)

lemma gaps_step:
  assumes "gaps_inv s" "watch_step s t"
  shows "gaps_inv t"
  using assms(2)
proof cases
  case (heard d w new)
  then show ?thesis
    using assms(1) remember_store_simps(1) by (auto simp: gaps_inv_def split: list.splits)
next
  case (asked ok w out)
  show ?thesis
  proof (cases "ws_log s")
    case Nil
    then show ?thesis using assms(1) asked(1) ask_cases [OF asked(2)] by (auto simp: gaps_inv_def)
  next
    case (Cons x xs)
    then show ?thesis
      using assms(1) asked(1) ask_cases [OF asked(2)]
      by (auto simp: gaps_inv_def min_query_gap_def seconds_def)
  qed
qed (use assms(1) in \<open>auto simp: gaps_inv_def split: list.splits\<close>)

interpretation watching: step_system watch_init watch_step gaps_inv
proof unfold_locales
  show "watch_init s \<Longrightarrow> gaps_inv s" for s
    by (simp add: watch_init_def gaps_inv_def new_watcher_def)
qed (rule gaps_step)

subsection \<open>No announcement is missed\<close>

text \<open>What holds of a waiting \<open>Find\<close>: unless it has been woken, its device is still unknown.\<close>

definition waits :: "finder \<Rightarrow> watch_sys \<Rightarrow> bool" where
  "waits f s \<longleftrightarrow> f_gen f \<le> changed (ws_watcher s) \<and>
     (f_gen f = changed (ws_watcher s) \<and> \<not> ws_pending s \<longrightarrow> map_of (seen (ws_watcher s)) (f_id f) = None)"

lemma waits_step: "waits f s \<Longrightarrow> watch_step s t \<Longrightarrow> waits f t"
proof (erule watch_stepE)
  fix d w new assume "waits f s" "\<not> ws_pending s" and r: "remember_store d (ws_watcher s) = (w, new)"
    and "t = s\<lparr>ws_watcher := w, ws_pending := new\<rparr>"
  then show "waits f t"
    using remember_store_simps [OF r]
    by (cases "map_of (seen (ws_watcher s)) (to_lower (peer_device_id d))") (auto simp: waits_def)
next
  fix ok w out assume "waits f s" and a: "ask (ws_now s) ok (ws_watcher s) = (w, out)"
    and "t = s\<lparr>ws_watcher := w, ws_log := if out then ws_now s # ws_log s else ws_log s\<rparr>"
  then show "waits f t" using ask_cases [OF a] by (auto simp: waits_def)
qed (auto simp: waits_def)

lemma look_waits: "find_look (ws_watcher s) f = Waiting f' \<Longrightarrow> waits f' s \<and> f_id f' = f_id f"
  by (auto simp: find_look_def waits_def split: option.splits)

interpretation waiting: step_system "\<lambda>s. \<exists>g. find_look (ws_watcher s) g = Waiting f" watch_step "waits f"
  for f
  by unfold_locales (auto dest: look_waits intro: waits_step)

subsection \<open>Backoff\<close>

text \<open>The gap after the \<open>n\<close>-th query of one \<open>Find\<close>.\<close>

definition backoff_after :: "nat \<Rightarrow> int" where
  "backoff_after n = min (query_backoff_start * 2 ^ n) query_backoff_max"

fun find_timers :: "(int \<times> bool) list \<Rightarrow> watcher \<Rightarrow> finder \<Rightarrow> find_outcome" where
  "find_timers [] w f = Waiting f"
| "find_timers ((now, ok) # ts) w f =
     (case find_wake WakeTimer now ok w f of
        (w', Waiting f') \<Rightarrow> find_timers ts w' f'
      | (w', r) \<Rightarrow> r)"

lemma backoff_double: "min (backoff_after n * 2) query_backoff_max = backoff_after (Suc n)"
  by (simp add: backoff_after_def min_def watcher_times)

lemma find_wake_timer:
  "find_wake WakeTimer now ok w f = (w', Waiting f') \<Longrightarrow>
   f_timer f' = now + f_backoff f \<and> f_backoff f' = min (f_backoff f * 2) query_backoff_max"
  by (auto simp: find_wake_def find_look_def Let_def split: option.splits prod.splits)

lemma find_timers_backoff:
  "find_timers ts w f = Waiting f' \<Longrightarrow> f_backoff f = backoff_after n \<Longrightarrow> ts \<noteq> [] \<Longrightarrow>
   f_timer f' = fst (last ts) + backoff_after (n + length ts - 1) \<and>
   f_backoff f' = backoff_after (n + length ts)"
proof (induction ts arbitrary: w f n)
  case (Cons x ts)
  obtain now ok where x: "x = (now, ok)" by (cases x)
  obtain w1 f1 where step: "find_wake WakeTimer now ok w f = (w1, Waiting f1)"
      and more: "find_timers ts w1 f1 = Waiting f'"
    using Cons.prems(1) x by (auto split: prod.splits find_outcome.splits)
  have f1: "f_timer f1 = now + backoff_after n" "f_backoff f1 = backoff_after (Suc n)"
    using find_wake_timer [OF step] Cons.prems(2) backoff_double by auto
  show ?case
  proof (cases "ts = []")
    case True
    then show ?thesis using more f1 x by simp
  next
    case False
    then show ?thesis using Cons.IH [OF more f1(2) False] x by simp
  qed
qed simp

subsection \<open>Properties\<close>

text \<open>However the listener and the waiting sessions interleave, two multicast queries are
  never sent less than \<open>minQueryGap\<close> apart, in any pair of the queries ever sent.\<close>

theorem query_gap:
  assumes "reach watch_init watch_step s" "i < j" "j < length (ws_log s)"
  shows "ws_log s ! j + min_query_gap \<le> ws_log s ! i"
  using watching.reach_inv [OF assms(1)] assms(2,3)
  by (simp add: gaps_inv_def sorted_wrt_iff_nth_less)

lemma query_gap_witness:
  "\<exists>s. reach watch_init watch_step s \<and> ws_log s = [seconds 5, 0] \<and>
     ws_log s ! 1 + min_query_gap \<le> ws_log s ! 0"
proof -
  define w where "w c q = \<lparr>w_client = c, seen = [], changed = 0, last_query = q\<rparr>" for c q
  define s where "s c q t l = \<lparr>ws_watcher = w c q, ws_pending = False, ws_now = t, ws_log = l\<rparr>"
    for c q t l
  have 0: "reach watch_init watch_step (s False None 0 [])"
    by (rule reach_init) (simp add: watch_init_def s_def w_def new_watcher_def)
  have "watch_step (s False None 0 []) (s True None 0 [])"
    using socket [of "s False None 0 []" True] by (simp add: s_def w_def set_client_def)
  with 0 have 1: "reach watch_init watch_step (s True None 0 [])" by (rule reach_step)
  have "ask 0 True (w True None) = (w True (Some 0), True)" by (simp add: ask_def w_def)
  then have "watch_step (s True None 0 []) (s True (Some 0) 0 [0])"
    using asked [of "s True None 0 []" True] by (simp add: s_def)
  with 1 have 2: "reach watch_init watch_step (s True (Some 0) 0 [0])" by (rule reach_step)
  have "watch_step (s True (Some 0) 0 [0]) (s True (Some 0) (seconds 5) [0])"
    using tick [of "seconds 5" "s True (Some 0) 0 [0]"] by (simp add: s_def seconds_def)
  with 2 have 3: "reach watch_init watch_step (s True (Some 0) (seconds 5) [0])" by (rule reach_step)
  have "ask (seconds 5) True (w True (Some 0)) = (w True (Some (seconds 5)), True)"
    by (simp add: ask_def w_def seconds_def min_query_gap_def)
  then have "watch_step (s True (Some 0) (seconds 5) [0]) (s True (Some (seconds 5)) (seconds 5) [seconds 5, 0])"
    using asked [of "s True (Some 0) (seconds 5) [0]" True] by (simp add: s_def)
  with 3 have r: "reach watch_init watch_step (s True (Some (seconds 5)) (seconds 5) [seconds 5, 0])"
    by (rule reach_step)
  have l: "ws_log (s True (Some (seconds 5)) (seconds 5) [seconds 5, 0]) = [seconds 5, 0]"
    by (simp add: s_def)
  show ?thesis using query_gap [OF r, of 0 1] r l by auto
qed

text \<open>A waiting \<open>Find\<close> misses no announcement: after any steps of the others, if the device it
  looks for has become known, then the generation it waits on is over, so that it is woken,
  unless the listener is between storing the device and broadcasting it.\<close>

theorem find_is_woken:
  assumes "find_look (ws_watcher s) g = Waiting f" "watch_step\<^sup>*\<^sup>* s t"
    and "map_of (seen (ws_watcher t)) (f_id f) = Some d"
  shows "f_gen f < changed (ws_watcher t) \<or> ws_pending t"
proof -
  have "waits f s" using look_waits [OF assms(1)] by simp
  with assms(2) have "waits f t" by (rule waiting.steps_inv)
  then show ?thesis using assms(3) by (auto simp: waits_def)
qed

lemma find_is_woken_witness:
  "\<exists>f (t :: watch_sys) d. find_start new_watcher '' AB'' 0 = Waiting f \<and>
     map_of (seen (ws_watcher t)) (f_id f) = Some d \<and> ws_pending t"
proof -
  define s where "s = \<lparr>ws_watcher = new_watcher, ws_pending = False, ws_now = 0, ws_log = []\<rparr>"
  define d where "d = \<lparr>peer_device_id = ''ab'', dev_name = [], dev_host = [], dev_address = ''h'', dev_port = 1\<rparr>"
  define t where "t = \<lparr>ws_watcher = fst (remember_store d new_watcher), ws_pending = True,
      ws_now = 0, ws_log = []\<rparr>"
  have "remember_store d (ws_watcher s) = (fst (remember_store d new_watcher), True)"
    by (simp add: s_def remember_store_def new_watcher_def)
  then have "watch_step s t"
    using heard [of s d] by (simp add: s_def t_def)
  then have st: "watch_step\<^sup>*\<^sup>* s t" by blast
  let ?g = "\<lparr>f_id = canon '' AB'', f_backoff = query_backoff_start, f_timer = 0, f_gen = 0\<rparr>"
  have l: "find_look (ws_watcher s) ?g = Waiting ?g"
    by (simp add: find_look_def s_def new_watcher_def)
  have c: "canon '' AB'' = ''ab''" by code_simp
  have k: "map_of (seen (ws_watcher t)) (f_id ?g) = Some d"
    by (simp add: t_def remember_store_def new_watcher_def d_def c to_lower_def)
      (code_simp)
  have "f_gen ?g < changed (ws_watcher t) \<or> ws_pending t" by (rule find_is_woken [OF l st k])
  moreover have "find_start new_watcher '' AB'' 0 = Waiting ?g" using l by (simp add: find_start_def s_def)
  moreover have "ws_pending t" by (simp add: t_def)
  ultimately show ?thesis using k by blast
qed

text \<open>A \<open>Find\<close> whose device stays away queries with growing gaps: after \<open>n\<close> timers the next one
  fires \<open>3 s * 2^(n-1)\<close>, but at most 60 s, after the last.\<close>

theorem find_backs_off:
  assumes "find_start w i now = Waiting f" "find_timers ts w f = Waiting f'" "ts \<noteq> []"
  shows "f_timer f' = fst (last ts) + min (seconds 3 * 2 ^ (length ts - 1)) (seconds 60)"
proof -
  have "f_backoff f = backoff_after 0"
    using assms(1) by (auto simp: find_start_def find_look_def backoff_after_def watcher_times
        split: option.splits)
  from find_timers_backoff [OF assms(2) this assms(3)]
  show ?thesis by (simp add: backoff_after_def query_backoff_start_def query_backoff_max_def)
qed

lemma find_backs_off_witness:
  "\<exists>f f'. find_start new_watcher ''ab'' 0 = Waiting f \<and>
     find_timers [(0, True), (seconds 3, True), (seconds 9, False)] new_watcher f = Waiting f' \<and>
     f_timer f' = seconds 21"
proof -
  have s: "find_start new_watcher ''ab'' 0 =
      Waiting \<lparr>f_id = canon ''ab'', f_backoff = seconds 3, f_timer = 0, f_gen = 0\<rparr>"
    by (simp add: find_start_def find_look_def new_watcher_def query_backoff_start_def)
  obtain f' where t: "find_timers [(0, True), (seconds 3, True), (seconds 9, False)] new_watcher
      \<lparr>f_id = canon ''ab'', f_backoff = seconds 3, f_timer = 0, f_gen = 0\<rparr> = Waiting f'"
    by (simp add: find_wake_def find_look_def new_watcher_def ask_def Let_def)
  show ?thesis using find_backs_off [OF s t] s t by (auto simp: seconds_def)
qed

end
