(* ===== verification/Discovery_Loops.thy ===== *)
theory Discovery_Loops
  imports Watcher
begin

text \<open>
  The loops of discovery that own a socket: \<open>Client.Discover\<close> and \<open>Client.Find\<close>
  (\<open>libquava/discovery/client.go\<close>), \<open>Discover\<close> (\<open>connection.go\<close>), and \<open>run\<close> and \<open>listen\<close> of the watcher
  (\<open>watcher.go\<close>).

  A turn of a loop is a record of what the world does in it: whether the context has ended, the clock,
  and what the calls on the socket return. A loop runs over the list of its turns and returns \<open>None\<close> as
  long as it has not returned, because the turns are used up or because a name in a packet never ends.
\<close>

subsection \<open>The client\<close>

datatype socket_read = GotPacket bytes | TimedOut | ReadError

datatype discover_error =
    DiscInterface | DiscListen | DiscBuffer | DiscNoClient | DiscQuery | DiscWrite | DiscContext
  | DiscDeadline | DiscRead | DiscClose | DiscNotFound string

definition new_client_on :: "bool \<Rightarrow> bool \<Rightarrow> discover_error option" where
  "new_client_on listen_ok buffer_ok =
     (if \<not> listen_ok then Some DiscListen else if \<not> buffer_ok then Some DiscBuffer else None)"

definition new_client :: "net_interface list option \<Rightarrow> bool \<Rightarrow> bool \<Rightarrow> discover_error option" where
  "new_client ifs listen_ok buffer_ok =
     (case find_mdns_interface ifs of
        None \<Rightarrow> Some DiscInterface
      | Some _ \<Rightarrow> new_client_on listen_ok buffer_ok)"

text \<open>One turn: the context at its start, the clock, the query if one is due with the time after it, the
  deadline, the read, and the context after a failed read.\<close>

record search_turn =
  dt_done :: bool
  dt_now :: int
  dt_write_ok :: bool
  dt_asked :: int
  dt_deadline_ok :: bool
  dt_read :: socket_read
  dt_done_now :: bool

record search =
  sr_records :: collector
  sr_last :: int

datatype search_result = Hangs | Searching search | Ended "device list" "discover_error option"

definition socket_buffer :: nat where "socket_buffer = 4096"

definition is_target :: "string \<Rightarrow> device \<Rightarrow> bool" where
  "is_target target d \<longleftrightarrow> target \<noteq> [] \<and> peer_device_id d = target \<and> dev_address d \<noteq> []"

definition discover_turn :: "string \<Rightarrow> search_turn \<Rightarrow> search \<Rightarrow> search_result" where
  "discover_turn target t s =
     (let found = device_list (devices_by_key (sr_records s));
          due = dt_now t - sr_last s \<ge> seconds 2;
          s1 = (if due then s\<lparr>sr_last := dt_asked t\<rparr> else s)
      in if dt_done t then Ended found (Some DiscContext)
         else if due \<and> \<not> dt_write_ok t then Ended found (Some DiscWrite)
         else if \<not> dt_deadline_ok t then Ended found (Some DiscDeadline)
         else (case dt_read t of
             TimedOut \<Rightarrow> Searching s1
           | ReadError \<Rightarrow> Ended found (Some (if dt_done_now t then DiscContext else DiscRead))
           | GotPacket raw \<Rightarrow>
               (case ingest (take socket_buffer raw) (sr_records s) of
                  None \<Rightarrow> Hangs
                | Some (c, ds) \<Rightarrow>
                    (case find (is_target target) ds of
                       Some d \<Rightarrow> Ended [d] None
                     | None \<Rightarrow> Searching (s1\<lparr>sr_records := c\<rparr>)))))"

fun discover_loop ::
    "string \<Rightarrow> search_turn list \<Rightarrow> search \<Rightarrow> (device list \<times> discover_error option) option" where
  "discover_loop target [] s = None"
| "discover_loop target (t # ts) s =
     (case discover_turn target t s of
        Hangs \<Rightarrow> None
      | Searching s' \<Rightarrow> discover_loop target ts s'
      | Ended ds e \<Rightarrow> Some (ds, e))"

definition client_discover ::
    "bool \<Rightarrow> bool \<Rightarrow> int \<Rightarrow> search_turn list \<Rightarrow> string \<Rightarrow> (device list \<times> discover_error option) option" where
  "client_discover client write_ok now ts target =
     (if \<not> client then Some ([], Some DiscNoClient)
      else case build_ptr_query ''_quava._udp.local.'' of
        Inl _ \<Rightarrow> Some ([], Some DiscQuery)
      | Inr _ \<Rightarrow>
          if \<not> write_ok then Some ([], Some DiscWrite)
          else discover_loop target ts \<lparr>sr_records = new_collector, sr_last = now\<rparr>)"

definition client_find ::
    "bool \<Rightarrow> bool \<Rightarrow> int \<Rightarrow> search_turn list \<Rightarrow> string \<Rightarrow> (discover_error + device) option" where
  "client_find client write_ok now ts target =
     (case client_discover client write_ok now ts target of
        None \<Rightarrow> None
      | Some (ds, Some e) \<Rightarrow> Some (Inl e)
      | Some (ds, None) \<Rightarrow> Some (if ds = [] then Inl (DiscNotFound target) else Inr (hd ds)))"

text \<open>\<open>Discover\<close>: a client of its own, closed in the end; the error of \<open>Close\<close> is reported if there is
  no other.\<close>

definition discover_devices ::
    "discover_error option \<Rightarrow> bool \<Rightarrow> int \<Rightarrow> search_turn list \<Rightarrow> bool \<Rightarrow>
     (device list \<times> discover_error option) option" where
  "discover_devices opened write_ok now ts close_ok =
     (case opened of
        Some e \<Rightarrow> Some ([], Some e)
      | None \<Rightarrow>
          map_option (\<lambda>(ds, e). (ds, if e = None \<and> \<not> close_ok then Some DiscClose else e))
            (client_discover True write_ok now ts []))"

subsection \<open>The watcher's goroutine\<close>

definition interface_check_every :: int where "interface_check_every = seconds 5"

record listener =
  li_key :: string
  li_next :: int
  li_records :: collector

record listen_turn =
  lt_done :: bool
  lt_now :: int
  lt_interfaces :: "net_interface list option"
  lt_checked :: int
  lt_deadline_ok :: bool
  lt_read :: socket_read

definition moved_network :: "net_interface list option \<Rightarrow> listener \<Rightarrow> bool" where
  "moved_network ifs l \<longleftrightarrow>
     (case current_interface ifs of None \<Rightarrow> True | Some (_, key) \<Rightarrow> key \<noteq> li_key l)"

text \<open>The listener is \<open>None\<close> when \<open>listen\<close> has returned.\<close>

definition listen :: "listen_turn \<Rightarrow> listener \<Rightarrow> watcher \<Rightarrow> (listener option \<times> watcher) option" where
  "listen t l w =
     (let due = lt_now t > li_next l;
          l1 = (if due then l\<lparr>li_next := lt_checked t + interface_check_every\<rparr> else l)
      in if lt_done t \<or> (due \<and> moved_network (lt_interfaces t) l) \<or> \<not> lt_deadline_ok t then Some (None, w)
         else (case lt_read t of
             TimedOut \<Rightarrow> Some (Some l1, w)
           | ReadError \<Rightarrow> Some (None, w)
           | GotPacket raw \<Rightarrow>
               map_option (\<lambda>(c, w'). (Some (l1\<lparr>li_records := c\<rparr>), w'))
                 (listen_packet (take socket_buffer raw) (li_records l, w))))"

datatype watch_phase = WatchTop | WatchListening listener | WatchReturned

text \<open>A turn of the outer loop holds the context, the interfaces, whether the socket opened, the time, and
  whether the first query could be sent. Without a network, or without a socket, it only sleeps.\<close>

datatype watch_turn = AtTop bool "net_interface list option" bool int bool | InListen listen_turn

fun watch_run :: "watch_turn \<Rightarrow> watch_phase \<times> watcher \<Rightarrow> (watch_phase \<times> watcher) option" where
  "watch_run (AtTop done ifs opened now ask_ok) (WatchTop, w) =
     (if done then Some (WatchReturned, w)
      else case current_interface ifs of
        None \<Rightarrow> Some (WatchTop, w)
      | Some (_, key) \<Rightarrow>
          if \<not> opened then Some (WatchTop, w)
          else Some (WatchListening \<lparr>li_key = key, li_next = now + interface_check_every, li_records = new_collector\<rparr>,
                     fst (ask now ask_ok (broadcast (set_client True w)))))"
| "watch_run (InListen t) (WatchListening l, w) =
     (case listen t l w of
        None \<Rightarrow> None
      | Some (Some l', w') \<Rightarrow> Some (WatchListening l', w')
      | Some (None, w') \<Rightarrow> Some (WatchTop, set_client False w'))"
| "watch_run _ s = Some s"

text \<open>The goroutine among the sessions, which forget a device they could not reach and ask for it.\<close>

datatype watch_event = Turn watch_turn | Forgotten string | Queried int bool

fun watch_apply :: "watch_event \<Rightarrow> watch_phase \<times> watcher \<Rightarrow> (watch_phase \<times> watcher) option" where
  "watch_apply (Turn t) s = watch_run t s"
| "watch_apply (Forgotten i) (p, w) = Some (p, forget i w)"
| "watch_apply (Queried now ok) (p, w) = Some (p, fst (ask now ok w))"

fun watch_events :: "watch_event list \<Rightarrow> watch_phase \<times> watcher \<Rightarrow> (watch_phase \<times> watcher) option" where
  "watch_events [] s = Some s"
| "watch_events (e # es) s = (case watch_apply e s of None \<Rightarrow> None | Some s' \<Rightarrow> watch_events es s')"

subsection \<open>A packet is a list of facts\<close>

fun facts_of :: "bytes \<Rightarrow> resource_record list \<Rightarrow> dns_fact list option" where
  "facts_of raw [] = Some []"
| "facts_of raw (rr # rrs) =
     (case read_record raw rr of
        None \<Rightarrow> None
      | Some f \<Rightarrow> map_option ((#) f) (facts_of raw rrs))"

definition packet_facts :: "bytes \<Rightarrow> dns_fact list option" where
  "packet_facts raw =
     (case parse_packet raw of
        None \<Rightarrow> None
      | Some (Inl _) \<Rightarrow> Some []
      | Some (Inr p) \<Rightarrow> facts_of raw (answers p @ additional p))"

lemma ingest_records_facts:
  "ingest_records raw rrs st = map_option (\<lambda>fs. fold collect fs st) (facts_of raw rrs)"
  by (induction rrs arbitrary: st) (simp_all add: option.map_comp comp_def split: option.split)

lemma ingest_facts: "ingest raw c = map_option (\<lambda>fs. fold collect fs (c, [])) (packet_facts raw)"
  by (simp add: ingest_def packet_facts_def ingest_records_facts split: option.split sum.split)

lemma facts_ok: "facts_of raw rrs = Some fs \<Longrightarrow> list_all fact_ok fs"
  by (induction rrs arbitrary: fs) (auto split: option.splits dest: read_record_ok)

lemma packet_facts_ok: "packet_facts raw = Some fs \<Longrightarrow> list_all fact_ok fs"
  by (auto simp: packet_facts_def split: option.splits sum.splits dest: facts_ok)

subsection \<open>The search ends\<close>

definition readable :: "search_turn \<Rightarrow> bool" where
  "readable t \<longleftrightarrow> (case dt_read t of GotPacket raw \<Rightarrow> packet_facts (take socket_buffer raw) \<noteq> None | _ \<Rightarrow> True)"

lemma readable_turn: "readable t \<Longrightarrow> discover_turn target t s \<noteq> Hangs"
  by (auto simp: discover_turn_def readable_def ingest_facts Let_def split: socket_read.splits option.splits prod.splits)

lemma done_turn: "dt_done t \<Longrightarrow> \<exists>ds e. discover_turn target t s = Ended ds e"
  by (simp add: discover_turn_def Let_def)

lemma loop_ends:
  "list_all readable ts \<Longrightarrow> list_ex dt_done ts \<Longrightarrow> discover_loop target ts s \<noteq> None"
proof (induction ts arbitrary: s)
  case (Cons t ts)
  show ?case
  proof (cases "discover_turn target t s")
    case (Searching s')
    then have "\<not> dt_done t" using done_turn [of t target s] by auto
    then show ?thesis using Cons Searching by simp
  qed (use readable_turn [of t target s] Cons.prems in auto)
qed simp

subsection \<open>Every record of the phone arrives\<close>

definition of_announcement :: "announcement \<Rightarrow> device \<Rightarrow> bool" where
  "of_announcement w d \<longleftrightarrow> dev_name d = inst w \<and> dev_host d = srv_target (service w) \<and>
     dev_port d = srv_port (service w) \<and> (dev_address d = [] \<or> dev_address d = host_address w) \<and>
     (peer_device_id d = [] \<or> peer_device_id d = text_id (svc_text w))"

lemma of_announced: "of_announcement w (announced_device w a t)"
  by (simp add: of_announcement_def announced_device_def)

lemma target_of_announcement:
  "of_announcement w d \<Longrightarrow> is_target (text_id (svc_text w)) d \<Longrightarrow> d = announced_device w True True"
  by (auto simp: of_announcement_def is_target_def announced_device_def)

definition only_announced :: "announcement \<Rightarrow> collector \<Rightarrow> bool" where
  "only_announced w c \<longleftrightarrow> list_all (of_announcement w) (map snd (devices_by_key c)) \<and>
     (get_or [] (id_by_name c) (full_name w) = [] \<or> get_or [] (id_by_name c) (full_name w) = text_id (svc_text w))"

lemma only_announced: "only_announced w (announced w p s a t)"
  by (simp add: only_announced_def announced_def of_announced get_or_def)

lemma add_announced:
  assumes "announcement_ok w" "list_all (of_announcement w) upd" "a = [] \<or> a = host_address w" "only_announced w c"
  shows "list_all (of_announcement w) (snd (add_known (full_name w) (service w) a (c, upd)))"
  using assms(2-)
  by (auto simp: add_known_def add_device_def Let_def only_announced_def of_announcement_def
      instance_name_full [OF assms(1)] split: option.splits)

lemma collect_announced_shape:
  assumes ok: "announcement_ok w" and f: "f \<in> announcement_facts w" and u: "list_all (of_announcement w) upd"
  shows "list_all (of_announcement w) (snd (collect f (announced w p s a t, upd)))"
proof -
  have n: "srv_name (service w) = full_name w" "txt_name (svc_text w) = full_name w"
    using ok by (simp_all add: announcement_ok_def)
  consider "f = RAddress (srv_target (service w)) (host_address w)" | "f = RPointer (full_name w)"
    | "f = RService (service w)" | "f = RText (svc_text w)"
    using f by (auto simp: announcement_facts_def)
  then show ?thesis
  proof cases
    case 1
    let ?c = "(announced w p s a t)\<lparr>address_by_host :=
          map_put (srv_target (service w)) (host_address w) (address_by_host (announced w p s a t))\<rparr>"
    have "only_announced w ?c" using only_announced [of w p s a t] by (simp add: only_announced_def)
    note add = add_announced [OF ok u disjI2 [OF refl] this]
    have srv: "srv_by_name ?c = (if s then [(full_name w, service w)] else [])"
      "ptr_targets ?c = (if p then [(full_name w, ())] else [])" by (simp_all add: announced_def)
    show ?thesis using add u n unfolding 1 collect.simps Let_def srv by (cases s; cases p) simp_all
  next
    case 2
    define c where "c = (announced w p s a t)\<lparr>ptr_targets := map_put (full_name w) () (ptr_targets (announced w p s a t))\<rparr>"
    have "only_announced w c" using only_announced [of w p s a t] by (simp add: only_announced_def c_def)
    note add = add_announced [OF ok u _ this]
    have maps: "map_of (srv_by_name c) (full_name w) = (if s then Some (service w) else None)"
      "get_or [] (address_by_host c) (srv_target (service w)) = (if a then host_address w else [])"
      by (simp_all add: announced_def get_or_def c_def)
    have "collect f (announced w p s a t, upd) =
      (if s then add_known (full_name w) (service w) (if a then host_address w else []) (c, upd) else (c, upd))"
      unfolding 2 collect.simps Let_def c_def [symmetric] by (cases s) (simp_all add: maps)
    then show ?thesis using add u by simp
  next
    case 3
    let ?c = "(announced w p s a t)\<lparr>srv_by_name := map_put (full_name w) (service w) (srv_by_name (announced w p s a t))\<rparr>"
    have "only_announced w ?c" using only_announced [of w p s a t] by (simp add: only_announced_def)
    note add = add_announced [OF ok u _ this]
    have addr: "get_or [] (address_by_host ?c) (srv_target (service w)) = (if a then host_address w else [])"
      by (simp add: announced_def get_or_def)
    show ?thesis using add u unfolding 3 collect.simps Let_def n(1) addr by (simp split: if_split)
  next
    case 4
    then show ?thesis using u
      by (cases p; cases s) (auto simp: announced_def of_announcement_def announced_device_def Let_def)
  qed
qed

lemma fold_announced_shape:
  "announcement_ok w \<Longrightarrow> set fs \<subseteq> announcement_facts w \<Longrightarrow> list_all (of_announcement w) upd \<Longrightarrow>
   list_all (of_announcement w) (snd (fold collect fs (announced w p s a t, upd)))"
proof (induction fs arbitrary: p s a t upd)
  case (Cons f fs)
  have f: "f \<in> announcement_facts w" using Cons.prems(2) by simp
  obtain p' s' a' t' new where c: "collect f (announced w p s a t, upd) = (announced w p' s' a' t', new)"
    using collect_announced [OF Cons.prems(1) f, of p s a t upd] by blast
  have "list_all (of_announcement w) new"
    using collect_announced_shape [OF Cons.prems(1) f Cons.prems(3), of p s a t] c by simp
  then show ?case using Cons c by simp
qed simp

definition turn_facts :: "search_turn \<Rightarrow> dns_fact list" where
  "turn_facts t =
     (case dt_read t of
        GotPacket raw \<Rightarrow> (case packet_facts (take socket_buffer raw) of None \<Rightarrow> [] | Some fs \<Rightarrow> fs)
      | _ \<Rightarrow> [])"

text \<open>A turn in which nothing fails and only the phone is heard.\<close>

definition calm :: "announcement \<Rightarrow> search_turn \<Rightarrow> bool" where
  "calm w t \<longleftrightarrow> \<not> dt_done t \<and> dt_write_ok t \<and> dt_deadline_ok t \<and> dt_read t \<noteq> ReadError \<and> readable t \<and>
     list_all (\<lambda>f. f \<in> announcement_facts w) (turn_facts t)"

lemma calm_turn:
  assumes "calm w t"
  shows "discover_turn target t st =
    (case fold collect (turn_facts t) (sr_records st, []) of
       (c, ds) \<Rightarrow> (case find (is_target target) ds of
          Some d \<Rightarrow> Ended [d] None
        | None \<Rightarrow> Searching ((if dt_now t - sr_last st \<ge> seconds 2 then st\<lparr>sr_last := dt_asked t\<rparr> else st)\<lparr>sr_records := c\<rparr>)))"
proof (cases "dt_read t")
  case (GotPacket raw)
  then obtain fs where fs: "packet_facts (take socket_buffer raw) = Some fs"
    using assms by (auto simp: calm_def readable_def)
  have f: "turn_facts t = fs" using GotPacket fs by (simp add: turn_facts_def)
  show ?thesis using assms unfolding f
    by (simp add: discover_turn_def calm_def GotPacket ingest_facts fs Let_def)
qed (use assms in \<open>auto simp: discover_turn_def calm_def turn_facts_def Let_def\<close>)

lemma announced_target:
  "announcement_ok w \<Longrightarrow> text_id (svc_text w) \<noteq> [] \<Longrightarrow> is_target (text_id (svc_text w)) (announced_device w True True)"
  by (simp add: is_target_def announced_device_def announcement_ok_def)

lemma loop_finds:
  assumes ok: "announcement_ok w" and i: "text_id (svc_text w) \<noteq> []"
  shows "list_all (calm w) ts \<Longrightarrow> sr_records st = announced w p s a t \<Longrightarrow> \<not> (p \<and> s \<and> a \<and> t) \<Longrightarrow>
    p \<or> RPointer (full_name w) \<in> set (concat (map turn_facts ts)) \<Longrightarrow>
    s \<or> RService (service w) \<in> set (concat (map turn_facts ts)) \<Longrightarrow>
    a \<or> RAddress (srv_target (service w)) (host_address w) \<in> set (concat (map turn_facts ts)) \<Longrightarrow>
    t \<or> RText (svc_text w) \<in> set (concat (map turn_facts ts)) \<Longrightarrow>
    discover_loop (text_id (svc_text w)) ts st = Some ([announced_device w True True], None)"
proof (induction ts arbitrary: st p s a t)
  case (Cons x ts)
  let ?fs = "turn_facts x"
  have fs: "set ?fs \<subseteq> announcement_facts w" using Cons.prems(1) by (auto simp: calm_def list_all_iff)
  let ?p = "p \<or> RPointer (full_name w) \<in> set ?fs" and ?s = "s \<or> RService (service w) \<in> set ?fs"
  let ?a = "a \<or> RAddress (srv_target (service w)) (host_address w) \<in> set ?fs"
  let ?t = "t \<or> RText (svc_text w) \<in> set ?fs"
  obtain new where f: "fold collect ?fs (announced w p s a t, []) = (announced w ?p ?s ?a ?t, new)"
    and all: "?p \<and> ?s \<and> ?a \<and> ?t \<longrightarrow> announced_device w True True \<in> set new"
    using fold_collect_announced [OF ok fs, of p s a t "[]"] Cons.prems(3) unfolding append_Nil by (elim exE conjE) simp
  have shape: "list_all (of_announcement w) new"
    using fold_announced_shape [OF ok fs, of "[]" p s a t] f by simp
  have turn: "discover_turn (text_id (svc_text w)) x st =
      (case find (is_target (text_id (svc_text w))) new of
         Some d \<Rightarrow> Ended [d] None
       | None \<Rightarrow> Searching ((if dt_now x - sr_last st \<ge> seconds 2 then st\<lparr>sr_last := dt_asked x\<rparr> else st)
           \<lparr>sr_records := announced w ?p ?s ?a ?t\<rparr>))"
    using calm_turn [of w x "text_id (svc_text w)" st] Cons.prems(1,2) f by simp
  show ?case
  proof (cases "find (is_target (text_id (svc_text w))) new")
    case (Some d)
    then have "is_target (text_id (svc_text w)) d" "d \<in> set new" by (auto simp: find_Some_iff)
    then have "d = announced_device w True True"
      using shape target_of_announcement by (auto simp: list_all_iff)
    then show ?thesis using Some turn by simp
  next
    case None
    then have "\<not> (?p \<and> ?s \<and> ?a \<and> ?t)"
      using all announced_target [OF ok i] by (auto simp: find_None_iff)
    note open_facts = this
    let ?st = "(if dt_now x - sr_last st \<ge> seconds 2 then st\<lparr>sr_last := dt_asked x\<rparr> else st)
           \<lparr>sr_records := announced w ?p ?s ?a ?t\<rparr>"
    have "discover_loop (text_id (svc_text w)) ts ?st = Some ([announced_device w True True], None)"
    proof (rule Cons.IH [of ?st ?p ?s ?a ?t, OF _ _ open_facts])
      show "list_all (calm w) ts" using Cons.prems(1) by simp
      show "sr_records ?st = announced w ?p ?s ?a ?t" by simp
    qed (use Cons.prems(4-7) in \<open>simp_all only: list.map concat.simps set_append Un_iff disj_assoc\<close>)
    then show ?thesis unfolding discover_loop.simps turn None search_result.case option.case .
  qed
qed auto


text \<open>A search ends with its context: if every packet heard can be read and the context ends in one of
  the turns, \<open>Discover\<close> returns.\<close>

theorem search_ends_with_context:
  assumes "list_all readable ts" "list_ex dt_done ts"
  shows "client_discover client ok now ts target \<noteq> None"
  using loop_ends [OF assms] by (simp add: client_discover_def split: sum.split)

definition quiet_turn :: "bool \<Rightarrow> search_turn" where
  "quiet_turn over = \<lparr>dt_done = over, dt_now = 0, dt_write_ok = True, dt_asked = 0, dt_deadline_ok = True,
     dt_read = TimedOut, dt_done_now = False\<rparr>"

lemma search_ends_with_context_witness:
  "client_discover True True 0 [quiet_turn False, quiet_turn False, quiet_turn True] ''ab'' \<noteq> None"
  by (rule search_ends_with_context) (simp_all add: quiet_turn_def readable_def)

text \<open>A phone that announces itself in two packets: its address and identifier, then its service.\<close>

definition small_phone :: announcement where
  "small_phone = \<lparr>inst = ''P'', service = \<lparr>srv_name = ''P._quava._udp.local.'', srv_target = ''p.'',
       srv_port = 1, srv_priority = 0, srv_weight = 0\<rparr>, host_address = ''10.0.0.7'',
     svc_text = \<lparr>txt_name = ''P._quava._udp.local.'', attributes = [(''peer_device_id'', ''ab'')]\<rparr>\<rparr>"

definition address_packet :: bytes where
  "address_packet = [0, 0, 132, 0, 0, 0, 0, 2, 0, 0, 0, 0, 1, 112, 0, 0, 1, 0, 1, 0, 0, 0, 120, 0, 4, 10, 0, 0, 7, 1,
     80, 6, 95, 113, 117, 97, 118, 97, 4, 95, 117, 100, 112, 5, 108, 111, 99, 97, 108, 0, 0, 16, 0, 1, 0,
     0, 0, 120, 0, 18, 17, 112, 101, 101, 114, 95, 100, 101, 118, 105, 99, 101, 95, 105, 100, 61, 97, 98]"

definition service_packet :: bytes where
  "service_packet = [0, 0, 132, 0, 0, 0, 0, 2, 0, 0, 0, 0, 6, 95, 113, 117, 97, 118, 97, 4, 95, 117, 100, 112, 5, 108,
     111, 99, 97, 108, 0, 0, 12, 0, 1, 0, 0, 0, 120, 0, 21, 1, 80, 6, 95, 113, 117, 97, 118, 97, 4, 95,
     117, 100, 112, 5, 108, 111, 99, 97, 108, 0, 1, 80, 6, 95, 113, 117, 97, 118, 97, 4, 95, 117, 100,
     112, 5, 108, 111, 99, 97, 108, 0, 0, 33, 0, 1, 0, 0, 0, 120, 0, 9, 0, 0, 0, 0, 0, 1, 1, 112, 0]"

lemma small_packets:
  "packet_facts (take socket_buffer address_packet) = Some [RAddress ''p.'' ''10.0.0.7'', RText (svc_text small_phone)]"
  "packet_facts (take socket_buffer service_packet) = Some [RPointer ''P._quava._udp.local.'', RService (service small_phone)]"
proof -
  have t: "take socket_buffer address_packet = address_packet" "take socket_buffer service_packet = service_packet"
    by (simp_all add: socket_buffer_def address_packet_def service_packet_def)
  show "packet_facts (take socket_buffer address_packet) = Some [RAddress ''p.'' ''10.0.0.7'', RText (svc_text small_phone)]"
    unfolding t by code_simp
  show "packet_facts (take socket_buffer service_packet) = Some [RPointer ''P._quava._udp.local.'', RService (service small_phone)]"
    unfolding t by code_simp
qed

lemma small_phone_facts:
  "announcement_ok small_phone" "text_id (svc_text small_phone) = ''ab''"
  "announcement_facts small_phone = {RAddress ''p.'' ''10.0.0.7'', RPointer ''P._quava._udp.local.'',
     RService (service small_phone), RText (svc_text small_phone)}"
proof -
  show "announcement_ok small_phone" by code_simp
  show "text_id (svc_text small_phone) = ''ab''" by code_simp
  have "full_name small_phone = ''P._quava._udp.local.''" by code_simp
  then show "announcement_facts small_phone = {RAddress ''p.'' ''10.0.0.7'', RPointer ''P._quava._udp.local.'',
     RService (service small_phone), RText (svc_text small_phone)}"
    by (simp add: announcement_facts_def) (simp add: small_phone_def)
qed

definition packet_turn :: "bytes \<Rightarrow> search_turn" where
  "packet_turn raw = (quiet_turn False)\<lparr>dt_read := GotPacket raw\<rparr>"


subsection \<open>A phone with a new address\<close>

text \<open>The device under key \<open>k\<close> has address \<open>a\<close>, and so has what is passed on under that key.\<close>

definition pinned :: "string \<Rightarrow> string \<Rightarrow> collector \<times> device list \<Rightarrow> bool" where
  "pinned k a st \<longleftrightarrow> (\<exists>d. map_of (devices_by_key (fst st)) k = Some d \<and> dev_address d = a) \<and>
     list_all (\<lambda>d. device_key d = k \<longrightarrow> dev_address d = a) (snd st)"

lemma pinned_add:
  "pinned k a st \<Longrightarrow> a \<noteq> [] \<Longrightarrow> pinned k a (add_known i srv b st)"
  by (cases st)
    (auto simp: pinned_def add_known_def add_device_def Let_def device_key_def split: option.splits if_splits)

lemma map_of_keyed: "map_of (map (\<lambda>(k, v). (k, f k v)) m) k = map_option (f k) (map_of m k)"
  by (induction m) auto

lemma known_entry:
  assumes "collector_inv c" "(key, d) \<in> set (devices_by_key c)"
  shows "key = device_key d \<and> map_of (devices_by_key c) key = Some d"
proof -
  have w: "wf_map (devices_by_key c)" and e: "\<forall>e \<in> set (devices_by_key c). device_entry_ok e"
    using assms(1) unfolding collector_inv_def by blast+
  have "key = device_key d" using bspec [OF e assms(2)] by (simp only: device_entry_ok_def fst_conv snd_conv)
  moreover have "map_of (devices_by_key c) key = Some d" using assms(2) unfolding map_entry [OF w] .
  ultimately show ?thesis ..
qed

lemma pinned_fold:
  assumes "a \<noteq> []" "pinned k a (c, upd)"
  shows "pinned k a (fold (\<lambda>(_, srv) st. if srv_target srv = n \<and> P srv then add_known (srv_name srv) srv b st else st) m (c, upd))"
  by (rule fold_inv [where P = "pinned k a", OF assms(2)]) (simp add: case_prod_unfold pinned_add [OF _ assms(1)])

lemma pinned_address:
  assumes "a \<noteq> []" "pinned k a (c, upd)"
  shows "pinned k a (collect (RAddress n b) (c, upd))"
  unfolding collect.simps Let_def by (rule pinned_fold [OF assms(1)]) (use assms(2) in \<open>simp add: pinned_def\<close>)

lemma pinned_pointer:
  assumes "a \<noteq> []" "pinned k a (c, upd)"
  shows "pinned k a (collect (RPointer n) (c, upd))"
proof -
  have "pinned k a (c\<lparr>ptr_targets := m\<rparr>, upd)" for m using assms(2) by (simp add: pinned_def)
  then show ?thesis using pinned_add [OF _ assms(1)] by (auto simp: Let_def split: option.split)
qed

lemma pinned_service:
  assumes "a \<noteq> []" "pinned k a (c, upd)"
  shows "pinned k a (collect (RService s) (c, upd))"
proof -
  have "pinned k a (c\<lparr>srv_by_name := m\<rparr>, upd)" for m using assms(2) by (simp add: pinned_def)
  then show ?thesis using pinned_add [OF _ assms(1)] by (auto simp: Let_def)
qed

lemma pinned_text:
  assumes "collector_inv c" "pinned k a (c, upd)"
  shows "pinned k a (collect (RText txt) (c, upd))"
proof -
  let ?hit = "\<lambda>(key, d). name_matches (txt_name txt) key" and ?set = "\<lambda>d :: device. d\<lparr>peer_device_id := text_id txt\<rparr>"
  let ?g = "\<lambda>key d. if ?hit (key, d) then ?set d else d"
  obtain d where d: "map_of (devices_by_key c) k = Some d" "dev_address d = a" using assms(2) by (auto simp: pinned_def)
  have m: "map_of (map (\<lambda>(key, d). (key, ?g key d)) (devices_by_key c)) k = Some (?g k d)"
    unfolding map_of_keyed d(1) by (simp only: option.map)
  have "dev_address x = a" if "(key, x) \<in> set (devices_by_key c)" "device_key x = k" for key x
    using known_entry [OF assms(1) that(1)] that(2) d by auto
  then have new: "list_all (\<lambda>d. device_key d = k \<longrightarrow> dev_address d = a) (map (?set \<circ> snd) (filter ?hit (devices_by_key c)))"
    by (auto simp: list_all_iff device_key_def)
  have ga: "dev_address (?g k d) = a" using d(2) by simp
  have old: "list_all (\<lambda>d. device_key d = k \<longrightarrow> dev_address d = a) upd" using assms(2) by (simp add: pinned_def)
  show ?thesis unfolding collect.simps Let_def pinned_def fst_conv snd_conv list_all_append
    by (intro conjI exI [of _ "?g k d"] ga old new) (use m in simp)
qed

lemma pinned_collect:
  assumes "collector_inv c" "a \<noteq> []" "pinned k a (c, upd)"
  shows "pinned k a (collect f (c, upd))"
  using assms(3) pinned_address [OF assms(2,3)] pinned_pointer [OF assms(2,3)] pinned_service [OF assms(2,3)]
    pinned_text [OF assms(1,3)]
  by (cases f) (simp_all only: collect.simps(5))

lemma pinned_facts:
  "list_all fact_ok fs \<Longrightarrow> collector_inv (fst st) \<Longrightarrow> a \<noteq> [] \<Longrightarrow> pinned k a st \<Longrightarrow> pinned k a (fold collect fs st)"
proof (induction fs arbitrary: st)
  case (Cons f fs)
  obtain c upd where st: "st = (c, upd)" by (cases st)
  have "pinned k a (collect f st)" "collector_inv (fst (collect f st))"
    using pinned_collect [of c a k upd f] collect_inv [of c f upd] Cons.prems st by simp_all
  then show ?case using Cons by simp
qed simp

lemma pinned_ingest:
  assumes "ingest raw c = Some (c', ds)" "collector_inv c" "a \<noteq> []" "pinned k a (c, [])"
  shows "pinned k a (c', ds)"
proof -
  obtain fs where "packet_facts raw = Some fs" "fold collect fs (c, []) = (c', ds)"
    using assms(1) by (auto simp: ingest_facts)
  then show ?thesis using pinned_facts [of fs "(c, [])" a k] packet_facts_ok [of raw fs] assms(2-4) by simp
qed

definition known_as :: "string \<Rightarrow> string \<Rightarrow> watcher \<Rightarrow> bool" where
  "known_as k a w \<longleftrightarrow> list_all (\<lambda>(_, x). device_key x = k \<longrightarrow> dev_address x = a) (seen w)"

lemma known_as_remember:
  assumes "known_as k a w" "device_key d = k \<longrightarrow> dev_address d = a"
  shows "known_as k a (remember d w)"
proof -
  have "seen (remember d w) = map_put (to_lower (peer_device_id d)) d (seen w)"
    by (simp add: remember_def remember_store_def Let_def)
  then show ?thesis using assms set_update_sub [of "to_lower (peer_device_id d)" d "seen w"]
    by (auto simp: known_as_def list_all_iff)
qed

lemma known_as_forget: "known_as k a w \<Longrightarrow> known_as k a (forget i w)"
  by (auto simp: known_as_def list_all_iff set_map_del)

lemma known_as_seen: "seen w' = seen w \<Longrightarrow> known_as k a w' = known_as k a w"
  by (simp add: known_as_def)

lemma listen_packet_pinned:
  assumes "listen_packet raw (c, w) = Some (c', w')" "collector_inv c" "a \<noteq> []" "pinned k a (c, [])" "known_as k a w"
  shows "collector_inv c' \<and> pinned k a (c', []) \<and> known_as k a w'"
proof -
  obtain ds where i: "ingest raw c = Some (c', ds)"
    and w: "w' = fold (\<lambda>d w. if peer_device_id d \<noteq> [] \<and> dev_address d \<noteq> [] then remember d w else w) ds w"
    using assms(1) by (auto simp: listen_packet_def split: option.splits)
  have p: "pinned k a (c', ds)" by (rule pinned_ingest [OF i assms(2-4)])
  then have "device_key d = k \<longrightarrow> dev_address d = a" if "d \<in> set ds" for d
    using that by (simp add: pinned_def list_all_iff)
  then have "known_as k a w'" unfolding w
    by (intro fold_inv [where P = "known_as k a"]) (use assms(5) known_as_remember in auto)
  then show ?thesis using p ingest_inv [OF assms(2) i] by (simp add: pinned_def)
qed

definition stale :: "string \<Rightarrow> string \<Rightarrow> watch_phase \<times> watcher \<Rightarrow> bool" where
  "stale k a s \<longleftrightarrow> known_as k a (snd s) \<and>
     (case fst s of WatchListening l \<Rightarrow> collector_inv (li_records l) \<and> pinned k a (li_records l, []) | _ \<Rightarrow> True)"

fun same_network :: "watch_event \<Rightarrow> bool" where
  "same_network (Turn (AtTop done ifs opened now ok)) \<longleftrightarrow> False"
| "same_network _ \<longleftrightarrow> True"

lemma stale_listen:
  assumes "listen t l w = Some (r, w')" "a \<noteq> []" "stale k a (WatchListening l, w)"
  shows "known_as k a w' \<and> (case r of None \<Rightarrow> True | Some l' \<Rightarrow> stale k a (WatchListening l', w'))"
  using assms listen_packet_pinned [of _ "li_records l" w _ w' a k]
  by (auto simp: listen_def stale_def Let_def split: if_splits socket_read.splits)

lemma stale_apply:
  assumes "watch_apply e s = Some s'" "same_network e" "a \<noteq> []" "stale k a s"
  shows "stale k a s'"
proof -
  obtain p w where s: "s = (p, w)" by (cases s)
  consider t where "e = Turn (InListen t)" | i where "e = Forgotten i" | now ok where "e = Queried now ok"
    using assms(2) by (cases e rule: same_network.cases) auto
  then show ?thesis
  proof cases
    case 1
    show ?thesis
    proof (cases p)
      case (WatchListening l)
      obtain r w' where l: "listen t l w = Some (r, w')" using assms(1) 1 s WatchListening by (auto split: option.splits)
      show ?thesis using stale_listen [OF l assms(3)] assms(1,4) 1 s WatchListening l
        by (cases r) (auto simp: stale_def known_as_seen [of "set_client False w'" w'])
    qed (use assms 1 s in auto)
  next
    case 2
    then have "s' = (p, forget i w)" using assms(1) s by simp
    then show ?thesis using assms(4) s known_as_forget by (simp add: stale_def)
  next
    case 3
    then have "s' = (p, fst (ask now ok w))" using assms(1) s by simp
    then show ?thesis using assms(4) s known_as_seen [of "fst (ask now ok w)" w] by (simp add: stale_def)
  qed
qed
lemma stale_events:
  "watch_events es s = Some s' \<Longrightarrow> list_all same_network es \<Longrightarrow> a \<noteq> [] \<Longrightarrow> stale k a s \<Longrightarrow> stale k a s'"
  by (induction es arbitrary: s) (auto split: option.splits dest: stale_apply)

text \<open>C39. A phone that comes back with another address is not found while the host stays on its network: once
  the listener knows the phone under its name, host and port with an address, then whatever packets
  arrive, and though the sessions forget the phone after each failed attempt, every \<open>Find\<close> that
  returns it returns the old address.\<close>

theorem moved_phone_not_found:
  assumes "collector_inv (li_records l)" "map_of (devices_by_key (li_records l)) k = Some d" "dev_address d \<noteq> []"
    and "known_as k (dev_address d) w" "list_all same_network es"
    and "watch_events es (WatchListening l, w) = Some (p, w')"
    and "find_look w' f = Found x" "device_key x = k"
  shows "dev_address x = dev_address d"
proof -
  have "stale k (dev_address d) (p, w')"
    by (rule stale_events [OF assms(6,5,3)]) (use assms(1,2,4) in \<open>simp add: stale_def pinned_def\<close>)
  moreover have "(f_id f, x) \<in> set (seen w')"
    using assms(7) by (auto simp: find_look_def split: option.splits dest: map_of_SomeD)
  ultimately show ?thesis using assms(8) by (auto simp: stale_def known_as_def list_all_iff)
qed

text \<open>The small phone, heard again with the address 10.0.0.9 after a session has forgotten it.\<close>

definition moved_packet :: bytes where
  "moved_packet = [0, 0, 132, 0, 0, 0, 0, 2, 0, 0, 0, 0, 1, 112, 0, 0, 1, 0, 1, 0, 0, 0, 120, 0, 4, 10, 0, 0, 9, 1,
     80, 6, 95, 113, 117, 97, 118, 97, 4, 95, 117, 100, 112, 5, 108, 111, 99, 97, 108, 0, 0, 16, 0, 1, 0,
     0, 0, 120, 0, 18, 17, 112, 101, 101, 114, 95, 100, 101, 118, 105, 99, 101, 95, 105, 100, 61, 97, 98]"

lemma moved_facts:
  "packet_facts (take socket_buffer moved_packet) = Some [RAddress ''p.'' ''10.0.0.9'', RText (svc_text small_phone)]"
proof -
  have t: "take socket_buffer moved_packet = moved_packet" by (simp add: socket_buffer_def moved_packet_def)
  show ?thesis unfolding t by code_simp
qed

definition home_listener :: listener where
  "home_listener = \<lparr>li_key = ''wlan0|10.0.0.1'', li_next = 0, li_records = announced small_phone True True True True\<rparr>"

definition home_watcher :: watcher where
  "home_watcher = \<lparr>w_client = True, seen = [(''ab'', announced_device small_phone True True)], changed = 1, last_query = None\<rparr>"

definition hear :: "bytes \<Rightarrow> watch_event" where
  "hear raw = Turn (InListen \<lparr>lt_done = False, lt_now = 0, lt_interfaces = None, lt_checked = 0,
     lt_deadline_ok = True, lt_read = GotPacket raw\<rparr>)"

lemma moved_collected:
  "fold collect [RAddress ''p.'' ''10.0.0.9'', RText (svc_text small_phone)] (announced small_phone True True True True, []) =
   ((announced small_phone True True True True)\<lparr>address_by_host := [(''p.'', ''10.0.0.9'')]\<rparr>, [announced_device small_phone True True])"
  by code_simp

lemma moved_phone_not_found_witness:
  "\<exists>p w'. watch_events [Forgotten ''ab'', hear moved_packet] (WatchListening home_listener, home_watcher) = Some (p, w') \<and>
     find_look w' \<lparr>f_id = ''ab'', f_backoff = 0, f_timer = 0, f_gen = 0\<rparr> = Found (announced_device small_phone True True) \<and>
     dev_address (announced_device small_phone True True) = ''10.0.0.7''"
proof -
  let ?d = "announced_device small_phone True True" and ?f = "\<lparr>f_id = ''ab'', f_backoff = 0, f_timer = 0, f_gen = 0\<rparr>"
  have d: "peer_device_id ?d = ''ab''" "dev_address ?d = ''10.0.0.7''" "device_key ?d = ''P|p.|1''" by code_simp+
  have i: "ingest (take socket_buffer moved_packet) (li_records home_listener) =
      Some ((announced small_phone True True True True)\<lparr>address_by_host := [(''p.'', ''10.0.0.9'')]\<rparr>, [?d])"
    unfolding ingest_facts moved_facts option.map home_listener_def listener.simps moved_collected ..
  obtain p w' where e: "watch_events [Forgotten ''ab'', hear moved_packet] (WatchListening home_listener, home_watcher) = Some (p, w')"
    and w: "w' = remember ?d (forget ''ab'' home_watcher)"
  proof -
    have "listen_packet (take socket_buffer moved_packet) (li_records home_listener, forget ''ab'' home_watcher) =
        Some ((announced small_phone True True True True)\<lparr>address_by_host := [(''p.'', ''10.0.0.9'')]\<rparr>,
          remember ?d (forget ''ab'' home_watcher))"
      by (simp only: listen_packet_def fst_conv snd_conv i option.case prod.case) (simp add: d)
    then show ?thesis by (intro that) (simp_all add: hear_def listen_def Let_def home_listener_def)
  qed
  have f: "find_look w' ?f = Found ?d"
  proof -
    have "to_lower ''ab'' = ''ab''" by code_simp
    then show ?thesis by (simp add: w find_look_def remember_def remember_store_def Let_def d)
  qed
  have c: "collector_inv (li_records home_listener)" unfolding home_listener_def by simp code_simp
  have k: "map_of (devices_by_key (li_records home_listener)) ''P|p.|1'' = Some ?d"
    by (simp add: home_listener_def announced_def d)
  have n: "dev_address ?d \<noteq> []" by (simp add: d)
  have o: "known_as ''P|p.|1'' (dev_address ?d) home_watcher" by (simp add: known_as_def home_watcher_def)
  have s: "list_all same_network [Forgotten ''ab'', hear moved_packet]" by (simp add: hear_def)
  show ?thesis using moved_phone_not_found [OF c k n o s e f d(3)] e f d(2) by blast
qed

end
