(* ===== verification/Session_Events.thy ===== *)
theory Session_Events
  imports Wire_Message
begin

text \<open>
  What a session does with unsolicited messages: \<open>handleAndroidNotification\<close>,
  \<open>handleClearNotification\<close>, \<open>handleIncomingClipboard\<close>, \<open>handleCallState\<close>, \<open>handleDeviceStatus\<close>
  and \<open>handleUnpair\<close> (\<open>libquava/session\<close>: \<open>notifications.go\<close>, \<open>session.go\<close>, \<open>clipboard.go\<close>,
  \<open>callstate.go\<close>, \<open>devicestatus.go\<close>; the records of \<open>libquava/models\<close>).

  The host's callbacks are parameters: each is absent or tells, given everything that was asked of
  the host before, whether it succeeds. \<open>host_log\<close> is what was asked of the host, \<open>replies_sent\<close>
  the messages written, \<open>write_oks\<close> the outcomes of the next writes (a write beyond the list
  succeeds). The errors of a handler are a list, empty for \<open>nil\<close>; the caller only logs them.
\<close>

subsection \<open>The world of the handlers\<close>

record android_notification =
  an_key :: string
  an_app :: string
  an_title :: string
  an_body :: string
  an_icon :: bytes
  an_actions :: "(string \<times> bool) list"
  an_category :: string
  an_silent :: bool

record device_status =
  battery_percent :: int
  battery_state :: string
  plug :: string
  battery_temp :: float64
  network :: string
  wifi_level :: int
  wifi_rssi :: int
  cell_generation :: string
  cell_level :: int
  bluetooth :: bool
  airplane :: bool
  storage_free :: int
  storage_total :: int
  phone_model :: string
  android_version :: string
  updated_at :: int

datatype host_request =
    HostNotify android_notification | HostClose "32 word" | HostClipboard string bytes
  | HostMute bool | HostUnpair

record callbacks =
  on_android :: "(host_request list \<Rightarrow> android_notification \<Rightarrow> bool) option"
  close_notification :: "host_request list \<Rightarrow> 32 word \<Rightarrow> bool"
  on_clipboard :: "(host_request list \<Rightarrow> string \<Rightarrow> bytes \<Rightarrow> bool) option"
  on_call_mute :: "(host_request list \<Rightarrow> bool \<Rightarrow> bool) option"
  has_unpair :: bool

record event_world =
  host_log :: "host_request list"
  replies_sent :: "message list"
  write_oks :: "bool list"
  status_now :: "device_status option"

datatype handler_error =
    HdKey | HdWire wire_error | HdCallback | HdWrite | HdTooLong | HdNoClipboard | HdCallState

definition ask_host :: "host_request \<Rightarrow> event_world \<Rightarrow> event_world" where
  "ask_host r w = w\<lparr>host_log := host_log w @ [r]\<rparr>"

text \<open>\<open>conn.WriteMessage\<close> under the write mutex: did it succeed?\<close>

definition reply :: "message \<Rightarrow> event_world \<Rightarrow> bool \<times> event_world" where
  "reply m w =
     (case write_oks w of
        False # oks \<Rightarrow> (False, w\<lparr>write_oks := oks\<rparr>)
      | oks \<Rightarrow> (True, w\<lparr>write_oks := tl oks, replies_sent := replies_sent w @ [m]\<rparr>))"

definition reply_errors :: "bool \<Rightarrow> handler_error list" where
  "reply_errors ok = (if ok then [] else [HdWrite])"

definition ack_with :: "64 word \<Rightarrow> message \<Rightarrow> bool \<Rightarrow> message" where
  "ack_with t m ok = new_message t (transaction_id m) [(0, ABool ok)]"

subsection \<open>Notifications\<close>

definition any_string :: "any option \<Rightarrow> string" where
  "any_string v = (case v of Some (AString s) \<Rightarrow> s | _ \<Rightarrow> [])"

definition any_bool :: "any option \<Rightarrow> bool" where
  "any_bool v = (case v of Some (ABool b) \<Rightarrow> b | _ \<Rightarrow> False)"

definition android_notification_action :: "any \<Rightarrow> string \<times> bool" where
  "android_notification_action v =
     (case v of
        AMapAny kvs \<Rightarrow> (any_string (map_of kvs (AUint64 1)), any_bool (map_of kvs (AUint64 2)))
      | AMapUint kvs \<Rightarrow> (any_string (map_of kvs 1), any_bool (map_of kvs 2))
      | _ \<Rightarrow> ([], False))"

definition notification_actions :: "any option \<Rightarrow> (string \<times> bool) list" where
  "notification_actions v =
     (case v of
        Some (ASlice raws) \<Rightarrow> filter (\<lambda>(name, _). name \<noteq> []) (map android_notification_action raws)
      | _ \<Rightarrow> [])"

definition or_zero :: "'a \<Rightarrow> 'e + 'a \<Rightarrow> 'a" where
  "or_zero z r = (case r of Inl _ \<Rightarrow> z | Inr x \<Rightarrow> x)"

definition notification_of :: "payload \<Rightarrow> handler_error + android_notification" where
  "notification_of p =
     (case payload_string p 1 of
        Inl _ \<Rightarrow> Inl HdKey
      | Inr key \<Rightarrow>
          if key = [] then Inl HdKey
          else (case payload_string p 2 of
            Inl e \<Rightarrow> Inl (HdWire e)
          | Inr app \<Rightarrow>
              (case payload_string p 3 of
                 Inl e \<Rightarrow> Inl (HdWire e)
               | Inr title \<Rightarrow>
                   Inr \<lparr>an_key = key, an_app = app, an_title = title,
                        an_body = or_zero [] (payload_string p 4),
                        an_icon = (case map_of p 5 of None \<Rightarrow> [] | Some v \<Rightarrow> or_zero [] (payload_bytes [(0, v)] 0)),
                        an_actions = notification_actions (map_of p 6),
                        an_category = any_string (map_of p 7),
                        an_silent = any_bool (map_of p 8)\<rparr>)))"

definition handle_android_notification ::
    "callbacks \<Rightarrow> message \<Rightarrow> event_world \<Rightarrow> handler_error list \<times> event_world" where
  "handle_android_notification cb m w =
     (case notification_of (payload m) of
        Inl e \<Rightarrow> ([e], w)
      | Inr n \<Rightarrow>
          (let (ok, w1) = (case on_android cb of
                 None \<Rightarrow> (True, w)
               | Some f \<Rightarrow> (f (host_log w) n, ask_host (HostNotify n) w));
               (sent, w2) = reply (ack_with MessageTypeSyncNotificationAck m ok) w1
           in ((if ok then [] else [HdCallback]) @ reply_errors sent, w2)))"

definition handle_clear_notification ::
    "callbacks \<Rightarrow> message \<Rightarrow> event_world \<Rightarrow> handler_error list \<times> event_world" where
  "handle_clear_notification cb m w =
     (case payload_uint (payload m) 1 of
        Inl e \<Rightarrow> ([HdWire e], w)
      | Inr nid \<Rightarrow>
          (let (sent, w2) = reply (new_message MessageTypeClearNotificationAck (transaction_id m) [])
                              (ask_host (HostClose (ucast nid)) w)
           in (reply_errors sent, w2)))"

subsection \<open>Clipboard, calls and unpairing\<close>

definition handle_incoming_clipboard ::
    "callbacks \<Rightarrow> message \<Rightarrow> event_world \<Rightarrow> handler_error list \<times> event_world" where
  "handle_incoming_clipboard cb m w =
     (case payload_string (payload m) 1 of
        Inl e \<Rightarrow> ([HdWire e], w)
      | Inr ctype \<Rightarrow>
          (case payload_bytes (payload m) 2 of
             Inl e \<Rightarrow> ([HdWire e], w)
           | Inr content \<Rightarrow>
               (let (err, w1) =
                      (if length content > MaxClipboardBytes then ([HdTooLong], w)
                       else case on_clipboard cb of
                         None \<Rightarrow> ([HdNoClipboard], w)
                       | Some f \<Rightarrow> (if f (host_log w) ctype content then [] else [HdCallback],
                                    ask_host (HostClipboard ctype content) w));
                    (sent, w2) = reply (ack_with MessageTypeSyncClipboardAck m (err = [])) w1
                in (if sent then err else [HdWrite], w2))))"

definition handle_call_state ::
    "callbacks \<Rightarrow> message \<Rightarrow> event_world \<Rightarrow> handler_error list \<times> event_world" where
  "handle_call_state cb m w =
     (case payload_bool_opt (payload m) 0 of
        None \<Rightarrow> ([HdCallState], w)
      | Some in_call \<Rightarrow>
          (let (ok, w1) = (case on_call_mute cb of
                 None \<Rightarrow> (True, w)
               | Some f \<Rightarrow> (f (host_log w) in_call, ask_host (HostMute in_call) w));
               (sent, w2) = reply (ack_with MessageTypeCallStateAck m ok) w1
           in ((if ok then [] else [HdCallback]) @ reply_errors sent, w2)))"

definition handle_unpair :: "callbacks \<Rightarrow> message \<Rightarrow> event_world \<Rightarrow> event_world" where
  "handle_unpair cb m w =
     (case reply (ack_with MessageTypeUnpairAck m True) w of
        (_, w1) \<Rightarrow> if has_unpair cb then ask_host HostUnpair w1 else w1)"

subsection \<open>Device status\<close>

text \<open>\<open>int(value)\<close> of a float truncates; what is out of range gives the smallest integer, as on
  amd64 (Go leaves it to the platform).\<close>

definition float_to_int :: "float64 \<Rightarrow> int" where
  "float_to_int v =
     (case v of
        Fin r \<Rightarrow>
          (let i = (if r \<ge> 0 then \<lfloor>r\<rfloor> else \<lceil>r\<rceil>)
           in if - (2 ^ 63) \<le> i \<and> i < 2 ^ 63 then i else - (2 ^ 63))
      | _ \<Rightarrow> - (2 ^ 63))"

definition payload_int :: "payload \<Rightarrow> 64 word \<Rightarrow> int \<Rightarrow> int" where
  "payload_int p k fallback =
     (case map_of p k of
        Some (AInt64 w) \<Rightarrow> sint w
      | Some (AUint64 w) \<Rightarrow> sint w
      | Some (AInt w) \<Rightarrow> sint w
      | Some (AFloat64 v) \<Rightarrow> float_to_int v
      | _ \<Rightarrow> fallback)"

definition payload_float :: "payload \<Rightarrow> 64 word \<Rightarrow> float64" where
  "payload_float p k =
     (case map_of p k of
        Some (AFloat64 v) \<Rightarrow> v
      | Some (AFloat32 v) \<Rightarrow> v
      | Some (AInt64 w) \<Rightarrow> Fin (real_of_int (sint w))
      | Some (AUint64 w) \<Rightarrow> Fin (real (unat w))
      | _ \<Rightarrow> Fin 0)"

definition payload_text :: "payload \<Rightarrow> 64 word \<Rightarrow> string" where
  "payload_text p k = any_string (map_of p k)"

definition payload_flag :: "payload \<Rightarrow> 64 word \<Rightarrow> bool" where
  "payload_flag p k = any_bool (map_of p k)"

definition status_of :: "int \<Rightarrow> payload \<Rightarrow> device_status" where
  "status_of now p =
     \<lparr>battery_percent = payload_int p 0 (- 1), battery_state = payload_text p 1, plug = payload_text p 2,
      battery_temp = payload_float p 3, network = payload_text p 4, wifi_level = payload_int p 5 (- 1),
      wifi_rssi = payload_int p 6 0, cell_generation = payload_text p 7, cell_level = payload_int p 8 (- 1),
      bluetooth = payload_flag p 9, airplane = payload_flag p 10, storage_free = payload_int p 11 (- 1),
      storage_total = payload_int p 12 (- 1), phone_model = payload_text p 13,
      android_version = payload_text p 14, updated_at = now\<rparr>"

text \<open>Go's \<open>!=\<close> on the structs, without the time; NaN differs from itself.\<close>

definition status_changed :: "device_status \<Rightarrow> device_status \<Rightarrow> bool" where
  "status_changed a b \<longleftrightarrow> a\<lparr>updated_at := 0\<rparr> \<noteq> b\<lparr>updated_at := 0\<rparr> \<or> battery_temp a = NaN"

text \<open>The first component tells whether the new status is logged.\<close>

definition handle_device_status :: "int \<Rightarrow> message \<Rightarrow> event_world \<Rightarrow> bool \<times> event_world" where
  "handle_device_status now m w =
     (let st = status_of now (payload m)
      in (case status_now w of None \<Rightarrow> True | Some old \<Rightarrow> status_changed old st, w\<lparr>status_now := Some st\<rparr>))"

definition read_device_status :: "event_world \<Rightarrow> device_status option" where
  "read_device_status w = status_now w"

end
