(* ===== verification/Exchange.thy ===== *)
theory Exchange
  imports Secure_Channel
begin

text \<open>
  Conversations: the code of \<open>pairing.go\<close> and of the session handshake sends messages, waits
  for answers and returns early on every error. An \<open>exch\<close> is such a computation: a function
  on what the network and the disk do, whose result is an error or a value. \<open>ex_bind\<close> is the
  sequence of two steps with the early return of \<open>if err != nil\<close>.

  \<^item> \<open>inbox\<close>: the results of the next calls of \<open>ReadMessage\<close>; once it is used up, reading fails
    as on a closed connection.
  \<^item> \<open>write_results\<close>: the errors of the next calls of \<open>WriteMessage\<close>; a write beyond the list
    succeeds. \<open>outbox\<close>: the messages written.
  \<^item> \<open>disk\<close>: the files.
  \<^item> \<open>link\<close>: the connection's ciphers (theory \<open>Secure_Channel\<close>); \<open>sealed_from\<close> is the number of
    messages that were written before encryption was enabled, so every message of the outbox
    from that position on is sealed.
\<close>

record exchange =
  inbox :: "(wire_error + message) list"
  write_results :: "wire_error option list"
  outbox :: "message list"
  disk :: "(string, bytes) gomap"
  link :: conn
  sealed_from :: "nat option"

type_synonym ('e, 'a) exch = "exchange \<Rightarrow> ('e + 'a) \<times> exchange"

definition ex_bind :: "('e, 'a) exch \<Rightarrow> ('a \<Rightarrow> ('e, 'b) exch) \<Rightarrow> ('e, 'b) exch" where
  "ex_bind m f s = (case m s of (Inl e, s') \<Rightarrow> (Inl e, s') | (Inr x, s') \<Rightarrow> f x s')"

definition ex_lift :: "'e + 'a \<Rightarrow> ('e, 'a) exch" where
  "ex_lift r s = (r, s)"

text \<open>\<open>ex_check b e\<close> is \<open>if b { return e }\<close>.\<close>

definition ex_check :: "bool \<Rightarrow> 'e \<Rightarrow> ('e, unit) exch" where
  "ex_check b e s = (if b then Inl e else Inr (), s)"

definition ex_send :: "(wire_error \<Rightarrow> 'e) \<Rightarrow> message \<Rightarrow> ('e, unit) exch" where
  "ex_send wrap m s =
     (case write_results s of
        Some e # ws \<Rightarrow> (Inl (wrap e), s\<lparr>write_results := ws\<rparr>)
      | None # ws \<Rightarrow> (Inr (), s\<lparr>write_results := ws, outbox := outbox s @ [m]\<rparr>)
      | [] \<Rightarrow> (Inr (), s\<lparr>outbox := outbox s @ [m]\<rparr>))"

definition ex_recv :: "(wire_error \<Rightarrow> 'e) \<Rightarrow> ('e, message) exch" where
  "ex_recv wrap s =
     (case inbox s of
        [] \<Rightarrow> (Inl (wrap ErrUnexpectedEOF), s)
      | Inl e # ms \<Rightarrow> (Inl (wrap e), s\<lparr>inbox := ms\<rparr>)
      | Inr m # ms \<Rightarrow> (Inr m, s\<lparr>inbox := ms\<rparr>))"

definition ex_encrypt ::
    "aead_lib \<Rightarrow> (wire_error \<Rightarrow> 'e) \<Rightarrow> bytes \<Rightarrow> bytes \<Rightarrow> ('e, unit) exch" where
  "ex_encrypt L wrap send_key recv_key s =
     (case enable_encryption L send_key recv_key (link s) of
        Inl e \<Rightarrow> (Inl (wrap e), s)
      | Inr c \<Rightarrow> (Inr (), s\<lparr>link := c, sealed_from := Some (length (outbox s))\<rparr>))"

definition map_err :: "('e \<Rightarrow> 'f) \<Rightarrow> 'e + 'a \<Rightarrow> 'f + 'a" where
  "map_err g r = (case r of Inl e \<Rightarrow> Inl (g e) | Inr x \<Rightarrow> Inr x)"

lemma map_err_simps [simp]:
  "map_err g (Inl e) = Inl (g e)" "map_err g (Inr x) = Inr x"
  "map_err g r = Inr y \<longleftrightarrow> r = Inr y"
  by (simp_all add: map_err_def split: sum.splits)

named_theorems exch_simps \<open>evaluation of the steps of a conversation\<close>

lemma ex_bind_Inr [exch_simps]:
  "ex_bind m f s = (Inr y, t) \<longleftrightarrow> (\<exists>x u. m s = (Inr x, u) \<and> f x u = (Inr y, t))"
  by (auto simp: ex_bind_def split: prod.splits sum.splits)

lemma ex_bind_eq:
  "m s = (Inr x, u) \<Longrightarrow> ex_bind m f s = f x u"
  "m s = (Inl e, u) \<Longrightarrow> ex_bind m f s = (Inl e, u)"
  by (simp_all add: ex_bind_def)

lemma ex_lift_Inr [exch_simps]: "ex_lift r s = (Inr x, t) \<longleftrightarrow> r = Inr x \<and> t = s"
  by (auto simp: ex_lift_def)

lemma ex_check_Inr [exch_simps]: "ex_check b e s = (Inr u, t) \<longleftrightarrow> \<not> b \<and> t = s"
  by (auto simp: ex_check_def)

lemma ex_recv_Inr [exch_simps]:
  "ex_recv wrap s = (Inr m, t) \<longleftrightarrow> (\<exists>ms. inbox s = Inr m # ms \<and> t = s\<lparr>inbox := ms\<rparr>)"
  by (auto simp: ex_recv_def split: list.splits sum.splits)

lemma ex_send_Inr [exch_simps]:
  "ex_send wrap m s = (Inr u, t) \<longleftrightarrow>
   (write_results s = [] \<or> hd (write_results s) = None) \<and>
   t = s\<lparr>write_results := tl (write_results s), outbox := outbox s @ [m]\<rparr>"
  by (auto simp: ex_send_def split: list.splits option.splits)

lemma ex_encrypt_Inr [exch_simps]:
  "ex_encrypt L wrap k1 k2 s = (Inr u, t) \<longleftrightarrow>
   (\<exists>c. enable_encryption L k1 k2 (link s) = Inr c \<and>
     t = s\<lparr>link := c, sealed_from := Some (length (outbox s))\<rparr>)"
  by (auto simp: ex_encrypt_def split: sum.splits)

text \<open>The same facts as elimination rules, for a computation of many steps.\<close>

lemma ex_bindE:
  "ex_bind m f s = (Inr y, t) \<Longrightarrow>
   (\<And>x u. m s = (Inr x, u) \<Longrightarrow> f x u = (Inr y, t) \<Longrightarrow> P) \<Longrightarrow> P"
  by (auto simp: ex_bind_Inr)

lemma ex_liftE: "ex_lift r s = (Inr x, t) \<Longrightarrow> (r = Inr x \<Longrightarrow> s = t \<Longrightarrow> P) \<Longrightarrow> P"
  by (auto simp: ex_lift_def)

lemma ex_checkE: "ex_check b e s = (Inr x, t) \<Longrightarrow> (\<not> b \<Longrightarrow> s = t \<Longrightarrow> P) \<Longrightarrow> P"
  by (simp add: ex_check_Inr)

lemma ex_recvE:
  "ex_recv wrap s = (Inr m, t) \<Longrightarrow> (\<And>ms. inbox s = Inr m # ms \<Longrightarrow> t = s\<lparr>inbox := ms\<rparr> \<Longrightarrow> P) \<Longrightarrow> P"
  by (auto simp: ex_recv_Inr)

lemma map_errE: "map_err g r = Inr x \<Longrightarrow> (r = Inr x \<Longrightarrow> P) \<Longrightarrow> P"
  by simp

lemma sum_eqE: "Inr x = Inr y \<Longrightarrow> (x = y \<Longrightarrow> P) \<Longrightarrow> P"
  by simp

lemma case_prod_stepE:
  "(case p of (a, b) \<Rightarrow> f a b) s = r \<Longrightarrow> (\<And>a b. p = (a, b) \<Longrightarrow> f a b s = r \<Longrightarrow> P) \<Longrightarrow> P"
  by (cases p) auto

lemma ex_send_quiet: "write_results s = [] \<Longrightarrow> ex_send wrap m s = (Inr (), s\<lparr>outbox := outbox s @ [m]\<rparr>)"
  by (simp add: ex_send_def)

text \<open>What every conversation does to the outbox: it only grows.\<close>

definition only_grows :: "('e, 'a) exch \<Rightarrow> bool" where
  "only_grows m \<longleftrightarrow> (\<forall>s. \<exists>more. outbox (snd (m s)) = outbox s @ more)"

lemma only_grows_bind:
  assumes "only_grows m" "\<And>x. only_grows (f x)"
  shows "only_grows (ex_bind m f)"
  unfolding only_grows_def
proof
  fix s
  obtain r u where m: "m s = (r, u)" by force
  obtain more where more: "outbox u = outbox s @ more"
    using assms(1) m unfolding only_grows_def by (metis snd_conv)
  show "\<exists>more. outbox (snd (ex_bind m f s)) = outbox s @ more"
  proof (cases r)
    case (Inr x)
    obtain more' where "outbox (snd (f x u)) = outbox u @ more'"
      using assms(2) unfolding only_grows_def by blast
    then show ?thesis using m Inr more by (simp add: ex_bind_def)
  qed (use m more in \<open>simp add: ex_bind_def\<close>)
qed

lemma only_grows_steps:
  "only_grows (ex_lift r)" "only_grows (ex_check b e)" "only_grows (ex_send wrap m)"
  "only_grows (ex_recv wrap)" "only_grows (ex_encrypt L wrap k1 k2)"
  by (auto simp: only_grows_def ex_lift_def ex_check_def ex_send_def ex_recv_def ex_encrypt_def
      split: list.splits option.splits sum.splits)

end
