(* ===== verification/Utf8.thy ===== *)
theory Utf8
  imports Go_Prelude
begin

text \<open>
  The package \<open>unicode/utf8\<close> as the code uses it (\<open>ValidString\<close> and \<open>range\<close> over a valid
  string), \<open>unicode.IsControl\<close>, and \<open>truncateUTF8\<close> of \<open>libquava/session/notifications.go\<close>.
\<close>

definition cont :: "nat \<Rightarrow> bool" where
  "cont b \<longleftrightarrow> 0x80 \<le> b \<and> b \<le> 0xBF"

text \<open>The runes of a string of bytes; \<open>None\<close> when it is not valid UTF-8 (overlong forms,
  surrogates and values beyond \<open>10FFFF\<close> included).\<close>

fun runes :: "nat list \<Rightarrow> nat list option" where
  "runes [] = Some []"
| "runes (b # bs) =
     (if b < 0x80 then map_option ((#) b) (runes bs)
      else if 0xC2 \<le> b \<and> b \<le> 0xDF then
        (case bs of
           c # cs \<Rightarrow> if cont c then map_option ((#) ((b - 0xC0) * 64 + (c - 0x80))) (runes cs) else None
         | _ \<Rightarrow> None)
      else if 0xE0 \<le> b \<and> b \<le> 0xEF then
        (case bs of
           c # d # ds \<Rightarrow>
             if cont c \<and> cont d \<and> (b = 0xE0 \<longrightarrow> 0xA0 \<le> c) \<and> (b = 0xED \<longrightarrow> c \<le> 0x9F)
             then map_option ((#) ((b - 0xE0) * 4096 + (c - 0x80) * 64 + (d - 0x80))) (runes ds)
             else None
         | _ \<Rightarrow> None)
      else if 0xF0 \<le> b \<and> b \<le> 0xF4 then
        (case bs of
           c # d # e # es \<Rightarrow>
             if cont c \<and> cont d \<and> cont e \<and> (b = 0xF0 \<longrightarrow> 0x90 \<le> c) \<and> (b = 0xF4 \<longrightarrow> c \<le> 0x8F)
             then map_option ((#) ((b - 0xF0) * 262144 + (c - 0x80) * 4096 + (d - 0x80) * 64 + (e - 0x80)))
                    (runes es)
             else None
         | _ \<Rightarrow> None)
      else None)"

definition string_runes :: "string \<Rightarrow> nat list option" where
  "string_runes s = runes (map of_char s)"

definition valid_utf8 :: "string \<Rightarrow> bool" where
  "valid_utf8 s \<longleftrightarrow> string_runes s \<noteq> None"

definition is_control :: "nat \<Rightarrow> bool" where
  "is_control r \<longleftrightarrow> r < 0x20 \<or> (0x7F \<le> r \<and> r < 0xA0)"

text \<open>The loop of \<open>truncateUTF8\<close>: drop the last byte until the string is valid.\<close>

function drop_invalid :: "string \<Rightarrow> string" where
  "drop_invalid s = (if s \<noteq> [] \<and> \<not> valid_utf8 s then drop_invalid (butlast s) else s)"
  by pat_completeness auto
termination by (relation "measure length") auto

declare drop_invalid.simps [simp del]

definition truncate_utf8 :: "string \<Rightarrow> nat \<Rightarrow> string" where
  "truncate_utf8 s limit = (if length s \<le> limit then s else drop_invalid (take limit s))"

subsection \<open>Facts\<close>

lemma valid_utf8_Nil [simp]: "valid_utf8 []"
  by (simp add: valid_utf8_def string_runes_def)

lemma drop_invalid_valid: "valid_utf8 (drop_invalid s)"
  by (induction s rule: drop_invalid.induct) (subst drop_invalid.simps, auto)

lemma drop_invalid_prefix: "\<exists>n \<le> length s. drop_invalid s = take n s"
proof (induction s rule: drop_invalid.induct)
  case (1 s)
  show ?case
  proof (cases "s \<noteq> [] \<and> \<not> valid_utf8 s")
    case True
    with 1 obtain n where "n \<le> length (butlast s)" "drop_invalid (butlast s) = take n (butlast s)"
      by blast
    then have "n \<le> length s \<and> drop_invalid s = take n s"
      using True by (subst drop_invalid.simps) (auto simp: butlast_conv_take)
    then show ?thesis by blast
  next
    case False
    then show ?thesis by (subst drop_invalid.simps) auto
  qed
qed

lemma drop_invalid_maximal:
  "valid_utf8 (take n s) \<Longrightarrow> n \<le> length s \<Longrightarrow> n \<le> length (drop_invalid s)"
proof (induction s rule: drop_invalid.induct)
  case (1 s)
  show ?case
  proof (cases "s \<noteq> [] \<and> \<not> valid_utf8 s")
    case True
    with "1.prems" have "n < length s" by (cases "n = length s") auto
    then have "n \<le> length (drop_invalid (butlast s))"
      using "1.IH" [OF True] "1.prems" True by (auto simp: butlast_conv_take)
    then show ?thesis using True by (subst drop_invalid.simps) simp
  next
    case False
    then have "drop_invalid s = s" by (subst drop_invalid.simps) auto
    then show ?thesis using "1.prems" by simp
  qed
qed

text \<open>The result is the longest valid prefix within the limit.\<close>

lemma truncate_utf8_spec:
  "length (truncate_utf8 s limit) \<le> limit"
  "\<exists>n. truncate_utf8 s limit = take n s"
  "limit < length s \<or> valid_utf8 s \<Longrightarrow> valid_utf8 (truncate_utf8 s limit)"
  "valid_utf8 (take n s) \<Longrightarrow> n \<le> limit \<Longrightarrow> n \<le> length s \<Longrightarrow> n \<le> length (truncate_utf8 s limit)"
proof -
  obtain n where n: "n \<le> length (take limit s)" "drop_invalid (take limit s) = take n (take limit s)"
    using drop_invalid_prefix by blast
  then show "length (truncate_utf8 s limit) \<le> limit" by (auto simp: truncate_utf8_def)
  show "\<exists>n. truncate_utf8 s limit = take n s"
    using n by (auto simp: truncate_utf8_def min_def intro: exI [of _ "length s"])
  show "limit < length s \<or> valid_utf8 s \<Longrightarrow> valid_utf8 (truncate_utf8 s limit)"
    by (auto simp: truncate_utf8_def drop_invalid_valid)
  show "valid_utf8 (take n s) \<Longrightarrow> n \<le> limit \<Longrightarrow> n \<le> length s \<Longrightarrow> n \<le> length (truncate_utf8 s limit)" for n
    using drop_invalid_maximal [of n "take limit s"] by (auto simp: truncate_utf8_def min_def)
qed

lemma runes_append_ascii: "b < 0x80 \<Longrightarrow> runes (b # bs) = map_option ((#) b) (runes bs)"
  by simp

lemma ascii_runes: "\<forall>b \<in> set bs. b < 0x80 \<Longrightarrow> runes bs = Some bs"
  by (induction bs) auto

subsection \<open>Properties\<close>

text \<open>\<open>truncateUTF8\<close> returns the longest prefix within the limit that is valid UTF-8, whenever
  it has to cut or the text was valid: it is a prefix, it keeps the limit, it is valid, and no
  valid prefix within the limit is longer.\<close>

theorem truncate_utf8_longest:
  "length (truncate_utf8 s limit) \<le> limit \<and> (\<exists>n. truncate_utf8 s limit = take n s) \<and>
   (limit < length s \<or> valid_utf8 s \<longrightarrow> valid_utf8 (truncate_utf8 s limit)) \<and>
   (\<forall>n. valid_utf8 (take n s) \<longrightarrow> n \<le> limit \<longrightarrow> n \<le> length s \<longrightarrow> n \<le> length (truncate_utf8 s limit))"
  using truncate_utf8_spec by blast

lemma truncate_utf8_longest_witness:
  "valid_utf8 (truncate_utf8 ''abc'' 2) \<and> length (truncate_utf8 ''abc'' 2) = 2"
proof -
  have "valid_utf8 (take 2 ''abc'')" by code_simp
  then show ?thesis using truncate_utf8_longest [of "''abc''" 2] by fastforce
qed

end
