(* ===== verification/Session_Core.thy ===== *)
theory Session_Core
  imports Wire_Message
begin

text \<open>
  The dispatcher of a live session (\<open>libquava/session/session.go\<close>): \<open>sendRequest\<close> and
  \<open>deliverResponse\<close> with the map of pending transactions, \<open>dispatchIncoming\<close> with its two queues,
  and the token bucket of \<open>allowInputEvent\<close>.

  The goroutines interleave: a state is what they share, and one \<open>session_event\<close> is one atomic
  action of a requester, of the reader or of a worker. A requester is named by the channel it made
  (a number); \<open>replies\<close> holds the buffered message of each channel, \<open>calls\<close> how far each
  \<open>sendRequest\<close> has come. Looking a channel up and sending to it are one action: the channel
  outlives its entry, so a delivery after the clean-up is one before it that is not read. Times are
  seconds on the monotonic clock and tokens are reals; the rounding of floats is not modelled.
\<close>

subsection \<open>State\<close>

datatype call_phase = CallRegistered | CallWaiting | CallDone "wire_error + message"

record session_core =
  pending_map :: "(string, nat) gomap"
  replies :: "(nat, message) gomap"
  calls :: "(nat, message \<times> call_phase) gomap"
  input_queue :: "message list"
  event_queue :: "message list"
  input_tokens :: real
  input_last :: "real option"
  written :: "message list"

definition new_session_core :: session_core where
  "new_session_core = \<lparr>pending_map = [], replies = [], calls = [], input_queue = [], event_queue = [],
     input_tokens = 0, input_last = None, written = []\<rparr>"

definition input_queue_size :: nat where "input_queue_size = 128"
definition event_queue_size :: nat where "event_queue_size = 64"

lemmas queue_sizes = input_queue_size_def event_queue_size_def

subsection \<open>Requests\<close>

definition tx_key :: "message \<Rightarrow> string" where
  "tx_key m = hex_encode (transaction_id m)"

lemma tx_key_eq [simp]: "tx_key a = tx_key b \<longleftrightarrow> transaction_id a = transaction_id b"
  by (simp add: tx_key_def)

text \<open>The steps of \<open>sendRequest\<close>: register the channel, write, and wait for the answer or the end
  of the context. A channel is new, so its number has not been used.\<close>

definition register_call :: "nat \<Rightarrow> message \<Rightarrow> session_core \<Rightarrow> session_core" where
  "register_call ch m s =
     (if map_has (calls s) ch then s
      else s\<lparr>pending_map := map_put (tx_key m) ch (pending_map s),
             calls := map_put ch (m, CallRegistered) (calls s)\<rparr>)"

definition finish_call :: "nat \<Rightarrow> message \<Rightarrow> wire_error + message \<Rightarrow> session_core \<Rightarrow> session_core" where
  "finish_call ch m r s =
     s\<lparr>pending_map := map_del (tx_key m) (pending_map s), calls := map_put ch (m, CallDone r) (calls s)\<rparr>"

definition write_call :: "nat \<Rightarrow> wire_error option \<Rightarrow> session_core \<Rightarrow> session_core" where
  "write_call ch err s =
     (case map_of (calls s) ch of
        Some (m, CallRegistered) \<Rightarrow>
          (case err of
             None \<Rightarrow> s\<lparr>written := written s @ [m], calls := map_put ch (m, CallWaiting) (calls s)\<rparr>
           | Some e \<Rightarrow> finish_call ch m (Inl e) s)
      | _ \<Rightarrow> s)"

definition await_call :: "nat \<Rightarrow> session_core \<Rightarrow> session_core" where
  "await_call ch s =
     (case (map_of (calls s) ch, map_of (replies s) ch) of
        (Some (m, CallWaiting), Some r) \<Rightarrow> (finish_call ch m (Inr r) s)\<lparr>replies := map_del ch (replies s)\<rparr>
      | _ \<Rightarrow> s)"

definition cancel_call :: "nat \<Rightarrow> session_core \<Rightarrow> session_core" where
  "cancel_call ch s =
     (case map_of (calls s) ch of
        Some (m, CallWaiting) \<Rightarrow> finish_call ch m (Inl ErrContext) s
      | _ \<Rightarrow> s)"

text \<open>The send is non-blocking on a channel that holds one message.\<close>

definition deliver_response :: "message \<Rightarrow> session_core \<Rightarrow> bool \<times> session_core" where
  "deliver_response m s =
     (case map_of (pending_map s) (tx_key m) of
        None \<Rightarrow> (False, s)
      | Some ch \<Rightarrow>
          if map_has (replies s) ch then (False, s)
          else (True, s\<lparr>replies := map_put ch m (replies s)\<rparr>))"

subsection \<open>Incoming messages\<close>

definition input_rate :: real where "input_rate = 500"
definition input_burst :: real where "input_burst = 100"

lemmas rate_defs = input_rate_def input_burst_def

definition allow_input_event :: "real \<Rightarrow> session_core \<Rightarrow> bool \<times> session_core" where
  "allow_input_event now s =
     (let (before, tokens) = (case input_last s of None \<Rightarrow> (now, input_burst) | Some t \<Rightarrow> (t, input_tokens s));
          elapsed = now - before;
          tokens = (if elapsed > 0 then tokens + elapsed * input_rate else tokens);
          tokens = (if tokens > input_burst then input_burst else tokens)
      in if tokens < 1 then (False, s\<lparr>input_last := Some now, input_tokens := tokens\<rparr>)
         else (True, s\<lparr>input_last := Some now, input_tokens := tokens - 1\<rparr>))"

text \<open>Writing an acknowledgement; its error is ignored.\<close>

definition write_ack :: "bool \<Rightarrow> message \<Rightarrow> session_core \<Rightarrow> session_core" where
  "write_ack ok m s = (if ok then s\<lparr>written := written s @ [m]\<rparr> else s)"

definition negative_ack :: "64 word \<Rightarrow> message \<Rightarrow> message" where
  "negative_ack t m = new_message t (transaction_id m) [(0, ABool False)]"

definition dropped_ack_type :: "64 word \<Rightarrow> 64 word option" where
  "dropped_ack_type t =
     (if t = MessageTypeSyncClipboard then Some MessageTypeSyncClipboardAck
      else if t = MessageTypeSyncNotification then Some MessageTypeSyncNotificationAck
      else if t = MessageTypeClearNotification then Some MessageTypeClearNotificationAck
      else None)"

definition dispatch_input :: "real \<Rightarrow> bool \<Rightarrow> message \<Rightarrow> session_core \<Rightarrow> session_core" where
  "dispatch_input now ok m s =
     (case allow_input_event now s of
        (False, s') \<Rightarrow> write_ack ok (negative_ack MessageTypeInputEventAck m) s'
      | (True, s') \<Rightarrow>
          if length (input_queue s') < input_queue_size then s'\<lparr>input_queue := input_queue s' @ [m]\<rparr>
          else write_ack ok (negative_ack MessageTypeInputEventAck m) s')"

definition dispatch_event :: "bool \<Rightarrow> message \<Rightarrow> session_core \<Rightarrow> session_core" where
  "dispatch_event ok m s =
     (if length (event_queue s) < event_queue_size then s\<lparr>event_queue := event_queue s @ [m]\<rparr>
      else case dropped_ack_type (mtype m) of
        None \<Rightarrow> s
      | Some t \<Rightarrow> write_ack ok (negative_ack t m) s)"

definition dispatch_incoming :: "real \<Rightarrow> bool \<Rightarrow> message \<Rightarrow> session_core \<Rightarrow> session_core" where
  "dispatch_incoming now ok m s =
     (case deliver_response m s of
        (True, s') \<Rightarrow> s'
      | (False, s') \<Rightarrow>
          if mtype m = MessageTypeInputEvent then dispatch_input now ok m s' else dispatch_event ok m s')"

datatype session_event =
    SRegister nat message | SWrite nat "wire_error option" | SAwait nat | SCancel nat
  | SIncoming real bool message | STakeInput | STakeEvent

fun session_turn :: "session_event \<Rightarrow> session_core \<Rightarrow> session_core" where
  "session_turn (SRegister ch m) s = register_call ch m s"
| "session_turn (SWrite ch e) s = write_call ch e s"
| "session_turn (SAwait ch) s = await_call ch s"
| "session_turn (SCancel ch) s = cancel_call ch s"
| "session_turn (SIncoming now ok m) s = dispatch_incoming now ok m s"
| "session_turn STakeInput s = s\<lparr>input_queue := tl (input_queue s)\<rparr>"
| "session_turn STakeEvent s = s\<lparr>event_queue := tl (event_queue s)\<rparr>"

subsection \<open>The invariant\<close>

text \<open>Channels belong to calls, and a channel only ever holds, and a call only ever returns, a
  message of the call's own transaction. The queues and the bucket keep to their sizes.\<close>

definition same_tx :: "session_core \<Rightarrow> nat \<Rightarrow> bytes \<Rightarrow> bool" where
  "same_tx s ch tx \<longleftrightarrow> (\<exists>m ph. map_of (calls s) ch = Some (m, ph) \<and> transaction_id m = tx)"

definition session_inv :: "session_core \<Rightarrow> bool" where
  "session_inv s \<longleftrightarrow>
     (\<forall>k ch. map_of (pending_map s) k = Some ch \<longrightarrow> (\<exists>tx. k = hex_encode tx \<and> same_tx s ch tx)) \<and>
     (\<forall>ch r. map_of (replies s) ch = Some r \<longrightarrow> same_tx s ch (transaction_id r)) \<and>
     (\<forall>ch m r. map_of (calls s) ch = Some (m, CallDone (Inr r)) \<longrightarrow> transaction_id r = transaction_id m) \<and>
     length (input_queue s) \<le> input_queue_size \<and> length (event_queue s) \<le> event_queue_size \<and>
     0 \<le> input_tokens s \<and> input_tokens s \<le> input_burst"

lemma same_tx_put:
  "map_of (calls s) ch = Some (m, ph) \<Longrightarrow> same_tx (s\<lparr>calls := map_put ch (m, ph') (calls s)\<rparr>) c tx \<longleftrightarrow> same_tx s c tx"
  by (auto simp: same_tx_def)

lemma same_tx_cong: "calls s' = calls s \<Longrightarrow> same_tx s' ch tx = same_tx s ch tx"
  by (simp add: same_tx_def)

lemma same_tx_new:
  "\<not> map_has (calls s) ch \<Longrightarrow> same_tx s c tx \<Longrightarrow> same_tx (s\<lparr>calls := map_put ch (m, ph) (calls s)\<rparr>) c tx"
  by (auto simp: same_tx_def)

definition calls_ok :: "session_core \<Rightarrow> bool" where
  "calls_ok s \<longleftrightarrow>
     (\<forall>k ch. map_of (pending_map s) k = Some ch \<longrightarrow> (\<exists>tx. k = hex_encode tx \<and> same_tx s ch tx)) \<and>
     (\<forall>ch r. map_of (replies s) ch = Some r \<longrightarrow> same_tx s ch (transaction_id r)) \<and>
     (\<forall>ch m r. map_of (calls s) ch = Some (m, CallDone (Inr r)) \<longrightarrow> transaction_id r = transaction_id m)"

definition sizes_ok :: "session_core \<Rightarrow> bool" where
  "sizes_ok s \<longleftrightarrow>
     length (input_queue s) \<le> input_queue_size \<and> length (event_queue s) \<le> event_queue_size \<and>
     0 \<le> input_tokens s \<and> input_tokens s \<le> input_burst"

lemma session_inv_split: "session_inv s \<longleftrightarrow> calls_ok s \<and> sizes_ok s"
  by (auto simp: session_inv_def calls_ok_def sizes_ok_def)

lemma calls_ok_cong:
  "pending_map s' = pending_map s \<Longrightarrow> replies s' = replies s \<Longrightarrow> calls s' = calls s \<Longrightarrow> calls_ok s' = calls_ok s"
  by (simp add: calls_ok_def same_tx_def)

lemma sizes_ok_cong:
  "input_queue s' = input_queue s \<Longrightarrow> event_queue s' = event_queue s \<Longrightarrow> input_tokens s' = input_tokens s \<Longrightarrow>
   sizes_ok s' = sizes_ok s"
  by (simp add: sizes_ok_def)

lemma calls_okI:
  assumes "\<And>k ch. map_of (pending_map s) k = Some ch \<Longrightarrow> \<exists>tx. k = hex_encode tx \<and> same_tx s ch tx"
    and "\<And>ch r. map_of (replies s) ch = Some r \<Longrightarrow> same_tx s ch (transaction_id r)"
    and "\<And>ch m r. map_of (calls s) ch = Some (m, CallDone (Inr r)) \<Longrightarrow> transaction_id r = transaction_id m"
  shows "calls_ok s"
  unfolding calls_ok_def using assms by blast

lemma calls_okD:
  assumes "calls_ok s"
  shows "map_of (pending_map s) k = Some ch \<Longrightarrow> \<exists>tx. k = hex_encode tx \<and> same_tx s ch tx"
    and "map_of (replies s) ch = Some r \<Longrightarrow> same_tx s ch (transaction_id r)"
    and "map_of (calls s) ch = Some (m, CallDone (Inr r)) \<Longrightarrow> transaction_id r = transaction_id m"
  using assms unfolding calls_ok_def by blast+

lemma register_ok: "calls_ok s \<Longrightarrow> calls_ok (register_call ch m s)"
proof (cases "map_has (calls s) ch")
  case False
  assume ok: "calls_ok s"
  let ?s = "s\<lparr>pending_map := map_put (tx_key m) ch (pending_map s), calls := map_put ch (m, CallRegistered) (calls s)\<rparr>"
  have old: "same_tx ?s c tx" if "same_tx s c tx" for c tx using that False by (auto simp: same_tx_def)
  have new: "same_tx ?s ch (transaction_id m)" by (simp add: same_tx_def)
  have "calls_ok ?s"
  proof (rule calls_okI, goal_cases)
    case (1 k c)
    then show ?case using calls_okD(1) [OF ok, of k c] old new by (auto simp: tx_key_def split: if_splits)
  next
    case (2 c r)
    then show ?case using calls_okD(2) [OF ok, of c r] old by simp
  next
    case (3 c n r)
    then show ?case using calls_okD(3) [OF ok, of c n r] by (simp split: if_splits)
  qed
  then show ?thesis using False by (simp add: register_call_def)
qed (simp add: register_call_def)

lemma finish_ok:
  assumes ok: "calls_ok s" and c: "map_of (calls s) ch = Some (m, ph)"
    and r: "\<And>x. r = Inr x \<Longrightarrow> transaction_id x = transaction_id m"
  shows "calls_ok (finish_call ch m r s)"
proof (rule calls_okI, goal_cases)
  case (1 k c')
  then show ?case
    using calls_okD(1) [OF ok, of k c'] c by (auto simp: finish_call_def same_tx_def split: if_splits)
next
  case (2 c' x)
  then show ?case using calls_okD(2) [OF ok, of c' x] c by (auto simp: finish_call_def same_tx_def)
next
  case (3 c' n x)
  then show ?case using calls_okD(3) [OF ok, of c' n x] r by (auto simp: finish_call_def split: if_splits)
qed

lemma write_call_ok: "calls_ok s \<Longrightarrow> calls_ok (write_call ch e s)"
proof -
  assume ok: "calls_ok s"
  have same: "write_call ch e s = s" if "\<forall>m. map_of (calls s) ch \<noteq> Some (m, CallRegistered)"
    using that by (auto simp: write_call_def split: option.splits call_phase.splits)
  consider (reg) m where "map_of (calls s) ch = Some (m, CallRegistered)"
    | (other) "\<forall>m. map_of (calls s) ch \<noteq> Some (m, CallRegistered)" by blast
  then show ?thesis
  proof cases
    case (reg m)
    show ?thesis
    proof (cases e)
      case None
      have "calls_ok (s\<lparr>written := written s @ [m], calls := map_put ch (m, CallWaiting) (calls s)\<rparr>)"
      proof (rule calls_okI, goal_cases)
        case (1 k c)
        then show ?case using calls_okD(1) [OF ok, of k c] reg by (auto simp: same_tx_def)
      next
        case (2 c x)
        then show ?case using calls_okD(2) [OF ok, of c x] reg by (auto simp: same_tx_def)
      next
        case (3 c n x)
        then show ?case using calls_okD(3) [OF ok, of c n x] by (simp split: if_splits)
      qed
      then show ?thesis using reg None by (simp add: write_call_def)
    next
      case (Some x)
      then show ?thesis using finish_ok [OF ok reg, of "Inl x"] reg by (simp add: write_call_def)
    qed
  qed (use ok same in simp)
qed

lemma await_call_ok: "calls_ok s \<Longrightarrow> calls_ok (await_call ch s)"
proof -
  assume ok: "calls_ok s"
  have same: "await_call ch s = s"
    if "\<forall>m r. map_of (calls s) ch \<noteq> Some (m, CallWaiting) \<or> map_of (replies s) ch \<noteq> Some r"
    using that by (auto simp: await_call_def split: option.splits call_phase.splits)
  consider (got) m r where "map_of (calls s) ch = Some (m, CallWaiting)" "map_of (replies s) ch = Some r"
    | (other) "\<forall>m r. map_of (calls s) ch \<noteq> Some (m, CallWaiting) \<or> map_of (replies s) ch \<noteq> Some r" by blast
  then show ?thesis
  proof cases
    case (got m r)
    have t: "transaction_id r = transaction_id m"
      using calls_okD(2) [OF ok got(2)] got(1) by (simp add: same_tx_def)
    let ?f = "finish_call ch m (Inr r) s"
    have f: "calls_ok ?f" using finish_ok [OF ok got(1), of "Inr r"] t by simp
    have "calls_ok (?f\<lparr>replies := map_del ch (replies s)\<rparr>)"
    proof (rule calls_okI, goal_cases)
      case (1 k c)
      then show ?case using calls_okD(1) [OF f, of k c] by (simp add: same_tx_def)
    next
      case (2 c x)
      then show ?case using calls_okD(2) [OF f, of c x] by (simp add: same_tx_def finish_call_def split: if_splits)
    next
      case (3 c n x)
      then show ?case using calls_okD(3) [OF f, of c n x] by simp
    qed
    then show ?thesis using got by (simp add: await_call_def)
  qed (use ok same in simp)
qed

lemma cancel_call_ok: "calls_ok s \<Longrightarrow> calls_ok (cancel_call ch s)"
  using finish_ok [of s ch _ CallWaiting "Inl ErrContext"]
  by (auto simp: cancel_call_def split: option.splits call_phase.splits)

lemma deliver_ok: "calls_ok s \<Longrightarrow> deliver_response m s = (b, s') \<Longrightarrow> calls_ok s'"
proof -
  assume ok: "calls_ok s" and d: "deliver_response m s = (b, s')"
  consider (sent) ch where "map_of (pending_map s) (tx_key m) = Some ch" "s' = s\<lparr>replies := map_put ch m (replies s)\<rparr>"
    | (other) "s' = s"
    using d by (auto simp: deliver_response_def split: option.splits if_splits)
  then show ?thesis
  proof cases
    case (sent ch)
    have t: "same_tx s ch (transaction_id m)"
      using calls_okD(1) [OF ok sent(1)] by (auto simp: tx_key_def)
    show ?thesis unfolding sent(2)
    proof (rule calls_okI, goal_cases)
      case (1 k c)
      then show ?case using calls_okD(1) [OF ok, of k c] by (simp add: same_tx_def)
    next
      case (2 c x)
      then show ?case using calls_okD(2) [OF ok, of c x] t by (simp add: same_tx_def split: if_splits)
    next
      case (3 c n x)
      then show ?case using calls_okD(3) [OF ok, of c n x] by simp
    qed
  qed (use ok in simp)
qed

lemma allow_frame:
  assumes "allow_input_event now s = (b, s')"
  shows "pending_map s' = pending_map s" "replies s' = replies s" "calls s' = calls s"
    "input_queue s' = input_queue s" "event_queue s' = event_queue s" "written s' = written s"
  using assms by (auto simp: allow_input_event_def Let_def split: prod.splits if_splits)

lemma write_ack_frame [simp]:
  "pending_map (write_ack ok m s) = pending_map s" "replies (write_ack ok m s) = replies s"
  "calls (write_ack ok m s) = calls s" "input_queue (write_ack ok m s) = input_queue s"
  "event_queue (write_ack ok m s) = event_queue s" "input_tokens (write_ack ok m s) = input_tokens s"
  by (simp_all add: write_ack_def)

lemma dispatch_frame:
  "pending_map (dispatch_input now ok m s) = pending_map s" "replies (dispatch_input now ok m s) = replies s"
  "calls (dispatch_input now ok m s) = calls s" "pending_map (dispatch_event ok m s) = pending_map s"
  "replies (dispatch_event ok m s) = replies s" "calls (dispatch_event ok m s) = calls s"
  "event_queue (dispatch_input now ok m s) = event_queue s"
  "input_queue (dispatch_event ok m s) = input_queue s" "input_tokens (dispatch_event ok m s) = input_tokens s"
  by (simp_all add: dispatch_input_def dispatch_event_def allow_frame split: prod.splits bool.splits option.splits)

lemma allow_sizes: "sizes_ok s \<Longrightarrow> allow_input_event now s = (b, s') \<Longrightarrow> sizes_ok s'"
  using allow_frame(4,5) [of now s b s']
  by (auto simp: sizes_ok_def allow_input_event_def Let_def rate_defs split: prod.splits if_splits option.splits)

lemma dispatch_input_sizes: "sizes_ok s \<Longrightarrow> sizes_ok (dispatch_input now ok m s)"
proof -
  assume "sizes_ok s"
  obtain b s' where a: "allow_input_event now s = (b, s')" by force
  have "sizes_ok s'" by (rule allow_sizes [OF \<open>sizes_ok s\<close> a])
  then show ?thesis using a by (cases b) (auto simp: dispatch_input_def sizes_ok_def)
qed

lemma dispatch_event_sizes: "sizes_ok s \<Longrightarrow> sizes_ok (dispatch_event ok m s)"
  by (auto simp: dispatch_event_def sizes_ok_def split: option.splits)

lemma deliver_sizes: "sizes_ok s \<Longrightarrow> deliver_response m s = (b, s') \<Longrightarrow> sizes_ok s'"
  by (auto simp: deliver_response_def sizes_ok_def split: option.splits if_splits)

lemma dispatch_incoming_inv: "session_inv s \<Longrightarrow> session_inv (dispatch_incoming now ok m s)"
proof -
  assume "session_inv s"
  then have s: "calls_ok s" "sizes_ok s" by (simp_all add: session_inv_split)
  obtain b s' where d: "deliver_response m s = (b, s')" by force
  have s': "calls_ok s'" "sizes_ok s'" using deliver_ok [OF s(1) d] deliver_sizes [OF s(2) d] by auto
  have "calls_ok (dispatch_input now ok m s') \<and> sizes_ok (dispatch_input now ok m s') \<and>
      calls_ok (dispatch_event ok m s') \<and> sizes_ok (dispatch_event ok m s')"
    using s' dispatch_input_sizes dispatch_event_sizes
      calls_ok_cong [OF dispatch_frame(1-3)] calls_ok_cong [OF dispatch_frame(4-6)] by simp
  then show ?thesis using d s' by (cases b) (simp_all add: dispatch_incoming_def session_inv_split)
qed

lemma call_sizes:
  "sizes_ok (register_call ch m s) = sizes_ok s" "sizes_ok (write_call ch e s) = sizes_ok s"
  "sizes_ok (await_call ch s) = sizes_ok s" "sizes_ok (cancel_call ch s) = sizes_ok s"
  by (simp_all add: sizes_ok_def register_call_def write_call_def await_call_def cancel_call_def finish_call_def
      split: option.splits call_phase.splits)

lemma session_turn_inv: "session_inv s \<Longrightarrow> session_inv (session_turn e s)"
proof (cases e)
  case (SIncoming now ok m)
  assume "session_inv s"
  then show ?thesis unfolding SIncoming session_turn.simps by (rule dispatch_incoming_inv)
next
  case STakeInput
  assume "session_inv s"
  then show ?thesis unfolding STakeInput session_inv_split
    using calls_ok_cong [of "session_turn STakeInput s" s] by (auto simp: sizes_ok_def)
next
  case STakeEvent
  assume "session_inv s"
  then show ?thesis unfolding STakeEvent session_inv_split
    using calls_ok_cong [of "session_turn STakeEvent s" s] by (auto simp: sizes_ok_def)
qed (simp_all add: session_inv_split call_sizes register_ok write_call_ok await_call_ok cancel_call_ok)

lemma new_session_inv: "session_inv new_session_core"
  by (simp add: session_inv_def new_session_core_def rate_defs)

interpretation session_core: step_system "\<lambda>s. s = new_session_core" "\<lambda>s t. \<exists>e. t = session_turn e s" session_inv
  by unfold_locales (use new_session_inv session_turn_inv in blast)+

subsection \<open>Requests in flight\<close>

text \<open>Transaction IDs are 16 random bytes. With IDs that do not repeat, the entry of a request that
  is still on its way is its own, so that the answer finds it.\<close>

definition fresh_turn :: "session_event \<Rightarrow> session_core \<Rightarrow> bool" where
  "fresh_turn e s =
     (case e of SRegister ch m \<Rightarrow> list_all (\<lambda>(_, m', _). transaction_id m' \<noteq> transaction_id m) (calls s)
      | _ \<Rightarrow> True)"

definition in_flight :: "session_core \<Rightarrow> bool" where
  "in_flight s \<longleftrightarrow>
     wf_map (calls s) \<and>
     (\<forall>c c' m m' ph ph'. map_of (calls s) c = Some (m, ph) \<longrightarrow> map_of (calls s) c' = Some (m', ph') \<longrightarrow>
        transaction_id m = transaction_id m' \<longrightarrow> c = c') \<and>
     (\<forall>c m ph. map_of (calls s) c = Some (m, ph) \<longrightarrow> ph = CallRegistered \<or> ph = CallWaiting \<longrightarrow>
        map_of (pending_map s) (tx_key m) = Some c)"

lemma in_flightD:
  assumes "in_flight s"
  shows "wf_map (calls s)"
    and "map_of (calls s) c = Some (m, ph) \<Longrightarrow> map_of (calls s) c' = Some (m', ph') \<Longrightarrow>
      transaction_id m = transaction_id m' \<Longrightarrow> c = c'"
    and "map_of (calls s) c = Some (m, ph) \<Longrightarrow> ph = CallRegistered \<or> ph = CallWaiting \<Longrightarrow>
      map_of (pending_map s) (tx_key m) = Some c"
  using assms unfolding in_flight_def by blast+

lemma in_flight_cong: "calls s' = calls s \<Longrightarrow> pending_map s' = pending_map s \<Longrightarrow> in_flight s' = in_flight s"
  by (simp add: in_flight_def)

lemma in_flight_finish:
  assumes f: "in_flight s" and c: "map_of (calls s) ch = Some (m, ph)"
  shows "in_flight (finish_call ch m r s)"
  unfolding in_flight_def
proof (intro conjI allI impI, goal_cases)
  case 1
  then show ?case using in_flightD(1) [OF f] by (simp add: finish_call_def)
next
  case (2 a b n n' p p')
  obtain q q' where "map_of (calls s) a = Some (n, q)" "map_of (calls s) b = Some (n', q')"
    using 2(1,2) c by (auto simp: finish_call_def split: if_splits)
  then show ?case using in_flightD(2) [OF f] 2(3) by blast
next
  case (3 a n p)
  then have a: "a \<noteq> ch" "map_of (calls s) a = Some (n, p)" by (auto simp: finish_call_def split: if_splits)
  then have "transaction_id n \<noteq> transaction_id m" using in_flightD(2) [OF f a(2) c] by blast
  then show ?case using in_flightD(3) [OF f a(2) 3(2)] by (simp add: finish_call_def)
qed

lemma in_flight_register:
  assumes f: "in_flight s" and t: "fresh_turn (SRegister ch m) s"
  shows "in_flight (register_call ch m s)"
proof (cases "map_has (calls s) ch")
  case True
  then show ?thesis using f by (simp add: register_call_def)
next
  case False
  have new: "transaction_id n \<noteq> transaction_id m" if "map_of (calls s) a = Some (n, p)" for a n p
    using t that unfolding fresh_turn_def session_event.case list_all_iff by (auto dest: map_of_SomeD)
  let ?s = "s\<lparr>pending_map := map_put (tx_key m) ch (pending_map s), calls := map_put ch (m, CallRegistered) (calls s)\<rparr>"
  have "in_flight ?s"
    unfolding in_flight_def
  proof (intro conjI allI impI, goal_cases)
    case 1
    then show ?case using in_flightD(1) [OF f] by simp
  next
    case (2 a b n n' p p')
    then show ?case using in_flightD(2) [OF f, of a n p b n' p'] new [of a n p] new [of b n' p']
      by (simp split: if_splits)
  next
    case (3 a n p)
    then show ?case using in_flightD(3) [OF f, of a n p] new [of a n p] by (simp split: if_splits)
  qed
  then show ?thesis using False by (simp add: register_call_def)
qed

lemma in_flight_waiting:
  assumes f: "in_flight s" and c: "map_of (calls s) ch = Some (m, CallRegistered)"
  shows "in_flight (s\<lparr>written := w, calls := map_put ch (m, CallWaiting) (calls s)\<rparr>)"
  unfolding in_flight_def
proof (intro conjI allI impI, goal_cases)
  case 1
  then show ?case using in_flightD(1) [OF f] by simp
next
  case (2 a b n n' p p')
  obtain q q' where "map_of (calls s) a = Some (n, q)" "map_of (calls s) b = Some (n', q')"
    using 2(1,2) c by (auto split: if_splits)
  then show ?case using in_flightD(2) [OF f] 2(3) by blast
next
  case (3 a n p)
  then show ?case using in_flightD(3) [OF f, of a n p] in_flightD(3) [OF f c] by (simp split: if_splits)
qed

lemma in_flight_write: "in_flight s \<Longrightarrow> in_flight (write_call ch e s)"
  by (auto simp: write_call_def in_flight_waiting in_flight_finish split: option.splits call_phase.splits)

lemma in_flight_await: "in_flight s \<Longrightarrow> in_flight (await_call ch s)"
proof -
  assume f: "in_flight s"
  have "in_flight ((finish_call ch m r s)\<lparr>replies := x\<rparr>)" if "map_of (calls s) ch = Some (m, ph)" for m ph r x
    using in_flight_finish [OF f that, of r] in_flight_cong [of "(finish_call ch m r s)\<lparr>replies := x\<rparr>"] by simp
  then show ?thesis using f by (auto simp: await_call_def split: option.splits call_phase.splits)
qed

lemma in_flight_cancel: "in_flight s \<Longrightarrow> in_flight (cancel_call ch s)"
  by (auto simp: cancel_call_def in_flight_finish split: option.splits call_phase.splits)

lemma dispatch_incoming_frame:
  "calls (dispatch_incoming now ok m s) = calls s \<and> pending_map (dispatch_incoming now ok m s) = pending_map s"
proof -
  obtain b s' where d: "deliver_response m s = (b, s')" by force
  then have "calls s' = calls s \<and> pending_map s' = pending_map s"
    by (auto simp: deliver_response_def split: option.splits if_splits)
  then show ?thesis using d by (cases b) (simp_all add: dispatch_incoming_def dispatch_frame)
qed

lemma in_flight_turn: "in_flight s \<Longrightarrow> fresh_turn e s \<Longrightarrow> in_flight (session_turn e s)"
proof (cases e)
  case (SIncoming now ok m)
  assume "in_flight s"
  then show ?thesis
    using in_flight_cong [of "dispatch_incoming now ok m s" s] dispatch_incoming_frame by (simp add: SIncoming)
next
  case STakeInput
  assume "in_flight s"
  then show ?thesis using in_flight_cong [of "session_turn STakeInput s" s] by (simp add: STakeInput)
next
  case STakeEvent
  assume "in_flight s"
  then show ?thesis using in_flight_cong [of "session_turn STakeEvent s" s] by (simp add: STakeEvent)
qed (simp_all add: in_flight_register in_flight_write in_flight_await in_flight_cancel)

interpretation flight: step_system "\<lambda>s. s = new_session_core"
    "\<lambda>s t. \<exists>e. fresh_turn e s \<and> t = session_turn e s" in_flight
proof unfold_locales
  fix s :: session_core assume "s = new_session_core"
  then show "in_flight s" by (simp add: in_flight_def new_session_core_def)
next
  fix s t :: session_core assume "in_flight s" "\<exists>e. fresh_turn e s \<and> t = session_turn e s"
  then show "in_flight t" using in_flight_turn by blast
qed

subsection \<open>The rate limit\<close>

text \<open>The decisions for a sequence of arrival times.\<close>

fun allowed :: "real list \<Rightarrow> session_core \<Rightarrow> bool list" where
  "allowed [] s = []"
| "allowed (t # ts) s = (case allow_input_event t s of (b, s') \<Rightarrow> b # allowed ts s')"

lemma allow_step:
  assumes "sizes_ok s" "allow_input_event t s = (b, s')"
  shows "sizes_ok s'" "input_last s' = Some t"
    "input_tokens s' \<le> 100 - (if b then 1 else 0)"
    "\<And>u. input_last s = Some u \<Longrightarrow> u \<le> t \<Longrightarrow>
      input_tokens s' \<le> input_tokens s + 500 * (t - u) - (if b then 1 else 0)"
  using allow_sizes [OF assms] assms
  by (auto simp: sizes_ok_def allow_input_event_def Let_def rate_defs split: prod.splits if_splits option.splits)

lemma allowed_bound:
  assumes "sizes_ok s" "input_last s = Some u" "sorted (u # ts)"
  shows "real (length (filter (\<lambda>b. b) (allowed ts s))) \<le> input_tokens s + 500 * (last (u # ts) - u)"
  using assms
proof (induction ts arbitrary: s u)
  case Nil
  then show ?case by (simp add: sizes_ok_def)
next
  case (Cons t ts)
  obtain b s' where a: "allow_input_event t s = (b, s')" by force
  note st = allow_step [OF Cons.prems(1) a]
  have "u \<le> t" and so: "sorted (t # ts)" using Cons.prems(3) by auto
  have "real (length (filter (\<lambda>b. b) (allowed ts s'))) \<le> input_tokens s' + 500 * (last (t # ts) - t)"
    by (rule Cons.IH [OF st(1,2) so])
  moreover have "input_tokens s' \<le> input_tokens s + 500 * (t - u) - (if b then 1 else 0)"
    by (rule st(4) [OF Cons.prems(2) \<open>u \<le> t\<close>])
  ultimately show ?case using a by (cases b; cases ts) (simp_all add: algebra_simps)
qed

fun spaced :: "real \<Rightarrow> real list \<Rightarrow> bool" where
  "spaced d [] = True"
| "spaced d [t] = True"
| "spaced d (t # u # ts) \<longleftrightarrow> t + d \<le> u \<and> spaced d (u # ts)"

lemma allowed_spaced:
  assumes "input_last s = Some u" "99 \<le> input_tokens s" "input_tokens s \<le> 100" "spaced (1 / 500) (u # ts)"
  shows "list_all id (allowed ts s)"
  using assms
proof (induction ts arbitrary: s u)
  case (Cons t ts)
  obtain b s' where a: "allow_input_event t s = (b, s')" by force
  have gap: "u + 1 / 500 \<le> t" and sp: "spaced (1 / 500) (t # ts)" using Cons.prems(4) by auto
  have "b \<and> input_last s' = Some t \<and> 99 \<le> input_tokens s' \<and> input_tokens s' \<le> 100"
    using a gap Cons.prems(1-3) unfolding allow_input_event_def Let_def rate_defs
    by (auto split: if_splits)
  with Cons.IH [of s' t] sp a show ?case by simp
qed simp


subsection \<open>Properties\<close>

text \<open>C10. However requests, answers, timeouts and unsolicited messages interleave, a request only
  ever returns a message of its own transaction, a channel never holds another one's answer, and
  the queues and the token bucket keep to their sizes.\<close>

theorem responses_reach_their_request:
  assumes "reach (\<lambda>s. s = new_session_core) (\<lambda>s t. \<exists>e. t = session_turn e s) s"
  shows "(\<forall>ch m r. map_of (calls s) ch = Some (m, CallDone (Inr r)) \<longrightarrow> transaction_id r = transaction_id m) \<and>
    (\<forall>ch r. map_of (replies s) ch = Some r \<longrightarrow> same_tx s ch (transaction_id r)) \<and>
    length (input_queue s) \<le> 128 \<and> length (event_queue s) \<le> 64 \<and>
    0 \<le> input_tokens s \<and> input_tokens s \<le> 100"
  using session_core.reach_inv [OF assms] unfolding session_inv_def queue_sizes rate_defs by (intro conjI) auto

text \<open>C11. No answer is lost: with transaction IDs that do not repeat, the first message that carries
  the ID of a waiting request reaches it whatever else is going on, and the request returns it as
  soon as it looks.\<close>

theorem waiting_request_is_answered:
  assumes "reach (\<lambda>s. s = new_session_core) (\<lambda>s t. \<exists>e. fresh_turn e s \<and> t = session_turn e s) s"
    and "map_of (calls s) ch = Some (m, CallWaiting)" and "map_of (replies s) ch = None"
    and "transaction_id r = transaction_id m"
  shows "map_of (calls (await_call ch (dispatch_incoming now ok r s))) ch = Some (m, CallDone (Inr r)) \<and>
    map_of (pending_map (await_call ch (dispatch_incoming now ok r s))) (tx_key m) = None"
proof -
  have "map_of (pending_map s) (tx_key m) = Some ch"
    using in_flightD(3) [OF flight.reach_inv [OF assms(1)] assms(2)] by simp
  moreover have "tx_key r = tx_key m" using assms(4) by simp
  ultimately have "dispatch_incoming now ok r s = s\<lparr>replies := map_put ch r (replies s)\<rparr>"
    using assms(3) by (simp add: dispatch_incoming_def deliver_response_def del: tx_key_eq)
  then show ?thesis using assms(2) by (simp add: await_call_def finish_call_def)
qed

text \<open>Of the input events that arrive in any period, at most 100 and 500 for every second of it
  are let through; and a phone that sends at most one event every two milliseconds has none of
  them refused.\<close>

theorem input_rate_limited:
  assumes "reach (\<lambda>s. s = new_session_core) (\<lambda>s t. \<exists>e. t = session_turn e s) s"
    and "sorted (t # ts)"
  shows "real (length (filter (\<lambda>b. b) (allowed (t # ts) s))) \<le> 100 + 500 * (last (t # ts) - t) \<and>
    (spaced (1 / 500) (t # ts) \<longrightarrow> list_all id (allowed (t # ts) new_session_core))"
proof -
  have z: "sizes_ok s" using session_core.reach_inv [OF assms(1)] by (simp add: session_inv_split)
  obtain b s' where a: "allow_input_event t s = (b, s')" by force
  note st = allow_step [OF z a]
  have "real (length (filter (\<lambda>b. b) (allowed ts s'))) \<le> input_tokens s' + 500 * (last (t # ts) - t)"
    by (rule allowed_bound [OF st(1,2) assms(2)])
  then have "real (length (filter (\<lambda>b. b) (allowed (t # ts) s))) \<le> 100 + 500 * (last (t # ts) - t)"
    using a st(3) by (cases b) simp_all
  moreover have "list_all id (allowed (t # ts) new_session_core)" if "spaced (1 / 500) (t # ts)"
    using that allowed_spaced [of "new_session_core\<lparr>input_last := Some t, input_tokens := 99\<rparr>" t ts]
    by (simp add: allow_input_event_def new_session_core_def rate_defs)
  ultimately show ?thesis by blast
qed

definition traces :: "session_core \<Rightarrow> (nat, message) gomap \<times> message list \<times> message list \<times> message list" where
  "traces s = (replies s, input_queue s, event_queue s, written s)"

text \<open>A message from the peer is lost without a trace (no request gets it, no queue holds it and no
  negative acknowledgement is written) exactly when the event queue is full and its type is none
  of input, clipboard, notification and clear: a call state, an unpair request or a media
  command is then dropped and the peer is not told.\<close>

theorem message_lost_iff:
  "traces (dispatch_incoming now True m s) = traces s \<longleftrightarrow>
     \<not> fst (deliver_response m s) \<and> event_queue_size \<le> length (event_queue s) \<and>
     mtype m \<notin> {MessageTypeInputEvent, MessageTypeSyncClipboard, MessageTypeSyncNotification,
       MessageTypeClearNotification}"
proof -
  obtain b s' where d: "deliver_response m s = (b, s')" by force
  show ?thesis
  proof (cases b)
    case True
    then obtain ch where "map_of (replies s) ch = None" "s' = s\<lparr>replies := map_put ch m (replies s)\<rparr>"
      using d by (auto simp: deliver_response_def split: option.splits if_splits)
    moreover from this have "replies s' \<noteq> replies s"
      by (metis option.distinct(1) session_core.select_convs(2) session_core.surjective session_core.update_convs(2) update_Some_unfold update_conv')
    ultimately show ?thesis using d True by (simp add: dispatch_incoming_def traces_def)
  next
    case False
    then have s': "s' = s" using d by (auto simp: deliver_response_def split: option.splits if_splits)
    obtain b' u where a: "allow_input_event now s = (b', u)" by force
    have "traces (dispatch_input now True m s) \<noteq> traces s"
      using a allow_frame [OF a]
      by (cases b') (auto simp: dispatch_input_def traces_def write_ack_def)
    moreover have "traces (dispatch_event True m s) = traces s \<longleftrightarrow>
        event_queue_size \<le> length (event_queue s) \<and> dropped_ack_type (mtype m) = None"
      by (auto simp: dispatch_event_def traces_def write_ack_def split: option.splits)
    ultimately show ?thesis
      using d False s' by (auto simp: dispatch_incoming_def dropped_ack_type_def)
  qed
qed

definition ping_call :: message where
  "ping_call = new_message MessageTypePing [1, 2] []"

definition waiting_core :: session_core where
  "waiting_core = session_turn (SWrite 0 None) (session_turn (SRegister 0 ping_call) new_session_core)"

lemma waiting_core_reached:
  "reach (\<lambda>s. s = new_session_core) (\<lambda>s t. \<exists>e. fresh_turn e s \<and> t = session_turn e s) waiting_core"
  unfolding waiting_core_def
proof (rule reach_step [OF reach_step [OF reach_init]])
  show "\<exists>e. fresh_turn e new_session_core \<and>
      session_turn (SRegister 0 ping_call) new_session_core = session_turn e new_session_core"
    by (rule exI [of _ "SRegister 0 ping_call"]) (simp add: fresh_turn_def new_session_core_def)
  show "\<exists>e. fresh_turn e (session_turn (SRegister 0 ping_call) new_session_core) \<and>
      session_turn (SWrite 0 None) (session_turn (SRegister 0 ping_call) new_session_core) =
      session_turn e (session_turn (SRegister 0 ping_call) new_session_core)"
    by (rule exI [of _ "SWrite 0 None"]) (simp add: fresh_turn_def)
qed simp

lemma waiting_core_reached_any:
  "reach (\<lambda>s. s = new_session_core) (\<lambda>s t. \<exists>e. t = session_turn e s) waiting_core"
  unfolding waiting_core_def by (rule reach_step [OF reach_step [OF reach_init]]) blast+

lemma waiting_core_call:
  "map_of (calls waiting_core) 0 = Some (ping_call, CallWaiting)" "map_of (replies waiting_core) 0 = None"
  by (simp_all add: waiting_core_def new_session_core_def register_call_def write_call_def)

lemma responses_reach_their_request_witness:
  "same_tx waiting_core 0 [1, 2] \<and> length (event_queue waiting_core) \<le> 64"
  using responses_reach_their_request [OF waiting_core_reached_any] waiting_core_call
  by (simp add: same_tx_def ping_call_def)

lemma waiting_request_is_answered_witness:
  "map_of (calls (await_call 0 (dispatch_incoming 0 True ping_call waiting_core))) 0 =
     Some (ping_call, CallDone (Inr ping_call))"
  using waiting_request_is_answered [OF waiting_core_reached waiting_core_call refl] by blast

lemma input_rate_limited_witness:
  "real (length (filter (\<lambda>b. b) (allowed [0, 1 / 100, 1 / 50] waiting_core))) \<le> 100 + 500 * (1 / 50 - 0) \<and>
   list_all id (allowed [0, 1 / 100, 1 / 50] new_session_core)"
  using input_rate_limited [OF waiting_core_reached_any, of 0 "[1 / 100, 1 / 50]"] by simp

end
