(* ===== verification/Session_Requests.thy ===== *)
theory Session_Requests
  imports Exchange Utf8 Session_Core
begin

text \<open>
  The requests of a live session: \<open>SendPing\<close>, \<open>sendHeartbeat\<close>, \<open>SendRing\<close>, \<open>SyncClipboard\<close>,
  \<open>SyncNotifications\<close>, \<open>ClearNotification\<close>, \<open>SendAndroidNotificationAction\<close>,
  \<open>DismissAndroidNotification\<close> and \<open>Unpair\<close> (\<open>libquava/session/ping.go\<close>, \<open>ring.go\<close>,
  \<open>clipboard.go\<close>, \<open>notifications.go\<close>, \<open>session.go\<close>; types of \<open>libquava/models\<close>).

  A request is a conversation (theory \<open>Exchange\<close>) of one write and one answer. Here the inbox is
  what the request's channel yields: the answer that the dispatcher delivers, or the error of the
  context; theory \<open>Session_Core\<close> shows which messages can arrive there. The transaction ID comes
  from the random generator, \<open>None\<close> when that fails. A nil slice or map is \<open>ANil\<close>, which CBOR
  encodes the same.
\<close>

datatype request_error =
    ReqClosed | ReqRandom | ReqWire wire_error | ReqInvalidAck | ReqRejected
  | ReqClipboardLimit | ReqEncode wire_error | ReqFrameLimit

record clipboard_content =
  content_type :: string
  clip_content :: bytes

record notification_content =
  nt_app_name :: string
  nt_replaces_id :: "32 word"
  nt_app_icon :: string
  nt_icon_data :: "bytes option"
  nt_summary :: string
  nt_body :: string
  nt_actions :: "string list"
  nt_hints :: "(string \<times> any) list option"
  nt_expire_timeout :: "32 word"

subsection \<open>One request, one answer\<close>

definition send_request :: "message \<Rightarrow> (request_error, message) exch" where
  "send_request m = ex_bind (ex_send ReqWire m) (\<lambda>_. ex_recv ReqWire)"

definition new_transaction :: "bytes option \<Rightarrow> (request_error, bytes) exch" where
  "new_transaction tx = ex_lift (case tx of None \<Rightarrow> Inl ReqRandom | Some t \<Rightarrow> Inr t)"

definition check_ack :: "64 word \<Rightarrow> bytes \<Rightarrow> message \<Rightarrow> (request_error, unit) exch" where
  "check_ack t tx r = ex_check (mtype r \<noteq> t \<or> transaction_id r \<noteq> tx) ReqInvalidAck"

definition check_accepted :: "message \<Rightarrow> (request_error, unit) exch" where
  "check_accepted r = ex_check (payload_bool_opt (payload r) 0 = Some False) ReqRejected"

subsection \<open>The requests\<close>

definition send_ping :: "bool \<Rightarrow> bytes option \<Rightarrow> (request_error, unit) exch" where
  "send_ping gone tx =
     ex_bind (ex_check gone ReqClosed) (\<lambda>_.
     ex_bind (new_transaction tx) (\<lambda>t.
     ex_bind (send_request (new_message MessageTypePing t [])) (\<lambda>r.
     ex_lift (map_err ReqWire (validate_pong r t)))))"

definition send_heartbeat :: "bool \<Rightarrow> bytes option \<Rightarrow> (request_error, unit) exch" where
  "send_heartbeat gone tx =
     ex_bind (ex_check gone ReqClosed) (\<lambda>_.
     ex_bind (new_transaction tx) (\<lambda>t.
     ex_bind (send_request (new_message MessageTypePing t [(PingPayloadSilent, ABool True)])) (\<lambda>r.
     ex_lift (map_err ReqWire (validate_pong r t)))))"

definition send_ring :: "bool \<Rightarrow> bytes option \<Rightarrow> (request_error, unit) exch" where
  "send_ring gone tx =
     ex_bind (ex_check gone ReqClosed) (\<lambda>_.
     ex_bind (new_transaction tx) (\<lambda>t.
     ex_bind (send_request (new_message MessageTypeRing t [])) (\<lambda>r.
     check_ack MessageTypeRingAck t r)))"

definition sync_clipboard :: "bool \<Rightarrow> bytes option \<Rightarrow> clipboard_content \<Rightarrow> (request_error, unit) exch" where
  "sync_clipboard gone tx c =
     ex_bind (ex_check gone ReqClosed) (\<lambda>_.
     ex_bind (ex_check (length (clip_content c) > MaxClipboardBytes) ReqClipboardLimit) (\<lambda>_.
     ex_bind (new_transaction tx) (\<lambda>t.
     ex_bind (send_request (new_message MessageTypeSyncClipboard t
       [(1, AString (content_type c)), (2, ABytes (clip_content c))])) (\<lambda>r.
     ex_bind (check_ack MessageTypeSyncClipboardAck t r) (\<lambda>_.
     check_accepted r)))))"

definition clear_notification :: "bool \<Rightarrow> bytes option \<Rightarrow> 32 word \<Rightarrow> (request_error, unit) exch" where
  "clear_notification gone tx nid =
     ex_bind (ex_check gone ReqClosed) (\<lambda>_.
     ex_bind (new_transaction tx) (\<lambda>t.
     ex_bind (send_request (new_message MessageTypeClearNotification t [(1, AUint32 nid)])) (\<lambda>r.
     ex_bind (check_ack MessageTypeClearNotificationAck t r) (\<lambda>_.
     check_accepted r))))"

definition send_android_notification_action ::
    "bytes option \<Rightarrow> string \<Rightarrow> 64 word \<Rightarrow> string \<Rightarrow> (request_error, unit) exch" where
  "send_android_notification_action tx key action reply =
     ex_bind (new_transaction tx) (\<lambda>t.
     ex_bind (send_request (new_message MessageTypeNotificationAction t
       [(1, AString key), (2, AInt action), (3, AString reply)])) (\<lambda>r.
     check_ack MessageTypeNotificationActionAck t r))"

definition dismiss_android_notification :: "bytes option \<Rightarrow> string \<Rightarrow> (request_error, unit) exch" where
  "dismiss_android_notification tx key =
     ex_bind (new_transaction tx) (\<lambda>t.
     ex_bind (send_request (new_message MessageTypeDismissAndroidNotification t [(1, AString key)])) (\<lambda>r.
     check_ack MessageTypeDismissAndroidNotificationAck t r))"

definition send_unpair :: "bool \<Rightarrow> bytes option \<Rightarrow> (request_error, unit) exch" where
  "send_unpair gone tx =
     ex_bind (ex_check gone ReqClosed) (\<lambda>_.
     ex_bind (new_transaction tx) (\<lambda>t.
     ex_bind (send_request (new_message MessageTypeUnpair t [])) (\<lambda>r.
     check_ack MessageTypeUnpairAck t r)))"

subsection \<open>Notifications are cut to size\<close>

definition bound_text :: "string \<Rightarrow> nat \<Rightarrow> string" where
  "bound_text s n = (if length s > n then truncate_utf8 s n else s)"

definition bound_notification :: "notification_content \<Rightarrow> notification_content" where
  "bound_notification n =
     n\<lparr>nt_icon_data := (case nt_icon_data n of None \<Rightarrow> None | Some i \<Rightarrow> if length i > 8 * 1024 then None else Some i),
       nt_app_name := bound_text (nt_app_name n) 1024,
       nt_app_icon := bound_text (nt_app_icon n) 1024,
       nt_summary := bound_text (nt_summary n) (4 * 1024),
       nt_body := bound_text (nt_body n) (16 * 1024),
       nt_actions := (if length (nt_actions n) > 16 then take 16 (nt_actions n) else nt_actions n),
       nt_hints := (case nt_hints n of None \<Rightarrow> None | Some h \<Rightarrow> if length h > 32 then None else Some h)\<rparr>"

definition notification_payload :: "notification_content \<Rightarrow> payload" where
  "notification_payload n =
     [(1, AString (nt_app_name n)), (2, AUint32 (nt_replaces_id n)), (3, AString (nt_app_icon n)),
      (4, AString (nt_summary n)), (5, AString (nt_body n)), (6, AStrings (nt_actions n)),
      (7, case nt_hints n of None \<Rightarrow> ANil | Some h \<Rightarrow> AMapString h),
      (8, AInt32 (nt_expire_timeout n)),
      (9, case nt_icon_data n of None \<Rightarrow> ANil | Some i \<Rightarrow> ABytes i)]"

text \<open>The payload without the optional fields and with shorter texts.\<close>

definition reduced_payload :: "notification_content \<Rightarrow> payload" where
  "reduced_payload n =
     map_put 4 (AString (truncate_utf8 (nt_summary n) (2 * 1024)))
     (map_put 5 (AString (truncate_utf8 (nt_body n) (8 * 1024)))
     (map_put 6 (AStrings []) (map_put 9 ANil (map_put 7 (AMapString []) (notification_payload n)))))"

definition notification_message ::
    "marshaller \<Rightarrow> bytes \<Rightarrow> notification_content \<Rightarrow> request_error + message" where
  "notification_message marshal tx n =
     (let n' = bound_notification n;
          m = new_message MessageTypeSyncNotification tx (notification_payload n')
      in bind_r (map_err ReqEncode (encode_message marshal m)) (\<lambda>p.
         if length p > DefaultMaxFrameSize then
           (let m' = new_message MessageTypeSyncNotification tx (reduced_payload n')
            in bind_r (map_err ReqEncode (encode_message marshal m')) (\<lambda>p'.
               if length p' > DefaultMaxFrameSize then Inl ReqFrameLimit else Inr m'))
         else Inr m))"

definition sync_notifications ::
    "marshaller \<Rightarrow> bool \<Rightarrow> bytes option \<Rightarrow> notification_content \<Rightarrow> (request_error, unit) exch" where
  "sync_notifications marshal gone tx n =
     ex_bind (ex_check gone ReqClosed) (\<lambda>_.
     ex_bind (new_transaction tx) (\<lambda>t.
     ex_bind (ex_lift (notification_message marshal t n)) (\<lambda>m.
     ex_bind (send_request m) (\<lambda>r.
     ex_bind (check_ack MessageTypeSyncNotificationAck t r) (\<lambda>_.
     check_accepted r)))))"

subsection \<open>The contract of a request\<close>

text \<open>
  \<open>acknowledged op req ack refusable\<close>: given a transaction ID, \<open>op\<close> succeeds exactly when the
  message \<open>req\<close> could be written and was answered by a message of type \<open>ack\<close> with its ID, and not
  by a refusal where the peer can refuse.
\<close>

locale acknowledged =
  fixes op :: "bytes \<Rightarrow> (request_error, unit) exch"
    and req :: "bytes \<Rightarrow> message"
    and ack :: "64 word"
    and refusable :: bool
  assumes op_Inr: "op tx s = (Inr (), t) \<longleftrightarrow>
      (write_results s = [] \<or> hd (write_results s) = None) \<and>
      (\<exists>r rest. inbox s = Inr r # rest \<and> mtype r = ack \<and> transaction_id r = tx \<and>
        (refusable \<longrightarrow> payload_bool_opt (payload r) 0 \<noteq> Some False) \<and>
        t = s\<lparr>write_results := tl (write_results s), outbox := outbox s @ [req tx], inbox := rest\<rparr>)"
    and req_tx: "transaction_id (req tx) = tx"
    and op_sends: "outbox (snd (op tx s)) = outbox s \<or> outbox (snd (op tx s)) = outbox s @ [req tx]"
begin

lemma succeeds_once:
  "fst (op tx s) = Inr () \<Longrightarrow> outbox (snd (op tx s)) = outbox s @ [req tx]"
  using op_Inr [of tx s "snd (op tx s)"] by (cases "op tx s") auto

lemma answered:
  assumes "inbox s = Inr r # rest" "mtype r = ack" "transaction_id r = tx"
    "\<not> refusable \<or> payload_bool_opt (payload r) 0 \<noteq> Some False" "write_results s = []"
  shows "fst (op tx s) = Inr ()"
  using op_Inr [of tx s "s\<lparr>write_results := tl (write_results s), outbox := outbox s @ [req tx], inbox := rest\<rparr>"]
    assms by auto

lemma needs_answer:
  assumes "fst (op tx s) = Inr ()"
  obtains r rest where "inbox s = Inr r # rest" "mtype r = ack" "transaction_id r = tx"
  using op_Inr [of tx s "snd (op tx s)"] assms by (cases "op tx s") auto

end

lemma send_request_Inr [exch_simps]:
  "send_request m s = (Inr r, u) \<longleftrightarrow>
   (write_results s = [] \<or> hd (write_results s) = None) \<and>
   (\<exists>rest. inbox s = Inr r # rest \<and>
     u = s\<lparr>write_results := tl (write_results s), outbox := outbox s @ [m], inbox := rest\<rparr>)"
  by (auto simp: send_request_def exch_simps)

lemma send_request_sends:
  "outbox (snd (send_request m s)) = outbox s \<or> outbox (snd (send_request m s)) = outbox s @ [m]"
  by (auto simp: send_request_def ex_bind_def ex_send_def ex_recv_def split: list.splits option.splits sum.splits)

lemma check_ack_Inr [exch_simps]:
  "check_ack a tx r s = (Inr u, t) \<longleftrightarrow> mtype r = a \<and> transaction_id r = tx \<and> t = s"
  by (auto simp: check_ack_def ex_check_def)

lemma check_accepted_Inr [exch_simps]:
  "check_accepted r s = (Inr u, t) \<longleftrightarrow> payload_bool_opt (payload r) 0 \<noteq> Some False \<and> t = s"
  by (auto simp: check_accepted_def ex_check_def)

lemma new_transaction_Inr [exch_simps]: "new_transaction tx s = (Inr x, t) \<longleftrightarrow> tx = Some x \<and> t = s"
  by (auto simp: new_transaction_def ex_lift_def split: option.splits)

lemma checks_keep:
  "snd (check_ack a tx r s) = s" "snd (check_accepted r s) = s" "snd (new_transaction t s) = s"
  "snd (ex_check b e s) = s" "snd (ex_lift x s) = s"
  by (simp_all add: check_ack_def check_accepted_def new_transaction_def ex_check_def ex_lift_def)

text \<open>Steps before and after the one that sends leave the outbox alone.\<close>

definition silent :: "('e, 'a) exch \<Rightarrow> bool" where
  "silent f \<longleftrightarrow> (\<forall>s. snd (f s) = s)"

definition sends_one :: "message \<Rightarrow> ('e, 'a) exch \<Rightarrow> bool" where
  "sends_one m f \<longleftrightarrow> (\<forall>s. outbox (snd (f s)) = outbox s \<or> outbox (snd (f s)) = outbox s @ [m])"

lemma silent_steps [simp]:
  "silent (check_ack a tx r)" "silent (check_accepted r)" "silent (ex_lift x)" "silent (ex_check b e)"
  by (simp_all add: silent_def checks_keep)

lemma silent_bind: "silent f \<Longrightarrow> (\<And>x. silent (g x)) \<Longrightarrow> silent (ex_bind f g)"
  by (auto simp: silent_def ex_bind_def split: prod.splits sum.splits) (metis snd_conv)+

lemma sends_one_request: "(\<And>r. silent (g r)) \<Longrightarrow> sends_one m (ex_bind (send_request m) g)"
  using send_request_sends [of m]
  by (auto simp: sends_one_def silent_def ex_bind_def split: prod.splits sum.splits) (metis snd_conv)+

lemma silent_first: "silent f \<Longrightarrow> (\<And>x s. f s = (Inr x, s) \<Longrightarrow> sends_one m (g x)) \<Longrightarrow> sends_one m (ex_bind f g)"
  by (auto simp: sends_one_def silent_def ex_bind_def split: prod.splits sum.splits) (metis snd_conv)+

lemma open_request: "ex_bind (ex_check False e) f = f ()"
  by (rule ext) (simp add: ex_bind_def ex_check_def)

lemma known_transaction: "ex_bind (new_transaction (Some tx)) f = f tx"
  by (rule ext) (simp add: ex_bind_def new_transaction_def ex_lift_def)

lemmas request_open = open_request known_transaction

lemma ping_ack: "ex_lift (map_err ReqWire (validate_pong r t)) s = (Inr u, v) \<longleftrightarrow>
    mtype r = MessageTypePingAck \<and> transaction_id r = t \<and> v = s"
  by (auto simp: ex_lift_def validate_pong_def)

subsection \<open>Every request keeps the contract\<close>

lemma acknowledgedI:
  assumes op: "\<And>tx. op tx = ex_bind (send_request (req tx)) (answer tx)"
    and quiet: "\<And>tx r. silent (answer tx r)"
    and ok: "\<And>tx r s t. answer tx r s = (Inr (), t) \<longleftrightarrow> mtype r = ack \<and> transaction_id r = tx \<and>
      (refusable \<longrightarrow> payload_bool_opt (payload r) 0 \<noteq> Some False) \<and> t = s"
    and tx: "\<And>tx. transaction_id (req tx) = tx"
  shows "acknowledged op req ack refusable"
proof unfold_locales
  fix tx s t
  show "(op tx s = (Inr (), t)) = ((write_results s = [] \<or> hd (write_results s) = None) \<and>
      (\<exists>r rest. inbox s = Inr r # rest \<and> mtype r = ack \<and> transaction_id r = tx \<and>
        (refusable \<longrightarrow> payload_bool_opt (payload r) 0 \<noteq> Some False) \<and>
        t = s\<lparr>write_results := tl (write_results s), outbox := outbox s @ [req tx], inbox := rest\<rparr>))"
    unfolding op ex_bind_Inr send_request_Inr ok by auto
  show "outbox (snd (op tx s)) = outbox s \<or> outbox (snd (op tx s)) = outbox s @ [req tx]"
    using sends_one_request [of "answer tx" "req tx"] quiet unfolding op sends_one_def by blast
qed (rule tx)

interpretation ping: acknowledged "\<lambda>tx. send_ping False (Some tx)" "\<lambda>tx. new_message MessageTypePing tx []"
    MessageTypePingAck False
  by (rule acknowledgedI [where answer = "\<lambda>tx r. ex_lift (map_err ReqWire (validate_pong r tx))"])
    (simp_all add: send_ping_def request_open ping_ack)

interpretation heartbeat: acknowledged "\<lambda>tx. send_heartbeat False (Some tx)"
    "\<lambda>tx. new_message MessageTypePing tx [(PingPayloadSilent, ABool True)]" MessageTypePingAck False
  by (rule acknowledgedI [where answer = "\<lambda>tx r. ex_lift (map_err ReqWire (validate_pong r tx))"])
    (simp_all add: send_heartbeat_def request_open ping_ack)

interpretation ring: acknowledged "\<lambda>tx. send_ring False (Some tx)" "\<lambda>tx. new_message MessageTypeRing tx []"
    MessageTypeRingAck False
  by (rule acknowledgedI [where answer = "check_ack MessageTypeRingAck"])
    (simp_all add: send_ring_def request_open check_ack_Inr)

interpretation unpairing: acknowledged "\<lambda>tx. send_unpair False (Some tx)" "\<lambda>tx. new_message MessageTypeUnpair tx []"
    MessageTypeUnpairAck False
  by (rule acknowledgedI [where answer = "check_ack MessageTypeUnpairAck"])
    (simp_all add: send_unpair_def request_open check_ack_Inr)

interpretation action: acknowledged "\<lambda>tx. send_android_notification_action (Some tx) key a reply"
    "\<lambda>tx. new_message MessageTypeNotificationAction tx [(1, AString key), (2, AInt a), (3, AString reply)]"
    MessageTypeNotificationActionAck False for key a reply
  by (rule acknowledgedI [where answer = "check_ack MessageTypeNotificationActionAck"])
    (simp_all add: send_android_notification_action_def request_open check_ack_Inr)

interpretation dismissal: acknowledged "\<lambda>tx. dismiss_android_notification (Some tx) key"
    "\<lambda>tx. new_message MessageTypeDismissAndroidNotification tx [(1, AString key)]"
    MessageTypeDismissAndroidNotificationAck False for key
  by (rule acknowledgedI [where answer = "check_ack MessageTypeDismissAndroidNotificationAck"])
    (simp_all add: dismiss_android_notification_def request_open check_ack_Inr)

definition accepted_answer :: "64 word \<Rightarrow> bytes \<Rightarrow> message \<Rightarrow> (request_error, unit) exch" where
  "accepted_answer a tx r = ex_bind (check_ack a tx r) (\<lambda>_. check_accepted r)"

lemma accepted_answer:
  "silent (accepted_answer a tx r)"
  "accepted_answer a tx r s = (Inr (), t) \<longleftrightarrow> mtype r = a \<and> transaction_id r = tx \<and>
     payload_bool_opt (payload r) 0 \<noteq> Some False \<and> t = s"
  unfolding accepted_answer_def by (auto intro: silent_bind simp: exch_simps)

lemma accepted_answer_eta:
  "(\<lambda>r. ex_bind (check_ack a tx r) (\<lambda>_. check_accepted r)) = accepted_answer a tx"
  by (rule ext) (simp add: accepted_answer_def)

interpretation clearing: acknowledged "\<lambda>tx. clear_notification False (Some tx) nid"
    "\<lambda>tx. new_message MessageTypeClearNotification tx [(1, AUint32 nid)]"
    MessageTypeClearNotificationAck True for nid
  by (rule acknowledgedI [where answer = "accepted_answer MessageTypeClearNotificationAck"])
    (simp_all add: clear_notification_def request_open accepted_answer accepted_answer_eta)

definition clip_fits :: "clipboard_content \<Rightarrow> bool" where
  "clip_fits c \<longleftrightarrow> length (clip_content c) \<le> MaxClipboardBytes"

lemma clipboard_acknowledged:
  assumes "clip_fits c"
  shows "acknowledged (\<lambda>tx. sync_clipboard False (Some tx) c)
    (\<lambda>tx. new_message MessageTypeSyncClipboard tx [(1, AString (content_type c)), (2, ABytes (clip_content c))])
    MessageTypeSyncClipboardAck True"
proof -
  have "\<not> length (clip_content c) > MaxClipboardBytes" using assms by (simp add: clip_fits_def)
  then show ?thesis
    by (intro acknowledgedI [where answer = "accepted_answer MessageTypeSyncClipboardAck"])
      (simp_all add: sync_clipboard_def request_open accepted_answer accepted_answer_eta)
qed

subsection \<open>Notifications fit a frame\<close>

lemma sync_notifications_message:
  assumes "notification_message marshal tx n = Inr m"
  shows "sync_notifications marshal False (Some tx) n =
    ex_bind (send_request m) (accepted_answer MessageTypeSyncNotificationAck tx)"
  using assms
  by (intro ext) (simp add: sync_notifications_def request_open accepted_answer_eta ex_bind_def ex_lift_def)

lemma sync_notifications_refused:
  assumes "notification_message marshal tx n = Inl e"
  shows "sync_notifications marshal False (Some tx) n s = (Inl e, s)"
  using assms by (simp add: sync_notifications_def request_open ex_bind_def ex_lift_def)

lemma notification_message_fits:
  assumes "notification_message marshal tx n = Inr m"
  shows "\<exists>p. encode_message marshal m = Inr p \<and> length p \<le> DefaultMaxFrameSize"
    and "transaction_id m = tx" "mtype m = MessageTypeSyncNotification"
  using assms by (auto simp: notification_message_def Let_def split: if_split_asm)

lemma bound_text_facts:
  "length (bound_text s n) \<le> n" "valid_utf8 s \<Longrightarrow> valid_utf8 (bound_text s n)"
  "\<exists>k. bound_text s n = take k s"
proof -
  show "length (bound_text s n) \<le> n"
    using drop_invalid_prefix [of "take n s"] by (auto simp: bound_text_def truncate_utf8_def)
  show "valid_utf8 s \<Longrightarrow> valid_utf8 (bound_text s n)"
    by (simp add: bound_text_def truncate_utf8_def drop_invalid_valid)
  show "\<exists>k. bound_text s n = take k s"
    using drop_invalid_prefix [of "take n s"]
    by (cases "length s > n") (auto simp: bound_text_def truncate_utf8_def intro: exI [of _ "length s"])
qed

lemma truncate_prefix: "\<exists>k. truncate_utf8 s n = take k s"
  using drop_invalid_prefix [of "take n s"]
  by (cases "length s > n") (auto simp: truncate_utf8_def intro: exI [of _ "length s"])

lemma notification_texts:
  assumes "notification_message marshal tx n = Inr m"
  shows "\<exists>i j. map_of (payload m) 4 = Some (AString (take i (nt_summary n))) \<and>
    map_of (payload m) 5 = Some (AString (take j (nt_body n)))"
proof -
  obtain i where i: "bound_text (nt_summary n) (4 * 1024) = take i (nt_summary n)" using bound_text_facts(3) by blast
  obtain j where j: "bound_text (nt_body n) (16 * 1024) = take j (nt_body n)" using bound_text_facts(3) by blast
  obtain i' where i': "truncate_utf8 (take i (nt_summary n)) (2 * 1024) = take i' (take i (nt_summary n))"
    using truncate_prefix by blast
  obtain j' where j': "truncate_utf8 (take j (nt_body n)) (8 * 1024) = take j' (take j (nt_body n))"
    using truncate_prefix by blast
  let ?n = "bound_notification n"
  consider "m = new_message MessageTypeSyncNotification tx (notification_payload ?n)"
    | "m = new_message MessageTypeSyncNotification tx (reduced_payload ?n)"
    using assms by (auto simp: notification_message_def Let_def split: if_split_asm)
  then show ?thesis
  proof cases
    case 1
    then show ?thesis using i j by (auto simp: notification_payload_def bound_notification_def)
  next
    case 2
    then have "payload m = reduced_payload ?n" by simp
    then show ?thesis
      using i j i' j' by (auto simp: reduced_payload_def bound_notification_def)
  qed
qed

subsection \<open>Properties\<close>

datatype request_op =
    OpPing | OpHeartbeat | OpRing | OpClipboard clipboard_content | OpClear "32 word"
  | OpAction string "64 word" string | OpDismiss string | OpUnpair

fun run_request :: "request_op \<Rightarrow> bytes \<Rightarrow> (request_error, unit) exch" where
  "run_request OpPing tx = send_ping False (Some tx)"
| "run_request OpHeartbeat tx = send_heartbeat False (Some tx)"
| "run_request OpRing tx = send_ring False (Some tx)"
| "run_request (OpClipboard c) tx = sync_clipboard False (Some tx) c"
| "run_request (OpClear n) tx = clear_notification False (Some tx) n"
| "run_request (OpAction key a reply) tx = send_android_notification_action (Some tx) key a reply"
| "run_request (OpDismiss key) tx = dismiss_android_notification (Some tx) key"
| "run_request OpUnpair tx = send_unpair False (Some tx)"

fun ack_of :: "request_op \<Rightarrow> 64 word" where
  "ack_of OpPing = MessageTypePingAck"
| "ack_of OpHeartbeat = MessageTypePingAck"
| "ack_of OpRing = MessageTypeRingAck"
| "ack_of (OpClipboard c) = MessageTypeSyncClipboardAck"
| "ack_of (OpClear n) = MessageTypeClearNotificationAck"
| "ack_of (OpAction key a reply) = MessageTypeNotificationActionAck"
| "ack_of (OpDismiss key) = MessageTypeDismissAndroidNotificationAck"
| "ack_of OpUnpair = MessageTypeUnpairAck"

definition can_be_refused :: "request_op \<Rightarrow> bool" where
  "can_be_refused op = (case op of OpClipboard _ \<Rightarrow> True | OpClear _ \<Rightarrow> True | _ \<Rightarrow> False)"

definition op_fits :: "request_op \<Rightarrow> bool" where
  "op_fits op = (case op of OpClipboard c \<Rightarrow> clip_fits c | _ \<Rightarrow> True)"

lemma every_request_acknowledged:
  assumes "op_fits op" shows "\<exists>req. acknowledged (run_request op) req (ack_of op) (can_be_refused op)"
proof (cases op)
  case (OpClipboard c)
  then show ?thesis
    using assms clipboard_acknowledged [of c] by (auto simp: op_fits_def can_be_refused_def run_request.simps [abs_def])
qed (auto simp: can_be_refused_def run_request.simps [abs_def] intro: ping.acknowledged_axioms
    heartbeat.acknowledged_axioms ring.acknowledged_axioms unpairing.acknowledged_axioms
    action.acknowledged_axioms dismissal.acknowledged_axioms clearing.acknowledged_axioms)

text \<open>C29. A request (ping, heartbeat, ring, clipboard, clear, action, dismiss, unpair) succeeds exactly
  when its one message could be written and the answer has the right type and its transaction ID,
  and is not a refusal where the peer can refuse; whatever happens, it writes one message of its
  transaction or none.\<close>

theorem request_succeeds_iff_acknowledged:
  assumes "op_fits op"
  shows "(fst (run_request op tx s) = Inr () \<longleftrightarrow>
      (write_results s = [] \<or> hd (write_results s) = None) \<and>
      (\<exists>r rest. inbox s = Inr r # rest \<and> mtype r = ack_of op \<and> transaction_id r = tx \<and>
        (can_be_refused op \<longrightarrow> payload_bool_opt (payload r) 0 \<noteq> Some False))) \<and>
    (\<exists>m. transaction_id m = tx \<and>
      (outbox (snd (run_request op tx s)) = outbox s \<and> fst (run_request op tx s) \<noteq> Inr () \<or>
       outbox (snd (run_request op tx s)) = outbox s @ [m]))"
proof -
  obtain req where a: "acknowledged (run_request op) req (ack_of op) (can_be_refused op)"
    using every_request_acknowledged [OF assms] by blast
  obtain r t where rt: "run_request op tx s = (r, t)" by force
  have iff: "fst (run_request op tx s) = Inr () \<longleftrightarrow>
      (write_results s = [] \<or> hd (write_results s) = None) \<and>
      (\<exists>r rest. inbox s = Inr r # rest \<and> mtype r = ack_of op \<and> transaction_id r = tx \<and>
        (can_be_refused op \<longrightarrow> payload_bool_opt (payload r) 0 \<noteq> Some False))"
    using acknowledged.op_Inr [OF a, of tx s] rt by (metis (no_types, lifting) fst_conv prod.collapse)
  moreover have "transaction_id (req tx) = tx" by (rule acknowledged.req_tx [OF a])
  moreover have "outbox (snd (run_request op tx s)) = outbox s \<and> fst (run_request op tx s) \<noteq> Inr () \<or>
      outbox (snd (run_request op tx s)) = outbox s @ [req tx]"
    using acknowledged.op_sends [OF a, of tx s] acknowledged.succeeds_once [OF a, of tx s] by blast
  ultimately show ?thesis by blast
qed

text \<open>C30. A notification is sent at most once, and only when its encoding fits a frame of 64 KiB:
  what is sent carries prefixes of its summary and body, and if even the reduced form is too long
  nothing is sent.\<close>

theorem notification_fits_frame:
  "\<exists>ms. outbox (snd (sync_notifications marshal gone (Some tx) n s)) = outbox s @ ms \<and> length ms \<le> 1 \<and>
     (\<forall>m \<in> set ms. (\<exists>p. encode_message marshal m = Inr p \<and> length p \<le> 65536) \<and> transaction_id m = tx \<and>
        (\<exists>i j. map_of (payload m) 4 = Some (AString (take i (nt_summary n))) \<and>
               map_of (payload m) 5 = Some (AString (take j (nt_body n)))))"
proof (cases gone)
  case True
  then have "snd (sync_notifications marshal gone (Some tx) n s) = s"
    by (simp add: sync_notifications_def ex_bind_def ex_check_def)
  then show ?thesis by (intro exI [of _ "[]"]) simp
next
  case False
  show ?thesis
  proof (cases "notification_message marshal tx n")
    case (Inl e)
    then show ?thesis using False sync_notifications_refused [OF Inl, of s] by (intro exI [of _ "[]"]) simp
  next
    case (Inr m)
    have "outbox (snd (sync_notifications marshal gone (Some tx) n s)) = outbox s \<or>
        outbox (snd (sync_notifications marshal gone (Some tx) n s)) = outbox s @ [m]"
      using sends_one_request [of "accepted_answer MessageTypeSyncNotificationAck tx" m] accepted_answer(1) False
      unfolding sends_one_def by (simp add: sync_notifications_message [OF Inr])
    moreover have "(\<exists>p. encode_message marshal m = Inr p \<and> length p \<le> 65536) \<and> transaction_id m = tx"
      using notification_message_fits [OF Inr] by (simp add: DefaultMaxFrameSize_def)
    moreover note notification_texts [OF Inr]
    ultimately show ?thesis by (elim disjE) (intro exI [of _ "[]"] exI [of _ "[m]"], simp)+
  qed
qed

definition ping_exchange :: exchange where
  "ping_exchange = \<lparr>inbox = [Inr (new_message MessageTypePingAck [1, 2] [])], write_results = [], outbox = [],
     disk = [], link = new_conn, sealed_from = None\<rparr>"

lemma request_succeeds_iff_acknowledged_witness:
  "op_fits OpPing \<and> fst (run_request OpPing [1, 2] ping_exchange) = Inr ()"
proof -
  have f: "op_fits OpPing" by (simp add: op_fits_def)
  show ?thesis
    using request_succeeds_iff_acknowledged [OF f, of "[1, 2]" ping_exchange] f
    by (simp add: ping_exchange_def can_be_refused_def)
qed

definition short_notification :: notification_content where
  "short_notification = \<lparr>nt_app_name = ''mail'', nt_replaces_id = 0, nt_app_icon = [], nt_icon_data = None,
     nt_summary = ''hello'', nt_body = [], nt_actions = [], nt_hints = None, nt_expire_timeout = 0\<rparr>"

lemma notification_fits_frame_witness:
  "\<exists>ms. outbox (snd (sync_notifications (\<lambda>_. Some [1]) False (Some [1, 2]) short_notification ping_exchange)) = ms \<and>
     length ms \<le> 1 \<and> list_all (\<lambda>m. transaction_id m = [1, 2]) ms"
  using notification_fits_frame [of "\<lambda>_. Some [1]" False "[1, 2]" short_notification ping_exchange]
  unfolding list_all_iff by (auto simp: ping_exchange_def)

end
