(* ===== verification/Go_Text.thy ===== *)
theory Go_Text
  imports Go_Prelude
begin

text \<open>
  The functions of Go's \<open>strings\<close>, \<open>regexp\<close> and \<open>path/filepath\<close> packages that only the code around
  external programs and files uses. A regular expression of the code is a function \<open>m\<close> that
  matches at the beginning of a string; \<open>find_match m\<close> is \<open>FindStringSubmatch\<close>, the leftmost match.
\<close>

subsection \<open>Substrings and fields\<close>

fun contains_str :: "string \<Rightarrow> string \<Rightarrow> bool" where
  "contains_str [] p \<longleftrightarrow> p = []"
| "contains_str (c # s) p \<longleftrightarrow> has_prefix (c # s) p \<or> contains_str s p"

lemma contains_str_conv: "contains_str s p \<longleftrightarrow> (\<exists>a b. s = a @ p @ b)"
proof (induction s)
  case (Cons c s)
  show ?case
  proof
    assume "contains_str (c # s) p"
    then consider "has_prefix (c # s) p" | "contains_str s p" by auto
    then show "\<exists>a b. c # s = a @ p @ b"
    proof cases
      case 1
      then show ?thesis by (metis append_Nil has_prefix_conv)
    next
      case 2
      then show ?thesis using Cons.IH by (metis append_Cons)
    qed
  next
    assume "\<exists>a b. c # s = a @ p @ b"
    then obtain a b where e: "c # s = a @ p @ b" by blast
    show "contains_str (c # s) p"
    proof (cases a)
      case Nil
      then have "has_prefix (c # s) p" unfolding has_prefix_conv using e by auto
      then show ?thesis by simp
    next
      case (Cons x a')
      then have "s = a' @ p @ b" using e by simp
      then show ?thesis using Cons.IH by auto
    qed
  qed
qed auto

text \<open>\<open>strings.Fields\<close>: the parts between white space.\<close>

definition space_at :: "string \<Rightarrow> bool" where
  "space_at s \<longleftrightarrow> list_ex (has_prefix s) space_seqs"

fun word_at :: "string \<Rightarrow> string" where
  "word_at [] = []"
| "word_at (c # s) = (if space_at (c # s) then [] else c # word_at s)"

lemma strip_seqs_length: "length (strip_seqs ws s) \<le> length s"
proof (induction ws s rule: strip_seqs.induct)
  case (1 ws s)
  show ?case
  proof (cases "find (\<lambda>w. w \<noteq> [] \<and> has_prefix s w) ws")
    case None
    then show ?thesis by (simp add: strip_seqs.simps)
  next
    case (Some w)
    then show ?thesis using "1.IH" [OF Some] by (simp add: strip_seqs.simps [of ws s])
  qed
qed

function text_fields :: "string \<Rightarrow> string list" where
  "text_fields s =
     (let t = strip_seqs space_seqs s; w = word_at t
      in if w = [] then [] else w # text_fields (drop (length w) t))"
  by pat_completeness auto
termination
proof (relation "measure length")
  fix s t w :: string
  assume t: "t = strip_seqs space_seqs s" and w: "w = word_at t" "w \<noteq> []"
  have "length t \<le> length s" unfolding t by (rule strip_seqs_length)
  moreover have "length t - length w < length t" by (rule diff_less) (use w in auto)
  ultimately show "(drop (length w) t, s) \<in> measure length" by simp
qed simp

declare text_fields.simps [simp del]

subsection \<open>Matches\<close>

fun find_match :: "(string \<Rightarrow> 'a option) \<Rightarrow> string \<Rightarrow> 'a option" where
  "find_match m [] = m []"
| "find_match m (c # s) = (case m (c # s) of Some r \<Rightarrow> Some r | None \<Rightarrow> find_match m s)"

text \<open>The class \<open>\s\<close>.\<close>

definition re_space :: "char \<Rightarrow> bool" where
  "re_space c \<longleftrightarrow> c \<in> {CHR 0x09, CHR 0x0A, CHR 0x0C, CHR 0x0D, CHR 0x20}"

definition newline :: char where "newline = CHR 0x0A"

lemma find_match_None: "(\<And>a b. s = a @ b \<Longrightarrow> m b = None) \<Longrightarrow> find_match m s = None"
proof (induction s)
  case Nil
  then show ?case by simp
next
  case (Cons c s)
  have "m (c # s) = None" using Cons.prems [of "[]" "c # s"] by simp
  moreover have "find_match m s = None"
    using Cons.IH Cons.prems by (metis append_Cons)
  ultimately show ?case by simp
qed

lemma find_match_skip:
  "(\<And>a b. p = a @ b \<Longrightarrow> b \<noteq> [] \<Longrightarrow> m (b @ s) = None) \<Longrightarrow> m s = Some r \<Longrightarrow> find_match m (p @ s) = Some r"
proof (induction p)
  case Nil
  then show ?case by (cases s) auto
next
  case (Cons c p)
  have "m (c # p @ s) = None" using Cons.prems(1) [of "[]" "c # p"] by simp
  moreover have "find_match m (p @ s) = Some r"
    using Cons.IH Cons.prems by (metis append_Cons)
  ultimately show ?case by simp
qed

end
