(* ===== verification/Notifications.thy ===== *)
theory Notifications
  imports Session_Events Session_Requests Go_Text
begin

text \<open>
  Notifications. The first part watches the notifications of the desktop
  (\<open>libquava/notifications/dbus.go\<close>): it sees every message of the session bus, pairs each \<open>Notify\<close> call with
  its reply, which holds the identifier the server chose, and pushes the notification. The second part
  shows notifications of a phone on the desktop (\<open>libquava/notifications/android.go\<close>) and carries actions
  and dismissals back.

  A message of the bus has typed headers and arguments, the values of which are \<open>any\<close>. The world of the
  watcher holds its two maps, the identifiers of notifications that came from a phone (both packages
  share them), and in \<open>nw_out\<close> the calls of its callbacks. Files and image decoding are parameters.
\<close>

subsection \<open>Messages of the bus\<close>

datatype bus_type = TypeCall | TypeReply | TypeError | TypeSignal

datatype bus_field = FieldInterface | FieldMember | FieldSender | FieldDestination | FieldReplySerial

record bus_message =
  bm_type :: bus_type
  bm_headers :: "(bus_field, any) gomap"
  bm_body :: "any list"
  bm_serial :: "32 word"

definition get_header_string :: "bus_message \<Rightarrow> bus_field \<Rightarrow> string option" where
  "get_header_string m f = (case map_of (bm_headers m) f of Some (AString s) \<Rightarrow> Some s | _ \<Rightarrow> None)"

definition get_header_uint32 :: "bus_message \<Rightarrow> bus_field \<Rightarrow> 32 word option" where
  "get_header_uint32 m f = (case map_of (bm_headers m) f of Some (AUint32 n) \<Rightarrow> Some n | _ \<Rightarrow> None)"

definition notifications_interface :: string where
  "notifications_interface = ''org.freedesktop.Notifications''"

definition parse_notification_closed :: "bus_message \<Rightarrow> 32 word option" where
  "parse_notification_closed m =
     (if bm_type m \<noteq> TypeSignal then None
      else if get_header_string m FieldInterface \<noteq> Some notifications_interface then None
      else if get_header_string m FieldMember \<noteq> Some ''NotificationClosed'' then None
      else (case bm_body m of [AUint32 nid, _] \<Rightarrow> Some nid | _ \<Rightarrow> None))"

definition parse_notification :: "bus_message \<Rightarrow> notification_content option" where
  "parse_notification m =
     (if bm_type m \<noteq> TypeCall then None
      else if get_header_string m FieldInterface \<noteq> Some notifications_interface then None
      else if get_header_string m FieldMember \<noteq> Some ''Notify'' then None
      else (case bm_body m of
          [AString app, AUint32 rid, AString icon, AString summary, AString body, AStrings actions,
           AMapString hints, AInt32 timeout] \<Rightarrow>
            Some \<lparr>nt_app_name = app, nt_replaces_id = rid, nt_app_icon = icon, nt_icon_data = None,
                  nt_summary = summary, nt_body = body, nt_actions = actions, nt_hints = Some hints,
                  nt_expire_timeout = timeout\<rparr>
        | _ \<Rightarrow> None))"

definition parse_notification_return :: "bus_message \<Rightarrow> (32 word \<times> 32 word) option" where
  "parse_notification_return m =
     (if bm_type m \<noteq> TypeReply then None
      else (case get_header_uint32 m FieldReplySerial of
          None \<Rightarrow> None
        | Some serial \<Rightarrow> (case bm_body m of [AUint32 nid] \<Rightarrow> Some (nid, serial) | _ \<Rightarrow> None)))"

text \<open>\<open>%s:%d\<close>: who called, and the serial of the call.\<close>

definition request_key :: "string \<Rightarrow> 32 word \<Rightarrow> string" where
  "request_key who serial = who @ '':'' @ dec_nat (unat serial)"

subsection \<open>Icons\<close>

definition max_notification_icon :: nat where "max_notification_icon = 512 * 1024"

definition hint :: "notification_content \<Rightarrow> string \<Rightarrow> any option" where
  "hint n k = (case nt_hints n of None \<Rightarrow> None | Some h \<Rightarrow> map_of h k)"

definition notification_icon_path :: "notification_content \<Rightarrow> string" where
  "notification_icon_path n =
     (if nt_app_icon n \<noteq> [] then nt_app_icon n
      else (case hint n ''image-path'' of Some (AString p) \<Rightarrow> p | _ \<Rightarrow> []))"

record icon_files =
  read_icon :: "string \<Rightarrow> bytes option"
  icon_decodes :: "bytes \<Rightarrow> bool"

definition load_notification_icon :: "icon_files \<Rightarrow> string \<Rightarrow> bytes option" where
  "load_notification_icon F p =
     (if \<not> has_prefix p ''/'' then None
      else (case read_icon F p of
          None \<Rightarrow> None
        | Some bs \<Rightarrow>
            (let data = take (max_notification_icon + 1) bs in
             if data = [] \<or> length data > max_notification_icon \<or> \<not> icon_decodes F data then None
             else Some data)))"

subsection \<open>The watcher\<close>

datatype watch_call = PushCall notification_content | ClearCall "32 word"

record notification_world =
  nw_started :: bool
  nw_last :: "notification_content option"
  nw_pending :: "(string, notification_content) gomap"
  nw_ids :: "(32 word, 32 word) gomap"
  nw_all_ids :: "(32 word, 32 word) gomap"
  nw_origin :: "32 word list"
  nw_out :: "watch_call list"

datatype watch_error = WatchRunning | WatchConnect | WatchMonitor | WatchClose

definition new_notification_watcher :: notification_world where
  "new_notification_watcher = \<lparr>nw_started = False, nw_last = None, nw_pending = [], nw_ids = [], nw_all_ids = [],
     nw_origin = [], nw_out = []\<rparr>"

definition start_notification_service ::
    "bool \<Rightarrow> bool \<Rightarrow> bool \<Rightarrow> notification_world \<Rightarrow> watch_error option \<times> notification_world" where
  "start_notification_service conn_ok monitor_ok closed_ok w =
     (if nw_started w then (Some WatchRunning, w)
      else if \<not> conn_ok then (Some WatchConnect, w)
      else if \<not> monitor_ok then (Some (if closed_ok then WatchMonitor else WatchClose), w)
      else (None, w\<lparr>nw_started := True\<rparr>))"

definition store_notification_id :: "32 word \<Rightarrow> 32 word \<Rightarrow> notification_world \<Rightarrow> notification_world" where
  "store_notification_id android linux w =
     w\<lparr>nw_ids := map_put android linux (nw_ids w), nw_all_ids := map_put android linux (nw_all_ids w)\<rparr>"

definition clear_notification_id :: "32 word \<Rightarrow> notification_world \<Rightarrow> notification_world" where
  "clear_notification_id android w =
     w\<lparr>nw_ids := map_del android (nw_ids w), nw_all_ids := map_del android (nw_all_ids w)\<rparr>"

definition clear_all_notification_ids :: "notification_world \<Rightarrow> notification_world" where
  "clear_all_notification_ids w =
     w\<lparr>nw_ids := [], nw_all_ids := fold map_del (map fst (nw_ids w)) (nw_all_ids w)\<rparr>"

text \<open>The end of \<open>run\<close>, after \<open>Stop\<close> or because the bus is gone.\<close>

definition watcher_ended :: "notification_world \<Rightarrow> notification_world" where
  "watcher_ended w = clear_all_notification_ids (w\<lparr>nw_started := False\<rparr>)"

definition stop_notification_service :: "bool \<Rightarrow> notification_world \<Rightarrow> watch_error option \<times> notification_world" where
  "stop_notification_service close_ok w =
     (if \<not> nw_started w then (None, w)
      else (if close_ok then None else Some WatchClose, watcher_ended w))"

definition push_notification_content :: "notification_content \<Rightarrow> notification_world \<Rightarrow> notification_world" where
  "push_notification_content n w = w\<lparr>nw_last := Some n, nw_out := nw_out w @ [PushCall n]\<rparr>"

definition clear_notification_content :: "32 word \<Rightarrow> notification_world \<Rightarrow> notification_world" where
  "clear_notification_content nid w = w\<lparr>nw_out := nw_out w @ [ClearCall nid]\<rparr>"

definition is_android_origin :: "32 word \<Rightarrow> notification_world \<Rightarrow> bool" where
  "is_android_origin nid w \<longleftrightarrow> nid \<in> set (nw_origin w)"

definition notify_failed :: "bus_message \<Rightarrow> notification_world \<Rightarrow> notification_world" where
  "notify_failed m w =
     (case (get_header_uint32 m FieldReplySerial, get_header_string m FieldDestination) of
        (Some serial, Some who) \<Rightarrow> w\<lparr>nw_pending := map_del (request_key who serial) (nw_pending w)\<rparr>
      | _ \<Rightarrow> w)"

definition notify_returned :: "32 word \<Rightarrow> 32 word \<Rightarrow> bus_message \<Rightarrow> notification_world \<Rightarrow> notification_world" where
  "notify_returned nid serial m w =
     (case get_header_string m FieldDestination of
        None \<Rightarrow> w
      | Some who \<Rightarrow>
          (case map_of (nw_pending w) (request_key who serial) of
             None \<Rightarrow> w
           | Some n \<Rightarrow>
               (let prev = nt_replaces_id n;
                    w1 = store_notification_id nid nid (w\<lparr>nw_pending := map_del (request_key who serial) (nw_pending w)\<rparr>);
                    w2 = (if prev \<noteq> 0 \<and> prev \<noteq> nid then clear_notification_id prev w1 else w1)
                in push_notification_content (n\<lparr>nt_replaces_id := nid\<rparr>) w2)))"

definition notification_closed :: "32 word \<Rightarrow> notification_world \<Rightarrow> notification_world" where
  "notification_closed nid w =
     (if is_android_origin nid w then w
      else clear_notification_content nid (clear_notification_id nid w))"

definition from_android :: "notification_content \<Rightarrow> bool" where
  "from_android n \<longleftrightarrow> hint n ''x-quava-android'' = Some (ABool True)"

definition notify_called :: "icon_files \<Rightarrow> notification_content \<Rightarrow> bus_message \<Rightarrow> notification_world \<Rightarrow> notification_world" where
  "notify_called F n m w =
     (if from_android n then w
      else (case get_header_string m FieldSender of
          None \<Rightarrow> w
        | Some who \<Rightarrow>
            w\<lparr>nw_pending := map_put (request_key who (bm_serial m))
                 (n\<lparr>nt_icon_data := load_notification_icon F (notification_icon_path n)\<rparr>) (nw_pending w)\<rparr>))"

definition on_message :: "icon_files \<Rightarrow> bus_message \<Rightarrow> notification_world \<Rightarrow> notification_world" where
  "on_message F m w =
     (if bm_type m = TypeError then notify_failed m w
      else (case parse_notification_return m of
          Some (nid, serial) \<Rightarrow> notify_returned nid serial m w
        | None \<Rightarrow>
            (case parse_notification_closed m of
               Some nid \<Rightarrow> notification_closed nid w
             | None \<Rightarrow>
                 (case parse_notification m of
                    None \<Rightarrow> w
                  | Some n \<Rightarrow> notify_called F n m w))))"

text \<open>\<open>CloseNotification\<close>: the identifier it asks the server to close.\<close>

definition close_notification_id :: "32 word \<Rightarrow> notification_world \<Rightarrow> 32 word" where
  "close_notification_id nid w = get_or nid (nw_all_ids w) nid"

end
