(* ===== verification/Crypto_Kdf.thy ===== *)
theory Crypto_Kdf
  imports Go_Prelude
begin

text \<open>
  Identities, transcripts and key derivation: \<open>libquava/crypto/pairing.go\<close> and
  \<open>libquava/models/crypto.go\<close>.

  The cryptographic primitives are a parameter, a record of functions: SHA-256, HMAC-SHA-256,
  HKDF-SHA-256, Ed25519 and X25519. What the code builds from them (which bytes are hashed,
  signed and derived, in which order) is modelled here. Randomness is an argument: the bytes
  \<open>crypto/rand\<close> delivers, or \<open>None\<close> when it fails.
\<close>

datatype crypto_error =
    ErrRandom
  | ErrX25519Private
  | ErrX25519Public
  | ErrX25519Derive
  | ErrHkdf
  | ErrVerification
  | PanicKeyLength

record crypto_lib =
  sha256 :: "bytes \<Rightarrow> bytes"
  hmac256 :: "bytes \<Rightarrow> bytes \<Rightarrow> bytes"
  hkdf256 :: "bytes \<Rightarrow> bytes \<Rightarrow> bytes \<Rightarrow> nat \<Rightarrow> bytes option"
  ed_public :: "bytes \<Rightarrow> bytes"
  ed_sign :: "bytes \<Rightarrow> bytes \<Rightarrow> bytes"
  ed_verify :: "bytes \<Rightarrow> bytes \<Rightarrow> bytes \<Rightarrow> bool"
  x_public :: "bytes \<Rightarrow> bytes"
  x_private_ok :: "bytes \<Rightarrow> bool"
  x_public_ok :: "bytes \<Rightarrow> bool"
  x_ecdh :: "bytes \<Rightarrow> bytes \<Rightarrow> bytes option"

record identity =
  private_key :: bytes
  public_key :: bytes

definition ed_public_key_size :: nat where "ed_public_key_size = 32"
definition ed_private_key_size :: nat where "ed_private_key_size = 64"

subsection \<open>Identifiers and randomness\<close>

text \<open>\<open>ed25519.GenerateKey\<close>: the key pair it draws, or failure.\<close>

definition generate_identity_key_pair :: "identity option \<Rightarrow> crypto_error + identity" where
  "generate_identity_key_pair r = (case r of None \<Rightarrow> Inl ErrRandom | Some i \<Rightarrow> Inr i)"

definition device_id_bytes :: "crypto_lib \<Rightarrow> bytes \<Rightarrow> bytes" where
  "device_id_bytes C pk = take 16 (sha256 C pk)"

definition device_id_from_public_key :: "crypto_lib \<Rightarrow> bytes \<Rightarrow> string" where
  "device_id_from_public_key C pk = hex_encode (take 16 (sha256 C pk))"

definition random_bytes :: "nat \<Rightarrow> bytes option \<Rightarrow> crypto_error + bytes" where
  "random_bytes n r = (case r of None \<Rightarrow> Inl ErrRandom | Some b \<Rightarrow> Inr (take n (b @ replicate n 0)))"

definition generate_transaction_id :: "bytes option \<Rightarrow> crypto_error + bytes" where
  "generate_transaction_id r = random_bytes 16 r"

definition generate_nonce :: "bytes option \<Rightarrow> crypto_error + bytes" where
  "generate_nonce r = random_bytes 32 r"

definition generate_x25519_key_pair ::
    "crypto_lib \<Rightarrow> bytes option \<Rightarrow> crypto_error + bytes \<times> bytes" where
  "generate_x25519_key_pair C r =
     (case r of None \<Rightarrow> Inl ErrRandom | Some k \<Rightarrow> Inr (k, x_public C k))"

lemma length_random_bytes: "random_bytes n r = Inr b \<Longrightarrow> length b = n"
  by (auto simp: random_bytes_def split: option.splits)

subsection \<open>Derivation\<close>

definition x25519_shared_secret :: "crypto_lib \<Rightarrow> bytes \<Rightarrow> bytes \<Rightarrow> crypto_error + bytes" where
  "x25519_shared_secret C private peer_public =
     (if \<not> x_private_ok C private then Inl ErrX25519Private
      else if \<not> x_public_ok C peer_public then Inl ErrX25519Public
      else case x_ecdh C private peer_public of None \<Rightarrow> Inl ErrX25519Derive | Some s \<Rightarrow> Inr s)"

text \<open>Arguments in the order of \<open>HKDFSHA256\<close>: salt, input key material, info, length.\<close>

definition hkdf_sha256 :: "crypto_lib \<Rightarrow> bytes \<Rightarrow> bytes \<Rightarrow> bytes \<Rightarrow> nat \<Rightarrow> crypto_error + bytes" where
  "hkdf_sha256 C salt ikm info n =
     (case hkdf256 C salt ikm info n of None \<Rightarrow> Inl ErrHkdf | Some k \<Rightarrow> Inr k)"

definition verification_code ::
    "crypto_lib \<Rightarrow> bytes \<Rightarrow> bytes \<Rightarrow> bytes \<Rightarrow> bytes \<Rightarrow> bytes \<Rightarrow> 32 word" where
  "verification_code C ipk rpk inonce rnonce tx =
     (let digest = sha256 C (str_bytes ''quava-pairing-code'' @ ipk @ rpk @ inonce @ rnonce @ tx);
          value = or (or (or (push_bit 24 (ucast (digest ! 0))) (push_bit 16 (ucast (digest ! 1))))
                    (push_bit 8 (ucast (digest ! 2)))) (ucast (digest ! 3))
      in value mod 1000000)"

definition transcript_digest :: "crypto_lib \<Rightarrow> bytes \<Rightarrow> bytes" where
  "transcript_digest C transcript = sha256 C transcript"

definition sign_transcript :: "crypto_lib \<Rightarrow> bytes \<Rightarrow> bytes \<Rightarrow> bytes" where
  "sign_transcript C priv transcript = ed_sign C priv (transcript_digest C transcript)"

text \<open>\<open>ed25519.Verify\<close> panics on a public key of the wrong length.\<close>

definition verify_transcript :: "crypto_lib \<Rightarrow> bytes \<Rightarrow> bytes \<Rightarrow> bytes \<Rightarrow> crypto_error + unit" where
  "verify_transcript C pk transcript signature =
     (if length pk \<noteq> ed_public_key_size then Inl PanicKeyLength
      else if \<not> ed_verify C pk (transcript_digest C transcript) signature then Inl ErrVerification
      else Inr ())"

definition put_u64 :: "64 word \<Rightarrow> bytes" where
  "put_u64 v = [ucast (drop_bit 56 v), ucast (drop_bit 48 v), ucast (drop_bit 40 v),
     ucast (drop_bit 32 v), ucast (drop_bit 24 v), ucast (drop_bit 16 v), ucast (drop_bit 8 v),
     ucast v]"

definition pairing_protocol_name :: string where
  "pairing_protocol_name = ''quava-pairing''"

definition transcript_bytes ::
    "64 word \<Rightarrow> bytes \<Rightarrow> bytes \<Rightarrow> bytes \<Rightarrow> bytes \<Rightarrow> bytes \<Rightarrow> bytes \<Rightarrow> bytes \<Rightarrow> bytes \<Rightarrow> bytes \<Rightarrow> bytes" where
  "transcript_bytes v tx iid rid ipk rpk inonce rnonce ieph reph =
     str_bytes pairing_protocol_name @ put_u64 v @ tx @ iid @ rid @ ipk @ rpk @ inonce @ rnonce
       @ ieph @ reph"

definition master_secret :: "crypto_lib \<Rightarrow> bytes \<Rightarrow> bytes \<Rightarrow> bytes \<Rightarrow> crypto_error + bytes" where
  "master_secret C inonce rnonce shared =
     hkdf_sha256 C (sha256 C (inonce @ rnonce)) shared (str_bytes ''quava-pairing-v1'') 32"

definition peer_credential_key :: "crypto_lib \<Rightarrow> bytes \<Rightarrow> bytes \<Rightarrow> crypto_error + bytes" where
  "peer_credential_key C tx master =
     hkdf_sha256 C (sha256 C tx) master (str_bytes ''quava-peer-credential-v1'') 32"

definition confirmation_mac :: "crypto_lib \<Rightarrow> bytes \<Rightarrow> bytes \<Rightarrow> bytes" where
  "confirmation_mac C master tx = hmac256 C master (str_bytes ''quava-pair-complete'' @ tx)"

definition session_key_host_to_peer :: string where
  "session_key_host_to_peer = ''quava-session-frames-host-to-peer-v1''"
definition session_key_peer_to_host :: string where
  "session_key_peer_to_host = ''quava-session-frames-peer-to-host-v1''"

definition session_keys :: "crypto_lib \<Rightarrow> bytes \<Rightarrow> bytes \<Rightarrow> crypto_error + bytes \<times> bytes" where
  "session_keys C credential transcript =
     (let salt = sha256 C transcript in
      bind_r (hkdf_sha256 C salt credential (str_bytes session_key_host_to_peer) 32) (\<lambda>h2p.
      bind_r (hkdf_sha256 C salt credential (str_bytes session_key_peer_to_host) 32) (\<lambda>p2h.
        Inr (h2p, p2h))))"

subsection \<open>Facts\<close>

text \<open>What is assumed of the primitives where a result needs it: their sizes, and that HKDF does
  not derive the same key from one secret for the two labels of a session.\<close>

definition crypto_sizes :: "crypto_lib \<Rightarrow> bool" where
  "crypto_sizes C \<longleftrightarrow> (\<forall>x. length (sha256 C x) = 32) \<and>
     (\<forall>s k i n key. hkdf256 C s k i n = Some key \<longrightarrow> length key = n)"

definition hkdf_separates :: "crypto_lib \<Rightarrow> bool" where
  "hkdf_separates C \<longleftrightarrow> (\<forall>s k key.
     hkdf256 C s k (str_bytes session_key_host_to_peer) 32 = Some key \<longrightarrow>
     hkdf256 C s k (str_bytes session_key_peer_to_host) 32 \<noteq> Some key)"

lemma put_u64_inject [simp]: "put_u64 v = put_u64 w \<longleftrightarrow> v = w"
proof
  assume eq: "put_u64 v = put_u64 w"
  show "v = w"
  proof (rule bit_word_eqI)
    fix n assume "n < LENGTH(64)"
    have "bit v (8 * k + i) = bit w (8 * k + i)" if "k < 8" "i < 8" for k i
    proof -
      have "(ucast (drop_bit (8 * k) v) :: byte) = ucast (drop_bit (8 * k) w)"
        using eq that(1) by (auto simp: put_u64_def less_Suc_eq numeral_eq_Suc)
      then have "bit (ucast (drop_bit (8 * k) v) :: byte) i = bit (ucast (drop_bit (8 * k) w) :: byte) i"
        by simp
      then show ?thesis using that by (simp add: bit_simps)
    qed
    from this [of "n div 8" "n mod 8"] \<open>n < LENGTH(64)\<close> show "bit v n = bit w n" by simp
  qed
qed simp

lemma length_put_u64 [simp]: "length (put_u64 v) = 8"
  by (simp add: put_u64_def)

lemma verification_code_bound: "verification_code C a b c d e < 1000000"
proof -
  have "x mod 1000000 < (1000000 :: 32 word)" for x :: "32 word"
    by (rule word_mod_less_divisor) simp
  then show ?thesis by (simp add: verification_code_def Let_def)
qed

lemma transcript_inject:
  assumes "transcript_bytes v tx iid rid ipk rpk inonce rnonce ieph reph =
      transcript_bytes v' tx' iid' rid' ipk' rpk' inonce' rnonce' ieph' reph'"
    and "length tx = length tx'" "length iid = length iid'" "length rid = length rid'"
      "length ipk = length ipk'" "length rpk = length rpk'" "length inonce = length inonce'"
      "length rnonce = length rnonce'" "length ieph = length ieph'"
  shows "v = v' \<and> tx = tx' \<and> iid = iid' \<and> rid = rid' \<and> ipk = ipk' \<and> rpk = rpk' \<and>
    inonce = inonce' \<and> rnonce = rnonce' \<and> ieph = ieph' \<and> reph = reph'"
  using assms by (simp add: transcript_bytes_def)

lemma session_keys_differ:
  assumes "hkdf_separates C" "session_keys C cred tr = Inr (a, b)"
  shows "a \<noteq> b"
proof
  assume "a = b"
  then have "hkdf256 C (sha256 C tr) cred (str_bytes session_key_host_to_peer) 32 = Some a"
    "hkdf256 C (sha256 C tr) cred (str_bytes session_key_peer_to_host) 32 = Some a"
    using assms(2) by (auto simp: session_keys_def hkdf_sha256_def Let_def split: option.splits)
  then show False
    using assms(1) unfolding hkdf_separates_def by blast
qed

lemma device_id_length:
  "crypto_sizes C \<Longrightarrow> length (device_id_from_public_key C pk) = 32 \<and> length (device_id_bytes C pk) = 16"
  by (simp add: device_id_from_public_key_def device_id_bytes_def crypto_sizes_def)

lemma device_id_hex: "device_id_from_public_key C pk = hex_encode (device_id_bytes C pk)"
  by (simp add: device_id_from_public_key_def device_id_bytes_def)

subsection \<open>Properties\<close>

text \<open>A library of transparent primitives, with the right sizes, on which the model can be run:
  the hash is the first 32 bytes, padded, and a derived key ends in a digest of its label.\<close>

definition pad32 :: "bytes \<Rightarrow> bytes" where
  "pad32 x = take 32 (x @ replicate 32 0)"

definition plain_crypto :: crypto_lib where
  "plain_crypto = \<lparr>sha256 = pad32, hmac256 = (\<lambda>k m. pad32 (m @ k)),
     hkdf256 = (\<lambda>s k i n. Some (take n (i @ k @ s @ replicate n 0))),
     ed_public = (\<lambda>k. pad32 k), ed_sign = (\<lambda>k d. pad32 k @ d),
     ed_verify = (\<lambda>p d s. s = p @ d), x_public = (\<lambda>k. k),
     x_private_ok = (\<lambda>_. True), x_public_ok = (\<lambda>_. True),
     x_ecdh = (\<lambda>a b. Some (map2 xor (pad32 a) (pad32 b)))\<rparr>"

text \<open>Both sides sign one transcript: two transcripts whose fields have the same lengths are
  equal only if every field is, the negotiated version included.\<close>

theorem transcript_injective:
  assumes "transcript_bytes v tx iid rid ipk rpk inonce rnonce ieph reph =
      transcript_bytes v' tx' iid' rid' ipk' rpk' inonce' rnonce' ieph' reph'"
    and "map length [tx, iid, rid, ipk, rpk, inonce, rnonce, ieph] =
      map length [tx', iid', rid', ipk', rpk', inonce', rnonce', ieph']"
  shows "v = v' \<and> [tx, iid, rid, ipk, rpk, inonce, rnonce, ieph, reph] =
    [tx', iid', rid', ipk', rpk', inonce', rnonce', ieph', reph']"
  using transcript_inject [OF assms(1)] assms(2) by simp

lemma transcript_injective_witness:
  "transcript_bytes 2 [1] [2] [3] [4] [5] [6] [7] [8] [9] = transcript_bytes 2 [1] [2] [3] [4] [5] [6] [7] [8] [9]
     \<and> (2 :: 64 word) = 2"
  using transcript_injective [of 2 "[1]" "[2]" "[3]" "[4]" "[5]" "[6]" "[7]" "[8]" "[9]"
      2 "[1]" "[2]" "[3]" "[4]" "[5]" "[6]" "[7]" "[8]" "[9]"] by simp

end
