(* ===== verification/Config_Store.thy ===== *)
theory Config_Store
  imports Crypto_Kdf
begin

text \<open>
  The durable store of the daemon: \<open>libquava/config/config.go\<close>, with the persisted types of
  \<open>libquava/models/pairing.go\<close> and the filters of \<open>libquava/models/notifications.go\<close>.

  A nil map and an empty map are both \<open>[]\<close>: every write of the code to a map that may be nil
  is preceded by its allocation, and reading a nil map is reading an empty one. The clones of
  \<open>cloneIdentity\<close> and \<open>cloneDevice\<close> are the values themselves. The YAML library is a parameter
  (\<open>yaml_lib\<close>); the file system is a map from paths to contents, and \<open>save\<close> is given which of
  its steps fail.
\<close>

subsection \<open>Data\<close>

record identity_file =
  device_name :: string
  id_private :: bytes
  id_public :: bytes

record pair_result =
  pr_peer_id :: string
  pr_public_key :: bytes
  pr_peer_name :: string
  pr_protocol_version :: "64 word"
  pr_permissions :: "64 word list"
  pr_credential :: bytes
  pr_paired_at :: int
  pr_code :: "32 word"
  pr_selected_version :: "64 word"
  pr_transaction_id :: bytes
  pr_initiator_id :: string

record notification_filters =
  muted_apps :: "string list"
  only_apps :: "string list"
  muted_categories :: "string list"
  silent_policy :: string

record config_file =
  cf_version :: int
  cf_identity :: "identity_file option"
  cf_devices :: "(string, pair_result) gomap"
  cf_notification_sync :: "(string, string) gomap"
  cf_clipboard_sync :: "(string, bool) gomap"
  cf_input_auto :: "(string, bool) gomap"
  cf_auto_connect_off :: "(string, bool) gomap"
  cf_filters :: notification_filters

datatype config_error =
    CfgResolveDir
  | CfgMkdir
  | CfgRead
  | CfgParse
  | CfgVersion int
  | CfgBadKeyLengths
  | CfgKeyMismatch
  | CfgDeviceKey string
  | CfgTrustMaterial string
  | CfgDeviceIdMismatch string
  | CfgSyncSetting string
  | CfgClipboardSetting string
  | CfgClipboardUnknown string
  | CfgAutoConnectSetting string
  | CfgInputSetting string
  | CfgInputUnknown string
  | CfgNoDeviceId
  | CfgDirection string
  | CfgSilentPolicy string
  | CfgNotPaired string
  | CfgMarshal
  | CfgCreateTemp
  | CfgProtect
  | CfgWrite
  | CfgSync
  | CfgClose
  | CfgRename
  | CfgRemoveTemp

definition current_version :: int where "current_version = 1"

definition empty_filters :: notification_filters where
  "empty_filters = \<lparr>muted_apps = [], only_apps = [], muted_categories = [], silent_policy = []\<rparr>"

definition empty_config :: config_file where
  "empty_config = \<lparr>cf_version = current_version, cf_identity = None, cf_devices = [],
     cf_notification_sync = [], cf_clipboard_sync = [], cf_input_auto = [],
     cf_auto_connect_off = [], cf_filters = empty_filters\<rparr>"

definition sync_both :: string where "sync_both = ''both''"
definition sync_none :: string where "sync_none = ''none''"
definition sync_to_client :: string where "sync_to_client = ''toClient''"
definition sync_to_host :: string where "sync_to_host = ''toHost''"

lemmas sync_defs = sync_both_def sync_none_def sync_to_client_def sync_to_host_def

definition valid_sync_direction :: "string \<Rightarrow> bool" where
  "valid_sync_direction d \<longleftrightarrow>
     d = sync_both \<or> d = sync_none \<or> d = sync_to_client \<or> d = sync_to_host"

subsection \<open>Reading\<close>

text \<open>\<open>None\<close> is the nil store.\<close>

definition get_identity :: "config_file option \<Rightarrow> identity_file option" where
  "get_identity s = (case s of None \<Rightarrow> None | Some f \<Rightarrow> cf_identity f)"

definition list_devices :: "config_file option \<Rightarrow> pair_result list" where
  "list_devices s =
     (case s of None \<Rightarrow> [] | Some f \<Rightarrow> sort_key pr_peer_id (map snd (cf_devices f)))"

definition get_device :: "config_file option \<Rightarrow> string \<Rightarrow> pair_result option" where
  "get_device s i = (case s of None \<Rightarrow> None | Some f \<Rightarrow> map_of (cf_devices f) (canon i))"

definition notification_sync :: "config_file option \<Rightarrow> string \<Rightarrow> string" where
  "notification_sync s i =
     (case s of
        None \<Rightarrow> sync_to_host
      | Some f \<Rightarrow>
          (let d = get_or [] (cf_notification_sync f) (canon i) in
           if valid_sync_direction d then d else sync_to_host))"

definition get_filters :: "config_file option \<Rightarrow> notification_filters" where
  "get_filters s = (case s of None \<Rightarrow> empty_filters | Some f \<Rightarrow> cf_filters f)"

definition clipboard_sync :: "config_file option \<Rightarrow> string \<Rightarrow> bool" where
  "clipboard_sync s i =
     (case s of None \<Rightarrow> False | Some f \<Rightarrow> get_or False (cf_clipboard_sync f) (canon i))"

definition auto_connect :: "config_file option \<Rightarrow> string \<Rightarrow> bool" where
  "auto_connect s i =
     (case s of None \<Rightarrow> False | Some f \<Rightarrow> \<not> get_or False (cf_auto_connect_off f) (canon i))"

definition input_auto :: "config_file option \<Rightarrow> string \<Rightarrow> bool" where
  "input_auto s i =
     (case s of None \<Rightarrow> False | Some f \<Rightarrow> get_or False (cf_input_auto f) (canon i))"

subsection \<open>Changing\<close>

definition set_identity :: "identity_file \<Rightarrow> config_file \<Rightarrow> config_file" where
  "set_identity i f = f\<lparr>cf_identity := Some i\<rparr>"

text \<open>The closure \<open>clean\<close>: trimmed, without empty entries and without repetitions up to case.\<close>

fun clean_items :: "string list \<Rightarrow> string list \<Rightarrow> string list" where
  "clean_items [] known = []"
| "clean_items (x # xs) known =
     (let item = trim_space x; key = to_lower item in
      if item = [] \<or> key \<in> set known then clean_items xs known
      else item # clean_items xs (key # known))"

definition set_notification_filters ::
    "notification_filters \<Rightarrow> config_file \<Rightarrow> config_error + config_file" where
  "set_notification_filters nf f =
     (let nf = nf\<lparr>muted_apps := clean_items (muted_apps nf) [],
                  only_apps := clean_items (only_apps nf) [],
                  muted_categories := clean_items (muted_categories nf) [],
                  silent_policy := canon (silent_policy nf)\<rparr>
      in if silent_policy nf \<in> {[], ''drop'', ''preserve'', ''normal''}
         then Inr (f\<lparr>cf_filters := nf\<rparr>)
         else Inl (CfgSilentPolicy (silent_policy nf)))"

definition set_notification_sync ::
    "string \<Rightarrow> string \<Rightarrow> config_file \<Rightarrow> config_error + config_file" where
  "set_notification_sync i d f =
     (let i = canon i in
      if i = [] then Inl CfgNoDeviceId
      else if \<not> valid_sync_direction d then Inl (CfgDirection d)
      else Inr (f\<lparr>cf_notification_sync := map_put i d (cf_notification_sync f)\<rparr>))"

definition set_clipboard_sync :: "string \<Rightarrow> bool \<Rightarrow> config_file \<Rightarrow> config_error + config_file" where
  "set_clipboard_sync i on f =
     (let i = canon i in
      if i = [] then Inl CfgNoDeviceId
      else if \<not> map_has (cf_devices f) i then Inl (CfgNotPaired i)
      else Inr (f\<lparr>cf_clipboard_sync := map_put i on (cf_clipboard_sync f)\<rparr>))"

definition remove_device :: "string \<Rightarrow> config_file \<Rightarrow> config_error + config_file" where
  "remove_device i f =
     (let i = canon i in
      if \<not> map_has (cf_devices f) i then Inl (CfgNotPaired i)
      else Inr (f\<lparr>cf_devices := map_del i (cf_devices f),
                  cf_notification_sync := map_del i (cf_notification_sync f),
                  cf_clipboard_sync := map_del i (cf_clipboard_sync f),
                  cf_input_auto := map_del i (cf_input_auto f),
                  cf_auto_connect_off := map_del i (cf_auto_connect_off f)\<rparr>))"

definition set_auto_connect :: "string \<Rightarrow> bool \<Rightarrow> config_file \<Rightarrow> config_error + config_file" where
  "set_auto_connect i on f =
     (let i = canon i in
      if \<not> map_has (cf_devices f) i then Inl (CfgNotPaired i)
      else Inr (f\<lparr>cf_auto_connect_off :=
                   (if on then map_del i (cf_auto_connect_off f)
                    else map_put i True (cf_auto_connect_off f))\<rparr>))"

definition set_input_auto :: "string \<Rightarrow> bool \<Rightarrow> config_file \<Rightarrow> config_error + config_file" where
  "set_input_auto i on f =
     (let i = canon i in
      if i = [] then Inl CfgNoDeviceId
      else if \<not> map_has (cf_devices f) i then Inl (CfgNotPaired i)
      else Inr (f\<lparr>cf_input_auto := map_put i on (cf_input_auto f)\<rparr>))"

definition upsert_device :: "pair_result \<Rightarrow> config_file \<Rightarrow> config_error + config_file" where
  "upsert_device d f =
     (let i = canon (pr_peer_id d) in
      if i = [] then Inl CfgNoDeviceId
      else Inr (f\<lparr>cf_devices := map_put i (d\<lparr>pr_peer_id := i\<rparr>) (cf_devices f)\<rparr>))"

subsection \<open>Validation\<close>

definition migrate_config :: "config_file \<Rightarrow> config_error + config_file" where
  "migrate_config f =
     (if cf_version f = 0 then Inr (f\<lparr>cf_version := 1\<rparr>)
      else if cf_version f = current_version then Inr f
      else Inl (CfgVersion (cf_version f)))"

definition check_identity :: "crypto_lib \<Rightarrow> identity_file option \<Rightarrow> config_error + unit" where
  "check_identity C i =
     (case i of
        None \<Rightarrow> Inr ()
      | Some i \<Rightarrow>
          if length (id_private i) \<noteq> ed_private_key_size \<or> length (id_public i) \<noteq> ed_public_key_size
          then Inl CfgBadKeyLengths
          else if ed_public C (id_private i) \<noteq> id_public i then Inl CfgKeyMismatch
          else Inr ())"

definition check_device :: "crypto_lib \<Rightarrow> string \<times> pair_result \<Rightarrow> config_error + unit" where
  "check_device C e =
     (let (i, d) = e in
      if canon i = [] \<or> canon i \<noteq> i \<or> pr_peer_id d \<noteq> i then Inl (CfgDeviceKey i)
      else if length (pr_public_key d) \<noteq> ed_public_key_size \<or> pr_credential d = []
      then Inl (CfgTrustMaterial i)
      else if device_id_from_public_key C (pr_public_key d) \<noteq> i then Inl (CfgDeviceIdMismatch i)
      else Inr ())"

definition check_sync :: "string \<times> string \<Rightarrow> config_error + unit" where
  "check_sync e =
     (let (i, d) = e in
      if canon i \<noteq> i \<or> \<not> valid_sync_direction d then Inl (CfgSyncSetting i) else Inr ())"

definition check_clipboard :: "config_file \<Rightarrow> string \<times> bool \<Rightarrow> config_error + unit" where
  "check_clipboard f e =
     (let i = fst e in
      if canon i \<noteq> i then Inl (CfgClipboardSetting i)
      else if \<not> map_has (cf_devices f) i then Inl (CfgClipboardUnknown i)
      else Inr ())"

definition check_auto_connect :: "string \<times> bool \<Rightarrow> config_error + unit" where
  "check_auto_connect e =
     (let i = fst e in if canon i \<noteq> i then Inl (CfgAutoConnectSetting i) else Inr ())"

definition check_input_auto :: "config_file \<Rightarrow> string \<times> bool \<Rightarrow> config_error + unit" where
  "check_input_auto f e =
     (let i = fst e in
      if canon i \<noteq> i then Inl (CfgInputSetting i)
      else if \<not> map_has (cf_devices f) i then Inl (CfgInputUnknown i)
      else Inr ())"

fun check_all :: "('a \<Rightarrow> config_error + unit) \<Rightarrow> 'a list \<Rightarrow> config_error + unit" where
  "check_all c [] = Inr ()"
| "check_all c (x # xs) = bind_r (c x) (\<lambda>_. check_all c xs)"

text \<open>The order of the maps' entries decides which of several errors is reported.\<close>

definition validate_config :: "crypto_lib \<Rightarrow> config_file \<Rightarrow> config_error + unit" where
  "validate_config C f =
     bind_r (check_identity C (cf_identity f)) (\<lambda>_.
     bind_r (check_all (check_device C) (cf_devices f)) (\<lambda>_.
     bind_r (check_all check_sync (cf_notification_sync f)) (\<lambda>_.
     bind_r (check_all (check_clipboard f) (cf_clipboard_sync f)) (\<lambda>_.
     bind_r (check_all check_auto_connect (cf_auto_connect_off f)) (\<lambda>_.
     check_all (check_input_auto f) (cf_input_auto f))))))"

subsection \<open>Opening and saving\<close>

record yaml_lib =
  yaml_marshal :: "config_file \<Rightarrow> bytes option"
  yaml_unmarshal :: "bytes \<Rightarrow> config_file \<Rightarrow> config_file option"

type_synonym files = "(string, bytes) gomap"

datatype read_outcome = ReadOk bytes | ReadMissing | ReadFailed

definition config_path :: "string \<Rightarrow> string" where
  "config_path dir = dir @ ''/config.yaml''"

definition resolve_dir :: "string \<Rightarrow> string option \<Rightarrow> config_error + string" where
  "resolve_dir storage base =
     (if trim_space storage \<noteq> [] then Inr storage
      else case base of None \<Rightarrow> Inl CfgResolveDir | Some b \<Rightarrow> Inr (b @ ''/quava''))"

definition open_store ::
    "crypto_lib \<Rightarrow> yaml_lib \<Rightarrow> string \<Rightarrow> string option \<Rightarrow> bool \<Rightarrow> (string \<Rightarrow> read_outcome) \<Rightarrow>
     config_error + string \<times> config_file" where
  "open_store C Y storage base mkdir_ok read =
     bind_r (resolve_dir storage base) (\<lambda>dir.
       if \<not> mkdir_ok then Inl CfgMkdir
       else case read (config_path dir) of
         ReadMissing \<Rightarrow> Inr (dir, empty_config)
       | ReadFailed \<Rightarrow> Inl CfgRead
       | ReadOk data \<Rightarrow>
           (case yaml_unmarshal Y data empty_config of
              None \<Rightarrow> Inl CfgParse
            | Some f \<Rightarrow>
                bind_r (migrate_config f) (\<lambda>f.
                bind_r (validate_config C f) (\<lambda>_. Inr (dir, f)))))"

text \<open>The steps of \<open>Save\<close> that may fail, and how many bytes a failing \<open>Write\<close> stored.\<close>

record save_faults =
  temp_ok :: bool
  chmod_ok :: bool
  write_ok :: bool
  written :: nat
  sync_ok :: bool
  close_ok :: bool
  rename_ok :: bool
  remove_ok :: bool

text \<open>The deferred clean-up: the temporary file is gone after a rename, which is no error.\<close>

definition save_cleanup ::
    "save_faults \<Rightarrow> string \<Rightarrow> config_error option \<times> files \<Rightarrow> config_error option \<times> files" where
  "save_cleanup x tmp r =
     (let (e, fs) = r in
      if \<not> map_has fs tmp then (e, fs)
      else if remove_ok x then (e, map_del tmp fs)
      else (case e of None \<Rightarrow> Some CfgRemoveTemp | Some e' \<Rightarrow> Some e', fs))"

definition save_store ::
    "yaml_lib \<Rightarrow> save_faults \<Rightarrow> string \<Rightarrow> string \<Rightarrow> config_file \<Rightarrow> files \<Rightarrow>
     config_error option \<times> config_file \<times> files" where
  "save_store Y x tmp path f fs =
     (let f = f\<lparr>cf_version := current_version\<rparr> in
      case yaml_marshal Y f of
        None \<Rightarrow> (Some CfgMarshal, f, fs)
      | Some data \<Rightarrow>
          if \<not> temp_ok x then (Some CfgCreateTemp, f, fs)
          else let fs0 = map_put tmp [] fs;
                   r = (if \<not> chmod_ok x then (Some CfgProtect, fs0)
                        else if \<not> write_ok x
                        then (Some CfgWrite, map_put tmp (take (written x) data) fs)
                        else let fs1 = map_put tmp data fs in
                          if \<not> sync_ok x then (Some CfgSync, fs1)
                          else if \<not> close_ok x then (Some CfgClose, fs1)
                          else if \<not> rename_ok x then (Some CfgRename, fs1)
                          else (None, map_put path data (map_del tmp fs)))
               in (let (e, fs') = save_cleanup x tmp r in (e, f, fs')))"

subsection \<open>Per-device switches\<close>

text \<open>The three boolean settings of a device have one contract.\<close>

locale device_switch =
  fixes get :: "config_file option \<Rightarrow> string \<Rightarrow> bool"
    and set_to :: "string \<Rightarrow> bool \<Rightarrow> config_file \<Rightarrow> config_error + config_file"
    and dflt :: bool
  assumes get_canon: "get s (canon i) = get s i"
    and set_get: "set_to i on f = Inr f' \<Longrightarrow>
      get (Some f') j = (if canon j = canon i then on else get (Some f) j)"
    and set_devices: "set_to i on f = Inr f' \<Longrightarrow> cf_devices f' = cf_devices f"
    and set_paired: "canon i \<noteq> [] \<Longrightarrow>
      (\<exists>f'. set_to i on f = Inr f') \<longleftrightarrow> map_has (cf_devices f) (canon i)"
    and removed: "remove_device i f = Inr f' \<Longrightarrow> get (Some f') i = dflt"
    and removed_other: "remove_device i f = Inr f' \<Longrightarrow> canon j \<noteq> canon i \<Longrightarrow>
      get (Some f') j = get (Some f) j"
begin

lemma last_set_wins:
  assumes "set_to i a f = Inr f'" "set_to i b f' = Inr f''"
  shows "get (Some f'') j = (if canon j = canon i then b else get (Some f) j)"
  using set_get [OF assms(1), of j] set_get [OF assms(2), of j] by simp

lemma unpaired_refused: "canon i \<noteq> [] \<Longrightarrow> \<not> map_has (cf_devices f) (canon i) \<Longrightarrow> \<exists>e. set_to i on f = Inl e"
  using set_paired [of i on f] by (cases "set_to i on f") auto

lemma repaired_default:
  assumes "set_to i on f = Inr f1" "remove_device i f1 = Inr f2"
  shows "get (Some f2) i = dflt"
    and "canon j \<noteq> canon i \<Longrightarrow> get (Some f2) j = get (Some f) j"
  using removed [OF assms(2)] removed_other [OF assms(2), of j] set_get [OF assms(1), of j] by auto

end

lemma remove_device_Inr:
  "remove_device i f = Inr f' \<longleftrightarrow> map_has (cf_devices f) (canon i) \<and>
     f' = f\<lparr>cf_devices := map_del (canon i) (cf_devices f),
        cf_notification_sync := map_del (canon i) (cf_notification_sync f),
        cf_clipboard_sync := map_del (canon i) (cf_clipboard_sync f),
        cf_input_auto := map_del (canon i) (cf_input_auto f),
        cf_auto_connect_off := map_del (canon i) (cf_auto_connect_off f)\<rparr>"
  by (auto simp: remove_device_def Let_def)

interpretation clipboard_switch: device_switch clipboard_sync set_clipboard_sync False
  by unfold_locales
    (auto simp: clipboard_sync_def set_clipboard_sync_def remove_device_Inr Let_def split: option.splits if_splits)

interpretation input_switch: device_switch input_auto set_input_auto False
  by unfold_locales
    (auto simp: input_auto_def set_input_auto_def remove_device_Inr Let_def split: option.splits if_splits)

interpretation auto_connect_switch: device_switch auto_connect set_auto_connect True
  by unfold_locales
    (auto simp: auto_connect_def set_auto_connect_def remove_device_Inr Let_def split: option.splits if_splits)

subsection \<open>Every operation keeps the file valid\<close>

lemma check_all_Inr [simp]: "check_all c xs = Inr () \<longleftrightarrow> (\<forall>x \<in> set xs. c x = Inr ())"
  by (induction xs) auto

definition config_inv :: "crypto_lib \<Rightarrow> config_file \<Rightarrow> bool" where
  "config_inv C f \<longleftrightarrow> validate_config C f = Inr () \<and> cf_version f = current_version \<and>
     wf_map (cf_devices f) \<and> wf_map (cf_notification_sync f) \<and> wf_map (cf_clipboard_sync f) \<and>
     wf_map (cf_input_auto f) \<and> wf_map (cf_auto_connect_off f)"

definition config_maps_ok :: "crypto_lib \<Rightarrow> config_file \<Rightarrow> bool" where
  "config_maps_ok C f \<longleftrightarrow>
     (\<forall>e \<in> set (cf_devices f). check_device C e = Inr ()) \<and>
     (\<forall>e \<in> set (cf_notification_sync f). check_sync e = Inr ()) \<and>
     (\<forall>(i, _) \<in> set (cf_clipboard_sync f). canon i = i \<and> map_has (cf_devices f) i) \<and>
     (\<forall>(i, _) \<in> set (cf_auto_connect_off f). canon i = i) \<and>
     (\<forall>(i, _) \<in> set (cf_input_auto f). canon i = i \<and> map_has (cf_devices f) i)"

lemma if_unit: "(if b then Inl e else r) = Inr x \<longleftrightarrow> \<not> b \<and> r = Inr x"
  by simp

lemma validate_config_conv:
  "validate_config C f = Inr () \<longleftrightarrow> check_identity C (cf_identity f) = Inr () \<and> config_maps_ok C f"
  by (simp add: validate_config_def config_maps_ok_def check_clipboard_def check_auto_connect_def
      check_input_auto_def Let_def if_unit case_prod_unfold)

inductive config_step :: "crypto_lib \<Rightarrow> config_file \<Rightarrow> config_file \<Rightarrow> bool" for C :: crypto_lib where
  "check_identity C (Some i) = Inr () \<Longrightarrow> config_step C f (set_identity i f)"
| "set_notification_filters nf f = Inr f' \<Longrightarrow> config_step C f f'"
| "set_notification_sync i d f = Inr f' \<Longrightarrow> config_step C f f'"
| "set_clipboard_sync i on f = Inr f' \<Longrightarrow> config_step C f f'"
| "set_auto_connect i on f = Inr f' \<Longrightarrow> config_step C f f'"
| "set_input_auto i on f = Inr f' \<Longrightarrow> config_step C f f'"
| "remove_device i f = Inr f' \<Longrightarrow> config_step C f f'"
| "check_device C (canon (pr_peer_id d), d\<lparr>pr_peer_id := canon (pr_peer_id d)\<rparr>) = Inr () \<Longrightarrow>
    upsert_device d f = Inr f' \<Longrightarrow> config_step C f f'"

inductive_cases config_stepE: "config_step C f f'"

lemmas config_inv_defs = config_inv_def validate_config_conv config_maps_ok_def

lemma map_entries_put:
  "\<forall>e \<in> set m. P e \<Longrightarrow> P (k, v) \<Longrightarrow> \<forall>e \<in> set (map_put k v m). P e"
  by (induction m) auto

lemma map_entries_del: "\<forall>e \<in> set m. P e \<Longrightarrow> \<forall>e \<in> set (map_del k m). P e \<and> fst e \<noteq> k"
  by (simp add: set_map_del)

lemma config_inv_remove:
  assumes "config_inv C f" "remove_device i f = Inr f'"
  shows "config_inv C f'"
proof -
  let ?i = "canon i"
  have f: "config_maps_ok C f" using assms(1) by (simp add: config_inv_defs)
  have "config_maps_ok C f'"
    unfolding config_maps_ok_def
  proof (intro conjI)
    show "\<forall>e \<in> set (cf_devices f'). check_device C e = Inr ()"
      "\<forall>e \<in> set (cf_notification_sync f'). check_sync e = Inr ()"
      "\<forall>(i, _) \<in> set (cf_auto_connect_off f'). canon i = i"
      "\<forall>(i, _) \<in> set (cf_clipboard_sync f'). canon i = i \<and> map_has (cf_devices f') i"
      "\<forall>(i, _) \<in> set (cf_input_auto f'). canon i = i \<and> map_has (cf_devices f') i"
      using f assms(2) by (auto simp: remove_device_Inr config_maps_ok_def set_map_del)
  qed
  then show ?thesis
    using assms by (simp add: config_inv_def validate_config_conv remove_device_Inr)
qed

lemma config_step_inv:
  assumes "config_inv C f" "config_step C f f'"
  shows "config_inv C f'"
  using assms(2)
proof cases
  case (1 i)
  then show ?thesis using assms(1) by (auto simp: config_inv_defs set_identity_def)
next
  case (2 nf)
  then show ?thesis using assms(1)
    by (auto simp: config_inv_defs set_notification_filters_def Let_def split: if_split_asm)
next
  case (3 i d)
  let ?i = "canon i"
  have f': "f' = f\<lparr>cf_notification_sync := map_put ?i d (cf_notification_sync f)\<rparr>"
    and d: "valid_sync_direction d"
    using 3 by (simp_all add: set_notification_sync_def Let_def split: if_split_asm)
  have "check_sync (?i, d) = Inr ()" using d by (simp add: check_sync_def)
  then have "\<forall>e \<in> set (map_put ?i d (cf_notification_sync f)). check_sync e = Inr ()"
    using assms(1) by (intro map_entries_put) (simp_all add: config_inv_defs)
  then show ?thesis using assms(1) unfolding config_inv_defs by (auto simp: f')
next
  case (4 i on)
  then show ?thesis using assms(1)
    by (auto simp: config_inv_defs set_clipboard_sync_def Let_def set_map_put split: if_split_asm)
next
  case (5 i on)
  then show ?thesis using assms(1)
    by (auto simp: config_inv_defs set_auto_connect_def Let_def set_map_put set_map_del
        split: if_split_asm)
next
  case (6 i on)
  then show ?thesis using assms(1)
    by (auto simp: config_inv_defs set_input_auto_def Let_def set_map_put split: if_split_asm)
next
  case (7 i)
  then show ?thesis using assms(1) by (rule config_inv_remove [rotated])
next
  case (8 d)
  let ?i = "canon (pr_peer_id d)"
  have f': "f' = f\<lparr>cf_devices := map_put ?i (d\<lparr>pr_peer_id := ?i\<rparr>) (cf_devices f)\<rparr>"
    using 8(2) by (simp add: upsert_device_def Let_def split: if_split_asm)
  have "\<forall>e \<in> set (map_put ?i (d\<lparr>pr_peer_id := ?i\<rparr>) (cf_devices f)). check_device C e = Inr ()"
    using assms(1) 8(1) by (intro map_entries_put) (simp_all add: config_inv_defs)
  then show ?thesis using assms(1) unfolding config_inv_defs by (auto simp: f')
qed

lemma empty_config_inv: "config_inv C empty_config"
  by (simp add: config_inv_defs empty_config_def check_identity_def)

interpretation config_life: step_system "\<lambda>f. f = empty_config" "config_step C" "config_inv C" for C
  by unfold_locales (auto intro: empty_config_inv config_step_inv)

subsection \<open>Saving is atomic, and what was saved is opened\<close>

text \<open>The YAML library reads back what it wrote.\<close>

definition yaml_roundtrip :: "yaml_lib \<Rightarrow> bool" where
  "yaml_roundtrip Y \<longleftrightarrow>
     (\<forall>f data. yaml_marshal Y f = Some data \<longrightarrow> yaml_unmarshal Y data empty_config = Some f)"

lemma save_store_atomic:
  assumes "save_store Y x tmp path f fs = (e, f', fs')" "tmp \<noteq> path"
  shows "map_of fs' path = map_of fs path \<or> map_of fs' path = yaml_marshal Y f'"
    and "e = None \<Longrightarrow> map_of fs' path = yaml_marshal Y f' \<and> yaml_marshal Y f' \<noteq> None \<and>
           map_of fs' tmp = None"
    and "p \<noteq> path \<Longrightarrow> p \<noteq> tmp \<Longrightarrow> map_of fs' p = map_of fs p"
  using assms
  by (auto simp: save_store_def save_cleanup_def Let_def split: option.split_asm if_split_asm)

lemma open_after_save:
  assumes "config_inv C f" "yaml_roundtrip Y" "resolve_dir storage base = Inr dir"
    and "yaml_marshal Y f = Some data"
  shows "open_store C Y storage base True (\<lambda>p. ReadOk data) = Inr (dir, f)"
  using assms by (auto simp: open_store_def yaml_roundtrip_def config_inv_def migrate_config_def
      current_version_def)

lemma open_store_valid:
  assumes "open_store C Y storage base ok rd = Inr (dir, f)"
  shows "validate_config C f = Inr () \<and> cf_version f = current_version"
proof (cases "rd (config_path dir)")
  case (ReadOk data)
  have "resolve_dir storage base = Inr dir"
    using assms by (auto simp: open_store_def split: option.split_asm if_split_asm
        read_outcome.split_asm)
  then obtain g where "migrate_config g = Inr f" "validate_config C f = Inr ()"
    using assms ReadOk by (auto simp: open_store_def split: option.split_asm if_split_asm)
  then show ?thesis
    by (auto simp: migrate_config_def current_version_def split: if_split_asm)
next
  case ReadMissing
  then have "f = empty_config" using assms by (auto simp: open_store_def split: option.split_asm
      if_split_asm read_outcome.split_asm)
  then show ?thesis using empty_config_inv [of C] by (simp add: config_inv_def)
next
  case ReadFailed
  then show ?thesis using assms by (auto simp: open_store_def split: option.split_asm
      if_split_asm read_outcome.split_asm)
qed

subsection \<open>Lists of devices and filters\<close>

lemma list_devices_sorted: "sorted (map pr_peer_id (list_devices s))"
  by (cases s) (simp_all add: list_devices_def)

lemma list_devices_complete:
  assumes "config_inv C f"
  shows "d \<in> set (list_devices (Some f)) \<longleftrightarrow> get_device (Some f) (pr_peer_id d) = Some d"
proof -
  have wf: "wf_map (cf_devices f)"
    and ok: "\<And>i d. (i, d) \<in> set (cf_devices f) \<Longrightarrow> canon i = i \<and> pr_peer_id d = i"
    using assms by (auto simp: config_inv_defs check_device_def Let_def split: if_split_asm)
  have "d \<in> set (list_devices (Some f)) \<longleftrightarrow> (\<exists>i. (i, d) \<in> set (cf_devices f))"
    by (force simp: list_devices_def)
  also have "\<dots> \<longleftrightarrow> (canon (pr_peer_id d), d) \<in> set (cf_devices f)"
    using ok by metis
  also have "\<dots> \<longleftrightarrow> get_device (Some f) (pr_peer_id d) = Some d"
    by (simp add: map_entry [OF wf] get_device_def)
  finally show ?thesis .
qed

lemma clean_items_props:
  "distinct (map to_lower (clean_items xs known)) \<and>
   (\<forall>y \<in> set (clean_items xs known). y \<noteq> [] \<and> trim_space y = y \<and> to_lower y \<notin> set known)"
proof (induction xs arbitrary: known)
  case (Cons x xs)
  let ?i = "trim_space x"
  show ?case
  proof (cases "?i = [] \<or> to_lower ?i \<in> set known")
    case True
    then show ?thesis using Cons.IH [of known] by (simp add: Let_def)
  next
    case False
    then show ?thesis using Cons.IH [of "to_lower ?i # known"] by (auto simp: Let_def)
  qed
qed simp

lemma clean_items_keeps:
  "canon x \<noteq> [] \<Longrightarrow> x \<in> set xs \<Longrightarrow>
   canon x \<in> set known \<or> canon x \<in> to_lower ` set (clean_items xs known)"
proof (induction xs arbitrary: known)
  case (Cons a xs)
  let ?i = "trim_space a"
  have nonempty: "trim_space x \<noteq> []" using Cons.prems(1) by (auto simp: canon_def to_lower_def)
  show ?case
  proof (cases "?i = [] \<or> to_lower ?i \<in> set known")
    case True
    then have "clean_items (a # xs) known = clean_items xs known" by (simp add: Let_def)
    then show ?thesis
      using Cons.IH [OF Cons.prems(1), of known] Cons.prems(2) True nonempty
      by (auto simp: canon_def)
  next
    case False
    then have "clean_items (a # xs) known = ?i # clean_items xs (to_lower ?i # known)"
      by (simp add: Let_def)
    then show ?thesis
      using Cons.IH [OF Cons.prems(1), of "to_lower ?i # known"] Cons.prems(2)
      by (auto simp: canon_def)
  qed
qed simp

subsection \<open>Properties\<close>

text \<open>C21. Starting from an empty configuration, no sequence of the store's operations with valid
  identities and peers leads to a file that the daemon refuses at its next start: what is saved
  validates, and opening it gives it back.\<close>

theorem config_survives_restart:
  assumes "reach (\<lambda>f. f = empty_config) (config_step C) f"
    and "yaml_roundtrip Y" "resolve_dir storage base = Inr dir" "yaml_marshal Y f = Some data"
  shows "validate_config C f = Inr () \<and>
    open_store C Y storage base True (\<lambda>p. ReadOk data) = Inr (dir, f)"
proof -
  have i: "config_inv C f" by (rule config_life.reach_inv [OF assms(1)])
  then show ?thesis using open_after_save [OF i assms(2-4)] by (simp add: config_inv_def)
qed

text \<open>A YAML library for two files, for the witnesses.\<close>

definition two_yaml :: "config_file \<Rightarrow> config_file \<Rightarrow> yaml_lib" where
  "two_yaml a b = \<lparr>yaml_marshal = (\<lambda>f. if f = a then Some [1] else if f = b then Some [2] else None),
     yaml_unmarshal = (\<lambda>d _. if d = [1] then Some a else Some b)\<rparr>"

lemma two_yaml_roundtrip: "yaml_roundtrip (two_yaml a b)"
  by (simp add: yaml_roundtrip_def two_yaml_def)

definition sample_peer :: pair_result where
  "sample_peer = \<lparr>pr_peer_id = replicate 32 CHR ''0'', pr_public_key = replicate 32 0,
     pr_peer_name = ''phone'', pr_protocol_version = 2, pr_permissions = [], pr_credential = [1],
     pr_paired_at = 0, pr_code = 0, pr_selected_version = 2, pr_transaction_id = [],
     pr_initiator_id = []\<rparr>"

lemma sample_peer_ok:
  "canon (pr_peer_id sample_peer) = pr_peer_id sample_peer" "pr_peer_id sample_peer \<noteq> []"
  "check_device plain_crypto (pr_peer_id sample_peer, sample_peer) = Inr ()"
  by code_simp+

lemma pair_peer_id_same [simp]: "d\<lparr>pr_peer_id := pr_peer_id d\<rparr> = d" for d :: pair_result
  by simp

text \<open>The configuration with one paired peer, reached by pairing.\<close>

definition sample_config :: config_file where
  "sample_config = empty_config\<lparr>cf_devices := [(pr_peer_id sample_peer, sample_peer)]\<rparr>"

lemma sample_config_reached: "reach (\<lambda>f. f = empty_config) (config_step plain_crypto) sample_config"
proof -
  have u: "upsert_device sample_peer empty_config = Inr sample_config"
    by (simp add: upsert_device_def sample_peer_ok sample_config_def Let_def)
      (simp add: empty_config_def)
  have "reach (\<lambda>f. f = empty_config) (config_step plain_crypto) empty_config"
    by (rule reach_init) simp
  then show ?thesis
    by (rule reach_step) (rule config_step.intros(8) [OF _ u], simp add: sample_peer_ok)
qed

lemma config_survives_restart_witness:
  "validate_config plain_crypto sample_config = Inr () \<and>
   open_store plain_crypto (two_yaml sample_config sample_config) ''/d'' None True (\<lambda>p. ReadOk [1]) =
     Inr (''/d'', sample_config)"
proof -
  have "resolve_dir ''/d'' None = Inr ''/d''" by code_simp
  moreover have "yaml_marshal (two_yaml sample_config sample_config) sample_config = Some [1]"
    by (simp add: two_yaml_def)
  ultimately show ?thesis
    by (rule config_survives_restart [OF sample_config_reached two_yaml_roundtrip])
qed

text \<open>The switch for clipboard synchronisation belongs to a paired device: setting it decides
  what is read back, however the identifier is written, and changes no other device; an unknown
  device is refused; and unpairing resets it to off, so that a device paired anew does not inherit
  it.\<close>

theorem clipboard_switch_contract:
  assumes "set_clipboard_sync i on f = Inr f1" "remove_device i f1 = Inr f2"
  shows "clipboard_sync (Some f1) j = (if canon j = canon i then on else clipboard_sync (Some f) j) \<and>
    clipboard_sync (Some f2) i = False \<and>
    (canon j \<noteq> canon i \<longrightarrow> clipboard_sync (Some f2) j = clipboard_sync (Some f) j) \<and>
    (\<exists>e. set_clipboard_sync i on f2 = Inl e)"
proof -
  have "\<not> map_has (cf_devices f2) (canon i)" "canon i \<noteq> []"
    using assms by (auto simp: remove_device_Inr set_clipboard_sync_def Let_def split: if_split_asm)
  then show ?thesis
    using clipboard_switch.set_get [OF assms(1)] clipboard_switch.repaired_default [OF assms]
      clipboard_switch.unpaired_refused by blast
qed

lemma clipboard_switch_contract_witness:
  "\<exists>f1 f2. set_clipboard_sync (pr_peer_id sample_peer) True sample_config = Inr f1 \<and>
     remove_device (pr_peer_id sample_peer) f1 = Inr f2 \<and>
     clipboard_sync (Some f1) (pr_peer_id sample_peer) \<and> \<not> clipboard_sync (Some f2) (pr_peer_id sample_peer)"
proof -
  have "\<exists>f1. set_clipboard_sync (pr_peer_id sample_peer) True sample_config = Inr f1 \<and>
      cf_devices f1 = cf_devices sample_config"
    by (simp add: set_clipboard_sync_def sample_peer_ok sample_config_def Let_def)
  then obtain f1 where f1: "set_clipboard_sync (pr_peer_id sample_peer) True sample_config = Inr f1"
      "cf_devices f1 = cf_devices sample_config" by blast
  then have "map_has (cf_devices f1) (canon (pr_peer_id sample_peer))"
    by (simp add: sample_peer_ok sample_config_def)
  then obtain f2 where f2: "remove_device (pr_peer_id sample_peer) f1 = Inr f2"
    using remove_device_Inr by blast
  show ?thesis
    using clipboard_switch_contract [OF f1(1) f2, of "pr_peer_id sample_peer"] f1(1) f2 by auto
qed

text \<open>C22. \<open>Save\<close> is atomic: whichever of its steps fails, the configuration file holds either the
  old bytes or the complete new ones, no other file than its temporary one is touched, and
  success means that the new bytes are in place and the temporary file is gone.\<close>

theorem save_is_atomic:
  assumes "save_store Y x tmp path f fs = (e, f', fs')" "tmp \<noteq> path"
  shows "(map_of fs' path = map_of fs path \<or> map_of fs' path = yaml_marshal Y f') \<and>
    (e = None \<longrightarrow> map_of fs' path = yaml_marshal Y f' \<and> yaml_marshal Y f' \<noteq> None \<and>
       map_of fs' tmp = None) \<and>
    (\<forall>p. p \<noteq> path \<longrightarrow> p \<noteq> tmp \<longrightarrow> map_of fs' p = map_of fs p)"
  using save_store_atomic [OF assms] by blast

lemma save_is_atomic_witness:
  "\<exists>f' fs'. save_store (two_yaml sample_config sample_config)
      \<lparr>temp_ok = True, chmod_ok = True, write_ok = False, written = 0, sync_ok = True,
         close_ok = True, rename_ok = True, remove_ok = False\<rparr> ''t'' ''p'' sample_config [(''p'', [7])] =
      (Some CfgWrite, f', fs') \<and> map_of fs' ''p'' = Some [7]"
proof -
  have v: "sample_config\<lparr>cf_version := current_version\<rparr> = sample_config"
    by (simp add: sample_config_def empty_config_def current_version_def)
  have s: "save_store (two_yaml sample_config sample_config)
      \<lparr>temp_ok = True, chmod_ok = True, write_ok = False, written = 0, sync_ok = True,
         close_ok = True, rename_ok = True, remove_ok = False\<rparr> ''t'' ''p'' sample_config [(''p'', [7])] =
      (Some CfgWrite, sample_config, [(''p'', [7]), (''t'', [])])"
    by (simp add: save_store_def v two_yaml_def save_cleanup_def)
  show ?thesis using save_is_atomic [OF s] s by auto
qed

text \<open>Cleaning the filter lists keeps what the user meant: the result has no two entries that
  differ only in case, no blank or padded entry, and still holds every non-blank input up to case
  and surrounding space.\<close>

theorem clean_items_normal:
  "distinct (map to_lower (clean_items xs [])) \<and>
   (\<forall>y \<in> set (clean_items xs []). y \<noteq> [] \<and> trim_space y = y) \<and>
   (\<forall>x \<in> set xs. canon x \<noteq> [] \<longrightarrow> canon x \<in> to_lower ` set (clean_items xs []))"
proof (intro conjI ballI impI)
  show "canon x \<in> to_lower ` set (clean_items xs [])" if "x \<in> set xs" "canon x \<noteq> []" for x
    using clean_items_keeps [OF that(2,1), of "[]"] by simp
qed (use clean_items_props [of xs "[]"] in blast)+

lemma clean_items_normal_witness:
  "canon '' A'' \<in> to_lower ` set (clean_items ['' A'', ''a''] [])"
proof (rule conjunct2 [OF conjunct2 [OF clean_items_normal], rule_format])
  show "'' A'' \<in> set ['' A'', ''a'']" by simp
  show "canon '' A'' \<noteq> []" by code_simp
qed

end
