(* ===== verification/Android_Bridge.thy ===== *)
theory Android_Bridge
  imports Notifications Config_Store
begin

text \<open>
  Notifications of a phone on the desktop (\<open>libquava/notifications/android.go\<close>): the filters, the call
  of \<open>Notify\<close>, and the signals of the desktop that become actions and dismissals on the phone.

  \<open>show_notify\<close> computes the arguments of the call, \<open>show_done\<close> records the identifier the server
  answers; between the two the lock of the bridge is free. A signal gives the calls to make
  (\<open>bridge_call\<close>); the reply of the entry dialog is a step of its own. The decoder of images is a
  parameter.
\<close>

subsection \<open>Filters\<close>

definition contains_fold :: "string list \<Rightarrow> string \<Rightarrow> bool" where
  "contains_fold xs v \<longleftrightarrow> list_ex (\<lambda>x. equal_fold (trim_space x) (trim_space v)) xs"

definition should_show :: "notification_filters \<Rightarrow> android_notification \<Rightarrow> bool \<times> bool" where
  "should_show f n =
     (if contains_fold (muted_apps f) (an_app n) then (False, False)
      else if only_apps f \<noteq> [] \<and> \<not> contains_fold (only_apps f) (an_app n) then (False, False)
      else if an_category n \<noteq> [] \<and> contains_fold (muted_categories f) (an_category n) then (False, False)
      else if an_silent n then
        (let policy = to_lower (trim_space (silent_policy f))
         in if policy = ''drop'' then (False, False)
            else if policy = ''normal'' then (True, False)
            else (True, True))
      else (True, False))"

subsection \<open>The bridge\<close>

record shown_note =
  sn_key :: string
  sn_app :: string
  sn_actions :: "(string \<times> bool) list"

record android_bridge =
  br_filters :: notification_filters
  br_by_linux :: "(32 word, shown_note) gomap"
  br_by_key :: "(string, 32 word) gomap"
  br_replying :: "(string, bool) gomap"

definition new_android_bridge :: "bool \<Rightarrow> bool \<Rightarrow> android_bridge option" where
  "new_android_bridge conn_ok match_ok =
     (if conn_ok \<and> match_ok
      then Some \<lparr>br_filters = empty_filters, br_by_linux = [], br_by_key = [], br_replying = []\<rparr>
      else None)"

definition set_filters :: "notification_filters \<Rightarrow> android_bridge \<Rightarrow> android_bridge" where
  "set_filters f b = b\<lparr>br_filters := f\<rparr>"

record image_data =
  img_width :: nat
  img_height :: nat
  img_pixels :: bytes

definition decode_icon :: "(bytes \<Rightarrow> image_data option) \<Rightarrow> bytes \<Rightarrow> image_data option" where
  "decode_icon dec bs =
     (if bs = [] then None
      else (case dec bs of
          None \<Rightarrow> None
        | Some i \<Rightarrow>
            if img_width i = 0 \<or> img_height i = 0 \<or> img_width i > 256 \<or> img_height i > 256 then None else Some i))"

text \<open>The struct \<open>iiibiiay\<close>: width, height, row stride, alpha, bits per sample, channels, pixels.\<close>

definition image_value :: "image_data \<Rightarrow> any" where
  "image_value i = ASlice [AInt32 (of_nat (img_width i)), AInt32 (of_nat (img_height i)),
     AInt32 (of_nat (4 * img_width i)), ABool True, AInt32 8, AInt32 4, ABytes (img_pixels i)]"

definition any_reply_action :: "(string \<times> bool) list \<Rightarrow> bool" where
  "any_reply_action as \<longleftrightarrow> list_ex snd as"

definition action_name :: "nat \<Rightarrow> string" where
  "action_name i = ''quava-action-'' @ dec_nat i"

fun action_list :: "nat \<Rightarrow> (string \<times> bool) list \<Rightarrow> string list" where
  "action_list i [] = []"
| "action_list i ((title, _) # as) = action_name i # title # action_list (Suc i) as"

definition show_hints :: "(bytes \<Rightarrow> image_data option) \<Rightarrow> android_notification \<Rightarrow> bool \<Rightarrow> (string \<times> any) list" where
  "show_hints dec n low =
     [(''x-quava-android'', ABool True)] @
     (case decode_icon dec (an_icon n) of None \<Rightarrow> [] | Some i \<Rightarrow> [(''image-data'', image_value i)]) @
     (if low then [(''urgency'', AUint8 0), (''suppress-sound'', ABool True)] else []) @
     (if any_reply_action (an_actions n) then [(''x-kde-reply-placeholder-text'', AString ''Reply'')] else [])"

text \<open>The arguments of \<open>Notify\<close>, or \<open>None\<close> when the filters keep the notification away.\<close>

definition show_notify ::
    "(bytes \<Rightarrow> image_data option) \<Rightarrow> android_notification \<Rightarrow> android_bridge \<Rightarrow> (32 word \<times> any list) option" where
  "show_notify dec n b =
     (case should_show (br_filters b) n of
        (shown, low) \<Rightarrow>
          if \<not> shown then None
          else
            (let rid = get_or 0 (br_by_key b) (an_key n)
             in Some (rid, [AString ''quava'', AUint32 rid, AString [], AString (an_title n), AString (an_body n),
                  AStrings (action_list 0 (an_actions n)), AMapString (show_hints dec n low), AInt32 (- 1)])))"

definition show_done ::
    "32 word \<Rightarrow> 32 word option \<Rightarrow> android_notification \<Rightarrow> android_bridge \<times> notification_world \<Rightarrow>
     bool \<times> android_bridge \<times> notification_world" where
  "show_done rid answer n s =
     (case (answer, s) of
        (None, _) \<Rightarrow> (False, s)
      | (Some nid, b, w) \<Rightarrow>
          (let m = (if rid \<noteq> 0 \<and> rid \<noteq> nid then map_del rid (br_by_linux b) else br_by_linux b)
           in (True, b\<lparr>br_by_linux := map_put nid \<lparr>sn_key = an_key n, sn_app = an_app n, sn_actions = an_actions n\<rparr> m,
                       br_by_key := map_put (an_key n) nid (br_by_key b)\<rparr>,
               w\<lparr>nw_origin := (if nid \<in> set (nw_origin w) then nw_origin w else nid # nw_origin w)\<rparr>)))"

text \<open>\<open>Show\<close>, with the answer of the server to the call, \<open>None\<close> for an error.\<close>

definition show_android ::
    "(bytes \<Rightarrow> image_data option) \<Rightarrow> 32 word option \<Rightarrow> android_notification \<Rightarrow> android_bridge \<times> notification_world \<Rightarrow>
     bool \<times> android_bridge \<times> notification_world" where
  "show_android dec answer n s =
     (case show_notify dec n (fst s) of
        None \<Rightarrow> (True, s)
      | Some (rid, _) \<Rightarrow> show_done rid answer n s)"

subsection \<open>Signals\<close>

datatype bridge_signal =
    ActionInvoked "32 word" "any list"
  | NotificationReplied "32 word" "any list"
  | NotificationClosed "32 word"

datatype bridge_call = CallAction string int string | CallDismiss string | Prompt shown_note nat

text \<open>\<open>fmt.Sscanf(name, "quava-action-%d", &index)\<close>: \<open>None\<close> for an error.\<close>

definition scan_action :: "string \<Rightarrow> int option" where
  "scan_action s =
     (if \<not> has_prefix s ''quava-action-'' then None
      else
        (let r = dropWhile (\<lambda>c. re_space c \<and> c \<noteq> newline) (drop (length ''quava-action-'') s);
             neg = (r \<noteq> [] \<and> hd r = CHR ''-'');
             ds = takeWhile is_digit (if r \<noteq> [] \<and> hd r \<in> {CHR ''-'', CHR ''+''} then tl r else r);
             v = (if neg then - 1 else 1) * int (fold (\<lambda>c n. 10 * n + (of_char c - 48)) ds 0)
         in if ds = [] \<or> v < - (2 ^ 63) \<or> v \<ge> 2 ^ 63 then None else Some v))"

fun reply_index :: "nat \<Rightarrow> (string \<times> bool) list \<Rightarrow> nat option" where
  "reply_index i [] = None"
| "reply_index i ((_, takes_text) # as) = (if takes_text then Some i else reply_index (Suc i) as)"

definition on_signal :: "bridge_signal \<Rightarrow> android_bridge \<Rightarrow> bridge_call list \<times> android_bridge" where
  "on_signal s b =
     (case s of
        ActionInvoked nid args \<Rightarrow>
          (case (map_of (br_by_linux b) nid, args) of
             (Some n, v # _) \<Rightarrow>
               (case scan_action (any_string (Some v)) of
                  None \<Rightarrow> ([], b)
                | Some i \<Rightarrow>
                    if 0 \<le> i \<and> i < int (length (sn_actions n)) \<and> snd (sn_actions n ! nat i)
                    then ([Prompt n (nat i)], b\<lparr>br_replying := map_put (sn_key n) True (br_replying b)\<rparr>)
                    else ([CallAction (sn_key n) i []], b))
           | _ \<Rightarrow> ([], b))
      | NotificationReplied nid args \<Rightarrow>
          (case (map_of (br_by_linux b) nid, args) of
             (Some n, v # _) \<Rightarrow>
               (case reply_index 0 (sn_actions n) of
                  None \<Rightarrow> ([], b)
                | Some i \<Rightarrow> ([CallAction (sn_key n) (int i) (any_string (Some v))], b))
           | _ \<Rightarrow> ([], b))
      | NotificationClosed nid \<Rightarrow>
          (let found = map_of (br_by_linux b) nid;
               key = (case found of None \<Rightarrow> [] | Some n \<Rightarrow> sn_key n);
               b' = b\<lparr>br_by_linux := map_del nid (br_by_linux b), br_by_key := map_del key (br_by_key b)\<rparr>
           in (if found \<noteq> None \<and> \<not> get_or False (br_replying b) key then [CallDismiss key] else [], b')))"

text \<open>The end of \<open>promptAndReply\<close>: what the dialog printed, \<open>None\<close> when it failed.\<close>

definition prompt_done :: "shown_note \<Rightarrow> nat \<Rightarrow> string option \<Rightarrow> android_bridge \<Rightarrow> bridge_call list \<times> android_bridge" where
  "prompt_done n i printed b =
     ((case printed of
         None \<Rightarrow> []
       | Some p \<Rightarrow> if trim_space p = [] then [] else [CallAction (sn_key n) (int i) (trim_space p)]),
      b\<lparr>br_replying := map_del (sn_key n) (br_replying b)\<rparr>)"

subsection \<open>No loop between host and phone\<close>

lemma show_marked: "map_of (show_hints dec n low) ''x-quava-android'' = Some (ABool True)"
  by (simp add: show_hints_def)

text \<open>A \<open>Notify\<close> call with the arguments of the bridge, however it is sent.\<close>

definition notify_message :: "(bus_field, any) gomap \<Rightarrow> 32 word \<Rightarrow> any list \<Rightarrow> bus_message" where
  "notify_message hs serial args = \<lparr>bm_type = TypeCall, bm_headers = hs, bm_body = args, bm_serial = serial\<rparr>"

lemma shown_from_android:
  assumes "show_notify dec n b = Some (rid, args)"
    and "parse_notification (notify_message hs serial args) = Some c"
  shows "from_android c"
  using assms show_marked [of dec n]
  by (auto simp: show_notify_def notify_message_def parse_notification_def from_android_def hint_def Let_def
      split: prod.splits if_splits)

text \<open>C14. What the bridge shows never goes back to a phone: the watcher ignores its \<open>Notify\<close> call, and once the
  server has answered with an identifier, the closing of that notification is not passed on.\<close>

theorem shown_notification_not_echoed:
  assumes "show_notify dec n b = Some (rid, args)"
    and "show_done rid (Some nid) n (b, on_message F (notify_message hs serial args) w) = (ok, b', w')"
    and "parse_notification_closed m = Some nid"
  shows "on_message F (notify_message hs serial args) w = w \<and> on_message F m w' = w' \<and> nw_out w' = nw_out w"
proof -
  let ?m = "notify_message hs serial args"
  have call: "on_message F ?m w = w"
  proof -
    have "parse_notification_return ?m = None" "parse_notification_closed ?m = None" "bm_type ?m = TypeCall"
      by (simp_all add: notify_message_def parse_notification_return_def parse_notification_closed_def)
    then show ?thesis using shown_from_android [OF assms(1), of hs serial]
      by (auto simp: on_message_def notify_called_def split: option.split)
  qed
  have o: "is_android_origin nid w'" "nw_out w' = nw_out w"
    using assms(2) by (auto simp: call show_done_def is_android_origin_def Let_def)
  have s: "bm_type m = TypeSignal" using assms(3) by (simp add: parse_notification_closed_def split: if_splits)
  have "on_message F m w' = w'"
    using assms(3) s o(1) by (simp add: on_message_def parse_notification_return_def notification_closed_def)
  then show ?thesis using call o(2) by simp
qed

definition chat_note :: android_notification where
  "chat_note = \<lparr>an_key = ''k'', an_app = ''Chat'', an_title = ''Hi'', an_body = [], an_icon = [],
     an_actions = [(''Reply'', True)], an_category = [], an_silent = False\<rparr>"

definition empty_bridge :: android_bridge where
  "empty_bridge = \<lparr>br_filters = empty_filters, br_by_linux = [], br_by_key = [], br_replying = []\<rparr>"

definition chat_args :: "any list" where
  "chat_args = [AString ''quava'', AUint32 0, AString [], AString ''Hi'', AString [],
     AStrings (action_list 0 (an_actions chat_note)), AMapString (show_hints (\<lambda>_. None) chat_note False), AInt32 (- 1)]"

definition closed_signal :: "32 word \<Rightarrow> bus_message" where
  "closed_signal nid = \<lparr>bm_type = TypeSignal, bm_headers = [(FieldInterface, AString notifications_interface),
     (FieldMember, AString ''NotificationClosed'')], bm_body = [AUint32 nid, AUint32 2], bm_serial = 0\<rparr>"

definition no_icons :: icon_files where
  "no_icons = \<lparr>read_icon = (\<lambda>_. None), icon_decodes = (\<lambda>_. False)\<rparr>"

lemma chat_notify: "show_notify (\<lambda>_. None) chat_note empty_bridge = Some (0, chat_args)"
  by (simp add: show_notify_def should_show_def contains_fold_def chat_note_def empty_bridge_def empty_filters_def
      chat_args_def get_or_def)

lemma closed_signal_parsed: "parse_notification_closed (closed_signal nid) = Some nid"
  by (simp add: parse_notification_closed_def closed_signal_def get_header_string_def)

lemma shown_notification_not_echoed_witness:
  "\<exists>b' w'. show_done 0 (Some 5) chat_note (empty_bridge, on_message no_icons (notify_message [] 3 chat_args) new_notification_watcher) = (True, b', w') \<and>
     on_message no_icons (closed_signal 5) w' = w' \<and> nw_out w' = []"
proof -
  obtain b' w' where d: "show_done 0 (Some 5) chat_note
      (empty_bridge, on_message no_icons (notify_message [] 3 chat_args) new_notification_watcher) = (True, b', w')"
    by (simp add: show_done_def Let_def)
  have "nw_out new_notification_watcher = []" by (simp add: new_notification_watcher_def)
  then show ?thesis using shown_notification_not_echoed [OF chat_notify d closed_signal_parsed] d
    by (intro exI [of _ b'] exI [of _ w'] conjI) simp_all
qed

subsection \<open>Calls and their replies\<close>

lemma dec_nat_no_colon: "CHR '':'' \<notin> set (dec_nat n)"
  using dec_nat_digits [of n] by (auto simp: is_digit_def)

lemma request_key_inject: "request_key a x = request_key b y \<longleftrightarrow> a = b \<and> x = y"
proof
  assume e: "request_key a x = request_key b y"
  have t: "takeWhile (\<lambda>c. c \<noteq> CHR '':'') (rev (request_key w k)) = rev (dec_nat (unat k))" for w k
    using dec_nat_no_colon [of "unat k"] by (simp add: request_key_def, subst takeWhile_append2) auto
  have d: "rev (dec_nat (unat x)) = rev (dec_nat (unat y))" using t [of a x] t [of b y] e by simp
  then have "x = y" by (simp add: word_unat_eq_iff)
  then show "a = b \<and> x = y" using e by (simp add: request_key_def)
qed simp

definition about :: "string \<Rightarrow> bus_message \<Rightarrow> bool" where
  "about k m \<longleftrightarrow>
     (\<exists>who serial. k = request_key who serial \<and>
        (bm_type m = TypeCall \<and> get_header_string m FieldSender = Some who \<and> bm_serial m = serial \<or>
         bm_type m \<in> {TypeReply, TypeError} \<and> get_header_string m FieldDestination = Some who \<and>
         get_header_uint32 m FieldReplySerial = Some serial))"

lemma parse_types:
  "parse_notification_return m = Some r \<Longrightarrow> bm_type m = TypeReply \<and> get_header_uint32 m FieldReplySerial = Some (snd r)"
  "parse_notification m = Some n \<Longrightarrow> bm_type m = TypeCall"
  by (auto simp: parse_notification_return_def parse_notification_def split: if_splits option.splits list.splits any.splits)

lemma pending_other:
  assumes "\<not> about k m" shows "map_of (nw_pending (on_message F m w)) k = map_of (nw_pending w) k"
proof -
  have f: "map_of (nw_pending (notify_failed m w)) k = map_of (nw_pending w) k" if "bm_type m = TypeError"
    using assms that by (auto simp: notify_failed_def about_def split: option.split)
  have r: "map_of (nw_pending (notify_returned nid serial m w)) k = map_of (nw_pending w) k"
    if "parse_notification_return m = Some (nid, serial)" for nid serial
    using assms parse_types(1) [OF that]
    by (auto simp: notify_returned_def about_def Let_def push_notification_content_def clear_notification_id_def
        store_notification_id_def split: option.split)
  have c: "nw_pending (notification_closed nid w) = nw_pending w" for nid
    by (simp add: notification_closed_def clear_notification_content_def clear_notification_id_def)
  have n: "map_of (nw_pending (notify_called F x m w)) k = map_of (nw_pending w) k" if "parse_notification m = Some x" for x
    using assms parse_types(2) [OF that] by (auto simp: notify_called_def about_def split: option.split)
  show ?thesis unfolding on_message_def using f r c n by (auto split: option.split)
qed

lemma pending_others:
  "list_all (\<lambda>m. \<not> about k m) ms \<Longrightarrow> map_of (nw_pending (fold (on_message F) ms w)) k = map_of (nw_pending w) k"
  by (induction ms arbitrary: w) (simp_all add: pending_other)

text \<open>A notification of the desktop is pushed once the server has answered, whatever else passes over the bus
  in between: the call is remembered under its sender and serial, which no other call shares, and the
  reply pushes its content with the identifier of the reply and the icon the host could load.\<close>

theorem notification_pushed_with_its_id:
  assumes "parse_notification call = Some n" "\<not> from_android n"
    and "get_header_string call FieldSender = Some who"
    and "parse_notification_return back = Some (nid, bm_serial call)"
    and "get_header_string back FieldDestination = Some who"
    and "list_all (\<lambda>m. \<not> about (request_key who (bm_serial call)) m) between"
  shows "nw_out (fold (on_message F) (call # between @ [back]) w) =
    nw_out (fold (on_message F) (call # between) w) @
    [PushCall (n\<lparr>nt_icon_data := load_notification_icon F (notification_icon_path n), nt_replaces_id := nid\<rparr>)]"
proof -
  let ?k = "request_key who (bm_serial call)"
  let ?n = "n\<lparr>nt_icon_data := load_notification_icon F (notification_icon_path n)\<rparr>"
  have t: "bm_type call = TypeCall" "bm_type back = TypeReply" using parse_types assms(1,4) by blast+
  have "on_message F call w = w\<lparr>nw_pending := map_put ?k ?n (nw_pending w)\<rparr>"
    using assms(1-3) t
    by (simp add: on_message_def parse_notification_return_def parse_notification_closed_def notify_called_def)
  then have p: "map_of (nw_pending (fold (on_message F) (call # between) w)) ?k = Some ?n"
    using pending_others [OF assms(6), of F "on_message F call w"] by simp
  have "nw_out (on_message F back v) = nw_out v @ [PushCall (?n\<lparr>nt_replaces_id := nid\<rparr>)]"
    if "map_of (nw_pending v) ?k = Some ?n" for v
    using assms(4,5) t(2) that
    by (simp add: on_message_def notify_returned_def Let_def push_notification_content_def clear_notification_id_def
        store_notification_id_def)
  from this [OF p] show ?thesis by simp
qed

definition mail_call :: bus_message where
  "mail_call = \<lparr>bm_type = TypeCall, bm_headers = [(FieldInterface, AString notifications_interface),
       (FieldMember, AString ''Notify''), (FieldSender, AString ''1'')],
     bm_body = [AString ''mail'', AUint32 0, AString [], AString ''hello'', AString [], AStrings [], AMapString [], AInt32 0],
     bm_serial = 7\<rparr>"

definition mail_reply :: bus_message where
  "mail_reply = \<lparr>bm_type = TypeReply, bm_headers = [(FieldDestination, AString ''1''), (FieldReplySerial, AUint32 7)],
     bm_body = [AUint32 12], bm_serial = 9\<rparr>"

definition mail_content :: notification_content where
  "mail_content = short_notification\<lparr>nt_hints := Some []\<rparr>"

lemma mail_facts:
  "parse_notification mail_call = Some mail_content" "\<not> from_android mail_content"
  "get_header_string mail_call FieldSender = Some ''1''"
  "parse_notification_return mail_reply = Some (12, bm_serial mail_call)"
  "get_header_string mail_reply FieldDestination = Some ''1''"
  by (simp_all add: parse_notification_def mail_call_def get_header_string_def mail_content_def short_notification_def
      from_android_def hint_def parse_notification_return_def mail_reply_def get_header_uint32_def)

lemma notification_pushed_with_its_id_witness:
  "nw_out (fold (on_message no_icons) [mail_call, closed_signal 4, mail_reply] new_notification_watcher) =
   nw_out (fold (on_message no_icons) [mail_call, closed_signal 4] new_notification_watcher) @
   [PushCall (mail_content\<lparr>nt_icon_data := load_notification_icon no_icons (notification_icon_path mail_content), nt_replaces_id := 12\<rparr>)]"
proof -
  have "list_all (\<lambda>m. \<not> about (request_key ''1'' (bm_serial mail_call)) m) [closed_signal 4]"
    by (simp add: about_def closed_signal_def)
  from notification_pushed_with_its_id [OF mail_facts this, of no_icons new_notification_watcher]
  show ?thesis by simp
qed

definition ids_same :: "notification_world \<Rightarrow> bool" where
  "ids_same w \<longleftrightarrow> (\<forall>a. get_or a (nw_all_ids w) a = a)"

lemma ids_same_message: "ids_same w \<Longrightarrow> ids_same (on_message F m w)"
proof -
  assume s: "ids_same w"
  have f: "ids_same (notify_failed m w)" using s by (auto simp: ids_same_def notify_failed_def split: option.split)
  have c: "ids_same (clear_notification_id x v)" if "ids_same v" for x v
    using that by (auto simp: ids_same_def clear_notification_id_def get_or_def)
  have st: "ids_same (store_notification_id x x v)" if "ids_same v" for x v
    using that by (auto simp: ids_same_def store_notification_id_def get_or_def)
  have p: "ids_same (push_notification_content x v) = ids_same v" "ids_same (clear_notification_content y v) = ids_same v"
    "ids_same (v\<lparr>nw_pending := q\<rparr>) = ids_same v" for x y v q
    by (simp_all add: ids_same_def push_notification_content_def clear_notification_content_def)
  have r: "ids_same (notify_returned nid serial m w)" for nid serial
    using s by (simp add: notify_returned_def Let_def p c st split: option.split)
  have cl: "ids_same (notification_closed nid w)" for nid
    using s c by (simp add: notification_closed_def p)
  have n: "ids_same (notify_called F x m w)" for x
    using s by (simp add: notify_called_def p split: option.split)
  show ?thesis unfolding on_message_def using f r cl n s by (auto split: option.split)
qed

text \<open>The map of identifiers changes nothing: an identifier is only ever stored under itself, so the
  notification a phone asks to close is closed under the very number the phone sent.\<close>

theorem close_asks_same_notification:
  "close_notification_id nid (fold (on_message F) ms new_notification_watcher) = nid"
proof -
  have "ids_same (fold (on_message F) ms w)" if "ids_same w" for w
    using that by (induction ms arbitrary: w) (simp_all add: ids_same_message)
  moreover have "ids_same new_notification_watcher" by (simp add: ids_same_def new_notification_watcher_def get_or_def)
  ultimately show ?thesis unfolding close_notification_id_def ids_same_def by blast
qed

subsection \<open>The maps of the bridge\<close>

text \<open>
  A step of the bridge: a notification of a phone is shown, a signal comes, or a dialog ends. What is
  relied on: the key of a notification is not empty (the session refuses others), and the server
  answers with the identifier that is replaced or with one that is not in use, never with 0.
\<close>

inductive bridge_step :: "android_bridge \<Rightarrow> android_bridge \<Rightarrow> bool" where
  show_step: "an_key n \<noteq> [] \<Longrightarrow> show_notify dec n b = Some (rid, args) \<Longrightarrow> nid \<noteq> 0 \<Longrightarrow>
     nid = rid \<or> map_of (br_by_linux b) nid = None \<Longrightarrow>
     show_done rid (Some nid) n (b, w) = (ok, b', w') \<Longrightarrow> bridge_step b b'"
| signal_step: "on_signal s b = (acts, b') \<Longrightarrow> bridge_step b b'"
| filter_step: "bridge_step b (set_filters f b)"
| prompt_step: "prompt_done n i printed b = (acts, b') \<Longrightarrow> bridge_step b b'"

inductive_cases bridge_stepE: "bridge_step b b'"

definition bridge_init :: "android_bridge \<Rightarrow> bool" where
  "bridge_init b \<longleftrightarrow> (\<exists>f. Some b = map_option (set_filters f) (new_android_bridge True True))"

definition keys_agree :: "(string, 32 word) gomap \<Rightarrow> (32 word, shown_note) gomap \<Rightarrow> bool" where
  "keys_agree K L \<longleftrightarrow> map_of K [] = None \<and>
     (\<forall>k i. map_of K k = Some i \<longleftrightarrow> i \<noteq> 0 \<and> (\<exists>n. map_of L i = Some n \<and> sn_key n = k))
     \<and> map_of L 0 = None"

lemma keys_agree_show:
  assumes a: "keys_agree K L" and k: "sn_key n \<noteq> []" and i: "i \<noteq> 0"
    and r: "rid = get_or 0 K (sn_key n)" "i = rid \<or> map_of L i = None"
  shows "keys_agree (map_put (sn_key n) i K) (map_put i n (if rid \<noteq> 0 \<and> rid \<noteq> i then map_del rid L else L))"
proof -
  have K: "map_of K k = Some j \<longleftrightarrow> j \<noteq> 0 \<and> (\<exists>n. map_of L j = Some n \<and> sn_key n = k)" for k j
    using a unfolding keys_agree_def by blast
  have z: "map_of K [] = None" "map_of L 0 = None"
    using a unfolding keys_agree_def by blast+
  have u: "j = rid" if "map_of L j = Some m" "sn_key m = sn_key n" for j m
  proof -
    have "j \<noteq> 0" using that(1) z(2) by auto
    then have "map_of K (sn_key n) = Some j" using K that by blast
    then show ?thesis using r(1) by (simp add: get_or_def)
  qed
  have v: "sn_key m = sn_key n" if "map_of L rid = Some m" for m
  proof -
    have "rid \<noteq> 0" using that z(2) by auto
    then have "map_of K (sn_key n) = Some rid" using r(1) by (auto simp: get_or_def split: option.splits)
    then show ?thesis using K that by force
  qed
  let ?L = "map_put i n (if rid \<noteq> 0 \<and> rid \<noteq> i then map_del rid L else L)"
  have held: "sn_key m = sn_key n" if "map_of L i = Some m" for m
    using r(2) v [of m] that by (cases "i = rid") simp_all
  have "map_of (map_put (sn_key n) i K) k = Some j \<longleftrightarrow> j \<noteq> 0 \<and> (\<exists>m. map_of ?L j = Some m \<and> sn_key m = k)" for k j
  proof (cases "j = i")
    case True
    have "map_of K k \<noteq> Some i" if "k \<noteq> sn_key n" using K [of k i] held that by blast
    then show ?thesis using True i by simp
  next
    case False
    note ji = False
    show ?thesis
    proof (cases "k = sn_key n")
      case True
      have "sn_key m \<noteq> k" if "map_of ?L j = Some m" "j \<noteq> 0" for m
      proof
        assume e: "sn_key m = k"
        have "map_of L j = Some m" using that(1) False by (cases "j = rid") (simp_all split: if_splits)
        then have "j = rid" using u [of j m] e True by simp
        then show False using that False by (simp split: if_splits)
      qed
      then show ?thesis using True False by auto
    next
      case k: False
      have "map_of K k = Some j \<longleftrightarrow> j \<noteq> 0 \<and> (\<exists>m. map_of ?L j = Some m \<and> sn_key m = k)"
      proof (cases "j = rid \<and> rid \<noteq> 0")
        case True
        have "map_of K k \<noteq> Some j" using K [of k j] v k True by blast
        then show ?thesis using True False by simp
      next
        case False
        then have "j = 0 \<or> map_of ?L j = map_of L j" using ji by auto
        then show ?thesis using K [of k j] by (elim disjE) simp_all
      qed
      then show ?thesis using k by simp
    qed
  qed
  moreover have "map_of (map_put (sn_key n) i K) [] = None" using z k by simp
  moreover have "map_of ?L 0 = None" using z i by simp
  ultimately show ?thesis unfolding keys_agree_def by blast
qed

lemma keys_agree_close:
  assumes a: "keys_agree K L"
  shows "keys_agree (map_del (case map_of L i of None \<Rightarrow> [] | Some n \<Rightarrow> sn_key n) K) (map_del i L)"
proof -
  have K: "map_of K k = Some j \<longleftrightarrow> j \<noteq> 0 \<and> (\<exists>n. map_of L j = Some n \<and> sn_key n = k)" for k j
    using a unfolding keys_agree_def by blast
  have z: "map_of K [] = None" "map_of L 0 = None"
    using a unfolding keys_agree_def by blast+
  show ?thesis
  proof (cases "map_of L i")
    case None
    have "map_of (map_del [] K) k = Some j \<longleftrightarrow>
        j \<noteq> 0 \<and> (\<exists>m. map_of (map_del i L) j = Some m \<and> sn_key m = k)" for k j
      using K [of k j] z None by auto
    then show ?thesis using None z by (simp add: keys_agree_def)
  next
    case (Some n)
    have "i \<noteq> 0" using Some z by auto
    then have u: "map_of K (sn_key n) = Some i" using K Some by blast
    have "map_of (map_del (sn_key n) K) k = Some j \<longleftrightarrow>
        j \<noteq> 0 \<and> (\<exists>m. map_of (map_del i L) j = Some m \<and> sn_key m = k)" for k j
      using K [of k j] K [of "sn_key n" j] u Some by auto
    then show ?thesis using Some z by (simp add: keys_agree_def)
  qed
qed

lemma bridge_step_agrees:
  assumes "keys_agree (br_by_key b) (br_by_linux b)" "bridge_step b b'"
  shows "keys_agree (br_by_key b') (br_by_linux b')"
  using assms(2)
proof (cases rule: bridge_step.cases)
  case (show_step n dec rid args nid w ok w')
  let ?n = "\<lparr>sn_key = an_key n, sn_app = an_app n, sn_actions = an_actions n\<rparr>"
  have "rid = get_or 0 (br_by_key b) (sn_key ?n)"
    using show_step(2) by (auto simp: show_notify_def Let_def split: prod.splits if_splits)
  from keys_agree_show [OF assms(1) _ show_step(3) this show_step(4)] show ?thesis
    using show_step(1,5) by (auto simp: show_done_def Let_def)
next
  case (signal_step s acts)
  show ?thesis
  proof (cases s)
    case (NotificationClosed nid)
    then show ?thesis using signal_step keys_agree_close [OF assms(1), of nid] by (auto simp: on_signal_def Let_def)
  next
    case (ActionInvoked nid args)
    then show ?thesis using signal_step assms(1)
      by (auto simp: on_signal_def split: option.splits list.splits if_splits)
  next
    case (NotificationReplied nid args)
    then show ?thesis using signal_step assms(1)
      by (auto simp: on_signal_def split: option.splits list.splits)
  qed
next
  case (filter_step f)
  then show ?thesis using assms(1) by (simp add: set_filters_def)
next
  case (prompt_step n i printed acts)
  then show ?thesis using assms(1) by (auto simp: prompt_done_def)
qed

interpretation bridge_maps: step_system bridge_init bridge_step "\<lambda>b. keys_agree (br_by_key b) (br_by_linux b)"
proof unfold_locales
  show "bridge_init b \<Longrightarrow> keys_agree (br_by_key b) (br_by_linux b)" for b
    by (auto simp: bridge_init_def new_android_bridge_def set_filters_def keys_agree_def)
  show "keys_agree (br_by_key b) (br_by_linux b) \<Longrightarrow> bridge_step b b' \<Longrightarrow> keys_agree (br_by_key b') (br_by_linux b')" for b b'
    by (rule bridge_step_agrees)
qed

text \<open>The two maps of the bridge are inverse to each other: through any sequence of notifications, signals and
  dialogs, a key of the phone has an identifier exactly if that identifier is the one under which the
  notification with this key is shown, so a dismissal on the desktop dismisses that notification
  on the phone and an update replaces it.\<close>

theorem bridge_maps_agree:
  assumes "reach bridge_init bridge_step b"
  shows "map_of (br_by_key b) k = Some i \<longleftrightarrow> i \<noteq> 0 \<and> (\<exists>n. map_of (br_by_linux b) i = Some n \<and> sn_key n = k)"
  using bridge_maps.reach_inv [OF assms] unfolding keys_agree_def by blast

lemma bridge_maps_agree_witness:
  "\<exists>b n. reach bridge_init bridge_step b \<and> map_of (br_by_key b) ''k'' = Some 5 \<and>
     map_of (br_by_linux b) 5 = Some n \<and> sn_key n = ''k''"
proof -
  have i: "reach bridge_init bridge_step empty_bridge"
    by (rule reach_init) (simp add: bridge_init_def new_android_bridge_def set_filters_def empty_bridge_def)
  obtain b w where d: "show_done 0 (Some 5) chat_note (empty_bridge, new_notification_watcher) = (True, b, w)"
    and k: "map_of (br_by_key b) ''k'' = Some 5"
    by (simp add: show_done_def Let_def chat_note_def)
  have "bridge_step empty_bridge b"
    by (rule show_step [OF _ chat_notify _ _ d]) (simp_all add: chat_note_def empty_bridge_def)
  with i have r: "reach bridge_init bridge_step b" by (rule reach_step)
  then show ?thesis using bridge_maps_agree [OF r, of "''k''" 5] k by blast
qed

end
