(* ===== verification/Media_Players.thy ===== *)
theory Media_Players
  imports Wire_Message
begin

text \<open>
  The MPRIS service (\<open>libquava/media/mpris.go\<close>, types of \<open>libquava/models/media.go\<close>): the cache of
  the media players on the session bus, the choice of the active player, the position ticker, the
  subscribers and the playback commands.

  The mutex makes every method one step on the record \<open>mpris\<close>; \<open>handlePropertiesChanged\<close>,
  \<open>refreshPlayers\<close> and \<open>refreshPosition\<close>, which talk to the bus between two critical sections, are
  taken at the last of them. A nil slice and an empty one are the same value. What the bus answers is a
  parameter, the record \<open>bus\<close>; \<open>bus_sent\<close> is the list of the calls that the commands made. Go
  ranges over a map in any order: here it is the order of the list, and all statements hold for
  every order. A subscriber's channel is the list of the events it has not yet received; copying
  a player for a subscriber (\<open>clonePlayer\<close>) is the identity on values. Durations are
  microseconds, cut from nanoseconds where the code does so.
\<close>

subsection \<open>Values on the bus\<close>

datatype variant =
    VString string | VPath string | VBool bool | VInt32 "32 word" | VInt64 "64 word"
  | VUint32 "32 word" | VUint64 "64 word" | VDouble float64 | VStrings "string list"
  | VDict "(string \<times> variant) list" | VOther

type_synonym properties = "(string, variant) gomap"

definition mpris_prefix :: string where "mpris_prefix = ''org.mpris.MediaPlayer2.''"
definition mpris_root :: string where "mpris_root = ''org.mpris.MediaPlayer2''"
definition mpris_player :: string where "mpris_player = ''org.mpris.MediaPlayer2.Player''"

text \<open>\<open>v, _ := x.(T)\<close>: the value of the type, or its zero value.\<close>

definition v_string :: "variant \<Rightarrow> string" where
  "v_string v = (case v of VString s \<Rightarrow> s | _ \<Rightarrow> [])"

definition v_bool :: "variant \<Rightarrow> bool" where
  "v_bool v = (case v of VBool b \<Rightarrow> b | _ \<Rightarrow> False)"

definition v_double :: "variant \<Rightarrow> float64" where
  "v_double v = (case v of VDouble d \<Rightarrow> d | _ \<Rightarrow> Fin 0)"

definition v_strings :: "variant \<Rightarrow> string list" where
  "v_strings v = (case v of VStrings ss \<Rightarrow> ss | _ \<Rightarrow> [])"

definition mpris_number :: "variant \<Rightarrow> 64 word" where
  "mpris_number v =
     (case v of VInt64 w \<Rightarrow> w | VInt32 w \<Rightarrow> scast w | VUint64 w \<Rightarrow> w | VUint32 w \<Rightarrow> ucast w | _ \<Rightarrow> 0)"

definition mpris_track_id :: "variant \<Rightarrow> string" where
  "mpris_track_id v = (case v of VPath p \<Rightarrow> p | VString s \<Rightarrow> s | _ \<Rightarrow> [])"

definition is_mpris_proxy :: "string \<Rightarrow> bool" where
  "is_mpris_proxy name =
     (let short = to_lower (trim_prefix name mpris_prefix)
      in short = ''playerctld'' \<or> has_prefix short ''gsconnect.'' \<or> has_prefix short ''kdeconnect.'')"

subsection \<open>Players\<close>

record media_metadata =
  track_id :: string
  md_title :: string
  artists :: "string list"
  album :: string
  album_artist :: "string list"
  artwork_url :: string
  duration :: "64 word"
  track_number :: "32 word"

definition no_metadata :: media_metadata where
  "no_metadata = \<lparr>track_id = [], md_title = [], artists = [], album = [], album_artist = [],
     artwork_url = [], duration = 0, track_number = 0\<rparr>"

record media_player =
  bus_name :: string
  object_path :: string
  identity :: string
  desktop_entry :: string
  owner :: string
  playback_status :: string
  position :: "64 word"
  play_rate :: float64
  can_control :: bool
  can_play :: bool
  can_pause :: bool
  can_go_next :: bool
  can_go_previous :: bool
  can_seek :: bool
  can_quit :: bool
  can_raise :: bool
  loop_status :: string
  shuffle :: bool
  player_volume :: float64
  metadata :: media_metadata
  is_active :: bool

definition no_player :: media_player where
  "no_player = \<lparr>bus_name = [], object_path = [], identity = [], desktop_entry = [], owner = [],
     playback_status = [], position = 0, play_rate = Fin 0, can_control = False, can_play = False,
     can_pause = False, can_go_next = False, can_go_previous = False, can_seek = False,
     can_quit = False, can_raise = False, loop_status = [], shuffle = False, player_volume = Fin 0,
     metadata = no_metadata, is_active = False\<rparr>"

definition playing :: "media_player \<Rightarrow> bool" where
  "playing p \<longleftrightarrow> playback_status p = ''Playing''"

datatype media_event_type = StateChanged | ActivePlayerChanged | PlayersChanged | PositionChanged

record media_event =
  ev_type :: media_event_type
  player_id :: string
  ev_state :: "media_player option"

definition event_of :: "media_event_type \<Rightarrow> string \<Rightarrow> media_player option \<Rightarrow> media_event" where
  "event_of t n p = \<lparr>ev_type = t, player_id = n, ev_state = p\<rparr>"

subsection \<open>The service\<close>

text \<open>\<open>tickers\<close> are the position goroutines whose context has not been cancelled.\<close>

record mpris =
  connected :: bool
  has_ctx :: bool
  players :: "(string, media_player) gomap"
  active_player :: string
  pinned_player :: string
  subscribers :: "(64 word, media_event list) gomap"
  next_subscriber :: "64 word"
  ticker_on :: bool
  ticker_player :: string
  ticker_generation :: "64 word"
  tickers :: "(string \<times> 64 word) list"
  svc_started :: bool
  svc_stopped :: bool
  bus_sent :: "(string \<times> string \<times> variant list) list"

definition new_mpris :: mpris where
  "new_mpris = \<lparr>connected = False, has_ctx = False, players = [], active_player = [], pinned_player = [],
     subscribers = [], next_subscriber = 0, ticker_on = False, ticker_player = [], ticker_generation = 0,
     tickers = [], svc_started = False, svc_stopped = False, bus_sent = []\<rparr>"

record bus =
  bus_names :: "string list option"
  bus_get_all :: "string \<Rightarrow> string \<Rightarrow> properties option"
  bus_owner :: "string \<Rightarrow> string option"
  bus_get :: "string \<Rightarrow> string \<Rightarrow> string \<Rightarrow> variant option"
  bus_call_ok :: "string \<Rightarrow> string \<Rightarrow> variant list \<Rightarrow> bool"

datatype mpris_error =
    MpNotFound string | MpNoActive | MpNotConnected | MpListNames | MpBusName string | MpCall string string
  | MpUnsupported string string | MpLoopStatus string | MpVolume | MpGetPosition string
  | MpCannotStart | MpConnect | MpSubscribe

subsection \<open>Subscribers\<close>

definition subscriber_buffer :: nat where "subscriber_buffer = 16"

text \<open>\<open>None\<close> is the closed channel that a stopped service hands out.\<close>

definition subscribe :: "mpris \<Rightarrow> 64 word option \<times> mpris" where
  "subscribe s =
     (if svc_stopped s then (None, s)
      else (Some (next_subscriber s),
            s\<lparr>next_subscriber := next_subscriber s + 1,
              subscribers := map_put (next_subscriber s) [] (subscribers s)\<rparr>))"

definition unsubscribe :: "64 word \<Rightarrow> mpris \<Rightarrow> mpris" where
  "unsubscribe sid s = s\<lparr>subscribers := map_del sid (subscribers s)\<rparr>"

definition offer :: "media_event \<Rightarrow> media_event list \<Rightarrow> media_event list" where
  "offer ev q = (if length q < subscriber_buffer then q @ [ev] else q)"

definition notify :: "media_event list \<Rightarrow> mpris \<Rightarrow> mpris" where
  "notify evs s = s\<lparr>subscribers := map (\<lambda>(i, q). (i, fold offer evs q)) (subscribers s)\<rparr>"

definition receive_event :: "64 word \<Rightarrow> mpris \<Rightarrow> media_event option \<times> mpris" where
  "receive_event sid s =
     (case map_of (subscribers s) sid of
        Some (ev # q) \<Rightarrow> (Some ev, s\<lparr>subscribers := map_put sid q (subscribers s)\<rparr>)
      | _ \<Rightarrow> (None, s))"

subsection \<open>The active player\<close>

definition list_players :: "mpris \<Rightarrow> media_player list" where
  "list_players s = sort_key bus_name (map snd (players s))"

definition get_player :: "mpris \<Rightarrow> string \<Rightarrow> mpris_error + media_player" where
  "get_player s n = (case map_of (players s) n of None \<Rightarrow> Inl (MpNotFound n) | Some p \<Rightarrow> Inr p)"

definition the_active_player :: "mpris \<Rightarrow> mpris_error + media_player" where
  "the_active_player s =
     (case map_of (players s) (active_player s) of None \<Rightarrow> Inl MpNoActive | Some p \<Rightarrow> Inr p)"

definition first_or :: "string \<Rightarrow> string option \<Rightarrow> string" where
  "first_or d o' = (case o' of None \<Rightarrow> d | Some x \<Rightarrow> x)"

definition set_is_active :: "string \<Rightarrow> (string, media_player) gomap \<Rightarrow> (string, media_player) gomap" where
  "set_is_active n ps = map (\<lambda>(k, p). (k, p\<lparr>is_active := (k = n)\<rparr>)) ps"

text \<open>The automatic choice, when the current player \<open>previous\<close> is gone or not playing.\<close>

definition automatic_choice :: "(string, media_player) gomap \<Rightarrow> string \<Rightarrow> string" where
  "automatic_choice ps previous =
     (let names = sort (map fst ps);
          is_playing = (\<lambda>n. case map_of ps n of Some p \<Rightarrow> can_control p \<and> playing p | None \<Rightarrow> False);
          controlled = (\<lambda>n. case map_of ps n of Some p \<Rightarrow> can_control p | None \<Rightarrow> False)
      in if is_playing previous then previous
         else case find is_playing names of
           Some n \<Rightarrow> n
         | None \<Rightarrow>
             if map_has ps previous then previous
             else case find controlled names of
               Some n \<Rightarrow> n
             | None \<Rightarrow> (case names of [] \<Rightarrow> [] | n # _ \<Rightarrow> n))"

definition update_active_player :: "mpris \<Rightarrow> bool \<times> mpris" where
  "update_active_player s =
     (let previous = active_player s;
          pinned = pinned_player s \<noteq> [] \<and> map_has (players s) (pinned_player s);
          pin = (if pinned then pinned_player s else []);
          current = (if pinned then pinned_player s else previous);
          active = (if \<not> pinned \<and> (case map_of (players s) current of None \<Rightarrow> True | Some p \<Rightarrow> \<not> playing p)
                    then automatic_choice (players s) previous else current)
      in (previous \<noteq> active,
          s\<lparr>pinned_player := pin, active_player := active, players := set_is_active active (players s)\<rparr>))"

definition sync_position_ticker :: "mpris \<Rightarrow> mpris" where
  "sync_position_ticker s =
     (let run = (case map_of (players s) (active_player s) of None \<Rightarrow> False | Some p \<Rightarrow> playing p)
                \<and> has_ctx s \<and> \<not> svc_stopped s
      in if run \<and> ticker_on s \<and> ticker_player s = active_player s then s
         else
           (let s1 = (if ticker_on s
                      then s\<lparr>ticker_on := False, ticker_player := [], ticker_generation := ticker_generation s + 1,
                             tickers := filter (\<lambda>t. t \<noteq> (ticker_player s, ticker_generation s)) (tickers s)\<rparr>
                      else s)
            in if \<not> run then s1
               else (let g = ticker_generation s1 + 1
                     in s1\<lparr>ticker_on := True, ticker_player := active_player s1, ticker_generation := g,
                           tickers := (active_player s1, g) # tickers s1\<rparr>)))"

definition active_event :: "mpris \<Rightarrow> media_event" where
  "active_event s =
     (case map_of (players s) (active_player s) of
        Some p \<Rightarrow> event_of ActivePlayerChanged (active_player s) (Some p)
      | None \<Rightarrow> event_of ActivePlayerChanged [] None)"

definition use_automatic_player :: "mpris \<Rightarrow> mpris" where
  "use_automatic_player s =
     (let (changed, s1) = update_active_player (s\<lparr>pinned_player := []\<rparr>);
          s2 = sync_position_ticker s1
      in if changed
         then notify [event_of ActivePlayerChanged (active_player s2) (map_of (players s2) (active_player s2))] s2
         else s2)"

definition set_active_player :: "string \<Rightarrow> mpris \<Rightarrow> mpris_error option \<times> mpris" where
  "set_active_player n s =
     (if \<not> map_has (players s) n then (Some (MpNotFound n), s)
      else
        (let previous = active_player s;
             s1 = sync_position_ticker
               (s\<lparr>active_player := n, pinned_player := n, players := set_is_active n (players s)\<rparr>)
         in (None, if previous \<noteq> n
                   then notify [event_of ActivePlayerChanged n (map_of (players s1) n)] s1 else s1)))"

subsection \<open>Signals\<close>

definition owned_by :: "string \<Rightarrow> mpris \<Rightarrow> (string \<times> media_player) option" where
  "owned_by sender s = find (\<lambda>(_, p). owner p = sender) (players s)"

definition handle_seeked :: "string \<Rightarrow> variant list \<Rightarrow> mpris \<Rightarrow> media_event list \<times> mpris" where
  "handle_seeked sender body s =
     (case body of
        [] \<Rightarrow> ([], s)
      | v # _ \<Rightarrow>
          (case owned_by sender s of
             None \<Rightarrow> ([], s)
           | Some (n, p) \<Rightarrow>
               if position p = mpris_number v then ([], s)
               else (let p' = p\<lparr>position := mpris_number v\<rparr>
                     in ([event_of PositionChanged n (Some p')], s\<lparr>players := map_put n p' (players s)\<rparr>))))"

definition is_tracked_property :: "string \<Rightarrow> string \<Rightarrow> bool" where
  "is_tracked_property iface prop \<longleftrightarrow>
     (if iface = mpris_player then
        prop \<in> {''PlaybackStatus'', ''Position'', ''Rate'', ''CanControl'', ''CanPlay'', ''CanPause'',
          ''CanGoNext'', ''CanGoPrevious'', ''CanSeek'', ''LoopStatus'', ''Shuffle'', ''Volume'', ''Metadata''}
      else if iface = mpris_root then prop \<in> {''Identity'', ''DesktopEntry'', ''CanQuit'', ''CanRaise''}
      else False)"

fun fetch_properties :: "bus \<Rightarrow> string \<Rightarrow> string \<Rightarrow> string list \<Rightarrow> properties" where
  "fetch_properties b n iface [] = []"
| "fetch_properties b n iface (prop # props) =
     (if \<not> is_tracked_property iface prop then fetch_properties b n iface props
      else case bus_get b n iface prop of
        None \<Rightarrow> fetch_properties b n iface props
      | Some v \<Rightarrow> map_put prop v (fetch_properties b n iface props))"

definition fetch_invalidated :: "bus \<Rightarrow> string \<Rightarrow> string \<Rightarrow> string list \<Rightarrow> mpris \<Rightarrow> properties option" where
  "fetch_invalidated b n iface props s = (if \<not> connected s then None else Some (fetch_properties b n iface props))"

definition metadata_of :: "properties \<Rightarrow> media_metadata" where
  "metadata_of m =
     (let str = (\<lambda>k. case map_of m k of None \<Rightarrow> [] | Some v \<Rightarrow> v_string v);
          strs = (\<lambda>k. case map_of m k of None \<Rightarrow> [] | Some v \<Rightarrow> v_strings v)
      in \<lparr>track_id = (case map_of m ''mpris:trackid'' of None \<Rightarrow> [] | Some v \<Rightarrow> mpris_track_id v),
          md_title = str ''xesam:title'', artists = strs ''xesam:artist'', album = str ''xesam:album'',
          album_artist = strs ''xesam:albumArtist'', artwork_url = str ''mpris:artUrl'',
          duration = (case map_of m ''mpris:length'' of None \<Rightarrow> 0 | Some v \<Rightarrow> mpris_number v),
          track_number = (case map_of m ''xesam:trackNumber'' of
              Some (VInt32 w) \<Rightarrow> w | Some (VInt64 w) \<Rightarrow> ucast w | _ \<Rightarrow> 0)\<rparr>)"

definition update_mpris_metadata :: "variant \<Rightarrow> media_player \<Rightarrow> media_player" where
  "update_mpris_metadata v p = (case v of VDict m \<Rightarrow> p\<lparr>metadata := metadata_of m\<rparr> | _ \<Rightarrow> p)"

text \<open>The assignments of \<open>applyMPRISUpdate\<close>: nothing happens when the value has another type.\<close>

definition with_string :: "(string \<Rightarrow> media_player \<Rightarrow> media_player) \<Rightarrow> variant \<Rightarrow> media_player \<Rightarrow> media_player" where
  "with_string f v p = (case v of VString x \<Rightarrow> f x p | _ \<Rightarrow> p)"

definition with_bool :: "(bool \<Rightarrow> media_player \<Rightarrow> media_player) \<Rightarrow> variant \<Rightarrow> media_player \<Rightarrow> media_player" where
  "with_bool f v p = (case v of VBool x \<Rightarrow> f x p | _ \<Rightarrow> p)"

definition with_double :: "(float64 \<Rightarrow> media_player \<Rightarrow> media_player) \<Rightarrow> variant \<Rightarrow> media_player \<Rightarrow> media_player" where
  "with_double f v p = (case v of VDouble x \<Rightarrow> f x p | _ \<Rightarrow> p)"

definition apply_mpris_update :: "string \<Rightarrow> string \<Rightarrow> variant \<Rightarrow> media_player \<Rightarrow> bool \<times> media_player" where
  "apply_mpris_update iface prop v p =
     (if iface = mpris_root then
        (False,
         if prop = ''Identity'' then with_string (\<lambda>x p. p\<lparr>identity := x\<rparr>) v p
         else if prop = ''DesktopEntry'' then with_string (\<lambda>x p. p\<lparr>desktop_entry := x\<rparr>) v p
         else if prop = ''CanQuit'' then with_bool (\<lambda>x p. p\<lparr>can_quit := x\<rparr>) v p
         else if prop = ''CanRaise'' then with_bool (\<lambda>x p. p\<lparr>can_raise := x\<rparr>) v p
         else p)
      else if prop = ''PlaybackStatus'' then (False, with_string (\<lambda>x p. p\<lparr>playback_status := x\<rparr>) v p)
      else if prop = ''Position'' then (True, p\<lparr>position := mpris_number v\<rparr>)
      else if prop = ''Rate'' then (False, with_double (\<lambda>x p. p\<lparr>play_rate := x\<rparr>) v p)
      else if prop = ''CanControl'' then (False, with_bool (\<lambda>x p. p\<lparr>can_control := x\<rparr>) v p)
      else if prop = ''CanPlay'' then (False, with_bool (\<lambda>x p. p\<lparr>can_play := x\<rparr>) v p)
      else if prop = ''CanPause'' then (False, with_bool (\<lambda>x p. p\<lparr>can_pause := x\<rparr>) v p)
      else if prop = ''CanGoNext'' then (False, with_bool (\<lambda>x p. p\<lparr>can_go_next := x\<rparr>) v p)
      else if prop = ''CanGoPrevious'' then (False, with_bool (\<lambda>x p. p\<lparr>can_go_previous := x\<rparr>) v p)
      else if prop = ''CanSeek'' then (False, with_bool (\<lambda>x p. p\<lparr>can_seek := x\<rparr>) v p)
      else if prop = ''LoopStatus'' then (False, with_string (\<lambda>x p. p\<lparr>loop_status := x\<rparr>) v p)
      else if prop = ''Shuffle'' then (False, with_bool (\<lambda>x p. p\<lparr>shuffle := x\<rparr>) v p)
      else if prop = ''Volume'' then (False, with_double (\<lambda>x p. p\<lparr>player_volume := x\<rparr>) v p)
      else if prop = ''Metadata'' then (False, update_mpris_metadata v p)
      else (False, p))"

fun apply_updates :: "string \<Rightarrow> properties \<Rightarrow> bool \<Rightarrow> media_player \<Rightarrow> bool \<times> media_player" where
  "apply_updates iface [] pos p = (pos, p)"
| "apply_updates iface ((prop, v) # m) pos p =
     (case apply_mpris_update iface prop v p of (b, p') \<Rightarrow> apply_updates iface m (b \<or> pos) p')"

text \<open>The part of \<open>handlePropertiesChanged\<close> after the body of the signal has been checked;
  \<open>reflect.DeepEqual\<close> is equality, on players without their positions.\<close>

definition properties_changed ::
    "bus \<Rightarrow> string \<Rightarrow> string \<Rightarrow> properties \<Rightarrow> string list \<Rightarrow> mpris \<Rightarrow> media_event list \<times> mpris" where
  "properties_changed b sender iface changed invalidated s =
     (if iface \<noteq> mpris_player \<and> iface \<noteq> mpris_root then ([], s)
      else case owned_by sender s of
        None \<Rightarrow> ([], s)
      | Some (n, before) \<Rightarrow>
          (case fetch_invalidated b n iface invalidated s of
             None \<Rightarrow> ([], s)
           | Some fetched \<Rightarrow>
               (let (pos1, p1) = apply_updates iface changed False before;
                    (pos, p) = apply_updates iface fetched pos1 p1;
                    (active_changed, s1) = update_active_player (s\<lparr>players := map_put n p (players s)\<rparr>);
                    s2 = sync_position_ticker s1
                in ((if pos \<and> position before \<noteq> position p then [event_of PositionChanged n (Some p)] else []) @
                    (if before\<lparr>position := 0\<rparr> \<noteq> p\<lparr>position := 0\<rparr> then [event_of StateChanged n (Some p)] else []) @
                    (if active_changed then [active_event s2] else []), s2))))"

text \<open>The body of a signal is a list of values; one that is no dictionary or list is skipped.\<close>

definition handle_properties_changed :: "bus \<Rightarrow> string \<Rightarrow> variant list \<Rightarrow> mpris \<Rightarrow> media_event list \<times> mpris" where
  "handle_properties_changed b sender body s =
     (case body of
        VString iface # VDict changed # gone # _ \<Rightarrow> properties_changed b sender iface changed (v_strings gone) s
      | _ \<Rightarrow> ([], s))"

subsection \<open>Discovery\<close>

definition prop_or :: "properties \<Rightarrow> string \<Rightarrow> (variant \<Rightarrow> 'a) \<Rightarrow> 'a \<Rightarrow> 'a" where
  "prop_or m k f z = (case map_of m k of None \<Rightarrow> z | Some v \<Rightarrow> f v)"

definition discovered :: "string \<Rightarrow> string \<Rightarrow> properties \<Rightarrow> properties \<Rightarrow> media_player" where
  "discovered n own base play =
     \<lparr>bus_name = n, object_path = ''/org/mpris/MediaPlayer2'', identity = prop_or base ''Identity'' v_string [],
      desktop_entry = prop_or base ''DesktopEntry'' v_string [], owner = own,
      playback_status = prop_or play ''PlaybackStatus'' v_string [],
      position = prop_or play ''Position'' mpris_number 0, play_rate = prop_or play ''Rate'' v_double (Fin 0),
      can_control = prop_or play ''CanControl'' v_bool False, can_play = prop_or play ''CanPlay'' v_bool False,
      can_pause = prop_or play ''CanPause'' v_bool False, can_go_next = prop_or play ''CanGoNext'' v_bool False,
      can_go_previous = prop_or play ''CanGoPrevious'' v_bool False, can_seek = prop_or play ''CanSeek'' v_bool False,
      can_quit = prop_or base ''CanQuit'' v_bool False, can_raise = prop_or base ''CanRaise'' v_bool False,
      loop_status = prop_or play ''LoopStatus'' v_string [], shuffle = prop_or play ''Shuffle'' v_bool False,
      player_volume = prop_or play ''Volume'' v_double (Fin 0),
      metadata = (case map_of play ''Metadata'' of Some (VDict m) \<Rightarrow> metadata_of m | _ \<Rightarrow> no_metadata),
      is_active = False\<rparr>"

fun discover :: "bus \<Rightarrow> string list \<Rightarrow> (string, media_player) gomap \<Rightarrow> (string, media_player) gomap" where
  "discover b [] found = found"
| "discover b (n # ns) found =
     (if \<not> has_prefix n mpris_prefix \<or> is_mpris_proxy n then discover b ns found
      else case bus_get_all b n mpris_root of
        None \<Rightarrow> discover b ns found
      | Some base \<Rightarrow>
          (case bus_get_all b n mpris_player of
             None \<Rightarrow> discover b ns found
           | Some play \<Rightarrow>
               discover b ns (map_put n (discovered n (case bus_owner b n of None \<Rightarrow> [] | Some o' \<Rightarrow> o') base play) found)))"

text \<open>The events compare with the new cache, in which the active flags are set.\<close>

definition cache_events :: "(string, media_player) gomap \<Rightarrow> (string, media_player) gomap \<Rightarrow> media_event list" where
  "cache_events old new =
     concat (map (\<lambda>(n, p). case map_of new n of
          None \<Rightarrow> [event_of PlayersChanged n None]
        | Some p' \<Rightarrow> if p \<noteq> p' then [event_of PlayersChanged n (Some p')] else []) old) @
     concat (map (\<lambda>(n, p). if map_has old n then [] else [event_of PlayersChanged n (Some p)]) new)"

definition refresh_players :: "bus \<Rightarrow> mpris \<Rightarrow> mpris_error option \<times> mpris" where
  "refresh_players b s =
     (if \<not> connected s then (Some MpNotConnected, s)
      else case bus_names b of
        None \<Rightarrow> (Some MpListNames, s)
      | Some names \<Rightarrow>
          (let (changed, s1) = update_active_player (s\<lparr>players := discover b names []\<rparr>);
               s2 = sync_position_ticker s1
           in (None, notify (cache_events (players s) (players s2) @
                 (if changed then [active_event s2] else [])) s2)))"

subsection \<open>The ticker\<close>

text \<open>\<open>refreshPosition\<close> asks the bus between its two critical sections: \<open>position_wanted\<close> is the first
  and \<open>store_position\<close> the second, which checks again.\<close>

definition position_wanted :: "string \<Rightarrow> 64 word \<Rightarrow> mpris \<Rightarrow> bool" where
  "position_wanted n g s \<longleftrightarrow>
     connected s \<and> active_player s = n \<and> ticker_player s = n \<and> ticker_generation s = g \<and>
     (case map_of (players s) n of None \<Rightarrow> False | Some p \<Rightarrow> playing p)"

definition store_position :: "string \<Rightarrow> 64 word \<Rightarrow> variant \<Rightarrow> mpris \<Rightarrow> mpris" where
  "store_position n g v s =
     (case map_of (players s) n of
        None \<Rightarrow> s
      | Some p \<Rightarrow>
          if active_player s \<noteq> n \<or> ticker_player s \<noteq> n \<or> ticker_generation s \<noteq> g \<or> \<not> playing p
             \<or> position p = mpris_number v
          then s
          else (let p' = p\<lparr>position := mpris_number v\<rparr>
                in notify [event_of PositionChanged n (Some p')] (s\<lparr>players := map_put n p' (players s)\<rparr>)))"

definition refresh_position :: "bus \<Rightarrow> string \<Rightarrow> 64 word \<Rightarrow> mpris \<Rightarrow> mpris" where
  "refresh_position b n g s =
     (if \<not> position_wanted n g s then s
      else case bus_get b n mpris_player ''Position'' of None \<Rightarrow> s | Some v \<Rightarrow> store_position n g v s)"

subsection \<open>Commands\<close>

definition bus_call :: "bus \<Rightarrow> string \<Rightarrow> string \<Rightarrow> variant list \<Rightarrow> mpris \<Rightarrow> mpris_error option \<times> mpris" where
  "bus_call b n method args s =
     (if \<not> has_prefix n mpris_prefix then (Some (MpBusName n), s)
      else if \<not> connected s then (Some MpNotConnected, s)
      else if \<not> map_has (players s) n then (Some (MpNotFound n), s)
      else (if bus_call_ok b n method args then None else Some (MpCall method n),
            s\<lparr>bus_sent := bus_sent s @ [(n, method, args)]\<rparr>))"

definition call_player :: "bus \<Rightarrow> string \<Rightarrow> string \<Rightarrow> variant list \<Rightarrow> mpris \<Rightarrow> mpris_error option \<times> mpris" where
  "call_player b n method args s = bus_call b n method args s"

definition set_player_property :: "bus \<Rightarrow> string \<Rightarrow> string \<Rightarrow> variant \<Rightarrow> mpris \<Rightarrow> mpris_error option \<times> mpris" where
  "set_player_property b n prop v s = bus_call b n ''Set'' [VString mpris_player, VString prop, v] s"

definition checked_call ::
    "bus \<Rightarrow> string \<Rightarrow> (media_player \<Rightarrow> bool) \<Rightarrow> string \<Rightarrow> mpris \<Rightarrow> mpris_error option \<times> mpris" where
  "checked_call b n able method s =
     (case get_player s n of
        Inl e \<Rightarrow> (Some e, s)
      | Inr p \<Rightarrow> if \<not> able p then (Some (MpUnsupported method n), s) else call_player b n method [] s)"

definition play_pause :: "bus \<Rightarrow> string \<Rightarrow> mpris \<Rightarrow> mpris_error option \<times> mpris" where
  "play_pause b n = checked_call b n (\<lambda>p. \<not> (\<not> can_control p \<or> (\<not> can_play p \<and> \<not> can_pause p))) ''PlayPause''"

definition next_track :: "bus \<Rightarrow> string \<Rightarrow> mpris \<Rightarrow> mpris_error option \<times> mpris" where
  "next_track b n = checked_call b n (\<lambda>p. can_control p \<and> can_go_next p) ''Next''"

definition previous_track :: "bus \<Rightarrow> string \<Rightarrow> mpris \<Rightarrow> mpris_error option \<times> mpris" where
  "previous_track b n = checked_call b n (\<lambda>p. can_control p \<and> can_go_previous p) ''Previous''"

definition play :: "bus \<Rightarrow> string \<Rightarrow> mpris \<Rightarrow> mpris_error option \<times> mpris" where
  "play b n = checked_call b n (\<lambda>p. can_control p \<and> can_play p) ''Play''"

definition pause :: "bus \<Rightarrow> string \<Rightarrow> mpris \<Rightarrow> mpris_error option \<times> mpris" where
  "pause b n = checked_call b n (\<lambda>p. can_control p \<and> can_pause p) ''Pause''"

definition stop_playback :: "bus \<Rightarrow> string \<Rightarrow> mpris \<Rightarrow> mpris_error option \<times> mpris" where
  "stop_playback b n = checked_call b n can_control ''Stop''"

text \<open>Durations are nanoseconds, 64-bit; \<open>Microseconds\<close> divides and truncates.\<close>

definition microseconds :: "64 word \<Rightarrow> 64 word" where
  "microseconds ns = word_of_int (sgn (sint ns) * (\<bar>sint ns\<bar> div 1000))"

definition seek :: "bus \<Rightarrow> string \<Rightarrow> 64 word \<Rightarrow> mpris \<Rightarrow> mpris_error option \<times> mpris" where
  "seek b n offset s =
     (case get_player s n of
        Inl e \<Rightarrow> (Some e, s)
      | Inr p \<Rightarrow>
          if \<not> can_control p \<or> \<not> can_seek p then (Some (MpUnsupported ''Seek'' n), s)
          else if offset = 0 then (None, s)
          else call_player b n ''Seek'' [VInt64 (microseconds offset)] s)"

text \<open>\<open>dbus.ObjectPath.IsValid\<close>: a slash, then elements of letters, digits and underscores.\<close>

definition path_char :: "char \<Rightarrow> bool" where
  "path_char c \<longleftrightarrow> is_upper c \<or> is_lower c \<or> is_digit c \<or> c = CHR ''_''"

definition valid_object_path :: "string \<Rightarrow> bool" where
  "valid_object_path p \<longleftrightarrow>
     p = ''/'' \<or>
     (has_prefix p ''/'' \<and> (\<forall>e \<in> set (split_on CHR ''/'' (tl p)). e \<noteq> [] \<and> (\<forall>c \<in> set e. path_char c)))"

definition no_track :: string where "no_track = ''/org/mpris/MediaPlayer2/TrackList/NoTrack''"

definition seek_target :: "64 word \<Rightarrow> 64 word \<Rightarrow> 64 word" where
  "seek_target pos len =
     (let t = microseconds pos;
          t = (if t <s 0 then 0 else t)
      in if 0 <s len \<and> len <s t then len else t)"

definition seek_to :: "bus \<Rightarrow> string \<Rightarrow> 64 word \<Rightarrow> mpris \<Rightarrow> mpris_error option \<times> mpris" where
  "seek_to b n pos s =
     (case get_player s n of
        Inl e \<Rightarrow> (Some e, s)
      | Inr p \<Rightarrow>
          if \<not> can_control p \<or> \<not> can_seek p then (Some (MpUnsupported ''Seek'' n), s)
          else
            (let target = seek_target pos (duration (metadata p)); tid = track_id (metadata p)
             in if tid \<noteq> [] \<and> valid_object_path tid \<and> tid \<noteq> no_track
                then call_player b n ''SetPosition'' [VPath tid, VInt64 target] s
                else if \<not> connected s then (Some MpNotConnected, s)
                else case bus_get b n mpris_player ''Position'' of
                  None \<Rightarrow> (Some (MpGetPosition n), s)
                | Some v \<Rightarrow>
                    if target - mpris_number v = 0 then (None, s)
                    else call_player b n ''Seek'' [VInt64 (target - mpris_number v)] s))"

definition set_shuffle :: "bus \<Rightarrow> string \<Rightarrow> bool \<Rightarrow> mpris \<Rightarrow> mpris_error option \<times> mpris" where
  "set_shuffle b n on s = set_player_property b n ''Shuffle'' (VBool on) s"

definition set_loop_status :: "bus \<Rightarrow> string \<Rightarrow> string \<Rightarrow> mpris \<Rightarrow> mpris_error option \<times> mpris" where
  "set_loop_status b n st s =
     (if st \<in> {''None'', ''Track'', ''Playlist''} then set_player_property b n ''LoopStatus'' (VString st) s
      else (Some (MpLoopStatus st), s))"

definition negative :: "float64 \<Rightarrow> bool" where
  "negative v = (case v of Fin r \<Rightarrow> r < 0 | NegInf \<Rightarrow> True | _ \<Rightarrow> False)"

definition set_player_volume :: "bus \<Rightarrow> string \<Rightarrow> float64 \<Rightarrow> mpris \<Rightarrow> mpris_error option \<times> mpris" where
  "set_player_volume b n v s =
     (if negative v then (Some MpVolume, s) else set_player_property b n ''Volume'' (VDouble v) s)"

subsection \<open>Starting and stopping\<close>

text \<open>\<open>conn_ok\<close> and \<open>match_ok\<close>: do connecting and subscribing to the signals succeed?\<close>

definition start_mpris :: "bool \<Rightarrow> bool \<Rightarrow> bus \<Rightarrow> mpris \<Rightarrow> mpris_error option \<times> mpris" where
  "start_mpris conn_ok match_ok b s =
     (if svc_started s \<or> svc_stopped s then (Some MpCannotStart, s)
      else if \<not> conn_ok then (Some MpConnect, s)
      else if \<not> match_ok then (Some MpSubscribe, s\<lparr>connected := False, has_ctx := True, svc_started := False\<rparr>)
      else case refresh_players b (s\<lparr>connected := True, has_ctx := True, svc_started := True\<rparr>) of
        (None, s1) \<Rightarrow> (None, s1)
      | (Some e, s1) \<Rightarrow> (Some e, s1\<lparr>connected := False, svc_started := False\<rparr>))"

definition stop_mpris :: "mpris \<Rightarrow> mpris" where
  "stop_mpris s =
     (if svc_stopped s then s
      else s\<lparr>svc_stopped := True, ticker_on := False, ticker_player := [],
             ticker_generation := ticker_generation s + 1, tickers := [], connected := False, players := [],
             active_player := [], pinned_player := [], subscribers := []\<rparr>)"

subsection \<open>The choice of the active player\<close>

lemma map_set_is_active: "map fst (set_is_active n ps) = map fst ps"
  by (induction ps) (auto simp: set_is_active_def)

lemma map_of_set_is_active:
  "map_of (set_is_active n ps) k = map_option (\<lambda>p. p\<lparr>is_active := (k = n)\<rparr>) (map_of ps k)"
  by (induction ps) (auto simp: set_is_active_def)

lemma set_is_active_entry:
  "(k, p) \<in> set (set_is_active n ps) \<longleftrightarrow> (\<exists>q. (k, q) \<in> set ps \<and> p = q\<lparr>is_active := (k = n)\<rparr>)"
  by (force simp: set_is_active_def)

lemma set_is_active_Nil [simp]: "set_is_active n ps = [] \<longleftrightarrow> ps = []"
  by (simp add: set_is_active_def)

lemma find_sorted_Min:
  assumes "sorted xs" "x \<in> set xs" "P x"
  shows "find P xs = Some (Min {y \<in> set xs. P y})"
  using assms
proof (induction xs)
  case (Cons y ys)
  show ?case
  proof (cases "P y")
    case True
    have "Min {z \<in> set (y # ys). P z} = y"
      by (rule Min_eqI) (use Cons.prems(1) True in auto)
    with True show ?thesis by simp
  next
    case False
    then have "{z \<in> set (y # ys). P z} = {z \<in> set ys. P z}" by auto
    with Cons False show ?thesis by auto
  qed
qed simp

lemma sorted_hd_Min: "sorted xs \<Longrightarrow> xs \<noteq> [] \<Longrightarrow> hd xs = Min (set xs)"
proof (cases xs)
  case (Cons y ys)
  assume "sorted xs"
  then show ?thesis unfolding Cons list.sel by (intro Min_eqI [symmetric]) (auto simp: Cons)
qed simp

definition able_playing :: "(string, media_player) gomap \<Rightarrow> string \<Rightarrow> bool" where
  "able_playing ps n \<longleftrightarrow> (\<exists>p. map_of ps n = Some p \<and> can_control p \<and> playing p)"

definition able :: "(string, media_player) gomap \<Rightarrow> string \<Rightarrow> bool" where
  "able ps n \<longleftrightarrow> (\<exists>p. map_of ps n = Some p \<and> can_control p)"

lemma able_has: "able_playing ps n \<Longrightarrow> map_has ps n" "able ps n \<Longrightarrow> map_has ps n"
  by (auto simp: able_playing_def able_def)

text \<open>The policy, without the loops: the smallest name wins among equals.\<close>

definition reference_choice :: "(string, media_player) gomap \<Rightarrow> string \<Rightarrow> string \<Rightarrow> string" where
  "reference_choice ps pinned current =
     (if pinned \<noteq> [] \<and> map_has ps pinned then pinned
      else if \<exists>p. map_of ps current = Some p \<and> playing p then current
      else if \<exists>n. able_playing ps n then Min {n. able_playing ps n}
      else if map_has ps current then current
      else if \<exists>n. able ps n then Min {n. able ps n}
      else if ps = [] then [] else Min (fst ` set ps))"

lemma find_names:
  assumes "\<And>n. P n \<Longrightarrow> map_has ps n"
  shows "find P (sort (map fst ps)) = (if \<exists>n. P n then Some (Min {n. P n}) else None)"
proof (cases "\<exists>n. P n")
  case True
  then obtain n where n: "P n" by blast
  have s: "{y \<in> set (sort (map fst ps)). P y} = {n. P n}"
    using assms unfolding map_has_iff by auto
  have "n \<in> set (sort (map fst ps))" using assms [OF n] unfolding map_has_iff by auto
  from find_sorted_Min [of "sort (map fst ps)" n P, OF _ this n] show ?thesis unfolding s using True by auto
next
  case False
  then show ?thesis by (simp add: find_None_iff)
qed

lemma automatic_choice_ref:
  assumes "\<not> (\<exists>p. map_of ps current = Some p \<and> playing p)"
  shows "automatic_choice ps current = reference_choice ps [] current"
proof -
  let ?names = "sort (map fst ps)"
  have p: "(\<lambda>n. case map_of ps n of Some p \<Rightarrow> can_control p \<and> playing p | None \<Rightarrow> False) = able_playing ps"
    by (rule ext) (auto simp: able_playing_def split: option.splits)
  have c: "(\<lambda>n. case map_of ps n of Some p \<Rightarrow> can_control p | None \<Rightarrow> False) = able ps"
    by (rule ext) (auto simp: able_def split: option.splits)
  have f: "find (able_playing ps) ?names = (if \<exists>n. able_playing ps n then Some (Min {n. able_playing ps n}) else None)"
    "find (able ps) ?names = (if \<exists>n. able ps n then Some (Min {n. able ps n}) else None)"
    using find_names [of "able_playing ps" ps, OF able_has(1)] find_names [of "able ps" ps, OF able_has(2)]
    by blast+
  have h: "(case ?names of [] \<Rightarrow> [] | n # _ \<Rightarrow> n) = (if ps = [] then [] else Min (fst ` set ps))"
  proof (cases "ps = []")
    case False
    then have ne: "?names \<noteq> []" using set_empty [of "?names"] by auto
    then have "(case ?names of [] \<Rightarrow> [] | n # _ \<Rightarrow> n) = hd ?names" by (cases ?names) simp_all
    also have "\<dots> = Min (set ?names)" by (rule sorted_hd_Min) (use ne in simp_all)
    finally show ?thesis using False by simp
  qed simp
  have n: "\<not> able_playing ps current" using assms by (auto simp: able_playing_def)
  show ?thesis
    unfolding automatic_choice_def Let_def p c f h reference_choice_def using n assms by auto
qed

lemma update_active_player_ref:
  "active_player (snd (update_active_player s)) = reference_choice (players s) (pinned_player s) (active_player s)"
proof -
  consider (pin) "pinned_player s \<noteq> []" "map_has (players s) (pinned_player s)"
    | (auto) "\<not> (pinned_player s \<noteq> [] \<and> map_has (players s) (pinned_player s))" by blast
  then show ?thesis
  proof cases
    case pin
    then show ?thesis by (simp add: update_active_player_def reference_choice_def Let_def)
  next
    case auto
    then have r: "reference_choice (players s) (pinned_player s) (active_player s) =
        reference_choice (players s) [] (active_player s)" by (auto simp: reference_choice_def)
    show ?thesis
    proof (cases "\<exists>p. map_of (players s) (active_player s) = Some p \<and> playing p")
      case True
      then show ?thesis using auto unfolding r
        by (auto simp: update_active_player_def reference_choice_def Let_def)
    next
      case False
      then show ?thesis using auto automatic_choice_ref [OF False] unfolding r
        by (auto simp: update_active_player_def Let_def split: option.splits)
    qed
  qed
qed

lemma reference_choice_exists:
  "ps \<noteq> [] \<Longrightarrow> map_has ps (reference_choice ps pinned current)"
proof -
  assume ne: "ps \<noteq> []"
  have fin: "finite {n. P n}" if "\<And>n. P n \<Longrightarrow> map_has ps n" for P
  proof (rule finite_subset [of _ "fst ` set ps"])
    show "{n. P n} \<subseteq> fst ` set ps" using that unfolding map_has_iff by blast
  qed simp
  have ap: "map_has ps (Min {n. able_playing ps n})" if "\<exists>n. able_playing ps n"
    using Min_in [OF fin [of "able_playing ps", OF able_has(1)]] that able_has(1) by blast
  have ab: "map_has ps (Min {n. able ps n})" if "\<exists>n. able ps n"
    using Min_in [OF fin [of "able ps", OF able_has(2)]] that able_has(2) by blast
  have mn: "map_has ps (Min (fst ` set ps))"
    unfolding map_has_iff using Min_in [of "fst ` set ps"] ne by simp
  show ?thesis unfolding reference_choice_def using ap ab mn ne by auto
qed

subsection \<open>The invariant of the service\<close>

text \<open>
  \<open>cache_ok\<close>: the players are filed under their own non-empty names, a subscriber's buffer never
  exceeds its size, and players exist only in a started service. \<open>chosen\<close>: there is an active
  player whenever there are players, the pinned player is the active one, and the flags of the
  players say so. \<open>ticking\<close>: exactly one position goroutine runs while the active player plays in
  a live service, for that player and with the current generation, and none otherwise.
\<close>

definition cache_ok :: "mpris \<Rightarrow> bool" where
  "cache_ok s \<longleftrightarrow>
     wf_map (players s) \<and>
     (\<forall>(n, p) \<in> set (players s). bus_name p = n \<and> n \<noteq> []) \<and>
     (\<forall>(i, q) \<in> set (subscribers s). length q \<le> subscriber_buffer) \<and>
     (\<not> svc_started s \<longrightarrow> players s = [] \<and> \<not> connected s)"

definition chosen :: "mpris \<Rightarrow> bool" where
  "chosen s \<longleftrightarrow>
     (if players s = [] then active_player s = [] else map_has (players s) (active_player s)) \<and>
     (pinned_player s = [] \<or> pinned_player s = active_player s) \<and>
     (\<forall>(n, p) \<in> set (players s). is_active p = (n = active_player s))"

definition should_tick :: "mpris \<Rightarrow> bool" where
  "should_tick s \<longleftrightarrow>
     (case map_of (players s) (active_player s) of None \<Rightarrow> False | Some p \<Rightarrow> playing p) \<and>
     has_ctx s \<and> \<not> svc_stopped s"

definition tick_ok :: "mpris \<Rightarrow> bool" where
  "tick_ok s \<longleftrightarrow> tickers s = (if ticker_on s then [(ticker_player s, ticker_generation s)] else [])"

definition ticking :: "mpris \<Rightarrow> bool" where
  "ticking s \<longleftrightarrow> tick_ok s \<and> ticker_on s = should_tick s \<and> (ticker_on s \<longrightarrow> ticker_player s = active_player s)"

definition mpris_inv :: "mpris \<Rightarrow> bool" where
  "mpris_inv s \<longleftrightarrow> cache_ok s \<and> chosen s \<and> ticking s"

lemma sync_frame:
  "players (sync_position_ticker s) = players s" "active_player (sync_position_ticker s) = active_player s"
  "pinned_player (sync_position_ticker s) = pinned_player s" "subscribers (sync_position_ticker s) = subscribers s"
  "svc_started (sync_position_ticker s) = svc_started s" "svc_stopped (sync_position_ticker s) = svc_stopped s"
  "connected (sync_position_ticker s) = connected s" "has_ctx (sync_position_ticker s) = has_ctx s"
  "bus_sent (sync_position_ticker s) = bus_sent s"
  by (simp_all add: sync_position_ticker_def Let_def)

lemma sync_ticking: "tick_ok s \<Longrightarrow> ticking (sync_position_ticker s)"
proof -
  assume t: "tick_ok s"
  have st: "should_tick (sync_position_ticker s) = should_tick s" by (simp add: should_tick_def sync_frame)
  have run: "((case map_of (players s) (active_player s) of None \<Rightarrow> False | Some p \<Rightarrow> playing p) \<and> has_ctx s \<and> \<not> svc_stopped s)
      = should_tick s" by (simp add: should_tick_def)
  show ?thesis
    unfolding ticking_def st sync_frame(2)
    using t unfolding sync_position_ticker_def run tick_ok_def Let_def by auto
qed

lemma update_frame:
  "subscribers (snd (update_active_player s)) = subscribers s" "svc_started (snd (update_active_player s)) = svc_started s"
  "svc_stopped (snd (update_active_player s)) = svc_stopped s" "connected (snd (update_active_player s)) = connected s"
  "has_ctx (snd (update_active_player s)) = has_ctx s" "tick_ok (snd (update_active_player s)) = tick_ok s"
  "bus_sent (snd (update_active_player s)) = bus_sent s"
  "players (snd (update_active_player s)) = set_is_active (active_player (snd (update_active_player s))) (players s)"
  by (simp_all add: update_active_player_def Let_def tick_ok_def)

lemma update_chosen: "chosen (snd (update_active_player s))"
proof -
  let ?s = "snd (update_active_player s)"
  have a: "active_player ?s = reference_choice (players s) (pinned_player s) (active_player s)"
    by (rule update_active_player_ref)
  have "if players ?s = [] then active_player ?s = [] else map_has (players ?s) (active_player ?s)"
  proof (cases "players s = []")
    case True
    then have "active_player ?s = []" unfolding a using able_has [of "[]"] by (auto simp: reference_choice_def)
    then show ?thesis using True by (simp add: update_frame(8))
  next
    case False
    have "map_has (players s) (active_player ?s)" unfolding a by (rule reference_choice_exists [OF False])
    then show ?thesis using False by (simp add: update_frame(8) map_of_set_is_active)
  qed
  moreover have "pinned_player ?s = [] \<or> pinned_player ?s = active_player ?s"
    by (auto simp: update_active_player_def Let_def)
  moreover have "\<forall>(n, p) \<in> set (players ?s). is_active p = (n = active_player ?s)"
    by (auto simp: update_frame(8) set_is_active_entry)
  ultimately show ?thesis unfolding chosen_def by blast
qed

lemma cache_ok_flags:
  assumes "cache_ok s" and "players t = set_is_active n (players s)" and "subscribers t = subscribers s"
    and "svc_started t = svc_started s" "connected t = connected s"
  shows "cache_ok t"
proof -
  have "bus_name p = k \<and> k \<noteq> []" if "(k, p) \<in> set (players t)" for k p
  proof -
    from that obtain q where "(k, q) \<in> set (players s)" "p = q\<lparr>is_active := (k = n)\<rparr>"
      unfolding assms(2) set_is_active_entry by blast
    then show ?thesis using assms(1) by (auto simp: cache_ok_def)
  qed
  then show ?thesis using assms by (auto simp: cache_ok_def map_set_is_active)
qed

lemma cache_ok_update: "cache_ok s \<Longrightarrow> cache_ok (snd (update_active_player s))"
  by (rule cache_ok_flags [OF _ update_frame(8)]) (simp_all add: update_frame)

lemma cache_ok_sync: "cache_ok (sync_position_ticker s) = cache_ok s"
  by (simp add: cache_ok_def sync_frame)

lemma chosen_sync: "chosen (sync_position_ticker s) = chosen s"
  by (simp add: chosen_def sync_frame)

lemma fold_offer_length: "length q \<le> subscriber_buffer \<Longrightarrow> length (fold offer evs q) \<le> subscriber_buffer"
  by (induction evs arbitrary: q) (simp_all add: offer_def)

lemma notify_frame:
  "players (notify evs s) = players s" "active_player (notify evs s) = active_player s"
  "pinned_player (notify evs s) = pinned_player s" "chosen (notify evs s) = chosen s"
  "ticking (notify evs s) = ticking s" "tick_ok (notify evs s) = tick_ok s"
  by (simp_all add: notify_def chosen_def ticking_def tick_ok_def should_tick_def)

lemma cache_ok_notify: "cache_ok s \<Longrightarrow> cache_ok (notify evs s)"
  by (auto simp: cache_ok_def notify_def fold_offer_length)

lemma inv_notify: "mpris_inv s \<Longrightarrow> mpris_inv (notify evs s)"
  by (simp add: mpris_inv_def notify_frame cache_ok_notify)

text \<open>Choosing anew and adjusting the ticker establishes everything but the cache.\<close>

lemma rechoose_inv:
  assumes "cache_ok s" "tick_ok s"
  shows "mpris_inv (sync_position_ticker (snd (update_active_player s)))"
  using assms update_chosen cache_ok_update sync_ticking
  by (simp add: mpris_inv_def cache_ok_sync chosen_sync update_frame)

lemma use_automatic_inv: "mpris_inv s \<Longrightarrow> mpris_inv (use_automatic_player s)"
proof -
  assume i: "mpris_inv s"
  let ?s = "s\<lparr>pinned_player := []\<rparr>"
  have "cache_ok ?s \<and> tick_ok ?s"
    using i by (simp add: mpris_inv_def cache_ok_def ticking_def tick_ok_def)
  then have "mpris_inv (sync_position_ticker (snd (update_active_player ?s)))" using rechoose_inv by blast
  then show ?thesis by (simp add: use_automatic_player_def Let_def case_prod_unfold inv_notify)
qed

lemma set_active_inv: "mpris_inv s \<Longrightarrow> mpris_inv (snd (set_active_player n s))"
proof (cases "map_has (players s) n")
  case True
  assume i: "mpris_inv s"
  let ?s = "s\<lparr>active_player := n, pinned_player := n, players := set_is_active n (players s)\<rparr>"
  have ne: "players s \<noteq> []" using True by auto
  have "cache_ok ?s" by (rule cache_ok_flags [of s]) (use i in \<open>simp_all add: mpris_inv_def\<close>)
  moreover have "tick_ok ?s" using i by (simp add: mpris_inv_def ticking_def tick_ok_def)
  moreover have "chosen ?s"
    using True ne by (auto simp: chosen_def map_of_set_is_active set_is_active_entry)
  ultimately have "mpris_inv (sync_position_ticker ?s)"
    by (simp add: mpris_inv_def cache_ok_sync chosen_sync sync_ticking)
  then show ?thesis using True by (simp add: set_active_player_def Let_def inv_notify)
qed (simp add: set_active_player_def)

text \<open>Replacing a player by one with the same name, flag and status.\<close>

lemma set_map_put_subset: "set (map_put k v m) \<subseteq> insert (k, v) (set m)"
  by (induction m) auto

lemma put_cache_ok:
  assumes "cache_ok s" "map_of (players s) n = Some p" "bus_name q = bus_name p"
  shows "cache_ok (s\<lparr>players := map_put n q (players s)\<rparr>)"
proof -
  have e: "(n, p) \<in> set (players s)" using assms(2) by (rule map_of_SomeD)
  then have n: "bus_name q = n \<and> n \<noteq> []" using assms(1,3) by (auto simp: cache_ok_def)
  have "bus_name p' = n' \<and> n' \<noteq> []" if "(n', p') \<in> set (map_put n q (players s))" for n' p'
  proof -
    from that consider "(n', p') = (n, q)" | "(n', p') \<in> set (players s)"
      using set_map_put_subset [of n q "players s"] by blast
    then show ?thesis by cases (use n assms(1) in \<open>auto simp: cache_ok_def\<close>)
  qed
  moreover have "players s \<noteq> []" using e by auto
  ultimately show ?thesis using assms(1) unfolding cache_ok_def by auto
qed

lemma map_put_not_Nil: "map_put k v m \<noteq> []"
proof (cases m)
  case (Cons a m')
  then show ?thesis by (cases a) simp
qed simp

lemma put_same_inv:
  assumes i: "mpris_inv s" and p: "map_of (players s) n = Some p"
    and q: "bus_name q = bus_name p" "is_active q = is_active p" "playing q = playing p"
  shows "mpris_inv (s\<lparr>players := map_put n q (players s)\<rparr>)"
proof -
  let ?s = "s\<lparr>players := map_put n q (players s)\<rparr>"
  have e: "(n, p) \<in> set (players s)" using p by (rule map_of_SomeD)
  then have ne: "players s \<noteq> []" and f: "is_active q = (n = active_player s)"
    using i q(2) by (auto simp: mpris_inv_def chosen_def)
  have "cache_ok ?s" using put_cache_ok i p q(1) unfolding mpris_inv_def by blast
  moreover have "\<forall>(n', p') \<in> set (map_put n q (players s)). is_active p' = (n' = active_player s)"
    using i f set_map_put_subset [of n q "players s"] unfolding mpris_inv_def chosen_def by fastforce
  then have "chosen ?s" using i ne map_put_not_Nil [of n q "players s"] unfolding mpris_inv_def chosen_def by auto
  moreover have "should_tick ?s = should_tick s" using p q(3) by (simp add: should_tick_def)
  then have "ticking ?s" using i by (simp add: mpris_inv_def ticking_def tick_ok_def)
  ultimately show ?thesis by (simp add: mpris_inv_def)
qed

lemma owned_by_entry: "wf_map (players s) \<Longrightarrow> owned_by sender s = Some (n, p) \<Longrightarrow> map_of (players s) n = Some p"
  by (auto simp: owned_by_def find_Some_iff map_of_eq_Some_iff in_set_conv_nth)

lemma seeked_inv: "mpris_inv s \<Longrightarrow> mpris_inv (snd (handle_seeked sender body s))"
proof (cases body)
  case (Cons v vs)
  assume i: "mpris_inv s"
  show ?thesis
  proof (cases "owned_by sender s")
    case (Some np)
    obtain n p where np: "np = (n, p)" by (cases np)
    have "map_of (players s) n = Some p"
      using owned_by_entry Some i unfolding np mpris_inv_def cache_ok_def by blast
    then have "mpris_inv (s\<lparr>players := map_put n (p\<lparr>position := mpris_number v\<rparr>) (players s)\<rparr>)"
      by (rule put_same_inv [OF i]) (simp_all add: playing_def)
    then show ?thesis using i Some np Cons by (simp add: handle_seeked_def Let_def)
  qed (use i Cons in \<open>simp add: handle_seeked_def\<close>)
qed (simp add: handle_seeked_def)

lemma store_position_inv: "mpris_inv s \<Longrightarrow> mpris_inv (store_position n g v s)"
proof (cases "map_of (players s) n")
  case (Some p)
  assume i: "mpris_inv s"
  have "mpris_inv (s\<lparr>players := map_put n (p\<lparr>position := mpris_number v\<rparr>) (players s)\<rparr>)"
    by (rule put_same_inv [OF i Some]) (simp_all add: playing_def)
  then show ?thesis using i Some by (simp add: store_position_def Let_def inv_notify)
qed (simp add: store_position_def)

lemma with_bus_name:
  "(\<And>x p. bus_name (f x p) = bus_name p) \<Longrightarrow> bus_name (with_string f v p) = bus_name p"
  "(\<And>x p. bus_name (h x p) = bus_name p) \<Longrightarrow> bus_name (with_bool h v p) = bus_name p"
  "(\<And>x p. bus_name (k x p) = bus_name p) \<Longrightarrow> bus_name (with_double k v p) = bus_name p"
  by (simp_all add: with_string_def with_bool_def with_double_def split: variant.splits)

lemma apply_update_bus_name: "bus_name (snd (apply_mpris_update iface prop v p)) = bus_name p"
  by (simp add: apply_mpris_update_def with_bus_name update_mpris_metadata_def split: variant.splits)

lemma apply_updates_bus_name: "bus_name (snd (apply_updates iface m pos p)) = bus_name p"
proof (induction m arbitrary: pos p)
  case (Cons pv m)
  obtain k v where pv: "pv = (k, v)" by (cases pv)
  obtain b p' where u: "apply_mpris_update iface k v p = (b, p')" by force
  then have "bus_name p' = bus_name p" using apply_update_bus_name [of iface k v p] by simp
  then show ?case using Cons.IH [of "b \<or> pos" p'] u pv by simp
qed simp

lemma properties_changed_inv: "mpris_inv s \<Longrightarrow> mpris_inv (snd (properties_changed b sender iface changed gone s))"
proof -
  assume i: "mpris_inv s"
  have skip: "snd (properties_changed b sender iface changed gone s) = s"
    if "(iface \<noteq> mpris_player \<and> iface \<noteq> mpris_root) \<or> owned_by sender s = None
      \<or> (\<exists>n p. owned_by sender s = Some (n, p) \<and> fetch_invalidated b n iface gone s = None)"
    using that by (auto simp: properties_changed_def)
  show ?thesis
  proof (cases "(iface \<noteq> mpris_player \<and> iface \<noteq> mpris_root) \<or> owned_by sender s = None
      \<or> (\<exists>n p. owned_by sender s = Some (n, p) \<and> fetch_invalidated b n iface gone s = None)")
    case True
    then show ?thesis using skip i by simp
  next
    case False
    then obtain n p fetched where f: "owned_by sender s = Some (n, p)" "fetch_invalidated b n iface gone s = Some fetched"
        "\<not> (iface \<noteq> mpris_player \<and> iface \<noteq> mpris_root)" by (cases "owned_by sender s") auto
    obtain pos1 p1 where 1: "apply_updates iface changed False p = (pos1, p1)" by force
    obtain pos q where 2: "apply_updates iface fetched pos1 p1 = (pos, q)" by force
    have q: "bus_name q = bus_name p"
      using apply_updates_bus_name [of iface changed False p] apply_updates_bus_name [of iface fetched pos1 p1] 1 2
      by simp
    have m: "map_of (players s) n = Some p"
      using owned_by_entry f(1) i unfolding mpris_inv_def cache_ok_def by blast
    let ?s = "s\<lparr>players := map_put n q (players s)\<rparr>"
    have "cache_ok ?s" using put_cache_ok [OF _ m q] i by (simp add: mpris_inv_def)
    moreover have "tick_ok ?s" using i by (simp add: mpris_inv_def ticking_def tick_ok_def)
    ultimately have "mpris_inv (sync_position_ticker (snd (update_active_player ?s)))" by (rule rechoose_inv)
    moreover obtain ch s1 where "update_active_player ?s = (ch, s1)" by force
    ultimately show ?thesis using f 1 2 by (auto simp: properties_changed_def Let_def)
  qed
qed

lemma handle_properties_inv: "mpris_inv s \<Longrightarrow> mpris_inv (snd (handle_properties_changed b sender body s))"
  by (auto simp: handle_properties_changed_def properties_changed_inv split: list.splits variant.splits)

definition found_ok :: "(string, media_player) gomap \<Rightarrow> bool" where
  "found_ok ps \<longleftrightarrow> wf_map ps \<and> (\<forall>(n, p) \<in> set ps. bus_name p = n \<and> n \<noteq> [])"

lemma discover_ok: "found_ok found \<Longrightarrow> found_ok (discover b names found)"
proof (induction names arbitrary: found)
  case (Cons n ns)
  have put: "found_ok (map_put n (discovered n own base play) found)" if "has_prefix n mpris_prefix" for own base play
  proof -
    have "n \<noteq> []" using that by (auto simp: mpris_prefix_def has_prefix_def)
    moreover have "bus_name (discovered n own base play) = n" by (simp add: discovered_def)
    ultimately have "bus_name p' = n' \<and> n' \<noteq> []" if "(n', p') \<in> set (map_put n (discovered n own base play) found)" for n' p'
      using that set_map_put_subset [of n "discovered n own base play" found] Cons.prems
      unfolding found_ok_def by blast
    then show ?thesis using Cons.prems unfolding found_ok_def by auto
  qed
  show ?case
    using Cons put by (auto split: option.splits)
qed (simp add: found_ok_def)

lemma refresh_inv:
  assumes "cache_ok s" "tick_ok s" "connected s" "svc_started s"
    and "refresh_players b s = (None, t)"
  shows "mpris_inv t"
proof -
  obtain names where n: "bus_names b = Some names"
    using assms(3,5) by (cases "bus_names b") (auto simp: refresh_players_def)
  let ?s = "s\<lparr>players := discover b names []\<rparr>"
  have "found_ok (discover b names [])" by (rule discover_ok) (simp add: found_ok_def)
  then have "cache_ok ?s" using assms(1,4) by (simp add: cache_ok_def found_ok_def)
  moreover have "tick_ok ?s" using assms(2) by (simp add: tick_ok_def)
  ultimately have "mpris_inv (sync_position_ticker (snd (update_active_player ?s)))" by (rule rechoose_inv)
  moreover obtain ch s1 where "update_active_player ?s = (ch, s1)" by force
  ultimately show ?thesis using assms(3,5) n by (auto simp: refresh_players_def Let_def inv_notify)
qed

lemma refresh_error: "refresh_players b s = (Some e, t) \<Longrightarrow> t = s"
  by (auto simp: refresh_players_def Let_def split: if_splits option.splits prod.splits)

lemma refresh_players_inv: "mpris_inv s \<Longrightarrow> mpris_inv (snd (refresh_players b s))"
proof -
  assume i: "mpris_inv s"
  obtain r t where rt: "refresh_players b s = (r, t)" by force
  show ?thesis
  proof (cases r)
    case None
    then have c: "connected s" using rt by (auto simp: refresh_players_def split: if_splits)
    then have "svc_started s" using i by (auto simp: mpris_inv_def cache_ok_def)
    then show ?thesis using refresh_inv [of s b t] i c rt None by (simp add: mpris_inv_def ticking_def)
  next
    case (Some e)
    then show ?thesis using refresh_error [of b s e t] i rt by simp
  qed
qed

lemma start_inv: "mpris_inv s \<Longrightarrow> mpris_inv (snd (start_mpris conn_ok match_ok b s))"
proof -
  assume i: "mpris_inv s"
  show ?thesis
  proof (cases "svc_started s \<or> svc_stopped s \<or> \<not> conn_ok")
    case True
    then show ?thesis using i by (auto simp: start_mpris_def)
  next
    case False
    then have e: "players s = []" "\<not> ticker_on s" "tick_ok s" "active_player s = []"
      using i by (auto simp: mpris_inv_def cache_ok_def ticking_def should_tick_def chosen_def)
    have idle: "mpris_inv (s\<lparr>connected := c, has_ctx := True, svc_started := c\<rparr>)" for c
      using i e by (simp add: mpris_inv_def cache_ok_def ticking_def should_tick_def chosen_def tick_ok_def)
    let ?s = "s\<lparr>connected := True, has_ctx := True, svc_started := True\<rparr>"
    obtain r t where rt: "refresh_players b ?s = (r, t)" by force
    show ?thesis
    proof (cases r)
      case None
      then have "mpris_inv t" using refresh_players_inv [OF idle [of True], of b] rt by simp
      then show ?thesis using False rt None idle [of False] by (simp add: start_mpris_def)
    next
      case (Some x)
      then have "t = ?s" using refresh_error [of b ?s x t] rt by simp
      moreover have "mpris_inv (s\<lparr>has_ctx := True, connected := False, svc_started := False\<rparr>)"
        using i e by (simp add: mpris_inv_def cache_ok_def ticking_def should_tick_def chosen_def tick_ok_def)
      ultimately show ?thesis using False rt Some idle [of False] by (simp add: start_mpris_def)
    qed
  qed
qed

lemma stop_inv: "mpris_inv s \<Longrightarrow> mpris_inv (stop_mpris s)"
  by (simp add: stop_mpris_def mpris_inv_def cache_ok_def chosen_def ticking_def tick_ok_def should_tick_def)

lemma only_sent_inv: "mpris_inv (s\<lparr>bus_sent := x\<rparr>) = mpris_inv s"
  by (simp add: mpris_inv_def cache_ok_def chosen_def ticking_def tick_ok_def should_tick_def)

lemma bus_call_inv: "mpris_inv s \<Longrightarrow> mpris_inv (snd (bus_call b n method args s))"
  by (simp add: bus_call_def only_sent_inv)

lemma subscribers_inv:
  assumes "mpris_inv s" "\<forall>(i, q) \<in> set subs. length q \<le> subscriber_buffer"
  shows "mpris_inv (s\<lparr>next_subscriber := k, subscribers := subs\<rparr>)" "mpris_inv (s\<lparr>subscribers := subs\<rparr>)"
  using assms by (simp_all add: mpris_inv_def cache_ok_def chosen_def ticking_def tick_ok_def should_tick_def)

lemma subscribe_inv: "mpris_inv s \<Longrightarrow> mpris_inv (snd (subscribe s))"
proof -
  assume i: "mpris_inv s"
  have "\<forall>(j, r) \<in> set (map_put (next_subscriber s) [] (subscribers s)). length r \<le> subscriber_buffer"
    using set_map_put_subset [of "next_subscriber s" "[]" "subscribers s"] i
    by (auto simp: mpris_inv_def cache_ok_def)
  then show ?thesis using subscribers_inv(1) [OF i] i by (simp add: subscribe_def)
qed

lemma unsubscribe_inv: "mpris_inv s \<Longrightarrow> mpris_inv (unsubscribe i s)"
  unfolding unsubscribe_def by (rule subscribers_inv(2)) (auto simp: mpris_inv_def cache_ok_def set_map_del)

lemma receive_inv: "mpris_inv s \<Longrightarrow> mpris_inv (snd (receive_event i s))"
proof (cases "map_of (subscribers s) i")
  case (Some q)
  assume inv: "mpris_inv s"
  show ?thesis
  proof (cases q)
    case (Cons e q')
    have "length q' \<le> subscriber_buffer"
      using map_of_SomeD [OF Some] inv Cons by (auto simp: mpris_inv_def cache_ok_def)
    then have "\<forall>(j, r) \<in> set (map_put i q' (subscribers s)). length r \<le> subscriber_buffer"
      using set_map_put_subset [of i q' "subscribers s"] inv unfolding mpris_inv_def cache_ok_def by blast
    then show ?thesis using Some Cons subscribers_inv(2) [OF inv] by (simp add: receive_event_def)
  qed (use inv Some in \<open>simp add: receive_event_def\<close>)
qed (simp add: receive_event_def)


subsection \<open>Properties\<close>

datatype mpris_op =
    MStart bool bool bus | MStop | MRefresh bus | MSeeked string "variant list" | MProps bus string "variant list"
  | MPosition string "64 word" variant | MAutomatic | MSelect string | MSubscribe | MUnsubscribe "64 word"
  | MReceive "64 word" | MCall bus string string "variant list"

fun mpris_turn :: "mpris_op \<Rightarrow> mpris \<Rightarrow> mpris" where
  "mpris_turn (MStart c m b) s = snd (start_mpris c m b s)"
| "mpris_turn MStop s = stop_mpris s"
| "mpris_turn (MRefresh b) s = snd (refresh_players b s)"
| "mpris_turn (MSeeked sender body) s = (case handle_seeked sender body s of (evs, t) \<Rightarrow> notify evs t)"
| "mpris_turn (MProps b sender body) s = (case handle_properties_changed b sender body s of (evs, t) \<Rightarrow> notify evs t)"
| "mpris_turn (MPosition n g v) s = store_position n g v s"
| "mpris_turn MAutomatic s = use_automatic_player s"
| "mpris_turn (MSelect n) s = snd (set_active_player n s)"
| "mpris_turn MSubscribe s = snd (subscribe s)"
| "mpris_turn (MUnsubscribe i) s = unsubscribe i s"
| "mpris_turn (MReceive i) s = snd (receive_event i s)"
| "mpris_turn (MCall b n method args) s = snd (bus_call b n method args s)"

lemma mpris_turn_inv: "mpris_inv s \<Longrightarrow> mpris_inv (mpris_turn e s)"
proof (cases e)
  case (MSeeked sender body)
  assume "mpris_inv s"
  then show ?thesis using seeked_inv [of s sender body] by (simp add: MSeeked inv_notify case_prod_unfold)
next
  case (MProps b sender body)
  assume "mpris_inv s"
  then show ?thesis using handle_properties_inv [of s b sender body] by (simp add: MProps inv_notify case_prod_unfold)
qed (simp_all add: start_inv stop_inv refresh_players_inv store_position_inv use_automatic_inv set_active_inv
    subscribe_inv unsubscribe_inv receive_inv bus_call_inv)

lemma new_mpris_inv: "mpris_inv new_mpris"
  by (simp add: new_mpris_def mpris_inv_def cache_ok_def chosen_def ticking_def tick_ok_def should_tick_def)

interpretation mpris_service: step_system "\<lambda>s. s = new_mpris" "\<lambda>s t. \<exists>e. t = mpris_turn e s" mpris_inv
  by unfold_locales (use new_mpris_inv mpris_turn_inv in blast)+

text \<open>C17. Whatever the bus, the phone and the user do, there is an active player whenever there are
  players, it is the pinned one if one is pinned, exactly its flag is set, and exactly one position
  ticker runs, for it, while it plays in a live service (and none otherwise).\<close>

theorem active_player_invariant:
  assumes "reach (\<lambda>s. s = new_mpris) (\<lambda>s t. \<exists>e. t = mpris_turn e s) s"
  shows "(if players s = [] then active_player s = [] else map_has (players s) (active_player s)) \<and>
    (pinned_player s = [] \<or> pinned_player s = active_player s) \<and>
    (\<forall>(n, p) \<in> set (players s). bus_name p = n \<and> is_active p = (n = active_player s)) \<and>
    tickers s = (if should_tick s then [(active_player s, ticker_generation s)] else []) \<and>
    (\<forall>(i, q) \<in> set (subscribers s). length q \<le> 16)"
proof -
  have i: "mpris_inv s" by (rule mpris_service.reach_inv [OF assms])
  then have c: "cache_ok s" "chosen s" "ticking s" by (simp_all add: mpris_inv_def)
  have "tickers s = (if should_tick s then [(active_player s, ticker_generation s)] else [])"
    using c(3) by (auto simp: ticking_def tick_ok_def)
  moreover have "\<forall>(n, p) \<in> set (players s). bus_name p = n \<and> is_active p = (n = active_player s)"
    using c(1,2) by (auto simp: cache_ok_def chosen_def)
  moreover have "\<forall>(i, q) \<in> set (subscribers s). length q \<le> 16"
    using c(1) by (auto simp: cache_ok_def subscriber_buffer_def)
  ultimately show ?thesis using c(2) unfolding chosen_def by blast
qed

text \<open>C18. The active player is chosen by a fixed policy: the pinned player if it exists, else the current
  one while it plays, else the first by name that plays and can be controlled, else the current
  one while it exists, else the first that can be controlled, else the first.\<close>

theorem active_player_policy:
  "active_player (snd (update_active_player s)) = reference_choice (players s) (pinned_player s) (active_player s) \<and>
   (fst (update_active_player s) \<longleftrightarrow> active_player (snd (update_active_player s)) \<noteq> active_player s) \<and>
   map (\<lambda>(n, p). (n, p\<lparr>is_active := False\<rparr>)) (players (snd (update_active_player s))) =
   map (\<lambda>(n, p). (n, p\<lparr>is_active := False\<rparr>)) (players s)"
  using update_active_player_ref
  by (auto simp: update_active_player_def Let_def set_is_active_def)

lemma microseconds_range: "- (2 ^ 63) \<le> sint (microseconds w) \<and> sint (microseconds w) < 2 ^ 63"
  using sint_greater_eq [of "microseconds w"] sint_less [of "microseconds w"] by simp

text \<open>Seeking to an absolute position never asks a player for a position before the start of the
  track or, when its length is known, beyond its end, even for positions that overflow.\<close>

theorem seek_target_in_track:
  "0 \<le> sint (seek_target pos len) \<and> (0 < sint len \<longrightarrow> sint (seek_target pos len) \<le> sint len)"
  by (auto simp: seek_target_def Let_def word_sless_alt)

definition one_player_bus :: bus where
  "one_player_bus = \<lparr>bus_names = Some [''org.mpris.MediaPlayer2.mpv''],
     bus_get_all = (\<lambda>_ iface. if iface = mpris_player
       then Some [(''PlaybackStatus'', VString ''Playing''), (''CanControl'', VBool True)] else Some []),
     bus_owner = (\<lambda>_. Some '':1.7''), bus_get = (\<lambda>_ _ _. None), bus_call_ok = (\<lambda>_ _ _. True)\<rparr>"

definition started_mpris :: mpris where
  "started_mpris = mpris_turn (MStart True True one_player_bus) new_mpris"

lemma active_player_invariant_witness:
  "(if players started_mpris = [] then active_player started_mpris = []
    else map_has (players started_mpris) (active_player started_mpris)) \<and>
   tickers started_mpris =
     (if should_tick started_mpris then [(active_player started_mpris, ticker_generation started_mpris)] else [])"
proof -
  have "reach (\<lambda>s. s = new_mpris) (\<lambda>s t. \<exists>e. t = mpris_turn e s) started_mpris"
    unfolding started_mpris_def by (rule reach_step [OF reach_init]) blast+
  from active_player_invariant [OF this] show ?thesis by blast
qed

lemma seek_target_in_track_witness:
  "0 < sint (5000 :: 64 word) \<and> sint (seek_target 9000000 5000) \<le> sint (5000 :: 64 word)"
  using seek_target_in_track [of 9000000 5000] by simp

end
