(* ===== verification/Artwork.thy ===== *)
theory Artwork
  imports Wire_Message
begin

text \<open>
  Album artwork (\<open>libquava/session/media.go\<close>): the cache \<open>artworkLRU\<close>, \<open>compressArtwork\<close> and
  \<open>mediaArtwork\<close>.

  The cache is modelled as it is built, a map to the elements of a linked list, where an element is
  named by a number; \<open>entries\<close> is its abstract value. An image is its pixels with its two
  dimensions; decoding, scaling and JPEG encoding are the record \<open>image_lib\<close>, reading a file or a
  URL the record \<open>artwork_io\<close>. The scale factor is exact; the rounding of floats is not modelled.
\<close>

subsection \<open>The cache\<close>

record artwork_lru =
  lru_items :: "(string, nat) gomap"
  lru_order :: "(nat \<times> string \<times> bytes) list"
  lru_next :: nat

definition artwork_cache_capacity :: nat where "artwork_cache_capacity = 5"

definition new_artwork_lru :: artwork_lru where
  "new_artwork_lru = \<lparr>lru_items = [], lru_order = [], lru_next = 0\<rparr>"

definition move_to_front :: "nat \<Rightarrow> (nat \<times> string \<times> bytes) list \<Rightarrow> (nat \<times> string \<times> bytes) list" where
  "move_to_front i es = filter (\<lambda>e. fst e = i) es @ filter (\<lambda>e. fst e \<noteq> i) es"

definition lru_get :: "string \<Rightarrow> artwork_lru \<Rightarrow> bytes option \<times> artwork_lru" where
  "lru_get k c =
     (case map_of (lru_items c) k of
        None \<Rightarrow> (None, c)
      | Some i \<Rightarrow>
          (map_option snd (map_of (lru_order c) i), c\<lparr>lru_order := move_to_front i (lru_order c)\<rparr>))"

definition lru_add :: "string \<Rightarrow> bytes \<Rightarrow> artwork_lru \<Rightarrow> artwork_lru" where
  "lru_add k d c =
     (case map_of (lru_items c) k of
        Some i \<Rightarrow>
          c\<lparr>lru_order := map (\<lambda>(j, k', d'). (j, k', if j = i then d else d')) (move_to_front i (lru_order c))\<rparr>
      | None \<Rightarrow>
          (let order = (lru_next c, k, d) # lru_order c;
               items = map_put k (lru_next c) (lru_items c)
           in if length order > artwork_cache_capacity
              then c\<lparr>lru_next := lru_next c + 1, lru_order := butlast order,
                     lru_items := map_del (fst (snd (last order))) items\<rparr>
              else c\<lparr>lru_next := lru_next c + 1, lru_order := order, lru_items := items\<rparr>))"

subsection \<open>Compression\<close>

datatype 'p image = Image (img_pixels: 'p) (img_width: nat) (img_height: nat)

record 'p image_lib =
  decode_config :: "bytes \<Rightarrow> (string \<times> nat \<times> nat) option"
  decode_image :: "bytes \<Rightarrow> 'p image option"
  scale_fine :: "'p image \<Rightarrow> nat \<Rightarrow> nat \<Rightarrow> 'p"
  scale_fast :: "'p image \<Rightarrow> nat \<Rightarrow> nat \<Rightarrow> 'p"
  jpeg_encode :: "'p image \<Rightarrow> nat \<Rightarrow> bytes option"

datatype artwork_error =
    ArtConfig | ArtDimensions | ArtPixels | ArtDecode | ArtEncode | ArtTooLarge
  | ArtURL | ArtScheme | ArtRead | ArtStatus nat

definition max_dimension :: nat where "max_dimension = 512"
definition min_dimension :: nat where "min_dimension = 64"
definition max_pixels :: nat where "max_pixels = 16000000"

definition fit_dimension :: "nat \<Rightarrow> nat \<Rightarrow> nat \<Rightarrow> nat" where
  "fit_dimension w h x = max 1 (nat \<lfloor>real x * (real max_dimension / real (max w h))\<rfloor>)"

definition first_resize :: "'p image_lib \<Rightarrow> 'p image \<Rightarrow> 'p image" where
  "first_resize L i =
     (let w = img_width i; h = img_height i
      in if w > max_dimension \<or> h > max_dimension
         then (let w' = fit_dimension w h w; h' = fit_dimension w h h in Image (scale_fine L i w' h') w' h')
         else i)"

text \<open>The qualities in turn: an encoding error, a result that fits, or neither.\<close>

fun try_qualities :: "'p image_lib \<Rightarrow> 'p image \<Rightarrow> nat list \<Rightarrow> artwork_error + bytes option" where
  "try_qualities L i [] = Inr None"
| "try_qualities L i (q # qs) =
     (case jpeg_encode L i q of
        None \<Rightarrow> Inl ArtEncode
      | Some b \<Rightarrow> if length b \<le> MaxArtworkBytes then Inr (Some b) else try_qualities L i qs)"

function shrink_to_fit :: "'p image_lib \<Rightarrow> 'p image \<Rightarrow> artwork_error + bytes" where
  "shrink_to_fit L i =
     (case try_qualities L i [75, 60, 45, 35] of
        Inl e \<Rightarrow> Inl e
      | Inr (Some b) \<Rightarrow> Inr b
      | Inr None \<Rightarrow>
          if img_width i \<le> min_dimension \<and> img_height i \<le> min_dimension then Inl ArtTooLarge
          else (let w = max min_dimension (img_width i * 3 div 4);
                    h = max min_dimension (img_height i * 3 div 4)
                in shrink_to_fit L (Image (scale_fast L i w h) w h)))"
  by pat_completeness auto
termination
  by (relation "measure (\<lambda>(L, i). max min_dimension (img_width i) + max min_dimension (img_height i))")
    (auto simp: min_dimension_def max_def)

declare shrink_to_fit.simps [simp del]

definition compress_artwork ::
    "'p image_lib \<Rightarrow> string \<Rightarrow> bytes \<Rightarrow> artwork_lru \<Rightarrow> (artwork_error + bytes) \<times> artwork_lru" where
  "compress_artwork L key d c =
     (case lru_get key c of
        (Some b, c1) \<Rightarrow> (Inr b, c1)
      | (None, c1) \<Rightarrow>
          (case decode_config L d of
             None \<Rightarrow> (Inl ArtConfig, c1)
           | Some (fmt, w, h) \<Rightarrow>
               if w = 0 \<or> h = 0 then (Inl ArtDimensions, c1)
               else if fmt = ''jpeg'' \<and> w \<le> max_dimension \<and> h \<le> max_dimension \<and> length d \<le> MaxArtworkBytes
               then (Inr d, lru_add key d c1)
               else if w * h > max_pixels then (Inl ArtPixels, c1)
               else (case decode_image L d of
                   None \<Rightarrow> (Inl ArtDecode, c1)
                 | Some i \<Rightarrow>
                     (case shrink_to_fit L (first_resize L i) of
                        Inl e \<Rightarrow> (Inl e, c1)
                      | Inr b \<Rightarrow> (Inr b, lru_add key b c1)))))"

subsection \<open>Fetching\<close>

record artwork_io =
  parse_url :: "string \<Rightarrow> (string \<times> string) option"
  read_file :: "string \<Rightarrow> bytes option"
  http_get :: "string \<Rightarrow> (nat \<times> bytes option) option"

definition fetch_artwork :: "artwork_io \<Rightarrow> string \<Rightarrow> artwork_error + bytes" where
  "fetch_artwork io url =
     (case parse_url io url of
        None \<Rightarrow> Inl ArtURL
      | Some (scheme, path) \<Rightarrow>
          if scheme = ''file'' then
            (case read_file io path of None \<Rightarrow> Inl ArtRead | Some d \<Rightarrow> Inr d)
          else if scheme = ''http'' \<or> scheme = ''https'' then
            (case http_get io url of
               None \<Rightarrow> Inl ArtRead
             | Some (code, body) \<Rightarrow>
                 if code < 200 \<or> code > 299 then Inl (ArtStatus code)
                 else (case body of None \<Rightarrow> Inl ArtRead | Some d \<Rightarrow> Inr (take (512 * 1024 + 1) d)))
          else Inl ArtScheme)"

definition media_artwork ::
    "'p image_lib \<Rightarrow> artwork_io \<Rightarrow> string \<Rightarrow> artwork_lru \<Rightarrow> (artwork_error + bytes) \<times> artwork_lru" where
  "media_artwork L io url c =
     (case lru_get url c of
        (Some b, c1) \<Rightarrow> (Inr b, c1)
      | (None, c1) \<Rightarrow>
          (case fetch_artwork io url of
             Inl e \<Rightarrow> (Inl e, c1)
           | Inr d \<Rightarrow>
               (case compress_artwork L url d c1 of
                  (Inl e, c2) \<Rightarrow> (Inl e, c2)
                | (Inr b, c2) \<Rightarrow> (if length b > MaxArtworkBytes then Inl ArtTooLarge else Inr b, c2))))"

subsection \<open>The cache is a list of the last five\<close>

text \<open>The abstract cache: keys with their data, the last used one first.\<close>

definition spec_add :: "string \<Rightarrow> bytes \<Rightarrow> (string \<times> bytes) list \<Rightarrow> (string \<times> bytes) list" where
  "spec_add k d es = take artwork_cache_capacity ((k, d) # filter (\<lambda>e. fst e \<noteq> k) es)"

definition spec_touch :: "string \<Rightarrow> (string \<times> bytes) list \<Rightarrow> (string \<times> bytes) list" where
  "spec_touch k es = (case map_of es k of None \<Rightarrow> es | Some d \<Rightarrow> (k, d) # filter (\<lambda>e. fst e \<noteq> k) es)"

definition entries :: "artwork_lru \<Rightarrow> (string \<times> bytes) list" where
  "entries c = map snd (lru_order c)"

definition lru_inv :: "artwork_lru \<Rightarrow> bool" where
  "lru_inv c \<longleftrightarrow>
     distinct (map fst (lru_order c)) \<and> distinct (map (fst \<circ> snd) (lru_order c)) \<and>
     (\<forall>k i. map_of (lru_items c) k = Some i \<longleftrightarrow> (\<exists>d. (i, k, d) \<in> set (lru_order c))) \<and>
     (\<forall>e \<in> set (lru_order c). fst e < lru_next c) \<and> length (lru_order c) \<le> artwork_cache_capacity"

lemma lru_invD:
  assumes "lru_inv c"
  shows "distinct (map fst (lru_order c))" "distinct (map (fst \<circ> snd) (lru_order c))"
    "map_of (lru_items c) k = Some i \<longleftrightarrow> (\<exists>d. (i, k, d) \<in> set (lru_order c))"
    "e \<in> set (lru_order c) \<Longrightarrow> fst e < lru_next c" "length (lru_order c) \<le> artwork_cache_capacity"
  using assms unfolding lru_inv_def by blast+

lemma filter_only: "distinct (map f xs) \<Longrightarrow> x \<in> set xs \<Longrightarrow> filter (\<lambda>y. f y = f x) xs = [x]"
proof (induction xs)
  case (Cons y ys)
  show ?case
  proof (cases "x = y")
    case True
    then have "filter (\<lambda>z. f z = f x) ys = []" using Cons.prems(1) by (auto simp: filter_empty_conv image_iff)
    then show ?thesis using True by simp
  next
    case False
    then have "x \<in> set ys" using Cons.prems(2) by simp
    then show ?thesis using Cons by (auto simp: image_iff)
  qed
qed simp

lemma move_to_front_eq:
  assumes "distinct (map fst es)" "distinct (map (fst \<circ> snd) es)" "(i, k, d) \<in> set es"
  shows "move_to_front i es = (i, k, d) # filter (\<lambda>e. fst (snd e) \<noteq> k) es"
proof -
  have "filter (\<lambda>e. fst e \<noteq> i) es = filter (\<lambda>e. fst (snd e) \<noteq> k) es"
  proof (rule filter_cong [OF refl])
    fix e assume e: "e \<in> set es"
    have "fst e = i \<longleftrightarrow> e = (i, k, d)"
      using inj_onD [OF distinct_map [THEN iffD1, OF assms(1), THEN conjunct2], of e "(i, k, d)"] e assms(3) by auto
    moreover have "fst (snd e) = k \<longleftrightarrow> e = (i, k, d)"
      using inj_onD [OF distinct_map [THEN iffD1, OF assms(2), THEN conjunct2], of e "(i, k, d)"] e assms(3) by auto
    ultimately show "(fst e \<noteq> i) = (fst (snd e) \<noteq> k)" by blast
  qed
  then show ?thesis
    using filter_only [OF assms(1,3)] by (simp add: move_to_front_def)
qed

lemma map_of_entries: "lru_inv c \<Longrightarrow> map_of (entries c) k = Some d \<longleftrightarrow> (\<exists>i. (i, k, d) \<in> set (lru_order c))"
proof -
  assume "lru_inv c"
  then have "distinct (map fst (entries c))" using lru_invD(2) by (simp add: entries_def)
  then have "map_of (entries c) k = Some d \<longleftrightarrow> (k, d) \<in> set (entries c)" by (simp add: map_of_eq_Some_iff)
  then show ?thesis by (force simp: entries_def)
qed

lemma map_of_order: "lru_inv c \<Longrightarrow> (i, k, d) \<in> set (lru_order c) \<Longrightarrow> map_of (lru_order c) i = Some (k, d)"
  using lru_invD(1) by (simp add: map_of_eq_Some_iff)

lemma lru_miss: "lru_inv c \<Longrightarrow> map_of (lru_items c) k = None \<longleftrightarrow> map_of (entries c) k = None"
  using map_of_entries [of c k] lru_invD(3) [of c k]
  by (metis (no_types, opaque_lifting) not_None_eq)

lemma move_to_front_set: "set (move_to_front i es) = set es"
  by (auto simp: move_to_front_def)

lemma move_to_front_length: "length (move_to_front i es) = length es"
  using sum_length_filter_compl [of "\<lambda>e. fst e = i" es] by (simp add: move_to_front_def)

lemma reordered_inv:
  assumes "lru_inv c" "distinct (map fst es)" "distinct (map (fst \<circ> snd) es)"
    and "set es = set (lru_order c)" "length es = length (lru_order c)"
  shows "lru_inv (c\<lparr>lru_order := es\<rparr>)"
  using assms(2,3) lru_invD(3,4,5) [OF assms(1)] unfolding lru_inv_def by (simp add: assms(4,5))

lemma get_refines:
  assumes "lru_inv c"
  shows "fst (lru_get k c) = map_of (entries c) k" "entries (snd (lru_get k c)) = spec_touch k (entries c)"
    "lru_inv (snd (lru_get k c))"
proof (atomize (full), cases "map_of (lru_items c) k")
  case None
  then have "map_of (entries c) k = None" using lru_miss [OF assms] by blast
  then show "fst (lru_get k c) = map_of (entries c) k \<and> entries (snd (lru_get k c)) = spec_touch k (entries c) \<and>
      lru_inv (snd (lru_get k c))"
    using None assms by (simp add: lru_get_def spec_touch_def)
next
  case (Some i)
  then obtain d where e: "(i, k, d) \<in> set (lru_order c)" using lru_invD(3) [OF assms] by blast
  let ?rest = "filter (\<lambda>e. fst (snd e) \<noteq> k) (lru_order c)"
  have m: "move_to_front i (lru_order c) = (i, k, d) # ?rest"
    by (rule move_to_front_eq [OF lru_invD(1,2) [OF assms] e])
  have k: "map_of (entries c) k = Some d" using map_of_entries [OF assms] e by blast
  have g: "lru_get k c = (Some d, c\<lparr>lru_order := (i, k, d) # ?rest\<rparr>)"
    using Some map_of_order [OF assms e] by (simp add: lru_get_def m)
  have d: "distinct (map fst ((i, k, d) # ?rest))" "distinct (map (fst \<circ> snd) ((i, k, d) # ?rest))"
  proof -
    have "fst x \<noteq> i" if "x \<in> set ?rest" for x
    proof
      assume "fst x = i"
      then have "x = (i, k, d)"
        using that inj_onD [OF distinct_map [THEN iffD1, OF lru_invD(1) [OF assms], THEN conjunct2], of x "(i, k, d)"] e
        by simp
      with that show False by simp
    qed
    then show "distinct (map fst ((i, k, d) # ?rest))"
      using distinct_map_filter [OF lru_invD(1) [OF assms]] by auto
    show "distinct (map (fst \<circ> snd) ((i, k, d) # ?rest))"
      using distinct_map_filter [OF lru_invD(2) [OF assms]] by auto
  qed
  have s: "set ((i, k, d) # ?rest) = set (lru_order c)" using move_to_front_set [of i "lru_order c"] m by simp
  have l: "length ((i, k, d) # ?rest) = length (lru_order c)"
    using move_to_front_length [of i "lru_order c"] unfolding m .
  have "lru_inv (c\<lparr>lru_order := (i, k, d) # ?rest\<rparr>)"
    by (rule reordered_inv [OF assms d s l])
  moreover have "entries (c\<lparr>lru_order := (i, k, d) # ?rest\<rparr>) = spec_touch k (entries c)"
    by (simp add: entries_def spec_touch_def k [unfolded entries_def] filter_map comp_def)
  ultimately show "fst (lru_get k c) = map_of (entries c) k \<and> entries (snd (lru_get k c)) = spec_touch k (entries c) \<and>
      lru_inv (snd (lru_get k c))"
    using g k by simp
qed

lemma add_known:
  assumes "lru_inv c" "map_of (lru_items c) k = Some i"
  shows "entries (lru_add k d c) = spec_add k d (entries c)" "lru_inv (lru_add k d c)"
proof -
  obtain d0 where e: "(i, k, d0) \<in> set (lru_order c)" using lru_invD(3) [OF assms(1)] assms(2) by blast
  let ?rest = "filter (\<lambda>e. fst (snd e) \<noteq> k) (lru_order c)"
  have m: "move_to_front i (lru_order c) = (i, k, d0) # ?rest"
    by (rule move_to_front_eq [OF lru_invD(1,2) [OF assms(1)] e])
  have keep: "(\<lambda>(j, k', d'). (j, k', if j = i then d else d')) x = x" if "x \<in> set ?rest" for x
  proof -
    have "fst x \<noteq> i"
    proof
      assume "fst x = i"
      then have "x = (i, k, d0)"
        using that inj_onD [OF distinct_map [THEN iffD1, OF lru_invD(1) [OF assms(1)], THEN conjunct2], of x "(i, k, d0)"] e
        by simp
      with that show False by simp
    qed
    then show ?thesis by (cases x) simp
  qed
  have o: "lru_add k d c = c\<lparr>lru_order := (i, k, d) # ?rest\<rparr>"
    using assms(2) map_idI [of ?rest, OF keep] by (simp add: lru_add_def m)
  have l: "length ((i, k, d) # ?rest) = length (lru_order c)"
    using move_to_front_length [of i "lru_order c"] unfolding m by simp
  show "entries (lru_add k d c) = spec_add k d (entries c)"
    using l lru_invD(5) [OF assms(1)]
    by (simp add: o entries_def spec_add_def filter_map comp_def)
  have g: "lru_inv (c\<lparr>lru_order := (i, k, d0) # ?rest\<rparr>)"
    using get_refines(3) [OF assms(1), of k] assms(2) by (simp add: lru_get_def m)
  then show "lru_inv (lru_add k d c)"
    unfolding o lru_inv_def by (auto simp: comp_def)
qed

lemma new_order_inv:
  assumes "lru_inv c" "map_of (lru_items c) k = None"
  shows "distinct (map fst ((lru_next c, k, d) # lru_order c))"
    "distinct (map (fst \<circ> snd) ((lru_next c, k, d) # lru_order c))"
    "map_of (map_put k (lru_next c) (lru_items c)) k' = Some i \<longleftrightarrow>
       (\<exists>d'. (i, k', d') \<in> set ((lru_next c, k, d) # lru_order c))"
proof -
  have n: "(i, k, d') \<notin> set (lru_order c)" for i d'
    using lru_invD(3) [OF assms(1), of k i] assms(2) by auto
  have "lru_next c \<notin> fst ` set (lru_order c)" using lru_invD(4) [OF assms(1)] by fastforce
  then show "distinct (map fst ((lru_next c, k, d) # lru_order c))" using lru_invD(1) [OF assms(1)] by simp
  show "distinct (map (fst \<circ> snd) ((lru_next c, k, d) # lru_order c))"
    using lru_invD(2) [OF assms(1)] n by (auto simp: image_iff)
  show "map_of (map_put k (lru_next c) (lru_items c)) k' = Some i \<longleftrightarrow>
       (\<exists>d'. (i, k', d') \<in> set ((lru_next c, k, d) # lru_order c))"
    using lru_invD(3) [OF assms(1), of k' i] n by auto
qed

lemma lru_invI:
  assumes "c' = c\<lparr>lru_next := n, lru_order := es, lru_items := m\<rparr>"
    and "distinct (map fst es)" "distinct (map (fst \<circ> snd) es)"
    and "\<And>k i. map_of m k = Some i \<longleftrightarrow> (\<exists>d. (i, k, d) \<in> set es)"
    and "\<forall>e \<in> set es. fst e < n" "length es \<le> artwork_cache_capacity"
  shows "lru_inv c'"
  using assms(2-) unfolding lru_inv_def assms(1) by simp

lemma last_key:
  assumes "distinct (map (fst \<circ> snd) (es @ [(j, k0, d0)]))"
  shows "(i, k', d') \<in> set es \<longleftrightarrow> (i, k', d') \<in> set (es @ [(j, k0, d0)]) \<and> k' \<noteq> k0"
  using assms by (induction es) auto

lemma add_new:
  assumes "lru_inv c" "map_of (lru_items c) k = None"
  shows "entries (lru_add k d c) = spec_add k d (entries c)" "lru_inv (lru_add k d c)"
proof -
  let ?o = "(lru_next c, k, d) # lru_order c"
  note new = new_order_inv [OF assms, where d = d]
  have "map_of (entries c) k = None" using lru_miss [OF assms(1)] assms(2) by blast
  then have "k \<notin> fst ` set (entries c)" by (simp add: map_of_eq_None_iff)
  then have f: "filter (\<lambda>e. fst e \<noteq> k) (entries c) = entries c"
    by (intro filter_True) auto
  have len: "length (lru_order c) \<le> artwork_cache_capacity" by (rule lru_invD(5) [OF assms(1)])
  have nx: "\<forall>e \<in> set ?o. fst e < lru_next c + 1" using lru_invD(4) [OF assms(1)] by fastforce
  show "entries (lru_add k d c) = spec_add k d (entries c)"
  proof (cases "length ?o > artwork_cache_capacity")
    case True
    then have "length (lru_order c) = artwork_cache_capacity" using len by simp
    then have "butlast ?o = take artwork_cache_capacity ?o" by (simp add: butlast_conv_take)
    then show ?thesis
      using True assms(2) unfolding spec_add_def f by (simp add: lru_add_def Let_def entries_def take_map [symmetric])
  next
    case False
    then show ?thesis using assms(2) unfolding spec_add_def f by (simp add: lru_add_def Let_def entries_def)
  qed
  show "lru_inv (lru_add k d c)"
  proof (cases "length ?o > artwork_cache_capacity")
    case False
    then have "lru_add k d c = c\<lparr>lru_next := lru_next c + 1, lru_order := ?o, lru_items := map_put k (lru_next c) (lru_items c)\<rparr>"
      using assms(2) by (simp add: lru_add_def Let_def)
    then show ?thesis by (rule lru_invI) (use new nx False in \<open>simp_all only: not_less\<close>)
  next
    case True
    obtain j k0 d0 where last: "last ?o = (j, k0, d0)" by (cases "last ?o")
    have o: "butlast ?o @ [(j, k0, d0)] = ?o" using append_butlast_last_id [of ?o] last by simp
    have d: "distinct (map fst (butlast ?o))" "distinct (map (fst \<circ> snd) (butlast ?o))"
      unfolding map_butlast by (rule distinct_butlast [OF new(1)], rule distinct_butlast [OF new(2)])
    have "distinct (map (fst \<circ> snd) (butlast ?o @ [(j, k0, d0)]))" using new(2) unfolding o .
    from last_key [OF this] have other: "(i, k', d') \<in> set (butlast ?o) \<longleftrightarrow> (i, k', d') \<in> set ?o \<and> k' \<noteq> k0" for i k' d'
      unfolding o .
    have u: "lru_add k d c = c\<lparr>lru_next := lru_next c + 1, lru_order := butlast ?o,
        lru_items := map_del k0 (map_put k (lru_next c) (lru_items c))\<rparr>"
      using assms(2) True last by (simp add: lru_add_def Let_def)
    have items: "map_of (map_del k0 (map_put k (lru_next c) (lru_items c))) k' = Some i \<longleftrightarrow>
        (\<exists>d'. (i, k', d') \<in> set (butlast ?o))" for k' i
    proof -
      have "map_of (map_del k0 (map_put k (lru_next c) (lru_items c))) k' = Some i \<longleftrightarrow>
          k' \<noteq> k0 \<and> map_of (map_put k (lru_next c) (lru_items c)) k' = Some i" by simp
      also have "\<dots> \<longleftrightarrow> (\<exists>d'. (i, k', d') \<in> set (butlast ?o))" unfolding new(3) other by blast
      finally show ?thesis .
    qed
    have len': "length (butlast ?o) \<le> artwork_cache_capacity" unfolding length_butlast using len by simp
    have nx': "\<forall>e \<in> set (butlast ?o). fst e < lru_next c + 1" using nx in_set_butlastD by metis
    show ?thesis by (rule lru_invI [OF u d items nx' len'])
  qed
qed

lemma add_refines:
  assumes "lru_inv c"
  shows "entries (lru_add k d c) = spec_add k d (entries c)" "lru_inv (lru_add k d c)"
  using add_known [OF assms] add_new [OF assms] by (cases "map_of (lru_items c) k"; blast)+

subsection \<open>What is cached fits the limit\<close>

definition cache_fits :: "artwork_lru \<Rightarrow> bool" where
  "cache_fits c \<longleftrightarrow> (\<forall>(k, d) \<in> set (entries c). length d \<le> MaxArtworkBytes)"

lemma fits_add: "lru_inv c \<Longrightarrow> cache_fits c \<Longrightarrow> length d \<le> MaxArtworkBytes \<Longrightarrow> cache_fits (lru_add k d c)"
  unfolding cache_fits_def add_refines(1) spec_add_def by (auto dest!: in_set_takeD)

lemma fits_get: "lru_inv c \<Longrightarrow> cache_fits c \<Longrightarrow> cache_fits (snd (lru_get k c))"
  unfolding cache_fits_def get_refines(2) spec_touch_def by (auto split: option.splits dest: map_of_SomeD)

lemma fits_hit: "lru_inv c \<Longrightarrow> cache_fits c \<Longrightarrow> fst (lru_get k c) = Some d \<Longrightarrow> length d \<le> MaxArtworkBytes"
  unfolding cache_fits_def get_refines(1) by (auto dest: map_of_SomeD)

lemma try_qualities_fits: "try_qualities L i qs = Inr (Some b) \<Longrightarrow> length b \<le> MaxArtworkBytes"
  by (induction qs) (auto split: option.splits if_splits)

lemma shrink_fits: "shrink_to_fit L i = Inr b \<Longrightarrow> length b \<le> MaxArtworkBytes"
proof (induction L i rule: shrink_to_fit.induct)
  case (1 L i)
  show ?case
  proof (cases "try_qualities L i [75, 60, 45, 35]")
    case (Inl e)
    then show ?thesis using "1.prems" by (subst (asm) shrink_to_fit.simps) simp
  next
    case (Inr r)
    show ?thesis
    proof (cases r)
      case (Some x)
      have "length x \<le> MaxArtworkBytes" by (rule try_qualities_fits [OF Inr [unfolded Some]])
      then show ?thesis using "1.prems" Inr Some
        by (subst (asm) shrink_to_fit.simps) (simp del: try_qualities.simps)
    next
      case None
      show ?thesis
        using "1.prems" "1.IH" [OF Inr None _ refl refl] Inr None
        by (subst (asm) shrink_to_fit.simps) (simp add: Let_def del: try_qualities.simps split: if_splits)
    qed
  qed
qed

lemma compress_fits:
  assumes "lru_inv c" "cache_fits c" "compress_artwork L k d c = (r, c')"
  shows "lru_inv c' \<and> cache_fits c' \<and> (\<forall>b. r = Inr b \<longrightarrow> length b \<le> MaxArtworkBytes)"
proof -
  obtain hit c1 where g: "lru_get k c = (hit, c1)" by force
  have c1: "lru_inv c1" "cache_fits c1" using get_refines(3) [OF assms(1), of k] fits_get [OF assms(1,2), of k] g by auto
  have kept: "lru_inv (lru_add k b c1) \<and> cache_fits (lru_add k b c1)" if "length b \<le> MaxArtworkBytes" for b
    using add_refines(2) [OF c1(1)] fits_add [OF c1 that] by simp
  show ?thesis
  proof (cases hit)
    case (Some b)
    then show ?thesis using assms(3) g c1 fits_hit [OF assms(1,2), of k b] by (auto simp: compress_artwork_def)
  next
    case None
    show ?thesis
    proof (cases "decode_config L d")
      case None': None
      then show ?thesis using assms(3) g c1 None by (auto simp: compress_artwork_def)
    next
      case (Some f)
      obtain fmt w h where f: "f = (fmt, w, h)" by (cases f)
      show ?thesis
      proof (cases "decode_image L d")
        case None'': None
        then show ?thesis
          using assms(3) g c1 None Some f kept by (auto simp: compress_artwork_def split: if_splits)
      next
        case i: (Some i)
        show ?thesis
        proof (cases "shrink_to_fit L (first_resize L i)")
          case (Inl e)
          then show ?thesis
            using assms(3) g c1 None Some f i kept by (auto simp: compress_artwork_def split: if_splits)
        next
          case (Inr b)
          then show ?thesis
            using assms(3) g c1 None Some f i kept shrink_fits [OF Inr]
            by (auto simp: compress_artwork_def split: if_splits)
        qed
      qed
    qed
  qed
qed

lemma media_artwork_fits:
  assumes "lru_inv c" "cache_fits c" "media_artwork L io url c = (r, c')"
  shows "lru_inv c' \<and> cache_fits c' \<and> (\<forall>b. r = Inr b \<longrightarrow> length b \<le> MaxArtworkBytes)"
proof -
  obtain hit c1 where g: "lru_get url c = (hit, c1)" by force
  have c1: "lru_inv c1" "cache_fits c1" using get_refines(3) [OF assms(1), of url] fits_get [OF assms(1,2), of url] g by auto
  show ?thesis
  proof (cases hit)
    case (Some b)
    then show ?thesis using assms(3) g c1 fits_hit [OF assms(1,2), of url b] by (auto simp: media_artwork_def)
  next
    case None
    show ?thesis
    proof (cases "fetch_artwork io url")
      case (Inl e)
      then show ?thesis using assms(3) g c1 None by (auto simp: media_artwork_def)
    next
      case (Inr d)
      obtain r2 c2 where k: "compress_artwork L url d c1 = (r2, c2)" by force
      show ?thesis
        using assms(3) g None Inr k compress_fits [OF c1 k]
        by (auto simp: media_artwork_def split: sum.splits if_splits)
    qed
  qed
qed

subsection \<open>Properties\<close>

datatype lru_op = LruGet string | LruAdd string bytes

definition run_lru :: "lru_op \<Rightarrow> artwork_lru \<Rightarrow> artwork_lru" where
  "run_lru p c = (case p of LruGet k \<Rightarrow> snd (lru_get k c) | LruAdd k d \<Rightarrow> lru_add k d c)"

definition run_spec :: "lru_op \<Rightarrow> (string \<times> bytes) list \<Rightarrow> (string \<times> bytes) list" where
  "run_spec p es = (case p of LruGet k \<Rightarrow> spec_touch k es | LruAdd k d \<Rightarrow> spec_add k d es)"

lemma run_lru_refines: "lru_inv c \<Longrightarrow> entries (fold run_lru ops c) = fold run_spec ops (entries c) \<and> lru_inv (fold run_lru ops c)"
proof (induction ops arbitrary: c)
  case (Cons p ops)
  have "entries (run_lru p c) = run_spec p (entries c) \<and> lru_inv (run_lru p c)"
    using get_refines(2,3) [OF Cons.prems] add_refines [OF Cons.prems]
    by (cases p) (simp_all add: run_lru_def run_spec_def)
  then show ?case using Cons.IH by simp
qed simp

lemma new_lru: "lru_inv new_artwork_lru" "entries new_artwork_lru = []"
  by (simp_all add: lru_inv_def new_artwork_lru_def entries_def)

text \<open>C32. The artwork cache, a map into a linked list, implements a list of the last five keys used: after
  any calls a lookup finds exactly the latest data of those keys, and the map and the list agree.\<close>

theorem artwork_cache_refines:
  "fst (lru_get k (fold run_lru ops new_artwork_lru)) = map_of (fold run_spec ops []) k \<and>
   map snd (lru_order (fold run_lru ops new_artwork_lru)) = fold run_spec ops [] \<and>
   length (lru_order (fold run_lru ops new_artwork_lru)) \<le> 5 \<and>
   fst ` set (lru_items (fold run_lru ops new_artwork_lru)) = fst ` set (fold run_spec ops [])"
proof -
  let ?c = "fold run_lru ops new_artwork_lru"
  have r: "entries ?c = fold run_spec ops []" and i: "lru_inv ?c"
    using run_lru_refines [OF new_lru(1), of ops] new_lru(2) by auto
  have "fst ` set (lru_items ?c) = fst ` set (entries ?c)"
  proof (rule set_eqI)
    fix n show "n \<in> fst ` set (lru_items ?c) \<longleftrightarrow> n \<in> fst ` set (entries ?c)"
      using lru_miss [OF i, of n] by (simp add: map_of_eq_None_iff)
  qed
  then have "fst ` set (lru_items ?c) = fst ` set (fold run_spec ops [])" unfolding r .
  then show ?thesis
    using get_refines(1) [OF i, of k] lru_invD(5) [OF i] r by (simp add: entries_def artwork_cache_capacity_def)
qed

text \<open>One session's requests for artwork, one after the other.\<close>

definition artwork_cache_after :: "'p image_lib \<Rightarrow> (artwork_io \<times> string) list \<Rightarrow> artwork_lru" where
  "artwork_cache_after L reqs = fold (\<lambda>(io, url) c. snd (media_artwork L io url c)) reqs new_artwork_lru"

lemma artwork_cache_after_fits: "lru_inv (artwork_cache_after L reqs) \<and> cache_fits (artwork_cache_after L reqs)"
proof -
  have "lru_inv (fold (\<lambda>(io, url) c. snd (media_artwork L io url c)) reqs c) \<and>
      cache_fits (fold (\<lambda>(io, url) c. snd (media_artwork L io url c)) reqs c)" if "lru_inv c" "cache_fits c" for c
    using that
  proof (induction reqs arbitrary: c)
    case (Cons q reqs)
    obtain io url where q: "q = (io, url)" by (cases q)
    obtain r c' where m: "media_artwork L io url c = (r, c')" by force
    then show ?case using Cons.IH [of c'] media_artwork_fits [OF Cons.prems m] q by simp
  qed simp
  then show ?thesis using new_lru by (simp add: artwork_cache_after_def cache_fits_def)
qed

text \<open>Artwork keeps to the limit: the search for a size ends for every image and every encoder, and
  after any requests whatever is returned for a player, or kept in the cache, is at most 48 KiB.\<close>

theorem artwork_within_limit:
  "(case fst (media_artwork L io url (artwork_cache_after L reqs)) of
      Inl e \<Rightarrow> True | Inr b \<Rightarrow> length b \<le> 48 * 1024) \<and>
   list_all (\<lambda>(i, k, d). length d \<le> 48 * 1024) (lru_order (artwork_cache_after L reqs))"
proof -
  have f: "lru_inv (artwork_cache_after L reqs)" "cache_fits (artwork_cache_after L reqs)"
    using artwork_cache_after_fits by blast+
  obtain r c' where m: "media_artwork L io url (artwork_cache_after L reqs) = (r, c')" by force
  have "length d \<le> 48 * 1024" if "(i, k, d) \<in> set (lru_order (artwork_cache_after L reqs))" for i k d
    using f(2) that by (force simp: cache_fits_def entries_def MaxArtworkBytes_def)
  then have "list_all (\<lambda>(i, k, d). length d \<le> 48 * 1024) (lru_order (artwork_cache_after L reqs))"
    by (auto simp: list_all_iff)
  then show ?thesis
    using media_artwork_fits [OF f m] m by (simp add: MaxArtworkBytes_def split: sum.splits)
qed

end
