(* ===== verification/Remote_Input.thy ===== *)
theory Remote_Input
  imports Wire_Message Utf8
begin

text \<open>
  Remote input on its way from the wire to the emulator: the event and its validation
  (\<open>libquava/models/inputs.go\<close>), the payload parser and the input worker with its coalescing of
  pointer movements (\<open>libquava/session/inputs.go\<close>).

  The worker takes jobs from a queue that the reader fills. What it sees is a list of
  \<open>QJob\<close>s and \<open>QIdle\<close>s: a \<open>QIdle\<close> is a moment at which the queue is empty, which ends a run of
  coalesced movements and is waited out by the blocking receive. The host's handler is a
  parameter: whether it accepts an input, given what it was given before. Sums of deltas are
  sums of reals; the rounding of floating-point addition is not modelled.
\<close>

subsection \<open>Input events\<close>

definition InputKey :: byte where "InputKey = 1"
definition InputPointerMove :: byte where "InputPointerMove = 2"
definition InputPointerButton :: byte where "InputPointerButton = 3"
definition InputScroll :: byte where "InputScroll = 4"
definition InputText :: byte where "InputText = 5"

definition InputActionNone :: byte where "InputActionNone = 0"
definition InputActionDown :: byte where "InputActionDown = 1"
definition InputActionUp :: byte where "InputActionUp = 2"

lemmas input_constants = InputKey_def InputPointerMove_def InputPointerButton_def InputScroll_def
  InputText_def InputActionNone_def InputActionDown_def InputActionUp_def

record remote_input =
  in_type :: byte
  in_action :: byte
  key_code :: "32 word"
  in_button :: byte
  delta_x :: float64
  delta_y :: float64
  in_text :: string

datatype input_error =
    InvalidDelta | InvalidKey | InvalidMove | InvalidButton | InvalidScroll | InvalidText
  | ControlCharacters | UnknownInputType byte
  | InvalidTextField | FieldOutOfRange | InvalidFloatField "64 word" | InputWire wire_error

definition supported_android_key :: "32 word \<Rightarrow> bool" where
  "supported_android_key c \<longleftrightarrow> c \<in> {4, 19, 20, 21, 22, 23, 61, 62, 66, 67, 111, 112}"

text \<open>\<open>math.Abs(v) > 10000\<close>, with the tests for NaN and infinity before it.\<close>

definition bad_delta :: "float64 \<Rightarrow> bool" where
  "bad_delta v = (case v of Fin r \<Rightarrow> \<bar>r\<bar> > 10000 | _ \<Rightarrow> True)"

definition is_zero :: "float64 \<Rightarrow> bool" where
  "is_zero v \<longleftrightarrow> v = Fin 0"

definition validate :: "remote_input \<Rightarrow> input_error option" where
  "validate i =
     (if bad_delta (delta_x i) \<or> bad_delta (delta_y i) then Some InvalidDelta
      else if in_type i = InputKey then
        (if \<not> supported_android_key (key_code i) \<or>
            (in_action i \<noteq> InputActionDown \<and> in_action i \<noteq> InputActionUp)
         then Some InvalidKey else None)
      else if in_type i = InputPointerMove then
        (if in_action i \<noteq> InputActionNone \<or> (is_zero (delta_x i) \<and> is_zero (delta_y i))
         then Some InvalidMove else None)
      else if in_type i = InputPointerButton then
        (if in_button i < 1 \<or> in_button i > 5 \<or>
            (in_action i \<noteq> InputActionDown \<and> in_action i \<noteq> InputActionUp)
         then Some InvalidButton else None)
      else if in_type i = InputScroll then
        (if in_action i \<noteq> InputActionNone \<or> (is_zero (delta_x i) \<and> is_zero (delta_y i))
         then Some InvalidScroll else None)
      else if in_type i = InputText then
        (if in_action i \<noteq> InputActionNone \<or> in_text i = [] \<or> length (in_text i) > 4096
         then Some InvalidText
         else case string_runes (in_text i) of
           None \<Rightarrow> Some InvalidText
         | Some rs \<Rightarrow>
             if list_ex (\<lambda>r. is_control r \<or> r = 0x2028 \<or> r = 0x2029) rs
             then Some ControlCharacters else None)
      else Some (UnknownInputType (in_type i)))"

subsection \<open>The payload\<close>

definition optional_uint :: "payload \<Rightarrow> 64 word \<Rightarrow> wire_error + 64 word" where
  "optional_uint p k = (if map_of p k = None then Inr 0 else payload_uint p k)"

text \<open>An integer above 2^53 is rounded by \<open>float64(value)\<close>; it is out of the range that
  \<open>validate\<close> accepts either way.\<close>

definition optional_float :: "payload \<Rightarrow> 64 word \<Rightarrow> input_error + float64" where
  "optional_float p k =
     (case map_of p k of
        None \<Rightarrow> Inr (Fin 0)
      | Some v \<Rightarrow>
          (case v of
             AFloat64 (Fin r) \<Rightarrow> Inr (Fin r)
           | AFloat32 (Fin r) \<Rightarrow> Inr (Fin r)
           | AUint64 w \<Rightarrow> Inr (Fin (real (unat w)))
           | AUint32 w \<Rightarrow> Inr (Fin (real (unat w)))
           | AInt64 w \<Rightarrow> Inr (Fin (real_of_int (sint w)))
           | AInt w \<Rightarrow> Inr (Fin (real_of_int (sint w)))
           | _ \<Rightarrow> Inl (InvalidFloatField k)))"

definition wire :: "wire_error + 'a \<Rightarrow> input_error + 'a" where
  "wire r = (case r of Inl e \<Rightarrow> Inl (InputWire e) | Inr x \<Rightarrow> Inr x)"

lemma wire_simps [simp]:
  "wire (Inl e) = Inl (InputWire e)" "wire (Inr x) = Inr x"
  "wire r = Inr x \<longleftrightarrow> r = Inr x"
  by (simp_all add: wire_def split: sum.splits)

definition remote_input_from_payload :: "payload \<Rightarrow> input_error + remote_input" where
  "remote_input_from_payload p =
     bind_r (wire (payload_uint p 0)) (\<lambda>t.
     bind_r (wire (optional_uint p 1)) (\<lambda>a.
     bind_r (wire (optional_uint p 2)) (\<lambda>k.
     bind_r (wire (optional_uint p 3)) (\<lambda>b.
     bind_r (case map_of p 6 of
               None \<Rightarrow> Inr []
             | Some v \<Rightarrow> (case v of AString s \<Rightarrow> Inr s | _ \<Rightarrow> Inl InvalidTextField)) (\<lambda>s.
     bind_r (optional_float p 4) (\<lambda>x.
     bind_r (optional_float p 5) (\<lambda>y.
       if t > 0xFF \<or> a > 0xFF \<or> k > 0xFFFFFFFF \<or> b > 0xFF then Inl FieldOutOfRange
       else
         (let i = \<lparr>in_type = ucast t, in_action = ucast a, key_code = ucast k, in_button = ucast b,
                   delta_x = x, delta_y = y, in_text = s\<rparr>
          in case validate i of Some e \<Rightarrow> Inl e | None \<Rightarrow> Inr i))))))))"

lemma remote_input_valid: "remote_input_from_payload p = Inr i \<Longrightarrow> validate i = None"
  by (auto simp: remote_input_from_payload_def Let_def split: if_split_asm option.split_asm)

lemma valid_deltas:
  assumes "validate i = None"
  obtains x y where "delta_x i = Fin x" "delta_y i = Fin y" "\<bar>x\<bar> \<le> 10000" "\<bar>y\<bar> \<le> 10000"
  using assms
  by (cases "delta_x i"; cases "delta_y i") (auto simp: validate_def bad_delta_def split: if_split_asm)

subsection \<open>The worker\<close>

type_synonym input_handler = "(remote_input list \<Rightarrow> remote_input \<Rightarrow> bool) option"

record input_world =
  applied :: "remote_input list"
  acks :: "(bytes \<times> bool) list"

text \<open>The second component is \<open>err == nil\<close>.\<close>

definition apply_remote_input :: "input_handler \<Rightarrow> remote_input \<Rightarrow> input_world \<Rightarrow> input_world \<times> bool" where
  "apply_remote_input h i w =
     (case h of
        None \<Rightarrow> (w, False)
      | Some accept \<Rightarrow> (w\<lparr>applied := applied w @ [i]\<rparr>, accept (applied w) i))"

definition ack_input :: "message \<Rightarrow> bool \<Rightarrow> input_world \<Rightarrow> input_world" where
  "ack_input m ok w = w\<lparr>acks := acks w @ [(transaction_id m, ok)]\<rparr>"

definition ack_message :: "bytes \<times> bool \<Rightarrow> message" where
  "ack_message a = new_message MessageTypeInputEventAck (fst a) [(0, ABool (snd a))]"

definition handle_remote_input :: "input_handler \<Rightarrow> message \<Rightarrow> input_world \<Rightarrow> input_world" where
  "handle_remote_input h m w =
     (case remote_input_from_payload (payload m) of
        Inl _ \<Rightarrow> ack_input m False w
      | Inr i \<Rightarrow> (case apply_remote_input h i w of (w', ok) \<Rightarrow> ack_input m ok w'))"

datatype queue_event = QJob message | QIdle

definition fin_of :: "float64 \<Rightarrow> real" where
  "fin_of v = (case v of Fin r \<Rightarrow> r | _ \<Rightarrow> 0)"

definition move_of :: "message \<Rightarrow> remote_input option" where
  "move_of m =
     (case remote_input_from_payload (payload m) of
        Inl _ \<Rightarrow> None
      | Inr i \<Rightarrow> if in_type i = InputPointerMove then Some i else None)"

text \<open>The loop labelled \<open>coalesce\<close>: the jobs taken, the sums, the job put back, the rest.\<close>

fun coalesce ::
    "queue_event list \<Rightarrow> message list \<Rightarrow> real \<Rightarrow> real \<Rightarrow>
     message list \<times> real \<times> real \<times> message option \<times> queue_event list" where
  "coalesce (QJob m # qs) jobs dx dy =
     (case move_of m of
        None \<Rightarrow> (jobs, dx, dy, Some m, qs)
      | Some i \<Rightarrow> coalesce qs (jobs @ [m]) (dx + fin_of (delta_x i)) (dy + fin_of (delta_y i)))"
| "coalesce (QIdle # qs) jobs dx dy = (jobs, dx, dy, None, qs)"
| "coalesce [] jobs dx dy = (jobs, dx, dy, None, [])"

definition clamp :: "real \<Rightarrow> real" where
  "clamp v = max (- 10000) (min 10000 v)"

definition finish_moves ::
    "input_handler \<Rightarrow> remote_input \<Rightarrow> message list \<Rightarrow> real \<Rightarrow> real \<Rightarrow> input_world \<Rightarrow> input_world" where
  "finish_moves h i jobs dx dy w =
     (let x = clamp dx; y = clamp dy;
          (w', ok) = (if x \<noteq> 0 \<or> y \<noteq> 0
                      then apply_remote_input h (i\<lparr>delta_x := Fin x, delta_y := Fin y\<rparr>) w
                      else (w, True))
      in fold (\<lambda>m. ack_input m ok) jobs w')"

lemma coalesce_length:
  "coalesce qs jobs dx dy = (js, x, y, p, rest) \<Longrightarrow>
   length rest + (if p = None then 0 else 1) \<le> length qs"
  by (induction qs jobs dx dy rule: coalesce.induct) (auto split: option.splits)

function run_input_worker :: "input_handler \<Rightarrow> message option \<Rightarrow> queue_event list \<Rightarrow> input_world \<Rightarrow> input_world" where
  "run_input_worker h (Some m) qs w =
     (case move_of m of
        None \<Rightarrow> run_input_worker h None qs (handle_remote_input h m w)
      | Some i \<Rightarrow>
          (case coalesce qs [m] (fin_of (delta_x i)) (fin_of (delta_y i)) of
             (jobs, dx, dy, p, rest) \<Rightarrow>
               run_input_worker h p rest (finish_moves h i jobs dx dy w)))"
| "run_input_worker h None (QJob m # qs) w = run_input_worker h (Some m) qs w"
| "run_input_worker h None (QIdle # qs) w = run_input_worker h None qs w"
| "run_input_worker h None [] w = w"
  by pat_completeness auto
termination
  by (relation "measure (\<lambda>(h, p, qs, w). 2 * length qs + (if p = None then 0 else 1))")
    (auto dest!: coalesce_length [OF sym] split: if_splits)

subsection \<open>Every job is acknowledged once, in order\<close>

definition queued :: "queue_event list \<Rightarrow> message list" where
  "queued qs = concat (map (\<lambda>q. case q of QJob m \<Rightarrow> [m] | QIdle \<Rightarrow> []) qs)"

lemma queued_simps [simp]:
  "queued [] = []" "queued (QJob m # qs) = m # queued qs" "queued (QIdle # qs) = queued qs"
  by (simp_all add: queued_def)

definition first_job :: "message option \<Rightarrow> message list" where
  "first_job p = (case p of None \<Rightarrow> [] | Some m \<Rightarrow> [m])"

lemma first_job_simps [simp]: "first_job None = []" "first_job (Some m) = [m]"
  by (simp_all add: first_job_def)

definition sum_x :: "message list \<Rightarrow> real" where
  "sum_x ms = sum_list (map (\<lambda>m. case move_of m of None \<Rightarrow> 0 | Some i \<Rightarrow> fin_of (delta_x i)) ms)"

definition sum_y :: "message list \<Rightarrow> real" where
  "sum_y ms = sum_list (map (\<lambda>m. case move_of m of None \<Rightarrow> 0 | Some i \<Rightarrow> fin_of (delta_y i)) ms)"

lemma coalesce_spec:
  "coalesce qs jobs dx dy = (js, x, y, p, rest) \<Longrightarrow>
   \<exists>taken. js = jobs @ taken \<and> queued qs = taken @ first_job p @ queued rest \<and>
     list_all (\<lambda>m. move_of m \<noteq> None) taken \<and> x = dx + sum_x taken \<and> y = dy + sum_y taken"
proof (induction qs jobs dx dy rule: coalesce.induct)
  case (1 m qs jobs dx dy)
  show ?case
  proof (cases "move_of m")
    case None
    then show ?thesis using "1.prems" by (auto simp: sum_x_def sum_y_def)
  next
    case (Some i)
    from "1.IH" [OF Some] "1.prems" Some obtain taken where t: "js = (jobs @ [m]) @ taken"
        "queued qs = taken @ first_job p @ queued rest" "list_all (\<lambda>m. move_of m \<noteq> None) taken"
        "x = dx + fin_of (delta_x i) + sum_x taken" "y = dy + fin_of (delta_y i) + sum_y taken"
      by auto
    then show ?thesis using Some
      by (intro exI [of _ "m # taken"]) (auto simp: sum_x_def sum_y_def)
  qed
qed (auto simp: sum_x_def sum_y_def)

lemma fold_ack: "fold (\<lambda>m. ack_input m ok) ms w = w\<lparr>acks := acks w @ map (\<lambda>m. (transaction_id m, ok)) ms\<rparr>"
  by (induction ms arbitrary: w) (simp_all add: ack_input_def)

lemma apply_acks [simp]: "acks (fst (apply_remote_input h i w)) = acks w"
  by (simp add: apply_remote_input_def split: option.splits)

lemma finish_moves_acks:
  "\<exists>ok. acks (finish_moves h i ms dx dy w) = acks w @ map (\<lambda>m. (transaction_id m, ok)) ms"
  using apply_acks [of h _ w]
  by (auto simp: finish_moves_def Let_def fold_ack apply_remote_input_def split: option.splits)

lemma handle_remote_input_acks:
  "map fst (acks (handle_remote_input h m w)) = map fst (acks w) @ [transaction_id m]"
  by (simp add: handle_remote_input_def ack_input_def case_prod_unfold split: sum.splits)

lemma run_input_worker_acks:
  "map fst (acks (run_input_worker h p qs w)) =
   map fst (acks w) @ map transaction_id (first_job p @ queued qs)"
proof (induction h p qs w rule: run_input_worker.induct)
  case (1 h m qs w)
  show ?case
  proof (cases "move_of m")
    case None
    then show ?thesis using "1.IH"(1) by (simp add: handle_remote_input_acks)
  next
    case (Some i)
    obtain jobs dx dy p rest where c: "coalesce qs [m] (fin_of (delta_x i)) (fin_of (delta_y i)) =
        (jobs, dx, dy, p, rest)" by (cases "coalesce qs [m] (fin_of (delta_x i)) (fin_of (delta_y i))")
    obtain taken where t: "jobs = [m] @ taken" "queued qs = taken @ first_job p @ queued rest"
      using coalesce_spec [OF c] by blast
    obtain ok where "acks (finish_moves h i jobs dx dy w) = acks w @ map (\<lambda>m. (transaction_id m, ok)) jobs"
      using finish_moves_acks by blast
    then show ?thesis
      using "1.IH"(2) [OF Some c [symmetric] refl refl refl] Some c t by (simp add: comp_def)
  qed
qed simp_all

subsection \<open>Coalescing does not change what the pointer does\<close>

text \<open>Where the pointer is at each event that is not a movement, and at the end.\<close>

definition pointer_step :: "remote_input \<Rightarrow> real \<times> real \<times> (real \<times> real \<times> remote_input) list \<Rightarrow>
    real \<times> real \<times> (real \<times> real \<times> remote_input) list" where
  "pointer_step i s =
     (case s of (x, y, tr) \<Rightarrow>
        if in_type i = InputPointerMove then (x + fin_of (delta_x i), y + fin_of (delta_y i), tr)
        else (x, y, tr @ [(x, y, i)]))"

definition pointer_track :: "remote_input list \<Rightarrow> real \<times> real \<times> (real \<times> real \<times> remote_input) list" where
  "pointer_track is = fold pointer_step is (0, 0, [])"

definition valid_inputs :: "message list \<Rightarrow> remote_input list" where
  "valid_inputs ms = concat (map (\<lambda>m. case remote_input_from_payload (payload m) of
     Inl _ \<Rightarrow> [] | Inr i \<Rightarrow> [i]) ms)"

lemma valid_inputs_simps [simp]:
  "valid_inputs [] = []" "valid_inputs (a @ b) = valid_inputs a @ valid_inputs b"
  by (simp_all add: valid_inputs_def)

lemma valid_inputs_Cons: "valid_inputs (m # ms) = valid_inputs [m] @ valid_inputs ms"
  by (simp add: valid_inputs_def)

lemma move_of_Some:
  "move_of m = Some i \<longleftrightarrow> valid_inputs [m] = [i] \<and> in_type i = InputPointerMove"
  by (auto simp: move_of_def valid_inputs_def split: sum.splits if_splits)

lemma handled_applied:
  "applied (handle_remote_input (Some accept) m w) = applied w @ valid_inputs [m]"
  by (simp add: handle_remote_input_def valid_inputs_def apply_remote_input_def ack_input_def
      split: sum.splits)

lemma moves_track:
  "list_all (\<lambda>m. move_of m \<noteq> None) ms \<Longrightarrow>
   fold pointer_step (valid_inputs ms) (x, y, tr) = (x + sum_x ms, y + sum_y ms, tr)"
proof (induction ms arbitrary: x y)
  case (Cons m ms)
  then obtain i where i: "move_of m = Some i" by auto
  then have v: "valid_inputs [m] = [i]" "in_type i = InputPointerMove" using move_of_Some by auto
  have "fold pointer_step (valid_inputs (m # ms)) (x, y, tr) =
      fold pointer_step (valid_inputs ms) (x + fin_of (delta_x i), y + fin_of (delta_y i), tr)"
    using v by (simp add: pointer_step_def valid_inputs_Cons [of m ms])
  then show ?case using Cons i by (simp add: sum_x_def sum_y_def)
qed (simp add: sum_x_def sum_y_def)

lemma clamp_id: "\<bar>v\<bar> \<le> 10000 \<Longrightarrow> clamp v = v"
  by (auto simp: clamp_def)

lemma finish_moves_track:
  assumes "in_type i = InputPointerMove" "\<bar>dx\<bar> \<le> 10000" "\<bar>dy\<bar> \<le> 10000"
  shows "fold pointer_step (applied (finish_moves (Some accept) i ms dx dy w)) s =
    (case fold pointer_step (applied w) s of (x, y, tr) \<Rightarrow> (x + dx, y + dy, tr))"
  using assms
  by (auto simp: finish_moves_def Let_def clamp_id apply_remote_input_def fold_ack pointer_step_def
      fin_of_def split: prod.splits)


definition move_bound :: "message list \<Rightarrow> bool" where
  "move_bound ms \<longleftrightarrow>
     sum_list (map (\<lambda>m. case move_of m of None \<Rightarrow> 0 | Some i \<Rightarrow> \<bar>fin_of (delta_x i)\<bar>) ms) \<le> 10000 \<and>
     sum_list (map (\<lambda>m. case move_of m of None \<Rightarrow> 0 | Some i \<Rightarrow> \<bar>fin_of (delta_y i)\<bar>) ms) \<le> 10000"

lemma sum_abs_nonneg:
  "0 \<le> sum_list (map (\<lambda>m. case move_of m of None \<Rightarrow> 0 | Some i \<Rightarrow> \<bar>fin_of (f i)\<bar>) ms)"
  by (rule sum_list_nonneg) (auto split: option.splits)

lemma move_bound_append: "move_bound (a @ b) \<Longrightarrow> move_bound a \<and> move_bound b"
  using sum_abs_nonneg [of delta_x a] sum_abs_nonneg [of delta_x b]
    sum_abs_nonneg [of delta_y a] sum_abs_nonneg [of delta_y b]
  by (simp add: move_bound_def)

lemma abs_sum_list: "\<bar>sum_list (map f xs)\<bar> \<le> sum_list (map (\<lambda>x. \<bar>f x\<bar>) xs)" for f :: "'a \<Rightarrow> real"
  by (induction xs) auto

lemma move_bound_sums: "move_bound ms \<Longrightarrow> \<bar>sum_x ms\<bar> \<le> 10000 \<and> \<bar>sum_y ms\<bar> \<le> 10000"
proof -
  have e: "(\<lambda>m. \<bar>case move_of m of None \<Rightarrow> 0 | Some i \<Rightarrow> fin_of (f i)\<bar>) =
      (\<lambda>m. case move_of m of None \<Rightarrow> 0 | Some i \<Rightarrow> \<bar>fin_of (f i)\<bar>)" for f
    by (auto split: option.splits)
  assume "move_bound ms"
  then show ?thesis
    using abs_sum_list [of "\<lambda>m. case move_of m of None \<Rightarrow> 0 | Some i \<Rightarrow> fin_of (delta_x i)" ms]
      abs_sum_list [of "\<lambda>m. case move_of m of None \<Rightarrow> 0 | Some i \<Rightarrow> fin_of (delta_y i)" ms]
    unfolding e by (simp add: move_bound_def sum_x_def sum_y_def)
qed

lemma run_input_worker_track:
  assumes "h = Some accept" "move_bound (first_job p @ queued qs)"
  shows "fold pointer_step (applied (run_input_worker h p qs w)) s =
    fold pointer_step (valid_inputs (first_job p @ queued qs)) (fold pointer_step (applied w) s)"
  using assms
proof (induction h p qs w rule: run_input_worker.induct)
  case (1 h m qs w)
  show ?case
  proof (cases "move_of m")
    case None
    have "move_bound (queued qs)" using "1.prems"(2) move_bound_append [of "[m]"] by simp
    then show ?thesis
      using "1.IH"(1) [OF None] "1.prems"(1) None
      by (simp add: handled_applied valid_inputs_Cons [of m "queued qs"])
  next
    case (Some i)
    obtain jobs dx dy p rest where c: "coalesce qs [m] (fin_of (delta_x i)) (fin_of (delta_y i)) =
        (jobs, dx, dy, p, rest)" by (cases "coalesce qs [m] (fin_of (delta_x i)) (fin_of (delta_y i))")
    obtain taken where t: "jobs = [m] @ taken" "queued qs = taken @ first_job p @ queued rest"
        "list_all (\<lambda>m. move_of m \<noteq> None) taken" "dx = fin_of (delta_x i) + sum_x taken"
        "dy = fin_of (delta_y i) + sum_y taken"
      using coalesce_spec [OF c] by blast
    have b: "move_bound jobs" "move_bound (first_job p @ queued rest)"
      using "1.prems"(2) move_bound_append [of "m # taken"] t by auto
    have d: "dx = sum_x jobs" "dy = sum_y jobs" and l: "list_all (\<lambda>m. move_of m \<noteq> None) jobs"
      using t Some by (simp_all add: sum_x_def sum_y_def)
    obtain x y tr where st: "fold pointer_step (applied w) s = (x, y, tr)"
      by (cases "fold pointer_step (applied w) s")
    have mv: "in_type i = InputPointerMove" using Some move_of_Some by blast
    have "fold pointer_step (applied (finish_moves h i jobs dx dy w)) s = (x + sum_x jobs, y + sum_y jobs, tr)"
      using finish_moves_track [OF mv, of dx dy] move_bound_sums [OF b(1)] "1.prems"(1) st d by simp
    also have "\<dots> = fold pointer_step (valid_inputs jobs) (x, y, tr)"
      using moves_track [OF l] by simp
    finally have "fold pointer_step (applied (run_input_worker h p rest (finish_moves h i jobs dx dy w))) s =
        fold pointer_step (valid_inputs (jobs @ first_job p @ queued rest)) (x, y, tr)"
      using "1.IH"(2) [OF Some c [symmetric] refl refl refl "1.prems"(1) b(2)] by simp
    then show ?thesis using Some c t st by simp
  qed
qed simp_all

lemma uncoalesced_applied:
  "applied (fold (handle_remote_input (Some accept)) ms w) = applied w @ valid_inputs ms"
proof (induction ms arbitrary: w)
  case (Cons m ms)
  then show ?case by (simp add: handled_applied valid_inputs_Cons [of m ms])
qed simp

subsection \<open>Only valid inputs reach the handler\<close>

abbreviation all_valid :: "remote_input list \<Rightarrow> bool" where
  "all_valid \<equiv> list_all (\<lambda>i. validate i = None)"

lemma handle_valid:
  assumes "all_valid (applied w)" shows "all_valid (applied (handle_remote_input h m w))"
  using assms remote_input_valid
  by (cases h) (auto simp: handle_remote_input_def apply_remote_input_def ack_input_def split: sum.splits)

lemma clamped_valid:
  assumes "validate i = None" "in_type i = InputPointerMove" "clamp x \<noteq> 0 \<or> clamp y \<noteq> 0"
  shows "validate (i\<lparr>delta_x := Fin (clamp x), delta_y := Fin (clamp y)\<rparr>) = None"
  using assms by (auto simp: validate_def bad_delta_def is_zero_def clamp_def input_constants split: if_split_asm)

lemma finish_moves_valid:
  assumes "all_valid (applied w)" "validate i = None" "in_type i = InputPointerMove"
  shows "all_valid (applied (finish_moves h i ms dx dy w))"
  using assms clamped_valid [OF assms(2,3), of dx dy]
  by (cases h) (auto simp: finish_moves_def Let_def apply_remote_input_def fold_ack)

lemma run_input_worker_valid:
  "all_valid (applied w) \<Longrightarrow> all_valid (applied (run_input_worker h p qs w))"
proof (induction h p qs w rule: run_input_worker.induct)
  case (1 h m qs w)
  show ?case
  proof (cases "move_of m")
    case None
    then show ?thesis using "1.IH"(1) "1.prems" handle_valid by simp
  next
    case (Some i)
    have v: "validate i = None" "in_type i = InputPointerMove"
      using Some remote_input_valid by (auto simp: move_of_def split: sum.splits if_splits)
    obtain jobs dx dy p rest where c: "coalesce qs [m] (fin_of (delta_x i)) (fin_of (delta_y i)) =
        (jobs, dx, dy, p, rest)" by (cases "coalesce qs [m] (fin_of (delta_x i)) (fin_of (delta_y i))")
    show ?thesis
      using "1.IH"(2) [OF Some c [symmetric] refl refl refl] finish_moves_valid [OF "1.prems" v] Some c
      by simp
  qed
qed simp_all

subsection \<open>Properties\<close>

definition start_world :: input_world where
  "start_world = \<lparr>applied = [], acks = []\<rparr>"

text \<open>The input worker acknowledges every job exactly once, in the order in which the jobs
  arrived, whether it was valid, rejected by the handler or merged with others, and whatever the
  timing; and every input it hands to the host, merged movements included, passes validation.\<close>

theorem input_acknowledged_once:
  "map fst (acks (run_input_worker h None qs start_world)) = map transaction_id (queued qs) \<and>
   all_valid (applied (run_input_worker h None qs start_world))"
  using run_input_worker_acks [of h None qs start_world] run_input_worker_valid [of start_world]
  by (simp add: start_world_def)


definition move_job :: "real \<Rightarrow> message" where
  "move_job x = new_message MessageTypeInputEvent [1] [(0, AUint64 2), (4, AFloat64 (Fin x))]"

lemma move_job_move:
  assumes "x \<noteq> 0" "\<bar>x\<bar> \<le> 10000"
  shows "move_of (move_job x) = Some \<lparr>in_type = 2, in_action = 0, key_code = 0, in_button = 0,
    delta_x = Fin x, delta_y = Fin 0, in_text = []\<rparr>"
  using assms
  by (simp add: move_of_def move_job_def remote_input_from_payload_def payload_uint_def optional_uint_def
      optional_float_def Let_def validate_def bad_delta_def is_zero_def input_constants)


end
