(* ===== verification/System_Audio.thy ===== *)
theory System_Audio
  imports Session_Events Go_Text
begin

text \<open>
  The sound server (\<open>libquava/media/system_audio.go\<close>, with the types of \<open>libquava/models/media.go\<close>
  that belong to it), driven through the programs \<open>wpctl\<close> (PipeWire) and \<open>pactl\<close> (PulseAudio).

  The programs are parameters: \<open>exec_tool\<close> gives the output of a command, or \<open>None\<close> when it fails,
  and may depend on all commands run before; the state of every operation is the list of these
  commands. \<open>on_path\<close> is \<open>exec.LookPath\<close>, \<open>parse_float\<close> is \<open>strconv.ParseFloat\<close>. The regular
  expressions and the scanning of the output line by line are modelled.
\<close>

subsection \<open>Data\<close>

record audio_device =
  ad_name :: string
  ad_description :: string
  ad_volume :: float64
  ad_muted :: bool
  ad_default :: bool

record system_audio =
  sa_volume :: float64
  sa_muted :: bool
  sa_device :: string
  sa_devices :: "audio_device list"

record audio_sink_ref =
  sink_id :: string
  sink_name :: string
  sink_default :: bool
  sink_description :: string

record audio_tools =
  exec_tool :: "string list list \<Rightarrow> string list \<Rightarrow> string option"
  on_path :: "string \<Rightarrow> bool"
  parse_float :: "string \<Rightarrow> float64 option"

datatype audio_error =
    AudioTool | AudioNoSinks | AudioOutput | AudioParse | AudioNotFound string | AudioNoServer
  | AudioVolumeRange | AudioNoName

type_synonym 'a audio_op = "string list list \<Rightarrow> (audio_error + 'a) \<times> string list list"

definition au_bind :: "'a audio_op \<Rightarrow> ('a \<Rightarrow> 'b audio_op) \<Rightarrow> 'b audio_op" where
  "au_bind m f h = (case m h of (Inl e, h') \<Rightarrow> (Inl e, h') | (Inr x, h') \<Rightarrow> f x h')"

definition au_return :: "audio_error + 'a \<Rightarrow> 'a audio_op" where
  "au_return r h = (r, h)"

definition run_tool :: "audio_tools \<Rightarrow> string list \<Rightarrow> string audio_op" where
  "run_tool A args h =
     ((case exec_tool A h args of None \<Rightarrow> Inl AudioTool | Some out \<Rightarrow> Inr out), h @ [args])"

definition wpctl :: "audio_tools \<Rightarrow> string list \<Rightarrow> string audio_op" where
  "wpctl A args = run_tool A (''wpctl'' # args)"

definition pactl :: "audio_tools \<Rightarrow> string list \<Rightarrow> string audio_op" where
  "pactl A args = run_tool A (''pactl'' # args)"

subsection \<open>Reading the output of wpctl\<close>

text \<open>\<open>(\*)?\s*(\d+)\.\s+(\S+)\<close>: the star, the number and the name.\<close>

definition sink_line_re :: "string \<Rightarrow> (bool \<times> string \<times> string) option" where
  "sink_line_re s =
     (let star = (s \<noteq> [] \<and> hd s = CHR ''*'');
          a = dropWhile re_space (if star then tl s else s);
          num = takeWhile is_digit a;
          b = drop (length num) a;
          c = dropWhile re_space (tl b);
          name = takeWhile (\<lambda>x. \<not> re_space x) c
      in if num = [] \<or> b = [] \<or> hd b \<noteq> CHR ''.'' \<or> length c = length (tl b) \<or> name = [] then None
         else Some (star, num, name))"

text \<open>\<open>^\s*\*?\s*([a-zA-Z0-9_.-]+)\s*=\s*"(.*)"\s*$\<close>: the key and the value.\<close>

definition prop_char :: "char \<Rightarrow> bool" where
  "prop_char c \<longleftrightarrow> is_lower c \<or> is_upper c \<or> is_digit c \<or> c \<in> {CHR ''_'', CHR ''.'', CHR ''-''}"

definition prop_re :: "string \<Rightarrow> (string \<times> string) option" where
  "prop_re s =
     (let a = dropWhile re_space s;
          b = dropWhile re_space (if a \<noteq> [] \<and> hd a = CHR ''*'' then tl a else a);
          key = takeWhile prop_char b;
          c = dropWhile re_space (drop (length key) b);
          d = dropWhile re_space (tl c);
          v = rev (dropWhile re_space (rev d))
      in if key = [] \<or> c = [] \<or> hd c \<noteq> CHR ''='' \<or> length v < 2 \<or> hd v \<noteq> CHR 0x22 \<or> last v \<noteq> CHR 0x22
         then None else Some (key, butlast (tl v)))"

definition parse_wpctl_property :: "string \<Rightarrow> string \<Rightarrow> string" where
  "parse_wpctl_property out key =
     (case find (\<lambda>m. case m of Some (k, _) \<Rightarrow> k = key | None \<Rightarrow> False) (map prop_re (split_on newline out)) of
        Some (Some (_, v)) \<Rightarrow> v
      | _ \<Rightarrow> [])"

definition clamp01 :: "float64 \<Rightarrow> float64" where
  "clamp01 v =
     (case v of
        Fin r \<Rightarrow> if r < 0 then Fin 0 else if r > 1 then Fin 1 else v
      | PosInf \<Rightarrow> Fin 1 | NegInf \<Rightarrow> Fin 0 | NaN \<Rightarrow> NaN)"

definition parse_wpctl_volume :: "audio_tools \<Rightarrow> string \<Rightarrow> audio_error + float64 \<times> bool" where
  "parse_wpctl_volume A out =
     (case text_fields out of
        label # v # _ \<Rightarrow>
          if label \<noteq> ''Volume:'' then Inl AudioOutput
          else (case parse_float A v of
             None \<Rightarrow> Inl AudioParse
           | Some x \<Rightarrow> Inr (clamp01 x, contains_str out ''[MUTED]''))
      | _ \<Rightarrow> Inl AudioOutput)"

text \<open>The scan of \<open>wpctl status -n\<close>: are we in the audio part, and in its list of sinks?\<close>

fun scan_sinks :: "audio_tools \<Rightarrow> string list \<Rightarrow> bool \<Rightarrow> bool \<Rightarrow> audio_sink_ref list audio_op" where
  "scan_sinks A [] audio sinks = au_return (Inr [])"
| "scan_sinks A (l # ls) audio sinks =
     (let t = trim_space l in
      if t = ''Audio'' then scan_sinks A ls True sinks
      else if t = ''Video'' \<or> t = ''Settings'' then scan_sinks A ls False False
      else if \<not> audio then scan_sinks A ls audio sinks
      else if contains_str l ''Sinks:'' then scan_sinks A ls audio True
      else if sinks \<and> (contains_str l ''Sources:'' \<or> contains_str l ''Filters:'' \<or> contains_str l ''Streams:'')
      then scan_sinks A ls audio False
      else if \<not> sinks then scan_sinks A ls audio sinks
      else (case find_match sink_line_re l of
          None \<Rightarrow> scan_sinks A ls audio sinks
        | Some (star, n, name) \<Rightarrow>
            (\<lambda>h. case wpctl A [''inspect'', n] h of (r, h') \<Rightarrow>
               au_bind (scan_sinks A ls audio sinks) (\<lambda>rest.
                 au_return (Inr (\<lparr>sink_id = n, sink_name = name, sink_default = star,
                    sink_description = (case r of Inr p \<Rightarrow> parse_wpctl_property p ''node.description'' | _ \<Rightarrow> [])\<rparr>
                  # rest))) h')))"

definition list_audio_sinks :: "audio_tools \<Rightarrow> audio_sink_ref list audio_op" where
  "list_audio_sinks A =
     au_bind (wpctl A [''status'', ''-n'']) (\<lambda>out.
     au_bind (scan_sinks A (split_on newline out) False False) (\<lambda>sinks.
     au_return (if sinks = [] then Inl AudioNoSinks else Inr sinks)))"

fun sink_devices :: "audio_tools \<Rightarrow> audio_sink_ref list \<Rightarrow> audio_device list audio_op" where
  "sink_devices A [] = au_return (Inr [])"
| "sink_devices A (s # ss) =
     au_bind (wpctl A [''get-volume'', sink_id s]) (\<lambda>out.
     au_bind (au_return (parse_wpctl_volume A out)) (\<lambda>(v, m).
     au_bind (sink_devices A ss) (\<lambda>ds.
     au_return (Inr (\<lparr>ad_name = sink_name s,
        ad_description = (if sink_description s = [] then sink_name s else sink_description s),
        ad_volume = v, ad_muted = m, ad_default = sink_default s\<rparr> # ds)))))"

definition list_wpctl_devices :: "audio_tools \<Rightarrow> audio_device list audio_op" where
  "list_wpctl_devices A = au_bind (list_audio_sinks A) (sink_devices A)"

definition audio_sink_id :: "audio_tools \<Rightarrow> string \<Rightarrow> string audio_op" where
  "audio_sink_id A name =
     au_bind (list_audio_sinks A) (\<lambda>sinks.
     au_return
       (case find (\<lambda>s. name = [] \<and> sink_default s \<or> name \<noteq> [] \<and> (sink_name s = name \<or> sink_id s = name)) sinks of
          Some s \<Rightarrow> Inr (sink_id s)
        | None \<Rightarrow> Inl (AudioNotFound name)))"

text \<open>\<open>%.2f\<close> of a finite number, on a tie to the even digit, and of the others.\<close>

definition round_even :: "real \<Rightarrow> int" where
  "round_even x =
     (let n = \<lfloor>x\<rfloor>; d = x - of_int n
      in if d < 1 / 2 then n else if d > 1 / 2 then n + 1 else if even n then n else n + 1)"

definition fixed2 :: "float64 \<Rightarrow> string" where
  "fixed2 v =
     (case v of
        Fin r \<Rightarrow>
          (let n = nat (round_even (\<bar>r\<bar> * 100))
           in (if r < 0 then ''-'' else []) @ dec_nat (n div 100) @ ''.'' @ [dec_digit (n mod 100 div 10), dec_digit (n mod 10)])
      | NaN \<Rightarrow> ''NaN'' | PosInf \<Rightarrow> ''+Inf'' | NegInf \<Rightarrow> ''-Inf'')"

definition set_wpctl_volume :: "audio_tools \<Rightarrow> string \<Rightarrow> float64 \<Rightarrow> string audio_op" where
  "set_wpctl_volume A name v =
     au_bind (audio_sink_id A name) (\<lambda>target. wpctl A [''set-volume'', target, fixed2 v])"

definition set_wpctl_muted :: "audio_tools \<Rightarrow> string \<Rightarrow> bool \<Rightarrow> string audio_op" where
  "set_wpctl_muted A name m =
     au_bind (audio_sink_id A name) (\<lambda>target. wpctl A [''set-mute'', target, if m then ''1'' else ''0''])"

definition set_wpctl_default :: "audio_tools \<Rightarrow> string \<Rightarrow> string audio_op" where
  "set_wpctl_default A name = au_bind (audio_sink_id A name) (\<lambda>target. wpctl A [''set-default'', target])"

subsection \<open>Reading the output of pactl\<close>

text \<open>\<open>(\d+)%\<close>: the number.\<close>

definition percent_re :: "string \<Rightarrow> string option" where
  "percent_re s =
     (let num = takeWhile is_digit s; b = drop (length num) s
      in if num = [] \<or> b = [] \<or> hd b \<noteq> CHR ''%'' then None else Some num)"

definition digits_value :: "string \<Rightarrow> nat" where
  "digits_value ds = foldl (\<lambda>n c. 10 * n + (of_char c - 48)) 0 ds"

definition empty_device :: audio_device where
  "empty_device = \<lparr>ad_name = [], ad_description = [], ad_volume = Fin 0, ad_muted = False, ad_default = False\<rparr>"

text \<open>The closure \<open>flush\<close>.\<close>

definition flush_device :: "string \<Rightarrow> audio_device option \<Rightarrow> audio_device list" where
  "flush_device dflt current =
     (case current of
        None \<Rightarrow> []
      | Some d \<Rightarrow>
          if ad_name d = [] then []
          else [d\<lparr>ad_description := (if ad_description d = [] then ad_name d else ad_description d),
                  ad_default := (ad_name d = dflt)\<rparr>])"

definition after_label :: "string \<Rightarrow> string \<Rightarrow> string" where
  "after_label t p = trim_space (trim_prefix t p)"

definition device_line :: "string \<Rightarrow> audio_device \<Rightarrow> audio_device" where
  "device_line t d =
     (if has_prefix t ''Name:'' then d\<lparr>ad_name := after_label t ''Name:''\<rparr>
      else if has_prefix t ''Description:'' then d\<lparr>ad_description := after_label t ''Description:''\<rparr>
      else if has_prefix t ''Mute:'' then d\<lparr>ad_muted := (after_label t ''Mute:'' = ''yes'')\<rparr>
      else if has_prefix t ''Volume:'' \<and> ad_volume d = Fin 0 then
        (case find_match percent_re t of
           None \<Rightarrow> d
         | Some n \<Rightarrow> d\<lparr>ad_volume := Fin (min (max (real (digits_value n) / 100) 0) 1)\<rparr>)
      else d)"

fun scan_pactl :: "string \<Rightarrow> string list \<Rightarrow> audio_device option \<Rightarrow> audio_device list" where
  "scan_pactl dflt [] current = flush_device dflt current"
| "scan_pactl dflt (l # ls) current =
     (if has_prefix l ''Sink #'' then flush_device dflt current @ scan_pactl dflt ls (Some empty_device)
      else (case current of
          None \<Rightarrow> scan_pactl dflt ls None
        | Some d \<Rightarrow> scan_pactl dflt ls (Some (device_line (trim_space l) d))))"

fun default_sink :: "string list \<Rightarrow> string \<Rightarrow> string" where
  "default_sink [] d = d"
| "default_sink (l # ls) d =
     (let t = trim_space l
      in default_sink ls (if has_prefix t ''Default Sink:'' then after_label t ''Default Sink:'' else d))"

definition list_pactl_devices :: "audio_tools \<Rightarrow> audio_device list audio_op" where
  "list_pactl_devices A =
     au_bind (pactl A [''info'']) (\<lambda>info.
     au_bind (pactl A [''list'', ''sinks'']) (\<lambda>detail.
     let ds = scan_pactl (default_sink (split_on newline info) []) (split_on newline detail) None
     in au_return (if ds = [] then Inl AudioNoSinks else Inr ds)))"

definition pulse_sink_name :: "audio_tools \<Rightarrow> string \<Rightarrow> string audio_op" where
  "pulse_sink_name A name =
     au_bind (list_pactl_devices A) (\<lambda>ds.
     au_return
       (case find (\<lambda>d. name = [] \<and> ad_default d \<or> name \<noteq> [] \<and> ad_name d = name) ds of
          Some d \<Rightarrow> Inr (ad_name d)
        | None \<Rightarrow> Inl (AudioNotFound name)))"

definition times100_half :: "float64 \<Rightarrow> float64" where
  "times100_half v = (case v of Fin r \<Rightarrow> Fin (r * 100 + 1 / 2) | x \<Rightarrow> x)"

definition set_pactl_volume :: "audio_tools \<Rightarrow> string \<Rightarrow> float64 \<Rightarrow> string audio_op" where
  "set_pactl_volume A name v =
     au_bind (pulse_sink_name A name) (\<lambda>target.
       pactl A [''set-sink-volume'', target, itoa (float_to_int (times100_half v)) @ ''%''])"

definition set_pactl_muted :: "audio_tools \<Rightarrow> string \<Rightarrow> bool \<Rightarrow> string audio_op" where
  "set_pactl_muted A name m =
     au_bind (pulse_sink_name A name) (\<lambda>target.
       pactl A [''set-sink-mute'', target, if m then ''1'' else ''0''])"

definition set_pactl_default :: "audio_tools \<Rightarrow> string \<Rightarrow> string audio_op" where
  "set_pactl_default A name =
     au_bind (pulse_sink_name A name) (\<lambda>target. pactl A [''set-default-sink'', target])"

subsection \<open>The two servers\<close>

datatype audio_backend = BackendNone | BackendPipeWire | BackendPulse

definition answers_to :: "audio_tools \<Rightarrow> string list \<Rightarrow> bool audio_op" where
  "answers_to A args h =
     (if on_path A (hd args)
      then (case run_tool A args h of (Inl _, h') \<Rightarrow> (Inr False, h') | (Inr _, h') \<Rightarrow> (Inr True, h'))
      else (Inr False, h))"

definition detect_audio_backend :: "audio_tools \<Rightarrow> audio_backend audio_op" where
  "detect_audio_backend A =
     au_bind (answers_to A [''wpctl'', ''status'']) (\<lambda>wp.
     if wp then au_return (Inr BackendPipeWire)
     else au_bind (answers_to A [''pactl'', ''info'']) (\<lambda>pa.
       au_return (Inr (if pa then BackendPulse else BackendNone))))"

definition list_audio_output_devices :: "audio_tools \<Rightarrow> audio_device list audio_op" where
  "list_audio_output_devices A =
     au_bind (detect_audio_backend A) (\<lambda>b. case b of
        BackendPipeWire \<Rightarrow> list_wpctl_devices A
      | BackendPulse \<Rightarrow> list_pactl_devices A
      | BackendNone \<Rightarrow> au_return (Inl AudioNoServer))"

definition outside01 :: "float64 \<Rightarrow> bool" where
  "outside01 v = (case v of Fin r \<Rightarrow> r < 0 \<or> r > 1 | PosInf \<Rightarrow> True | NegInf \<Rightarrow> True | NaN \<Rightarrow> False)"

definition done_with :: "string audio_op \<Rightarrow> unit audio_op" where
  "done_with m = au_bind m (\<lambda>_. au_return (Inr ()))"

definition set_output_device_volume :: "audio_tools \<Rightarrow> string \<Rightarrow> float64 \<Rightarrow> unit audio_op" where
  "set_output_device_volume A name v =
     (if outside01 v then au_return (Inl AudioVolumeRange)
      else au_bind (detect_audio_backend A) (\<lambda>b. case b of
          BackendPipeWire \<Rightarrow> done_with (set_wpctl_volume A name v)
        | BackendPulse \<Rightarrow> done_with (set_pactl_volume A name v)
        | BackendNone \<Rightarrow> au_return (Inl AudioNoServer)))"

definition set_output_device_muted :: "audio_tools \<Rightarrow> string \<Rightarrow> bool \<Rightarrow> unit audio_op" where
  "set_output_device_muted A name m =
     au_bind (detect_audio_backend A) (\<lambda>b. case b of
        BackendPipeWire \<Rightarrow> done_with (set_wpctl_muted A name m)
      | BackendPulse \<Rightarrow> done_with (set_pactl_muted A name m)
      | BackendNone \<Rightarrow> au_return (Inl AudioNoServer))"

definition set_default_output_device :: "audio_tools \<Rightarrow> string \<Rightarrow> unit audio_op" where
  "set_default_output_device A name =
     (if name = [] then au_return (Inl AudioNoName)
      else au_bind (detect_audio_backend A) (\<lambda>b. case b of
          BackendPipeWire \<Rightarrow> done_with (set_wpctl_default A name)
        | BackendPulse \<Rightarrow> done_with (set_pactl_default A name)
        | BackendNone \<Rightarrow> au_return (Inl AudioNoServer)))"

definition system_audio_state :: "audio_tools \<Rightarrow> system_audio audio_op" where
  "system_audio_state A =
     au_bind (list_audio_output_devices A) (\<lambda>ds.
     au_return (Inr (case find ad_default ds of
        Some d \<Rightarrow> \<lparr>sa_volume = ad_volume d, sa_muted = ad_muted d, sa_device = ad_name d, sa_devices = ds\<rparr>
      | None \<Rightarrow> \<lparr>sa_volume = Fin 0, sa_muted = False, sa_device = [], sa_devices = ds\<rparr>)))"

subsection \<open>Commands that change the sound server\<close>

definition is_change :: "string list \<Rightarrow> bool" where
  "is_change cmd \<longleftrightarrow> (case cmd of _ # verb # _ \<Rightarrow> has_prefix verb ''set-'' | _ \<Rightarrow> False)"

definition only_reads :: "'a audio_op \<Rightarrow> bool" where
  "only_reads m \<longleftrightarrow> (\<forall>h. \<exists>c. snd (m h) = h @ c \<and> \<not> list_ex is_change c)"

named_theorems reading \<open>operations that only read\<close>

lemma only_readsE: "only_reads m \<Longrightarrow> (\<And>c. snd (m h) = h @ c \<Longrightarrow> \<not> list_ex is_change c \<Longrightarrow> P) \<Longrightarrow> P"
  unfolding only_reads_def by blast

lemma reads_bind [reading]:
  assumes "only_reads m" "\<And>x. only_reads (f x)" shows "only_reads (au_bind m f)"
  unfolding only_reads_def
proof
  fix h
  obtain c where c: "snd (m h) = h @ c" "\<not> list_ex is_change c" by (rule only_readsE [OF assms(1)])
  show "\<exists>c. snd (au_bind m f h) = h @ c \<and> \<not> list_ex is_change c"
  proof (cases "fst (m h)")
    case (Inl e)
    then have "snd (au_bind m f h) = h @ c" using c(1) by (cases "m h") (simp add: au_bind_def)
    then show ?thesis using c(2) by blast
  next
    case (Inr x)
    obtain d where d: "snd (f x (h @ c)) = (h @ c) @ d" "\<not> list_ex is_change d"
      by (rule only_readsE [OF assms(2)])
    have "au_bind m f h = f x (h @ c)" using c(1) Inr by (cases "m h") (simp add: au_bind_def)
    then have "snd (au_bind m f h) = h @ (c @ d)" using d(1) by simp
    then show ?thesis using c(2) d(2) by (metis list_ex_append)
  qed
qed

lemma reads_return [reading]: "only_reads (au_return r)"
  by (simp add: only_reads_def au_return_def)

lemma reads_tool: "\<not> is_change args \<Longrightarrow> only_reads (run_tool A args)"
  by (auto simp: only_reads_def run_tool_def)

lemma reads_wpctl [reading]: "\<not> has_prefix (hd args) ''set-'' \<Longrightarrow> args \<noteq> [] \<Longrightarrow> only_reads (wpctl A args)"
  unfolding wpctl_def by (rule reads_tool) (cases args; simp add: is_change_def)

lemma reads_pactl [reading]: "\<not> has_prefix (hd args) ''set-'' \<Longrightarrow> args \<noteq> [] \<Longrightarrow> only_reads (pactl A args)"
  unfolding pactl_def by (rule reads_tool) (cases args; simp add: is_change_def)

lemma reads_answers [reading]: "\<not> is_change args \<Longrightarrow> only_reads (answers_to A args)"
  by (auto simp: only_reads_def answers_to_def run_tool_def split: option.split)

lemma reads_then:
  assumes "only_reads (\<lambda>h. f (fst (m h)) (snd (m h)))"
  shows "only_reads (\<lambda>h. case m h of (r, h') \<Rightarrow> f r h')"
  using assms by (simp add: case_prod_beta)

lemma reads_ignore:
  assumes "only_reads m" "\<And>r. only_reads (f r)"
  shows "only_reads (\<lambda>h. case m h of (r, h') \<Rightarrow> f r h')"
  unfolding only_reads_def
proof
  fix h
  obtain c where c: "snd (m h) = h @ c" "\<not> list_ex is_change c" by (rule only_readsE [OF assms(1)])
  obtain d where d: "snd (f (fst (m h)) (h @ c)) = (h @ c) @ d" "\<not> list_ex is_change d"
    by (rule only_readsE [OF assms(2)])
  have "snd (case m h of (r, h') \<Rightarrow> f r h') = h @ (c @ d)"
    using c(1) d(1) by (simp add: case_prod_beta)
  then show "\<exists>c. snd (case m h of (r, h') \<Rightarrow> f r h') = h @ c \<and> \<not> list_ex is_change c"
    using c(2) d(2) by (metis list_ex_append)
qed

lemma reads_inspect:
  assumes "only_reads m"
  shows "only_reads (\<lambda>h. case wpctl A [''inspect'', n] h of (r, h') \<Rightarrow>
    au_bind m (\<lambda>rest. au_return (Inr (k r # rest))) h')"
  by (rule reads_ignore, rule reads_wpctl) (simp_all add: has_prefix_def reads_bind reads_return assms)

lemma reads_scan [reading]: "only_reads (scan_sinks A ls a s)"
proof (induction ls arbitrary: a s)
  case Nil
  show ?case by (simp add: reading)
next
  case (Cons l ls)
  show ?case
  proof (cases "find_match sink_line_re l")
    case None
    then show ?thesis by (simp add: Let_def Cons.IH)
  next
    case (Some m)
    obtain star n name where m: "m = (star, n, name)" by (cases m)
    show ?thesis
      using reads_inspect [OF Cons.IH] by (simp add: Let_def Cons.IH Some m)
  qed
qed

lemma reads_sinks [reading]: "only_reads (list_audio_sinks A)"
  unfolding list_audio_sinks_def by (intro reading) (simp_all add: has_prefix_def)

lemma reads_devices [reading]: "only_reads (sink_devices A ss)"
proof (induction ss)
  case Nil
  show ?case by (simp add: reading)
next
  case (Cons s ss)
  have "only_reads (wpctl A [''get-volume'', sink_id s])" by (rule reads_wpctl) (simp_all add: has_prefix_def)
  then show ?case using Cons by (auto intro!: reads_bind reads_return split: prod.split)
qed

lemma reads_sink_id [reading]: "only_reads (audio_sink_id A n)"
  unfolding audio_sink_id_def by (intro reading)

lemma reads_pactl_devices [reading]: "only_reads (list_pactl_devices A)"
  unfolding list_pactl_devices_def Let_def by (intro reading) (simp_all add: has_prefix_def)

lemma reads_sink_name [reading]: "only_reads (pulse_sink_name A n)"
  unfolding pulse_sink_name_def by (intro reading)

lemma reads_backend [reading]: "only_reads (detect_audio_backend A)"
proof -
  have "\<not> is_change [''wpctl'', ''status'']" "\<not> is_change [''pactl'', ''info'']"
    by (simp_all add: is_change_def has_prefix_def)
  then show ?thesis unfolding detect_audio_backend_def
    by (auto intro!: reads_bind reads_answers reads_return)
qed

lemma reads_state: "only_reads (system_audio_state A)"
  unfolding system_audio_state_def list_audio_output_devices_def list_wpctl_devices_def
  by (intro reading) (auto intro: reading split: audio_backend.split)

text \<open>What a setter does: it reads, and then runs one command or none.\<close>

definition one_change :: "(string \<Rightarrow> bool) \<Rightarrow> unit audio_op \<Rightarrow> bool" where
  "one_change ok m \<longleftrightarrow> (\<forall>h. \<exists>c. \<not> list_ex is_change c \<and>
     (snd (m h) = h @ c \<and> fst (m h) \<noteq> Inr () \<or>
      (\<exists>tool verb target v. snd (m h) = h @ c @ [tool # verb # target # v] \<and>
         has_prefix verb ''set-'' \<and> ok target)))"

lemma one_change_error: "one_change ok (au_return (Inl e))"
  by (auto simp: one_change_def au_return_def intro!: exI [of _ "[]"])

lemma one_change_bind:
  assumes "only_reads m" "\<And>x. one_change ok (f x)" shows "one_change ok (au_bind m f)"
  unfolding one_change_def
proof
  fix h
  obtain c where c: "snd (m h) = h @ c" "\<not> list_ex is_change c" by (rule only_readsE [OF assms(1)])
  show "\<exists>c. \<not> list_ex is_change c \<and> (snd (au_bind m f h) = h @ c \<and> fst (au_bind m f h) \<noteq> Inr () \<or>
      (\<exists>tool verb target v. snd (au_bind m f h) = h @ c @ [tool # verb # target # v] \<and>
         has_prefix verb ''set-'' \<and> ok target))"
  proof (cases "fst (m h)")
    case (Inl e)
    then have "au_bind m f h = (Inl e, h @ c)" using c(1) by (cases "m h") (simp add: au_bind_def)
    then show ?thesis using c(2) by (intro exI [of _ c]) simp
  next
    case (Inr x)
    have b: "au_bind m f h = f x (h @ c)" using c(1) Inr by (cases "m h") (simp add: au_bind_def)
    obtain d where d: "\<not> list_ex is_change d" and
      e: "snd (f x (h @ c)) = (h @ c) @ d \<and> fst (f x (h @ c)) \<noteq> Inr () \<or>
        (\<exists>tool verb target v. snd (f x (h @ c)) = (h @ c) @ d @ [tool # verb # target # v] \<and>
          has_prefix verb ''set-'' \<and> ok target)"
      using assms(2) [of x] unfolding one_change_def by blast
    show ?thesis unfolding b using c(2) d e by (intro exI [of _ "c @ d"]) simp
  qed
qed

lemma au_bind_Inr: "au_bind m f h = (Inr y, h') \<longleftrightarrow> (\<exists>x u. m h = (Inr x, u) \<and> f x u = (Inr y, h'))"
  by (auto simp: au_bind_def split: prod.splits sum.splits)

lemma one_change_set:
  assumes "only_reads m" "\<And>h t h'. m h = (Inr t, h') \<Longrightarrow> ok t" "has_prefix verb ''set-''"
    and "\<And>t. cmd t = (\<lambda>h. run_tool A (tool # verb # t # v) h)"
  shows "one_change ok (done_with (au_bind m cmd))"
  unfolding one_change_def
proof
  fix h
  obtain c where c: "snd (m h) = h @ c" "\<not> list_ex is_change c" by (rule only_readsE [OF assms(1)])
  show "\<exists>c. \<not> list_ex is_change c \<and> (snd (done_with (au_bind m cmd) h) = h @ c \<and>
        fst (done_with (au_bind m cmd) h) \<noteq> Inr () \<or>
      (\<exists>tool verb target v. snd (done_with (au_bind m cmd) h) = h @ c @ [tool # verb # target # v] \<and>
         has_prefix verb ''set-'' \<and> ok target))"
  proof (cases "fst (m h)")
    case (Inl e)
    then have "done_with (au_bind m cmd) h = (Inl e, h @ c)"
      using c(1) by (cases "m h") (simp add: au_bind_def done_with_def)
    then show ?thesis using c(2) by (intro exI [of _ c]) simp
  next
    case (Inr t)
    then have m: "m h = (Inr t, h @ c)" using c(1) by (cases "m h") simp
    have "snd (done_with (au_bind m cmd) h) = h @ c @ [tool # verb # t # v]"
      by (simp add: done_with_def au_bind_def m assms(4) run_tool_def au_return_def split: option.split)
    moreover have "ok t" using assms(2) [OF m] .
    ultimately show ?thesis using c(2) assms(3) by blast
  qed
qed

datatype audio_change = ChangeVolume string float64 | ChangeMuted string bool | ChangeDefault string

fun change_audio :: "audio_tools \<Rightarrow> audio_change \<Rightarrow> unit audio_op" where
  "change_audio A (ChangeVolume n v) = set_output_device_volume A n v"
| "change_audio A (ChangeMuted n m) = set_output_device_muted A n m"
| "change_audio A (ChangeDefault n) = set_default_output_device A n"

text \<open>What a target was found by: a listed sink, and the one asked for if one was named.\<close>

definition listed_for :: "audio_tools \<Rightarrow> string \<Rightarrow> string \<Rightarrow> bool" where
  "listed_for A name target \<longleftrightarrow>
     (\<exists>h ds h' d. list_pactl_devices A h = (Inr ds, h') \<and> d \<in> set ds \<and> ad_name d = target \<and>
        (if name = [] then ad_default d else ad_name d = name)) \<or>
     (\<exists>h ss h' s. list_audio_sinks A h = (Inr ss, h') \<and> s \<in> set ss \<and> sink_id s = target \<and>
        (if name = [] then sink_default s else name = sink_name s \<or> name = sink_id s))"

lemma found_sink: "audio_sink_id A name h = (Inr t, h') \<Longrightarrow> listed_for A name t"
proof -
  assume "audio_sink_id A name h = (Inr t, h')"
  then obtain ss u where l: "list_audio_sinks A h = (Inr ss, u)"
    and f: "(case find (\<lambda>s. name = [] \<and> sink_default s \<or> name \<noteq> [] \<and> (sink_name s = name \<or> sink_id s = name)) ss of
       Some s \<Rightarrow> Inr (sink_id s) | None \<Rightarrow> Inl (AudioNotFound name)) = Inr t"
    unfolding audio_sink_id_def au_bind_Inr by (auto simp: au_return_def)
  from f obtain s where "s \<in> set ss" "sink_id s = t"
    "name = [] \<and> sink_default s \<or> name \<noteq> [] \<and> (sink_name s = name \<or> sink_id s = name)"
    by (auto simp: find_Some_iff in_set_conv_nth split: option.splits)
  then have "s \<in> set ss \<and> sink_id s = t \<and> (if name = [] then sink_default s else name = sink_name s \<or> name = sink_id s)"
    by auto
  then show ?thesis unfolding listed_for_def using l by blast
qed

lemma found_device: "pulse_sink_name A name h = (Inr t, h') \<Longrightarrow> listed_for A name t"
proof -
  assume "pulse_sink_name A name h = (Inr t, h')"
  then obtain ds u where l: "list_pactl_devices A h = (Inr ds, u)"
    and f: "(case find (\<lambda>d. name = [] \<and> ad_default d \<or> name \<noteq> [] \<and> ad_name d = name) ds of
       Some d \<Rightarrow> Inr (ad_name d) | None \<Rightarrow> Inl (AudioNotFound name)) = Inr t"
    unfolding pulse_sink_name_def au_bind_Inr by (auto simp: au_return_def)
  from f obtain d where "d \<in> set ds" "ad_name d = t" "name = [] \<and> ad_default d \<or> name \<noteq> [] \<and> ad_name d = name"
    by (auto simp: find_Some_iff in_set_conv_nth split: option.splits)
  then have "d \<in> set ds \<and> ad_name d = t \<and> (if name = [] then ad_default d else ad_name d = name)" by auto
  then show ?thesis unfolding listed_for_def using l by blast
qed

lemmas set_wpctl_defs = set_wpctl_volume_def set_wpctl_muted_def set_wpctl_default_def wpctl_def
lemmas set_pactl_defs = set_pactl_volume_def set_pactl_muted_def set_pactl_default_def pactl_def

lemma set_verbs:
  "has_prefix ''set-volume'' ''set-''" "has_prefix ''set-mute'' ''set-''" "has_prefix ''set-default'' ''set-''"
  "has_prefix ''set-sink-volume'' ''set-''" "has_prefix ''set-sink-mute'' ''set-''"
  "has_prefix ''set-default-sink'' ''set-''"
  by (simp_all add: has_prefix_def)

lemma wpctl_change:
  "one_change (listed_for A n) (done_with (set_wpctl_volume A n v))"
  "one_change (listed_for A n) (done_with (set_wpctl_muted A n m))"
  "one_change (listed_for A n) (done_with (set_wpctl_default A n))"
  unfolding set_wpctl_defs
  by (rule one_change_set [OF reads_sink_id found_sink], assumption, rule set_verbs, rule refl)+

lemma pactl_change:
  "one_change (listed_for A n) (done_with (set_pactl_volume A n v))"
  "one_change (listed_for A n) (done_with (set_pactl_muted A n m))"
  "one_change (listed_for A n) (done_with (set_pactl_default A n))"
  unfolding set_pactl_defs
  by (rule one_change_set [OF reads_sink_name found_device], assumption, rule set_verbs, rule refl)+

lemma backend_change:
  assumes "one_change ok w" "one_change ok p"
  shows "one_change ok (au_bind (detect_audio_backend A) (\<lambda>b. case b of
     BackendPipeWire \<Rightarrow> w | BackendPulse \<Rightarrow> p | BackendNone \<Rightarrow> au_return (Inl AudioNoServer)))"
  by (rule one_change_bind [OF reads_backend]) (use assms one_change_error in \<open>simp split: audio_backend.split\<close>)

fun named_device :: "audio_change \<Rightarrow> string" where
  "named_device (ChangeVolume n _) = n"
| "named_device (ChangeMuted n _) = n"
| "named_device (ChangeDefault n) = n"

lemma change_audio_once: "one_change (listed_for A (named_device c)) (change_audio A c)"
  by (cases c)
    (simp_all add: set_output_device_volume_def set_output_device_muted_def set_default_output_device_def
      one_change_error backend_change wpctl_change pactl_change)

subsection \<open>What pactl prints\<close>

text \<open>
  The lines of one sink in the output of \<open>pactl list sinks\<close>; \<open>LOther\<close> is any line the scan has no
  use for (state, driver, ports). \<open>LVolume pre p post\<close> holds the first percentage of the line.
\<close>

datatype sink_line = LName string | LDescription string | LMute bool | LVolume string nat string | LOther string

fun line_text :: "sink_line \<Rightarrow> string" where
  "line_text (LName n) = ''Name: '' @ n"
| "line_text (LDescription d) = ''Description: '' @ d"
| "line_text (LMute m) = ''Mute: '' @ (if m then ''yes'' else ''no'')"
| "line_text (LVolume pre p post) = ''Volume: '' @ pre @ dec_nat p @ ''%'' @ post"
| "line_text (LOther s) = s"

fun apply_line :: "sink_line \<Rightarrow> audio_device \<Rightarrow> audio_device" where
  "apply_line (LName n) d = d\<lparr>ad_name := n\<rparr>"
| "apply_line (LDescription s) d = d\<lparr>ad_description := s\<rparr>"
| "apply_line (LMute m) d = d\<lparr>ad_muted := m\<rparr>"
| "apply_line (LVolume pre p post) d =
     (if ad_volume d = Fin 0 then d\<lparr>ad_volume := Fin (min (real p / 100) 1)\<rparr> else d)"
| "apply_line (LOther s) d = d"

fun line_ok :: "sink_line \<Rightarrow> bool" where
  "line_ok (LName n) \<longleftrightarrow> trim_space n = n"
| "line_ok (LDescription s) \<longleftrightarrow> trim_space s = s"
| "line_ok (LMute m) \<longleftrightarrow> True"
| "line_ok (LVolume pre p post) \<longleftrightarrow> CHR ''%'' \<notin> set pre \<and> (pre = [] \<or> \<not> is_digit (last pre))"
| "line_ok (LOther s) \<longleftrightarrow>
     \<not> has_prefix s ''Name:'' \<and> \<not> has_prefix s ''Description:'' \<and> \<not> has_prefix s ''Mute:'' \<and> \<not> has_prefix s ''Volume:''"

definition printed_ok :: "sink_line \<Rightarrow> bool" where
  "printed_ok l \<longleftrightarrow> line_ok l \<and> trim_space (line_text l) = line_text l \<and> newline \<notin> set (line_text l)"

definition print_line :: "sink_line \<Rightarrow> string" where
  "print_line l = CHR 0x09 # line_text l"

definition print_sink :: "nat \<times> sink_line list \<Rightarrow> string list" where
  "print_sink b = (''Sink #'' @ dec_nat (fst b)) # map print_line (snd b)"

definition printed_device :: "nat \<times> sink_line list \<Rightarrow> audio_device" where
  "printed_device b = fold apply_line (snd b) empty_device"

lemma trim_blank: "trim_space (CHR 0x09 # s) = trim_space s" "trim_space (CHR 0x20 # s) = trim_space s"
proof -
  have "strip_seqs space_seqs (CHR 0x09 # s) = strip_seqs space_seqs s"
    by (subst strip_seqs.simps) (simp add: space_seqs_def has_prefix_def)
  then show "trim_space (CHR 0x09 # s) = trim_space s" by (simp add: trim_space_def)
  have "strip_seqs space_seqs (CHR 0x20 # s) = strip_seqs space_seqs s"
    by (subst strip_seqs.simps) (simp add: space_seqs_def has_prefix_def)
  then show "trim_space (CHR 0x20 # s) = trim_space s" by (simp add: trim_space_def)
qed

lemma after_label_eq: "trim_space s = s \<Longrightarrow> after_label (p @ CHR 0x20 # s) p = s"
  by (simp add: after_label_def trim_prefix_def trim_blank)

lemma digits_value_snoc: "digits_value (ds @ [c]) = 10 * digits_value ds + (of_char c - 48)"
  by (simp add: digits_value_def)

lemma digits_value_one: "digits_value [c] = of_char c - 48"
  by (simp add: digits_value_def)

lemma digits_value_dec: "digits_value (dec_nat n) = n"
proof (induction n rule: less_induct)
  case (less n)
  have "digits_value (dec_nat (n div 10)) = n div 10" if "10 \<le> n" using less that by simp
  then show ?case by (subst dec_nat.simps) (simp add: digits_value_one digits_value_snoc)
qed

lemma take_digits: "takeWhile is_digit (dec_nat n @ c # s) = dec_nat n" if "\<not> is_digit c"
  using that dec_nat_digits [of n] by (simp add: takeWhile_append2)

lemma percent_at: "percent_re (dec_nat p @ CHR ''%'' # s) = Some (dec_nat p)"
  using take_digits [of "CHR ''%''" p s] by (simp add: percent_re_def Let_def is_digit_def)

lemma percent_not_before:
  assumes "b \<noteq> []" "CHR ''%'' \<notin> set b" "\<not> is_digit (last b)"
  shows "percent_re (b @ s) = None"
proof -
  obtain x where x: "x \<in> set b" "\<not> is_digit x" using assms(1,3) last_in_set by blast
  have t: "takeWhile is_digit (b @ s) = takeWhile is_digit b" using x by (rule takeWhile_append1)
  have "takeWhile is_digit b \<noteq> b" using x by (metis set_takeWhileD)
  then obtain y z where d: "dropWhile is_digit b = y # z" by (metis append_Nil2 list.exhaust takeWhile_dropWhile_id)
  have y: "y \<in> set b" by (metis d in_set_conv_decomp takeWhile_dropWhile_id)
  have "b @ s = takeWhile is_digit b @ ((y # z) @ s)" unfolding d [symmetric] by simp
  then have r: "drop (length (takeWhile is_digit b)) (b @ s) = (y # z) @ s" by (metis append_eq_conv_conj)
  have "y \<noteq> CHR ''%''" using y assms(2) by blast
  then show ?thesis unfolding percent_re_def t r Let_def by simp
qed

lemma first_percent:
  assumes "CHR ''%'' \<notin> set pre" "pre = [] \<or> \<not> is_digit (last pre)"
  shows "find_match percent_re (''Volume: '' @ pre @ dec_nat p @ ''%'' @ post) = Some (dec_nat p)"
proof -
  let ?p = "''Volume: '' @ pre"
  have l: "\<not> is_digit (last ?p)" "CHR ''%'' \<notin> set ?p"
    using assms by (auto simp: is_digit_def)
  have "find_match percent_re (?p @ (dec_nat p @ CHR ''%'' # post)) = Some (dec_nat p)"
  proof (rule find_match_skip)
    fix a b assume e: "?p = a @ b" and b: "b \<noteq> []"
    have "last b = last ?p" "set b \<subseteq> set ?p" using e b by simp_all
    then show "percent_re (b @ dec_nat p @ CHR ''%'' # post) = None"
      using l b by (intro percent_not_before) auto
  qed (rule percent_at)
  then show ?thesis by simp
qed

lemma device_line_volume:
  assumes "has_prefix t ''Volume:''" "\<not> has_prefix t ''Name:''" "\<not> has_prefix t ''Description:''"
    "\<not> has_prefix t ''Mute:''" "find_match percent_re t = Some (dec_nat p)"
  shows "device_line t d = (if ad_volume d = Fin 0 then d\<lparr>ad_volume := Fin (min (real p / 100) 1)\<rparr> else d)"
  using assms by (simp add: device_line_def digits_value_dec)

lemma scan_header: "has_prefix l ''Sink #'' \<Longrightarrow>
  scan_pactl dflt (l # ls) cur = flush_device dflt cur @ scan_pactl dflt ls (Some empty_device)"
  by simp

lemma device_line_printed:
  assumes "printed_ok l" shows "device_line (trim_space (print_line l)) d = apply_line l d"
proof -
  have t: "trim_space (print_line l) = line_text l"
    using assms by (simp add: printed_ok_def print_line_def trim_blank)
  show ?thesis unfolding t
  proof (cases l)
    case (LName n)
    then have "after_label (line_text l) ''Name:'' = n"
      using assms after_label_eq [of n "''Name:''"] by (simp add: printed_ok_def)
    then show "device_line (line_text l) d = apply_line l d"
      using LName by (simp add: device_line_def has_prefix_def)
  next
    case (LDescription n)
    then have "after_label (line_text l) ''Description:'' = n"
      using assms after_label_eq [of n "''Description:''"] by (simp add: printed_ok_def)
    then show "device_line (line_text l) d = apply_line l d"
      using LDescription by (simp add: device_line_def has_prefix_def)
  next
    case (LMute m)
    have y: "trim_space (if m then ''yes'' else ''no'') = (if m then ''yes'' else ''no'')"
      by (cases m) (simp_all, code_simp+)
    then have "after_label (line_text l) ''Mute:'' = (if m then ''yes'' else ''no'')"
      using LMute after_label_eq [OF y, of "''Mute:''"] by simp
    then show "device_line (line_text l) d = apply_line l d"
      using LMute by (simp add: device_line_def has_prefix_def)
  next
    case (LVolume pre p post)
    then have f: "find_match percent_re (line_text l) = Some (dec_nat p)"
      using assms first_percent [of pre p post] by (simp add: printed_ok_def)
    have h: "has_prefix (line_text l) ''Volume:''" "\<not> has_prefix (line_text l) ''Name:''"
      "\<not> has_prefix (line_text l) ''Description:''" "\<not> has_prefix (line_text l) ''Mute:''"
      using LVolume by (simp_all add: has_prefix_def)
    show "device_line (line_text l) d = apply_line l d"
      using device_line_volume [OF h f] LVolume by simp
  next
    case (LOther s)
    then show "device_line (line_text l) d = apply_line l d"
      using assms by (simp add: device_line_def printed_ok_def)
  qed
qed

lemma scan_lines:
  "list_all printed_ok ls \<Longrightarrow>
   scan_pactl dflt (map print_line ls @ rest) (Some d) = scan_pactl dflt rest (Some (fold apply_line ls d))"
proof (induction ls arbitrary: d)
  case (Cons l ls)
  have "\<not> has_prefix (print_line l) ''Sink #''" by (simp add: print_line_def has_prefix_def)
  then show ?case using Cons by (simp add: device_line_printed)
qed simp

lemma scan_sink:
  assumes "list_all printed_ok (snd b)"
  shows "scan_pactl dflt (print_sink b @ rest) cur =
    flush_device dflt cur @ scan_pactl dflt rest (Some (printed_device b))"
proof -
  have "has_prefix (''Sink #'' @ dec_nat (fst b)) ''Sink #''" by (rule has_prefix_append)
  from scan_header [OF this, of dflt "map print_line (snd b) @ rest" cur] show ?thesis
    unfolding print_sink_def printed_device_def append_Cons scan_lines [OF assms] .
qed

lemma scan_all:
  "list_all (\<lambda>b. list_all printed_ok (snd b)) bs \<Longrightarrow>
   scan_pactl dflt (concat (map print_sink bs)) cur =
     flush_device dflt cur @ concat (map (\<lambda>b. flush_device dflt (Some (printed_device b))) bs)"
proof (induction bs arbitrary: cur)
  case (Cons b bs)
  then show ?case using scan_sink [of b dflt "concat (map print_sink bs)" cur] by simp
qed simp

lemma newline_not_dec: "newline \<notin> set (dec_nat n)"
  using dec_nat_digits [of n] by (auto simp: newline_def is_digit_def)

lemma print_sink_lines:
  "list_all printed_ok (snd b) \<Longrightarrow> p \<in> set (print_sink b) \<Longrightarrow> newline \<notin> set p"
  using newline_not_dec [of "fst b"]
  by (auto simp: print_sink_def print_line_def printed_ok_def list_all_iff newline_def)

definition named :: "nat \<times> sink_line list \<Rightarrow> bool" where
  "named b \<longleftrightarrow> list_all printed_ok (snd b) \<and> ad_name (printed_device b) \<noteq> []"

definition finished_device :: "string \<Rightarrow> nat \<times> sink_line list \<Rightarrow> audio_device" where
  "finished_device dflt b =
     (let d = printed_device b
      in d\<lparr>ad_description := (if ad_description d = [] then ad_name d else ad_description d),
           ad_default := (ad_name d = dflt)\<rparr>)"

lemma flush_named: "named b \<Longrightarrow> flush_device dflt (Some (printed_device b)) = [finished_device dflt b]"
  by (simp add: named_def flush_device_def finished_device_def Let_def)

lemma scan_printed:
  assumes "list_all named bs" "bs \<noteq> []"
  shows "scan_pactl dflt (split_on newline (join_with [newline] (concat (map print_sink bs)))) None =
    map (finished_device dflt) bs"
proof -
  have ok: "list_all (\<lambda>b. list_all printed_ok (snd b)) bs"
    using assms(1) by (simp add: list_all_iff named_def)
  have "concat (map print_sink bs) \<noteq> []" using assms(2) by (cases bs) (simp_all add: print_sink_def)
  moreover have "\<forall>p \<in> set (concat (map print_sink bs)). newline \<notin> set p"
    using ok print_sink_lines by (fastforce simp: list_all_iff)
  ultimately have "split_on newline (join_with [newline] (concat (map print_sink bs))) = concat (map print_sink bs)"
    by (rule split_join_with)
  then show ?thesis
    using scan_all [OF ok, of dflt None] assms(1)
    by (simp add: flush_device_def [of dflt None] list_all_iff flush_named cong: map_cong)
qed

subsection \<open>Properties\<close>

text \<open>C28. A change of volume, mute or default output runs at most one command that changes anything,
  as the last one, and that command names a sink the sound server has listed, the requested one or
  the default; when the operation fails before, nothing has been changed, and when it succeeds
  the command was run.\<close>

theorem audio_changes_one_listed_sink:
  "\<exists>cmds. list_all (\<lambda>x. is_change x = False) cmds \<and>
     ((\<exists>e. change_audio A c h = (Inl e, h @ cmds)) \<or>
      (\<exists>r tool verb target v. change_audio A c h = (r, h @ cmds @ [tool # verb # target # v]) \<and>
         has_prefix verb ''set-'' \<and> listed_for A (named_device c) target))"
proof -
  obtain cmds where c: "\<not> list_ex is_change cmds" and
    e: "snd (change_audio A c h) = h @ cmds \<and> fst (change_audio A c h) \<noteq> Inr () \<or>
      (\<exists>tool verb target v. snd (change_audio A c h) = h @ cmds @ [tool # verb # target # v] \<and>
         has_prefix verb ''set-'' \<and> listed_for A (named_device c) target)"
    using change_audio_once [of A c] unfolding one_change_def by blast
  have l: "list_all (\<lambda>x. is_change x = False) cmds" using c by (auto simp: list_ex_iff list_all_iff)
  from e show ?thesis
  proof (elim disjE conjE exE)
    assume "snd (change_audio A c h) = h @ cmds" "fst (change_audio A c h) \<noteq> Inr ()"
    then have "\<exists>e. change_audio A c h = (Inl e, h @ cmds)"
      by (cases "change_audio A c h"; cases "fst (change_audio A c h)") auto
    then show ?thesis using l by blast
  next
    fix tool verb target v
    assume "snd (change_audio A c h) = h @ cmds @ [tool # verb # target # v]"
      "has_prefix verb ''set-''" "listed_for A (named_device c) target"
    then show ?thesis using l by (metis prod.collapse)
  qed
qed

text \<open>Listing the outputs reads back what \<open>pactl\<close> prints: for every list of sinks with a name, in
  whatever order their lines come and with whatever other lines between them, the devices are
  exactly those sinks, with the name as the missing description, the first percentage as the
  volume and the server's default marked.\<close>

theorem pactl_list_roundtrip:
  assumes "list_all named bs" "bs \<noteq> []"
    and "exec_tool A h [''pactl'', ''info''] = Some info"
    and "exec_tool A (h @ [[''pactl'', ''info'']]) [''pactl'', ''list'', ''sinks''] =
      Some (join_with [newline] (concat (map print_sink bs)))"
  shows "list_pactl_devices A h =
    (Inr (map (finished_device (default_sink (split_on newline info) [])) bs),
     h @ [[''pactl'', ''info''], [''pactl'', ''list'', ''sinks'']])"
  using assms(2) unfolding list_pactl_devices_def
  by (simp add: au_bind_def pactl_def run_tool_def assms(3,4) scan_printed [OF assms(1,2)] au_return_def Let_def)

definition speaker :: "nat \<times> sink_line list" where
  "speaker = (3, [LOther ''State: RUNNING'', LName ''alsa_output'', LMute True,
     LVolume ''front-left: 26214 /  '' 40 '' / -23.88 dB''])"

definition one_sink :: audio_tools where
  "one_sink = \<lparr>exec_tool = (\<lambda>h args. if h = [] then Some ''Default Sink: alsa_output''
       else Some (join_with [newline] (concat (map print_sink [speaker])))),
     on_path = (\<lambda>p. p = ''pactl''), parse_float = (\<lambda>_. None)\<rparr>"

lemma one_sink_runs:
  "exec_tool one_sink [] a = Some ''Default Sink: alsa_output''"
  "exec_tool one_sink (h @ [c]) a = Some (join_with [newline] (concat (map print_sink [speaker])))"
  unfolding one_sink_def audio_tools.select_convs by (simp_all only: append_is_Nil_conv list.simps if_False if_True refl simp_thms)

lemma speaker_lines: "list_all printed_ok (snd speaker)"
proof -
  have "printed_ok (LOther ''State: RUNNING'')" "printed_ok (LName ''alsa_output'')" "printed_ok (LMute True)"
    "printed_ok (LVolume ''front-left: 26214 /  '' 40 '' / -23.88 dB'')"
    by code_simp+
  then show ?thesis by (simp add: speaker_def)
qed

lemma speaker_device:
  "printed_device speaker = \<lparr>ad_name = ''alsa_output'', ad_description = [], ad_volume = Fin (2 / 5),
     ad_muted = True, ad_default = False\<rparr>"
  unfolding printed_device_def speaker_def snd_conv fold.simps apply_line.simps empty_device_def comp_apply id_apply
  by (simp only: audio_device.simps if_True refl) simp

lemma speaker_named: "named speaker"
  unfolding named_def by (simp add: speaker_lines speaker_device)

lemma default_speaker: "default_sink (split_on newline ''Default Sink: alsa_output'') [] = ''alsa_output''"
  by code_simp

lemma pactl_list_roundtrip_witness:
  "\<exists>h. list_pactl_devices one_sink [] =
     (Inr [\<lparr>ad_name = ''alsa_output'', ad_description = ''alsa_output'', ad_volume = Fin (2 / 5),
            ad_muted = True, ad_default = True\<rparr>], h)"
proof -
  have "list_all named [speaker]" "[speaker] \<noteq> []" by (simp_all add: speaker_named)
  from pactl_list_roundtrip [OF this one_sink_runs(1) one_sink_runs(2)]
  have "list_pactl_devices one_sink [] = (Inr (map (finished_device ''alsa_output'') [speaker]),
      [] @ [[''pactl'', ''info''], [''pactl'', ''list'', ''sinks'']])"
    unfolding default_speaker .
  moreover have "finished_device ''alsa_output'' speaker = \<lparr>ad_name = ''alsa_output'',
      ad_description = ''alsa_output'', ad_volume = Fin (2 / 5), ad_muted = True, ad_default = True\<rparr>"
    unfolding finished_device_def speaker_device Let_def by simp
  ultimately show ?thesis by simp
qed

end
