(* ===== verification/Media_Session.thy ===== *)
theory Media_Session
  imports Session_Core Media_Players Artwork Remote_Input System_Audio
begin

text \<open>
  Media control over the session (\<open>libquava/session/media.go\<close>), on the MPRIS service of theory
  \<open>Media_Players\<close> and the artwork of theory \<open>Artwork\<close>, and \<open>handleUnsolicited\<close> of
  \<open>libquava/session/session.go\<close>, which needs all the handlers.

  \<open>service\<close> is the package variable \<open>hostMedia.service\<close>. The environment \<open>media_env\<close> holds what
  comes from outside: the bus, the sound programs (theory \<open>System_Audio\<close>; \<open>audio_log\<close> are the
  commands run), the icon lookup, the images, and whether the context is alive. Of a subscription
  that ends, the events not yet relayed are dropped. \<open>describe\<close> is the text of an error, \<open>next_txs\<close> the results of the random generator (it
  does not fail once the list is used up). An error of \<open>nil\<close> is \<open>None\<close>.
\<close>

subsection \<open>State\<close>

datatype media_error =
    MeUnavailable | MeMpris mpris_error | MeNoBusName | MeLoop string | MeVolume | MeUnknown string
  | MePayload wire_error | MeNoVolume | MeNoMute | MeAudio audio_error | MeWrite | MeRandom | MeContext

record media_world =
  events :: event_world
  service :: "mpris option"
  icons_sent :: "string list"
  artwork_cache :: artwork_lru
  audio_log :: "string list list"
  next_txs :: "bytes option list"

record 'p media_env =
  env_bus :: bus
  env_audio :: audio_tools
  env_icon :: "string \<Rightarrow> string \<Rightarrow> bytes"
  env_images :: "'p image_lib"
  env_io :: artwork_io
  env_alive :: bool
  describe :: "media_error \<Rightarrow> string"

record media_command =
  mc_command :: string
  mc_bus_name :: string
  mc_offset_ms :: "64 word"
  mc_position_ms :: "64 word"
  mc_enabled :: bool
  mc_loop_status :: string
  mc_volume :: float64

definition media_service :: "media_world \<Rightarrow> media_error + mpris" where
  "media_service w = (case service w of None \<Rightarrow> Inl MeUnavailable | Some s \<Rightarrow> Inr s)"

definition mpris_result :: "mpris_error option \<times> mpris \<Rightarrow> media_world \<Rightarrow> media_error option \<times> media_world" where
  "mpris_result r w = (map_option MeMpris (fst r), w\<lparr>service := Some (snd r)\<rparr>)"

subsection \<open>The players\<close>

definition start_media :: "bool \<Rightarrow> bool \<Rightarrow> 'p media_env \<Rightarrow> media_world \<Rightarrow> media_error option \<times> media_world" where
  "start_media conn_ok match_ok env w =
     (case service w of
        Some _ \<Rightarrow> (None, w)
      | None \<Rightarrow>
          (case start_mpris conn_ok match_ok (env_bus env) new_mpris of
             (Some e, _) \<Rightarrow> (Some (MeMpris e), w)
           | (None, s) \<Rightarrow> (None, w\<lparr>service := Some s\<rparr>)))"

text \<open>The result is the service that was released.\<close>

definition stop_media :: "media_world \<Rightarrow> mpris option \<times> media_world" where
  "stop_media w = (map_option stop_mpris (service w), w\<lparr>service := None\<rparr>)"

definition list_media_players :: "media_world \<Rightarrow> media_error + media_player list" where
  "list_media_players w = bind_r (media_service w) (\<lambda>s. Inr (list_players s))"

definition active_media_player :: "media_world \<Rightarrow> media_error + media_player" where
  "active_media_player w =
     bind_r (media_service w) (\<lambda>s. case the_active_player s of Inl e \<Rightarrow> Inl (MeMpris e) | Inr p \<Rightarrow> Inr p)"

definition set_active_media_player :: "string \<Rightarrow> media_world \<Rightarrow> media_error option \<times> media_world" where
  "set_active_media_player n w =
     (case media_service w of
        Inl e \<Rightarrow> (Some e, w)
      | Inr s \<Rightarrow>
          if trim_space n = [] then (Some MeNoBusName, w)
          else mpris_result (set_active_player (trim_space n) s) w)"

definition use_automatic_media_player :: "media_world \<Rightarrow> media_error option \<times> media_world" where
  "use_automatic_media_player w =
     (case media_service w of
        Inl e \<Rightarrow> (Some e, w)
      | Inr s \<Rightarrow> (None, w\<lparr>service := Some (use_automatic_player s)\<rparr>))"

text \<open>\<open>time.Duration(ms) * time.Millisecond\<close>, which wraps.\<close>

definition milliseconds :: "64 word \<Rightarrow> 64 word" where
  "milliseconds ms = ms * 1000000"

definition above_one :: "float64 \<Rightarrow> bool" where
  "above_one v = (case v of Fin r \<Rightarrow> r > 1 | PosInf \<Rightarrow> True | _ \<Rightarrow> False)"

definition run_media_command :: "bus \<Rightarrow> media_command \<Rightarrow> string \<Rightarrow> mpris \<Rightarrow> media_error option \<times> mpris" where
  "run_media_command b c n s =
     (let act = (\<lambda>r. (map_option MeMpris (fst r), snd r)); cmd = mc_command c
      in if cmd = ''media-play-pause'' then act (play_pause b n s)
         else if cmd = ''media-next'' then act (next_track b n s)
         else if cmd = ''media-previous'' then act (previous_track b n s)
         else if cmd = ''media-play'' then act (play b n s)
         else if cmd = ''media-pause'' then act (pause b n s)
         else if cmd = ''media-stop'' then act (stop_playback b n s)
         else if cmd = ''media-seek'' then act (seek b n (milliseconds (mc_offset_ms c)) s)
         else if cmd = ''media-seek-to'' then act (seek_to b n (milliseconds (mc_position_ms c)) s)
         else if cmd = ''media-shuffle'' then act (set_shuffle b n (mc_enabled c) s)
         else if cmd = ''media-loop'' then
           (if mc_loop_status c \<notin> {''None'', ''Track'', ''Playlist''} then (Some (MeLoop (mc_loop_status c)), s)
            else act (set_loop_status b n (mc_loop_status c) s))
         else if cmd = ''media-volume'' then
           (if negative (mc_volume c) \<or> above_one (mc_volume c) then (Some MeVolume, s)
            else act (set_player_volume b n (mc_volume c) s))
         else (Some (MeUnknown cmd), s))"

definition control_media :: "bus \<Rightarrow> media_command \<Rightarrow> media_world \<Rightarrow> media_error option \<times> media_world" where
  "control_media b c w =
     (case media_service w of
        Inl e \<Rightarrow> (Some e, w)
      | Inr s \<Rightarrow>
          (case (if trim_space (mc_bus_name c) = [] then
                   (case the_active_player s of Inl e \<Rightarrow> Inl (MeMpris e) | Inr p \<Rightarrow> Inr (bus_name p))
                 else Inr (trim_space (mc_bus_name c))) of
             Inl e \<Rightarrow> (Some e, w)
           | Inr n \<Rightarrow> (case run_media_command b c n s of (r, s') \<Rightarrow> (r, w\<lparr>service := Some s'\<rparr>))))"

subsection \<open>Messages\<close>

definition write_reply :: "message \<Rightarrow> media_world \<Rightarrow> media_error option \<times> media_world" where
  "write_reply m w = (case reply m (events w) of (ok, e) \<Rightarrow> (if ok then None else Some MeWrite, w\<lparr>events := e\<rparr>))"

definition new_tx :: "media_world \<Rightarrow> bytes option \<times> media_world" where
  "new_tx w = (case next_txs w of [] \<Rightarrow> (Some [], w) | t # ts \<Rightarrow> (t, w\<lparr>next_txs := ts\<rparr>))"

definition ack_multimedia :: "'p media_env \<Rightarrow> message \<Rightarrow> media_error option \<Rightarrow> media_world \<Rightarrow> media_error option \<times> media_world" where
  "ack_multimedia env m err w =
     (let p = (0, ABool (err = None)) # (case err of None \<Rightarrow> [] | Some e \<Rightarrow> [(1, AString (describe env e))])
      in case write_reply (new_message MessageTypeMultimediaAck (transaction_id m) p) w of
           (Some e, w') \<Rightarrow> (Some e, w')
         | (None, w') \<Rightarrow> (err, w'))"

fun send_icons :: "'p media_env \<Rightarrow> media_player list \<Rightarrow> media_world \<Rightarrow> media_world" where
  "send_icons env [] w = w"
| "send_icons env (p # ps) w =
     (if bus_name p \<in> set (icons_sent w) then send_icons env ps w
      else
        (let w1 = w\<lparr>icons_sent := bus_name p # icons_sent w\<rparr>; icon = env_icon env (desktop_entry p) (identity p)
         in if icon = [] then send_icons env ps w1
            else case new_tx w1 of
              (None, w2) \<Rightarrow> w2
            | (Some tx, w2) \<Rightarrow>
                (case write_reply (new_message MessageTypeMultimediaState tx
                        [(MultimediaStateUpdateType, AUint64 MultimediaStateIcon), (2, AString (bus_name p)),
                         (4, ABytes icon)]) w2 of
                   (Some _, w3) \<Rightarrow> w3
                 | (None, w3) \<Rightarrow> send_icons env ps w3)))"

definition send_new_player_icons :: "'p media_env \<Rightarrow> media_world \<Rightarrow> media_world" where
  "send_new_player_icons env w = (case media_service w of Inl _ \<Rightarrow> w | Inr s \<Rightarrow> send_icons env (list_players s) w)"

definition player_fields :: "media_player \<Rightarrow> payload" where
  "player_fields p =
     [(2, AString (bus_name p)), (3, AString (identity p)), (4, AString (playback_status p)),
      (5, AString (md_title (metadata p))), (6, AStrings (artists (metadata p))),
      (7, AString (album (metadata p))), (8, AString (artwork_url (metadata p))),
      (9, AInt64 (duration (metadata p))), (10, AInt64 (position p)), (11, AFloat64 (player_volume p)),
      (12, ABool (shuffle p)), (13, AString (loop_status p)), (14, ABool (can_go_previous p)),
      (15, ABool (can_go_next p)), (16, ABool (can_seek p)), (17, ABool (can_play p)), (18, ABool (can_pause p))]"

definition player_entry :: "media_player \<Rightarrow> any" where
  "player_entry p = AMapUint [(0, AString (bus_name p)), (1, AString (identity p)),
     (2, AString (playback_status p)), (3, ABool (is_active p))]"

definition device_entry :: "audio_device \<Rightarrow> any" where
  "device_entry d = AMapUint [(0, AString (ad_name d)), (1, AString (ad_description d)),
     (2, AFloat64 (ad_volume d)), (3, ABool (ad_muted d)), (4, ABool (ad_default d))]"

definition state_payload :: "'p media_env \<Rightarrow> media_world \<Rightarrow> payload \<times> media_world" where
  "state_payload env w =
     (let kind = [(MultimediaStateUpdateType, AUint64 MultimediaStateFull)];
          (player, w1) =
            (case active_media_player w of
               Inl _ \<Rightarrow> ([], w)
             | Inr p \<Rightarrow>
                 (case media_artwork (env_images env) (env_io env) (artwork_url (metadata p)) (artwork_cache w) of
                    (Inl _, c) \<Rightarrow> (player_fields p, w\<lparr>artwork_cache := c\<rparr>)
                  | (Inr b, c) \<Rightarrow> (player_fields p @ [(19, ABytes b)], w\<lparr>artwork_cache := c\<rparr>)));
          list = (case media_service w1 of
               Inl _ \<Rightarrow> []
             | Inr s \<Rightarrow> [(40, ASlice (map player_entry (list_players s))), (41, ABool (pinned_player s \<noteq> []))]);
          (audio, h) = (case system_audio_state (env_audio env) (audio_log w1) of
               (Inl _, h) \<Rightarrow> ([], h)
             | (Inr a, h) \<Rightarrow> ([(30, AFloat64 (sa_volume a)), (31, ABool (sa_muted a)), (32, AString (sa_device a)),
                                (33, ASlice (map device_entry (sa_devices a)))], h))
      in (kind @ player @ list @ audio, w1\<lparr>audio_log := h\<rparr>))"

definition send_multimedia_state_frame :: "'p media_env \<Rightarrow> media_world \<Rightarrow> media_error option \<times> media_world" where
  "send_multimedia_state_frame env w =
     (case state_payload env w of
        (p, w1) \<Rightarrow>
          if \<not> env_alive env then (Some MeContext, w1)
          else case new_tx w1 of
            (None, w2) \<Rightarrow> (Some MeRandom, w2)
          | (Some tx, w2) \<Rightarrow> write_reply (new_message MessageTypeMultimediaState tx p) w2)"

definition send_multimedia_state :: "'p media_env \<Rightarrow> media_world \<Rightarrow> media_error option \<times> media_world" where
  "send_multimedia_state env w =
     (if \<not> env_alive env then (Some MeContext, w)
      else case send_multimedia_state_frame env w of
        (Some e, w1) \<Rightarrow> (Some e, w1)
      | (None, w1) \<Rightarrow> (None, send_new_player_icons env w1))"

definition send_multimedia_position :: "'p media_env \<Rightarrow> 64 word \<Rightarrow> media_world \<Rightarrow> media_error option \<times> media_world" where
  "send_multimedia_position env pos w =
     (if \<not> env_alive env then (Some MeContext, w)
      else case new_tx w of
        (None, w1) \<Rightarrow> (Some MeRandom, w1)
      | (Some tx, w1) \<Rightarrow>
          write_reply (new_message MessageTypeMultimediaState tx
            [(MultimediaStateUpdateType, AUint64 MultimediaStatePosition), (10, AInt64 pos)]) w1)"

definition send_multimedia_event :: "'p media_env \<Rightarrow> media_event \<Rightarrow> media_world \<Rightarrow> media_error option \<times> media_world" where
  "send_multimedia_event env e w =
     (if ev_type e = PositionChanged then
        (case (ev_state e, active_media_player w) of
           (Some p, Inr a) \<Rightarrow>
             if bus_name a \<noteq> player_id e then (None, w) else send_multimedia_position env (position p) w
         | _ \<Rightarrow> (None, w))
      else send_multimedia_state env w)"

subsection \<open>The relay of events\<close>

text \<open>\<open>startMultimediaSyncOnce\<close>: the result is the subscription of the goroutine, if it is started.\<close>

definition drop_subscription :: "64 word \<Rightarrow> media_world \<Rightarrow> media_world" where
  "drop_subscription sid w = w\<lparr>service := map_option (unsubscribe sid) (service w)\<rparr>"

definition start_multimedia_sync :: "'p media_env \<Rightarrow> media_world \<Rightarrow> 64 word option \<times> media_world" where
  "start_multimedia_sync env w =
     (if \<not> env_alive env then (None, w)
      else case service w of
        None \<Rightarrow> (None, snd (send_multimedia_state env w))
      | Some s \<Rightarrow>
          (case subscribe s of
             (None, s1) \<Rightarrow> (None, snd (send_multimedia_state env (w\<lparr>service := Some s1\<rparr>)))
           | (Some sid, s1) \<Rightarrow>
               (case send_multimedia_state env (w\<lparr>service := Some s1\<rparr>) of
                  (Some e, w2) \<Rightarrow> (None, drop_subscription sid w2)
                | (None, w2) \<Rightarrow> (Some sid, w2))))"

text \<open>One turn of the goroutine: does it go on?\<close>

definition relay_turn :: "'p media_env \<Rightarrow> 64 word \<Rightarrow> media_world \<Rightarrow> bool \<times> media_world" where
  "relay_turn env sid w =
     (if \<not> env_alive env then (False, drop_subscription sid w)
      else case service w of
        None \<Rightarrow> (False, w)
      | Some s \<Rightarrow>
          if \<not> map_has (subscribers s) sid then (False, w)
          else (case receive_event sid s of
              (None, _) \<Rightarrow> (True, w)
            | (Some e, s1) \<Rightarrow>
                (case send_multimedia_event env e (w\<lparr>service := Some s1\<rparr>) of
                   (Some _, w1) \<Rightarrow> (False, drop_subscription sid w1)
                 | (None, w1) \<Rightarrow> (True, w1))))"

subsection \<open>Commands from the phone\<close>

definition ask_audio :: "unit audio_op \<Rightarrow> media_world \<Rightarrow> media_error option \<times> media_world" where
  "ask_audio change w =
     (case change (audio_log w) of (r, h) \<Rightarrow>
        (case r of Inl e \<Rightarrow> Some (MeAudio e) | Inr _ \<Rightarrow> None, w\<lparr>audio_log := h\<rparr>))"

definition system_command :: "'p media_env \<Rightarrow> string \<Rightarrow> payload \<Rightarrow> media_world \<Rightarrow> media_error option \<times> media_world" where
  "system_command env cmd p w =
     (let name = any_string (map_of p 2)
      in if cmd \<in> {''system-volume'', ''system-audio-volume''} then
           (case map_of p 6 of Some (AFloat64 v) \<Rightarrow> ask_audio (set_output_device_volume (env_audio env) name v) w | _ \<Rightarrow> (Some MeNoVolume, w))
         else if cmd \<in> {''system-mute'', ''system-audio-mute''} then
           (case map_of p 4 of Some (ABool b) \<Rightarrow> ask_audio (set_output_device_muted (env_audio env) name b) w | _ \<Rightarrow> (Some MeNoMute, w))
         else if cmd = ''system-audio-default'' then ask_audio (set_default_output_device (env_audio env) name) w
         else (None, w))"

definition command_of :: "string \<Rightarrow> payload \<Rightarrow> media_command" where
  "command_of cmd p =
     (let n = (case map_of p 3 of Some (AInt64 i) \<Rightarrow> i | Some (AUint64 i) \<Rightarrow> i | _ \<Rightarrow> 0)
      in \<lparr>mc_command = ''media-'' @ cmd, mc_bus_name = any_string (map_of p 2), mc_offset_ms = n,
          mc_position_ms = n, mc_enabled = any_bool (map_of p 4), mc_loop_status = any_string (map_of p 5),
          mc_volume = (case map_of p 6 of Some (AFloat64 v) \<Rightarrow> v | _ \<Rightarrow> Fin 0)\<rparr>)"

definition system_commands :: "string set" where
  "system_commands = {''system-state'', ''system-audio-state'', ''system-volume'', ''system-mute'',
     ''system-audio-volume'', ''system-audio-mute'', ''system-audio-default''}"

definition handle_multimedia_command :: "'p media_env \<Rightarrow> message \<Rightarrow> media_world \<Rightarrow> media_error option \<times> media_world" where
  "handle_multimedia_command env m w =
     (let p = payload m
      in case payload_string p 1 of
        Inl e \<Rightarrow> ack_multimedia env m (Some (MePayload e)) w
      | Inr cmd \<Rightarrow>
          if cmd = ''select-player'' then
            (let name = any_string (map_of p 2);
                 (err, w1) = (if trim_space name = [] then use_automatic_media_player w
                              else set_active_media_player name w)
             in case ack_multimedia env m err w1 of
                  (Some e, w2) \<Rightarrow> (Some e, w2)
                | (None, w2) \<Rightarrow> send_multimedia_state env w2)
          else if cmd = ''state'' then
            (case ack_multimedia env m None w of
               (Some e, w1) \<Rightarrow> (Some e, w1)
             | (None, w1) \<Rightarrow> send_multimedia_state env w1)
          else if cmd \<in> system_commands then
            (case system_command env cmd p w of (err, w1) \<Rightarrow> ack_multimedia env m err w1)
          else
            (case control_media (env_bus env) (command_of cmd p) w of (err, w1) \<Rightarrow> ack_multimedia env m err w1))"

subsection \<open>Unsolicited messages\<close>

definition with_events :: "(event_world \<Rightarrow> event_world) \<Rightarrow> media_world \<Rightarrow> media_world" where
  "with_events f w = w\<lparr>events := f (events w)\<rparr>"

definition handle_unsolicited :: "'p media_env \<Rightarrow> callbacks \<Rightarrow> int \<Rightarrow> message \<Rightarrow> media_world \<Rightarrow> media_world" where
  "handle_unsolicited env cb now m w =
     (let t = mtype m
      in if t = MessageTypeSyncNotification then with_events (\<lambda>e. snd (handle_android_notification cb m e)) w
         else if t = MessageTypeClearNotification then with_events (\<lambda>e. snd (handle_clear_notification cb m e)) w
         else if t = MessageTypeSyncClipboard then with_events (\<lambda>e. snd (handle_incoming_clipboard cb m e)) w
         else if t = MessageTypeDeviceStatus then with_events (\<lambda>e. snd (handle_device_status now m e)) w
         else if t = MessageTypeCallState then with_events (\<lambda>e. snd (handle_call_state cb m e)) w
         else if t = MessageTypeUnpair then with_events (handle_unpair cb m) w
         else if t = MessageTypeMultimedia then snd (handle_multimedia_command env m w)
         else w)"

subsection \<open>Every event is answered at most once\<close>

text \<open>Is the payload of an event of the type one that its handler accepts?\<close>

definition well_formed :: "message \<Rightarrow> bool" where
  "well_formed m \<longleftrightarrow>
     (let t = mtype m; p = payload m
      in if t = MessageTypeSyncNotification then
           (\<exists>key. map_of p 1 = Some (AString key) \<and> key \<noteq> []) \<and> (\<exists>s. map_of p 2 = Some (AString s)) \<and>
           (\<exists>s. map_of p 3 = Some (AString s))
         else if t = MessageTypeClearNotification then (\<exists>i. payload_uint p 1 = Inr i)
         else if t = MessageTypeSyncClipboard then
           (\<exists>s. map_of p 1 = Some (AString s)) \<and> (\<exists>b. map_of p 2 = Some (ABytes b) \<or> map_of p 2 = Some (ABytes16 b))
         else if t = MessageTypeCallState then (\<exists>b. map_of p 0 = Some (ABool b))
         else t = MessageTypeUnpair)"

definition answers_once :: "message \<Rightarrow> event_world \<Rightarrow> event_world \<Rightarrow> bool" where
  "answers_once m e e' \<longleftrightarrow>
     (\<exists>hs. host_log e' = host_log e @ hs \<and> length hs \<le> (if well_formed m then 1 else 0)) \<and>
     (\<exists>p. replies_sent e' = replies_sent e @
        (if well_formed m then [new_message (mtype m + 1) (transaction_id m) p] else []))"

lemma reply_quiet: "write_oks e = [] \<Longrightarrow> reply m e = (True, e\<lparr>replies_sent := replies_sent e @ [m]\<rparr>)"
  by (simp add: reply_def)

lemma payload_string_Inr: "payload_string p k = Inr s \<longleftrightarrow> map_of p k = Some (AString s)"
  by (auto simp: payload_string_def split: option.splits any.splits)

lemma payload_bytes_Inr:
  "payload_bytes p k = Inr b \<longleftrightarrow> map_of p k = Some (ABytes b) \<or> map_of p k = Some (ABytes16 b)"
  by (cases "map_of p k") (auto simp: payload_bytes_def elim: bytes_value.elims)

lemma payload_bool_opt_Some: "payload_bool_opt p k = Some b \<longleftrightarrow> map_of p k = Some (ABool b)"
  by (auto simp: payload_bool_opt_def split: option.splits any.splits)

lemma notification_well_formed:
  "mtype m = MessageTypeSyncNotification \<Longrightarrow> well_formed m \<longleftrightarrow> (\<exists>n. notification_of (payload m) = Inr n)"
  by (auto simp: well_formed_def notification_of_def payload_string_Inr Let_def split: sum.splits)
    (simp_all add: payload_string_def)

lemma answer_notification:
  assumes "mtype m = MessageTypeSyncNotification" "write_oks e = []"
  shows "answers_once m e (snd (handle_android_notification cb m e))"
proof (cases "notification_of (payload m)")
  case (Inl x)
  then have "\<not> well_formed m" using notification_well_formed [OF assms(1)] by simp
  then show ?thesis using Inl by (simp add: handle_android_notification_def answers_once_def)
next
  case (Inr n)
  then have "well_formed m" using notification_well_formed [OF assms(1)] by blast
  then show ?thesis
    using Inr assms reply_quiet [of "ask_host (HostNotify n) e"] reply_quiet [of e]
    by (cases "on_android cb")
      (auto simp: handle_android_notification_def answers_once_def ask_host_def ack_with_def Let_def request_type_defs)
qed

lemma answer_clear:
  assumes "mtype m = MessageTypeClearNotification" "write_oks e = []"
  shows "answers_once m e (snd (handle_clear_notification cb m e))"
proof (cases "payload_uint (payload m) 1")
  case (Inl x)
  then have "\<not> well_formed m" using assms(1) by (simp add: well_formed_def request_type_defs)
  then show ?thesis using Inl by (simp add: handle_clear_notification_def answers_once_def)
next
  case (Inr i)
  then have "well_formed m" using assms(1) by (simp add: well_formed_def request_type_defs)
  then show ?thesis
    using Inr assms reply_quiet [of "ask_host (HostClose (ucast i)) e"]
    by (auto simp: handle_clear_notification_def answers_once_def ask_host_def Let_def request_type_defs)
qed

lemma answer_clipboard:
  assumes "mtype m = MessageTypeSyncClipboard" "write_oks e = []"
  shows "answers_once m e (snd (handle_incoming_clipboard cb m e))"
proof -
  have wf: "well_formed m \<longleftrightarrow> (\<exists>t c. payload_string (payload m) 1 = Inr t \<and> payload_bytes (payload m) 2 = Inr c)"
    using assms(1) by (auto simp: well_formed_def request_type_defs payload_string_Inr payload_bytes_Inr Let_def)
  show ?thesis
  proof (cases "well_formed m")
    case False
    then show ?thesis using wf
      by (auto simp: handle_incoming_clipboard_def answers_once_def split: sum.splits)
  next
    case True
    then obtain t c where p: "payload_string (payload m) 1 = Inr t" "payload_bytes (payload m) 2 = Inr c"
      using wf by blast
    then show ?thesis
      using True assms reply_quiet [of "ask_host (HostClipboard t c) e"] reply_quiet [of e]
      by (cases "on_clipboard cb")
        (auto simp: handle_incoming_clipboard_def answers_once_def ask_host_def ack_with_def Let_def request_type_defs)
  qed
qed

lemma answer_call:
  assumes "mtype m = MessageTypeCallState" "write_oks e = []"
  shows "answers_once m e (snd (handle_call_state cb m e))"
proof (cases "payload_bool_opt (payload m) 0")
  case None
  then have "\<not> well_formed m"
    using assms(1) by (auto simp: well_formed_def request_type_defs event_type_defs payload_bool_opt_def)
  then show ?thesis using None by (simp add: handle_call_state_def answers_once_def)
next
  case (Some b)
  then have "well_formed m"
    using assms(1) by (auto simp: well_formed_def request_type_defs event_type_defs payload_bool_opt_Some)
  then show ?thesis
    using Some assms reply_quiet [of "ask_host (HostMute b) e"] reply_quiet [of e]
    by (cases "on_call_mute cb")
      (auto simp: handle_call_state_def answers_once_def ask_host_def ack_with_def Let_def event_type_defs)
qed

lemma answer_unpair:
  assumes "mtype m = MessageTypeUnpair" "write_oks e = []"
  shows "answers_once m e (handle_unpair cb m e)"
proof -
  have "well_formed m" using assms(1) by (simp add: well_formed_def request_type_defs event_type_defs)
  then show ?thesis
    using assms reply_quiet [of e]
    by (auto simp: handle_unpair_def answers_once_def ask_host_def ack_with_def request_type_defs)
qed

subsection \<open>What a media command may ask of a player\<close>

definition permitted :: "media_player \<Rightarrow> string \<Rightarrow> variant list \<Rightarrow> bool" where
  "permitted p method args \<longleftrightarrow>
     (method = ''PlayPause'' \<longrightarrow> can_control p \<and> (can_play p \<or> can_pause p)) \<and>
     (method = ''Next'' \<longrightarrow> can_control p \<and> can_go_next p) \<and>
     (method = ''Previous'' \<longrightarrow> can_control p \<and> can_go_previous p) \<and>
     (method = ''Play'' \<longrightarrow> can_control p \<and> can_play p) \<and>
     (method = ''Pause'' \<longrightarrow> can_control p \<and> can_pause p) \<and>
     (method = ''Stop'' \<longrightarrow> can_control p) \<and>
     (method = ''Seek'' \<or> method = ''SetPosition'' \<longrightarrow> can_control p \<and> can_seek p) \<and>
     (\<forall>tid t. method = ''SetPosition'' \<longrightarrow> args = [VPath tid, VInt64 t] \<longrightarrow>
        valid_object_path tid \<and> 0 \<le> sint t \<and> (0 < sint (duration (metadata p)) \<longrightarrow> sint t \<le> sint (duration (metadata p)))) \<and>
     (\<forall>v. method = ''Set'' \<longrightarrow> args = [VString mpris_player, VString ''Volume'', VDouble v] \<longrightarrow>
        \<not> negative v \<and> \<not> above_one v)"

text \<open>From \<open>s\<close> to \<open>t\<close> at most one call went to the bus, to a player of the cache that permits it, and
  nothing else changed.\<close>

definition sends_ok :: "mpris \<Rightarrow> mpris \<Rightarrow> bool" where
  "sends_ok s t \<longleftrightarrow>
     (\<exists>calls. t = s\<lparr>bus_sent := bus_sent s @ calls\<rparr> \<and> length calls \<le> 1 \<and>
        (\<forall>(n, method, args) \<in> set calls. has_prefix n mpris_prefix \<and>
           (\<exists>p. map_of (players s) n = Some p \<and> permitted p method args)))"

lemma sends_ok_refl [simp]: "sends_ok s s"
  unfolding sends_ok_def by (intro exI [of _ "[]"]) simp

lemma bus_call_permitted:
  assumes "\<And>p. map_of (players s) n = Some p \<Longrightarrow> permitted p method args"
  shows "sends_ok s (snd (bus_call b n method args s))"
proof (cases "has_prefix n mpris_prefix \<and> connected s \<and> map_has (players s) n")
  case True
  then obtain p where "map_of (players s) n = Some p" by auto
  then show ?thesis using True assms
    unfolding sends_ok_def by (intro exI [of _ "[(n, method, args)]"]) (auto simp: bus_call_def)
next
  case False
  then have "snd (bus_call b n method args s) = s" by (auto simp: bus_call_def)
  then show ?thesis by simp
qed


lemma checked_call_permitted:
  assumes "\<And>p. can p \<Longrightarrow> permitted p method []"
  shows "sends_ok s (snd (checked_call b n can method s))"
proof (cases "map_of (players s) n")
  case None
  then have "snd (checked_call b n can method s) = s" by (simp add: checked_call_def get_player_def)
  then show ?thesis by simp
next
  case (Some p)
  show ?thesis
  proof (cases "can p")
    case False
    then have "snd (checked_call b n can method s) = s" using Some by (simp add: checked_call_def get_player_def)
    then show ?thesis by simp
  next
    case True
    then have "snd (checked_call b n can method s) = snd (bus_call b n method [] s)"
      using Some by (simp add: checked_call_def get_player_def call_player_def)
    moreover have "sends_ok s (snd (bus_call b n method [] s))"
      using Some assms [OF True] by (intro bus_call_permitted) simp
    ultimately show ?thesis by simp
  qed
qed

lemma seek_permitted: "sends_ok s (snd (seek b n off s))"
proof (cases "(\<exists>p. map_of (players s) n = Some p \<and> can_control p \<and> can_seek p) \<and> off \<noteq> 0")
  case True
  then have "snd (seek b n off s) = snd (bus_call b n ''Seek'' [VInt64 (microseconds off)] s)"
    by (auto simp: seek_def get_player_def call_player_def)
  moreover have "sends_ok s (snd (bus_call b n ''Seek'' [VInt64 (microseconds off)] s))"
    using True by (intro bus_call_permitted) (auto simp: permitted_def)
  ultimately show ?thesis by simp
next
  case False
  then have "snd (seek b n off s) = s" by (auto simp: seek_def get_player_def split: option.splits)
  then show ?thesis by simp
qed

lemma seek_target_bounds:
  "0 \<le> sint (seek_target pos len) \<and> (0 < sint len \<longrightarrow> sint (seek_target pos len) \<le> sint len)"
  by (auto simp: seek_target_def Let_def word_sless_alt)

lemma seek_to_permitted: "sends_ok s (snd (seek_to b n pos s))"
proof (cases "\<exists>p. map_of (players s) n = Some p \<and> can_control p \<and> can_seek p")
  case False
  then have "snd (seek_to b n pos s) = s" by (auto simp: seek_to_def get_player_def split: option.splits)
  then show ?thesis by simp
next
  case True
  then obtain p where p: "map_of (players s) n = Some p" "can_control p" "can_seek p" by blast
  let ?t = "seek_target pos (duration (metadata p))"
  have set: "sends_ok s (snd (bus_call b n ''SetPosition'' [VPath (track_id (metadata p)), VInt64 ?t] s))"
    if "valid_object_path (track_id (metadata p))"
    using p that seek_target_bounds [of pos "duration (metadata p)"] by (intro bus_call_permitted) (auto simp: permitted_def)
  have rel: "sends_ok s (snd (bus_call b n ''Seek'' [v] s))" for v
    using p by (intro bus_call_permitted) (auto simp: permitted_def)
  let ?usable = "track_id (metadata p) \<noteq> [] \<and> valid_object_path (track_id (metadata p)) \<and> track_id (metadata p) \<noteq> no_track"
  show ?thesis
  proof (cases ?usable)
    case True
    then have "snd (seek_to b n pos s) = snd (bus_call b n ''SetPosition'' [VPath (track_id (metadata p)), VInt64 ?t] s)"
      using p by (simp add: seek_to_def get_player_def call_player_def Let_def)
    then show ?thesis using set True by simp
  next
    case False
    then show ?thesis
      using p rel by (auto simp: seek_to_def get_player_def call_player_def Let_def split: option.splits)
  qed
qed

lemma property_permitted:
  assumes "\<And>x. prop = ''Volume'' \<Longrightarrow> v = VDouble x \<Longrightarrow> \<not> negative x \<and> \<not> above_one x"
  shows "sends_ok s (snd (set_player_property b n prop v s))"
  unfolding set_player_property_def using assms by (intro bus_call_permitted) (auto simp: permitted_def)

lemma run_media_command_permitted: "sends_ok s (snd (run_media_command b c n s))"
proof -
  have loop: "sends_ok s (snd (set_loop_status b n st s))" for st
    using property_permitted [of "''LoopStatus''" "VString st"] by (simp add: set_loop_status_def)
  have vol: "sends_ok s (snd (set_player_volume b n v s))" if "\<not> above_one v" for v
    using property_permitted [of "''Volume''" "VDouble v"] that by (simp add: set_player_volume_def)
  have plain: "sends_ok s (snd (play_pause b n s))" "sends_ok s (snd (next_track b n s))"
    "sends_ok s (snd (previous_track b n s))" "sends_ok s (snd (play b n s))" "sends_ok s (snd (pause b n s))"
    "sends_ok s (snd (stop_playback b n s))" "sends_ok s (snd (set_shuffle b n on s))" for on
    unfolding play_pause_def next_track_def previous_track_def play_def pause_def stop_playback_def set_shuffle_def
    by (rule checked_call_permitted property_permitted, simp add: permitted_def)+
  show ?thesis
    using plain loop vol seek_permitted seek_to_permitted
    unfolding run_media_command_def Let_def by (simp split: if_split)
qed


subsection \<open>Properties\<close>

text \<open>A notification, clear, clipboard, call or unpair message is answered at most once and the host
  is asked for at most one thing: a well-formed one gets exactly one acknowledgement, of its own
  type and transaction; a malformed one gets none and does nothing, so that the peer waits for its
  timeout.\<close>

theorem each_event_answered_once:
  assumes "mtype m \<in> {MessageTypeSyncNotification, MessageTypeClearNotification, MessageTypeSyncClipboard,
      MessageTypeCallState, MessageTypeUnpair}"
    and "write_oks (events w) = []"
  shows "\<exists>hs p. host_log (events (handle_unsolicited env cb now m w)) = host_log (events w) @ hs \<and>
    replies_sent (events (handle_unsolicited env cb now m w)) = replies_sent (events w) @
      (if well_formed m then [new_message (mtype m + 1) (transaction_id m) p] else []) \<and>
    length hs \<le> (if well_formed m then 1 else 0)"
proof -
  consider "mtype m = MessageTypeSyncNotification" | "mtype m = MessageTypeClearNotification"
    | "mtype m = MessageTypeSyncClipboard" | "mtype m = MessageTypeCallState" | "mtype m = MessageTypeUnpair"
    using assms(1) by blast
  then have "answers_once m (events w) (events (handle_unsolicited env cb now m w))"
  proof cases
    case 1
    show ?thesis using answer_notification [OF 1 assms(2), of cb] 1
      by (simp add: handle_unsolicited_def with_events_def Let_def)
  next
    case 2
    show ?thesis using answer_clear [OF 2 assms(2), of cb] 2
      by (simp add: handle_unsolicited_def with_events_def Let_def request_type_defs)
  next
    case 3
    show ?thesis using answer_clipboard [OF 3 assms(2), of cb] 3
      by (simp add: handle_unsolicited_def with_events_def Let_def request_type_defs)
  next
    case 4
    show ?thesis using answer_call [OF 4 assms(2), of cb] 4
      by (simp add: handle_unsolicited_def with_events_def Let_def request_type_defs event_type_defs)
  next
    case 5
    show ?thesis using answer_unpair [OF 5 assms(2), of cb] 5
      by (simp add: handle_unsolicited_def with_events_def Let_def request_type_defs event_type_defs)
  qed
  then show ?thesis unfolding answers_once_def by blast
qed

text \<open>A media command, from the phone or the user, sends at most one call to the bus and changes
  nothing else; the call goes to a player that is known under a player's bus name and only for
  what that player says it can do; an absolute position lies within the track and a volume is
  neither negative nor above one.\<close>

theorem media_command_permitted:
  assumes "service w = Some s"
  shows "\<exists>calls. service (snd (control_media b c w)) = Some (s\<lparr>bus_sent := bus_sent s @ calls\<rparr>) \<and>
    length calls \<le> 1 \<and>
    (\<forall>(n, method, args) \<in> set calls. has_prefix n mpris_prefix \<and>
       (\<exists>p. map_of (players s) n = Some p \<and> permitted p method args))"
proof -
  have "\<exists>t. service (snd (control_media b c w)) = Some t \<and> sends_ok s t"
  proof -
    let ?t = "if trim_space (mc_bus_name c) = [] then
        (case the_active_player s of Inl e \<Rightarrow> Inl (MeMpris e) | Inr p \<Rightarrow> Inr (bus_name p))
      else Inr (trim_space (mc_bus_name c))"
    show ?thesis
    proof (cases ?t)
      case (Inl e)
      then have "service (snd (control_media b c w)) = Some s"
        using assms unfolding control_media_def media_service_def by simp
      then show ?thesis by simp
    next
      case (Inr n)
      then have "service (snd (control_media b c w)) = Some (snd (run_media_command b c n s))"
        using assms unfolding control_media_def media_service_def by (simp add: case_prod_unfold)
      then show ?thesis using run_media_command_permitted by simp
    qed
  qed
  then show ?thesis unfolding sends_ok_def by auto
qed

definition idle_world :: media_world where
  "idle_world = \<lparr>events = \<lparr>host_log = [], replies_sent = [], write_oks = [], status_now = None\<rparr>,
     service = Some started_mpris, icons_sent = [], artwork_cache = new_artwork_lru, audio_log = [], next_txs = []\<rparr>"

definition tiny_io :: artwork_io where
  "tiny_io = \<lparr>parse_url = (\<lambda>u. Some (''file'', u)), read_file = (\<lambda>_. Some [1, 2]), http_get = (\<lambda>_. None)\<rparr>"

definition tiny_lib :: "unit image_lib" where
  "tiny_lib = \<lparr>decode_config = (\<lambda>_. Some (''png'', 600, 300)), decode_image = (\<lambda>_. Some (Image () 600 300)),
     scale_fine = (\<lambda>_ _ _. ()), scale_fast = (\<lambda>_ _ _. ()), jpeg_encode = (\<lambda>_ q. Some (replicate q 0))\<rparr>"

definition quiet_env :: "unit media_env" where
  "quiet_env = \<lparr>env_bus = one_player_bus, env_audio = \<lparr>exec_tool = (\<lambda>_ _. None), on_path = (\<lambda>_. False), parse_float = (\<lambda>_. None)\<rparr>, env_icon = (\<lambda>_ _. []),
     env_images = tiny_lib, env_io = tiny_io, env_alive = True, describe = (\<lambda>_. [])\<rparr>"

definition mute_callbacks :: callbacks where
  "mute_callbacks = \<lparr>on_android = None, close_notification = (\<lambda>_ _. True), on_clipboard = None,
     on_call_mute = Some (\<lambda>_ _. True), has_unpair = True\<rparr>"

definition call_message :: message where
  "call_message = new_message MessageTypeCallState [7] [(0, ABool True)]"

lemma each_event_answered_once_witness:
  "\<exists>p. replies_sent (events (handle_unsolicited quiet_env mute_callbacks 0 call_message idle_world)) =
     [new_message MessageTypeCallStateAck [7] p]"
proof -
  have m: "mtype call_message \<in> {MessageTypeSyncNotification, MessageTypeClearNotification,
      MessageTypeSyncClipboard, MessageTypeCallState, MessageTypeUnpair}"
    by (simp add: call_message_def)
  have w: "write_oks (events idle_world) = []" by (simp add: idle_world_def)
  have f: "well_formed call_message"
    unfolding well_formed_def call_message_def Let_def request_type_defs event_type_defs
    by (simp add: ex_bool_eq)
  have r: "replies_sent (events idle_world) = []" by (simp add: idle_world_def)
  have t: "mtype call_message + 1 = MessageTypeCallStateAck" "transaction_id call_message = [7]"
    by (simp_all add: call_message_def event_type_defs)
  from each_event_answered_once [OF m w, of quiet_env mute_callbacks 0] show ?thesis
    unfolding r t if_P [OF f] append_Nil by blast
qed

definition next_command :: media_command where
  "next_command = \<lparr>mc_command = ''media-next'', mc_bus_name = [], mc_offset_ms = 0, mc_position_ms = 0,
     mc_enabled = False, mc_loop_status = [], mc_volume = Fin 0\<rparr>"

lemma media_command_permitted_witness:
  "\<exists>calls. service (snd (control_media one_player_bus next_command idle_world)) =
     Some (started_mpris\<lparr>bus_sent := bus_sent started_mpris @ calls\<rparr>) \<and> length calls \<le> 1"
proof -
  have s: "service idle_world = Some started_mpris" by (simp add: idle_world_def)
  from media_command_permitted [OF s, of one_player_bus next_command] show ?thesis by blast
qed

end
