(* ===== verification/Go_Path.thy ===== *)
theory Go_Path
  imports Go_Text
begin

text \<open>
  The functions of Go's \<open>path/filepath\<close> and \<open>strconv\<close> packages that the search for icons and the
  command line use: \<open>Clean\<close>, \<open>Join\<close>, \<open>Base\<close>, \<open>Dir\<close>, \<open>IsAbs\<close> on Unix, and \<open>ParseInt\<close> in base ten
  with 64 bits (\<open>Atoi\<close> is the same function where an \<open>int\<close> has 64 bits).
\<close>

subsection \<open>Paths\<close>

text \<open>The elements of a path are walked with those kept so far, the last one first.\<close>

fun clean_walk :: "bool \<Rightarrow> string list \<Rightarrow> string list \<Rightarrow> string list" where
  "clean_walk rooted [] acc = rev acc"
| "clean_walk rooted (p # ps) acc =
     (if p = [] \<or> p = ''.'' then clean_walk rooted ps acc
      else if p = ''..'' then
        (case acc of
           [] \<Rightarrow> clean_walk rooted ps (if rooted then [] else [p])
         | q # qs \<Rightarrow> clean_walk rooted ps (if q = ''..'' then p # acc else qs))
      else clean_walk rooted ps (p # acc))"

definition path_is_abs :: "string \<Rightarrow> bool" where
  "path_is_abs s \<longleftrightarrow> has_prefix s ''/''"

definition path_clean :: "string \<Rightarrow> string" where
  "path_clean s =
     (let r = (if path_is_abs s then ''/'' else []) @
              join_with ''/'' (clean_walk (path_is_abs s) (split_on (CHR ''/'') s) [])
      in if r = [] then ''.'' else r)"

definition path_join :: "string list \<Rightarrow> string" where
  "path_join ps =
     (let qs = dropWhile (\<lambda>p. p = []) ps in if qs = [] then [] else path_clean (join_with ''/'' qs))"

definition path_base :: "string \<Rightarrow> string" where
  "path_base s =
     (let t = rev (dropWhile (\<lambda>c. c = CHR ''/'') (rev s))
      in if s = [] then ''.'' else if t = [] then ''/'' else last (split_on (CHR ''/'') t))"

definition path_dir :: "string \<Rightarrow> string" where
  "path_dir s = path_clean (rev (dropWhile (\<lambda>c. c \<noteq> CHR ''/'') (rev s)))"

subsection \<open>Integers\<close>

fun digits_nat :: "string \<Rightarrow> nat \<Rightarrow> nat option" where
  "digits_nat [] n = Some n"
| "digits_nat (c # s) n = (if is_digit c then digits_nat s (10 * n + (of_char c - 48)) else None)"

definition parse_int64 :: "string \<Rightarrow> int option" where
  "parse_int64 s =
     (let neg = has_prefix s ''-''; t = (if neg \<or> has_prefix s ''+'' then tl s else s)
      in if t = [] then None
         else (case digits_nat t 0 of
             None \<Rightarrow> None
           | Some n \<Rightarrow>
               let i = (if neg then - int n else int n)
               in if - (2 ^ 63) \<le> i \<and> i < 2 ^ 63 then Some i else None))"

lemma digits_nat_dec: "digits_nat (dec_nat n @ s) m = digits_nat s (m * 10 ^ length (dec_nat n) + n)"
proof (induction n arbitrary: s m rule: dec_nat.induct)
  case (1 n)
  show ?case
  proof (cases "n < 10")
    case True
    then show ?thesis by (subst (1 2) dec_nat.simps) (simp add: is_digit_def mult.commute)
  next
    case False
    have d: "of_char (dec_digit (n mod 10)) = 48 + n mod 10" "is_digit (dec_digit (n mod 10))"
      by (simp_all add: is_digit_def)
    have "digits_nat (dec_nat n @ s) m = digits_nat (dec_digit (n mod 10) # s) (m * 10 ^ length (dec_nat (n div 10)) + n div 10)"
      using 1 [OF False, of "dec_digit (n mod 10) # s" m] False by (subst dec_nat.simps) simp
    also have "\<dots> = digits_nat s (m * 10 ^ length (dec_nat n) + n)"
      using False by (subst (2) dec_nat.simps) (simp add: d algebra_simps)
    finally show ?thesis .
  qed
qed

lemma dec_nat_no_sign: "\<not> has_prefix (dec_nat n) ''-'' \<and> \<not> has_prefix (dec_nat n) ''+''"
  using dec_nat_digits [of n] by (cases "dec_nat n") (auto simp: has_prefix_def is_digit_def)

lemma parse_int64_itoa: "- (2 ^ 63) \<le> i \<Longrightarrow> i < 2 ^ 63 \<Longrightarrow> parse_int64 (itoa i) = Some i"
  using dec_nat_no_sign [of "nat i"] digits_nat_dec [of "nat i" "[]" 0] digits_nat_dec [of "nat (- i)" "[]" 0]
  by (auto simp: parse_int64_def itoa_def Let_def has_prefix_def)

end
