(* ===== verification/App_Icons.thy ===== *)
theory App_Icons
  imports Media_Session Go_Path "HOL-Library.Signed_Division"
begin

text \<open>
  Icons of players (\<open>libquava/media/icons.go\<close>): the search for the icon of a player in the desktop's
  directories, its scaling to 64 x 64, and the cache of what was found.

  The desktop is a parameter: the variables of the environment, the files with the patterns that match
  them, the programs that draw an SVG (\<open>iw_exec\<close> gives the output of a command, \<open>None\<close> also when it
  takes longer than five seconds) and the image library. The 64 x 64 canvas that \<open>iw_draw\<close> returns
  holds the source in the given rectangle. \<open>iw_round\<close> rounds the result of an operation on floats.
\<close>

subsection \<open>The desktop\<close>

record icon_image =
  ii_width :: int
  ii_height :: int
  ii_pixels :: bytes

record icon_world =
  iw_home :: string
  iw_env :: "string \<Rightarrow> string"
  iw_glob :: "string \<Rightarrow> string list"
  iw_stat :: "string \<Rightarrow> bool"
  iw_read :: "string \<Rightarrow> bytes option"
  iw_on_path :: "string \<Rightarrow> bool"
  iw_exec :: "string list \<Rightarrow> bytes option"
  iw_png_config :: "bytes \<Rightarrow> (int \<times> int) option"
  iw_png_decode :: "bytes \<Rightarrow> icon_image option"
  iw_draw :: "icon_image \<Rightarrow> int \<times> int \<times> int \<times> int \<Rightarrow> bytes"
  iw_png_encode :: "bytes \<Rightarrow> bytes option"
  iw_round :: "real \<Rightarrow> real"

definition app_icon_size :: int where "app_icon_size = 64"
definition app_icon_max_bytes :: nat where "app_icon_max_bytes = 8 * 1024"

definition data_dirs :: "icon_world \<Rightarrow> string list" where
  "data_dirs W =
     (let home = iw_home W; user = iw_env W ''XDG_DATA_HOME''; system = iw_env W ''XDG_DATA_DIRS'' in
      (if user \<noteq> [] then [user] else if home \<noteq> [] then [path_join [home, ''.local/share'']] else []) @
      (if home \<noteq> [] then [path_join [home, ''.local/share/flatpak/exports/share'']] else []) @
      [''/var/lib/flatpak/exports/share''] @
      filter (\<lambda>d. d \<noteq> [])
        (split_on (CHR '':'') (if system = [] then ''/usr/local/share:/usr/share'' else system)))"

subsection \<open>Desktop files\<close>

definition text_of_bytes :: "bytes \<Rightarrow> string" where
  "text_of_bytes bs = map (\<lambda>b. char_of (unat b)) bs"

text \<open>The scanner gives up at a line that does not fit its buffer of 64 KB.\<close>

definition scan_limit :: nat where "scan_limit = 64 * 1024"

fun scan_entry :: "string \<Rightarrow> bool \<Rightarrow> string list \<Rightarrow> string" where
  "scan_entry key in_entry [] = []"
| "scan_entry key in_entry (l # ls) =
     (let t = trim_space l in
      if length l \<ge> scan_limit then []
      else if has_prefix t ''['' then scan_entry key (t = ''[Desktop Entry]'') ls
      else if in_entry \<and> has_prefix t (key @ ''='') then
        (let v = trim_space (trim_prefix t (key @ ''='')) in if key = ''Name'' then to_lower v else v)
      else scan_entry key in_entry ls)"

definition read_desktop_key :: "icon_world \<Rightarrow> string \<Rightarrow> string \<Rightarrow> string" where
  "read_desktop_key W path key =
     (case iw_read W path of
        None \<Rightarrow> []
      | Some bs \<Rightarrow> scan_entry key False (split_on newline (text_of_bytes bs)))"

type_synonym desktop_file = "string \<times> string"

definition desktop_files :: "icon_world \<Rightarrow> desktop_file list" where
  "desktop_files W =
     concat (map (\<lambda>dir. map (\<lambda>f. (f, to_lower (trim_suffix (path_base f) ''.desktop'')))
       (iw_glob W (path_join [dir, ''applications'', ''*.desktop'']))) (data_dirs W))"

definition desktop_matches :: "icon_world \<Rightarrow> string \<Rightarrow> string \<Rightarrow> (desktop_file \<Rightarrow> bool) list" where
  "desktop_matches W entry name =
     [\<lambda>c. entry \<noteq> [] \<and> snd c = entry,
      \<lambda>c. entry \<noteq> [] \<and> has_suffix (snd c) (''.'' @ entry),
      \<lambda>c. entry \<noteq> [] \<and> contains_str (snd c) (''.'' @ entry @ ''.''),
      \<lambda>c. name \<noteq> [] \<and> read_desktop_key W (fst c) ''Name'' = name]"

fun icon_of_match :: "icon_world \<Rightarrow> (desktop_file \<Rightarrow> bool) \<Rightarrow> desktop_file list \<Rightarrow> string" where
  "icon_of_match W m [] = []"
| "icon_of_match W m (c # cs) =
     (if \<not> m c then icon_of_match W m cs
      else (let icon = read_desktop_key W (fst c) ''Icon'' in if icon \<noteq> [] then icon else icon_of_match W m cs))"

fun icon_of_matches :: "icon_world \<Rightarrow> (desktop_file \<Rightarrow> bool) list \<Rightarrow> desktop_file list \<Rightarrow> string" where
  "icon_of_matches W [] cs = []"
| "icon_of_matches W (m # ms) cs =
     (let icon = icon_of_match W m cs in if icon \<noteq> [] then icon else icon_of_matches W ms cs)"

definition desktop_file_icon :: "icon_world \<Rightarrow> string \<Rightarrow> string \<Rightarrow> string" where
  "desktop_file_icon W entry name =
     icon_of_matches W (desktop_matches W (to_lower entry) (to_lower (trim_space name))) (desktop_files W)"

subsection \<open>Icon files\<close>

definition icon_score :: "int \<Rightarrow> int" where
  "icon_score n = (let s = n - app_icon_size in if s < 0 then - s * 4 else s)"

definition consider_icon :: "string \<times> int \<Rightarrow> string \<times> int \<Rightarrow> string \<times> int" where
  "consider_icon c best = (if icon_score (snd c) < snd best then (fst c, icon_score (snd c)) else best)"

text \<open>The size in a path \<open>.../<theme>/64x64/apps/<name>.png\<close>.\<close>

definition size_in_path :: "string \<Rightarrow> int option" where
  "size_in_path path =
     (case cut_at (CHR ''x'') (path_base (path_dir (path_dir path))) of
        None \<Rightarrow> None
      | Some (w, _) \<Rightarrow> (case parse_int64 w of None \<Rightarrow> None | Some n \<Rightarrow> if n > 0 then Some n else None))"

definition png_candidates :: "icon_world \<Rightarrow> string \<Rightarrow> string \<Rightarrow> (string \<times> int) list" where
  "png_candidates W name dir =
     List.map_filter (\<lambda>p. map_option (Pair p) (size_in_path p))
       (iw_glob W (path_join [dir, ''icons'', ''*'', ''*'', ''apps'', name @ ''.png''])) @
     (let pixmap = path_join [dir, ''pixmaps'', name @ ''.png''] in if iw_stat W pixmap then [(pixmap, 48)] else [])"

fun find_svg :: "icon_world \<Rightarrow> string \<Rightarrow> string list \<Rightarrow> string option" where
  "find_svg W name [] = None"
| "find_svg W name (dir # dirs) =
     (let ms = iw_glob W (path_join [dir, ''icons'', ''*'', ''scalable'', ''apps'', name @ ''.svg'']);
          svg = path_join [dir, ''pixmaps'', name @ ''.svg'']
      in if ms \<noteq> [] then Some (hd ms) else if iw_stat W svg then Some svg else find_svg W name dirs)"

definition find_icon_file :: "icon_world \<Rightarrow> string \<Rightarrow> string" where
  "find_icon_file W name =
     (if path_is_abs name then
        (let lower = to_lower name in if has_suffix lower ''.png'' \<or> has_suffix lower ''.svg'' then name else [])
      else if CHR ''/'' \<in> set name \<or> CHR 0x5C \<in> set name then []
      else
        (let best = fst (fold consider_icon (concat (map (png_candidates W name) (data_dirs W))) ([], 2 ^ 63 - 1));
             pixmap = path_join [''/usr/share/pixmaps'', name @ ''.png'']
         in if best \<noteq> [] then best
            else (case find_svg W name (data_dirs W) of
                Some svg \<Rightarrow> svg
              | None \<Rightarrow> if iw_stat W pixmap then pixmap else [])))"

subsection \<open>Images\<close>

definition svg_rasterizers :: "string list list" where
  "svg_rasterizers =
     [[''rsvg-convert'', ''-w'', ''64'', ''-h'', ''64'', ''-a'', ''-f'', ''png''],
      [''magick'', ''-background'', ''none'', ''-density'', ''384'', ''{in}'', ''-resize'', ''64x64'', ''png:-''],
      [''convert'', ''-background'', ''none'', ''-density'', ''384'', ''{in}'', ''-resize'', ''64x64'', ''png:-'']]"

definition rasterizer_args :: "string \<Rightarrow> string list \<Rightarrow> string list" where
  "rasterizer_args path args =
     map (\<lambda>a. if a = ''{in}'' then path else a) args @ (if ''{in}'' \<in> set args then [] else [path])"

fun rasterize_with :: "icon_world \<Rightarrow> string \<Rightarrow> string list list \<Rightarrow> icon_image option" where
  "rasterize_with W path [] = None"
| "rasterize_with W path (tool # tools) =
     (if \<not> iw_on_path W (hd tool) then rasterize_with W path tools
      else (case iw_exec W (hd tool # rasterizer_args path (tl tool)) of
          None \<Rightarrow> rasterize_with W path tools
        | Some out \<Rightarrow> (case iw_png_decode W out of None \<Rightarrow> rasterize_with W path tools | Some i \<Rightarrow> Some i)))"

definition rasterize_svg :: "icon_world \<Rightarrow> string \<Rightarrow> icon_image option" where
  "rasterize_svg W path = rasterize_with W path svg_rasterizers"

definition load_icon_image :: "icon_world \<Rightarrow> string \<Rightarrow> icon_image option" where
  "load_icon_image W path =
     (if has_suffix (to_lower path) ''.svg'' then rasterize_svg W path
      else (case iw_read W path of
          None \<Rightarrow> None
        | Some bs \<Rightarrow>
            (case iw_png_config W bs of
               None \<Rightarrow> None
             | Some (w, h) \<Rightarrow> if w \<le> 0 \<or> h \<le> 0 \<or> w * h > 4096 * 4096 then None else iw_png_decode W bs)))"

text \<open>\<open>max(1, int(float64(n)*scale+0.5))\<close> with \<open>scale = 64 / max(w, h)\<close>.\<close>

definition scaled :: "icon_world \<Rightarrow> int \<Rightarrow> int \<Rightarrow> int" where
  "scaled W m n =
     (let f = iw_round W; scale = f (of_int app_icon_size / of_int m)
      in max 1 \<lfloor>f (f (of_int n * scale) + 1 / 2)\<rfloor>)"

text \<open>The rectangle of the icon on the canvas: its left, top, right and bottom edges.\<close>

definition icon_rect :: "icon_world \<Rightarrow> int \<Rightarrow> int \<Rightarrow> int \<times> int \<times> int \<times> int" where
  "icon_rect W w h =
     (let dw = scaled W (max w h) w; dh = scaled W (max w h) h;
          x = (app_icon_size - dw) sdiv 2; y = (app_icon_size - dh) sdiv 2
      in (x, y, x + dw, y + dh))"

definition render_icon :: "icon_world \<Rightarrow> string \<Rightarrow> bytes option" where
  "render_icon W path =
     (case load_icon_image W path of
        None \<Rightarrow> None
      | Some src \<Rightarrow>
          if ii_width src \<le> 0 \<or> ii_height src \<le> 0 then None
          else (case iw_png_encode W (iw_draw W src (icon_rect W (ii_width src) (ii_height src))) of
              None \<Rightarrow> None
            | Some png \<Rightarrow> if length png > app_icon_max_bytes then None else Some png))"

subsection \<open>The icon of a player\<close>

definition icon_names :: "icon_world \<Rightarrow> string \<Rightarrow> string \<Rightarrow> string list" where
  "icon_names W entry name =
     (if entry = [] then []
      else (let e = trim_suffix entry ''.desktop''; icon = desktop_file_icon W e name
            in (if icon \<noteq> [] then [icon] else []) @ [e])) @
     (if name = [] then []
      else [to_lower name, map (\<lambda>c. if c = CHR '' '' then CHR ''-'' else c) (to_lower name)])"

fun first_icon :: "icon_world \<Rightarrow> string list \<Rightarrow> bytes option" where
  "first_icon W [] = None"
| "first_icon W (n # ns) =
     (let path = find_icon_file W n in
      if path = [] then first_icon W ns
      else (case render_icon W path of Some d \<Rightarrow> Some d | None \<Rightarrow> first_icon W ns))"

definition load_app_icon :: "icon_world \<Rightarrow> string \<Rightarrow> string \<Rightarrow> bytes option" where
  "load_app_icon W entry name = first_icon W (icon_names W entry name)"

type_synonym icon_cache = "(string, bytes option) gomap"

definition icon_key :: "string \<Rightarrow> string \<Rightarrow> string" where
  "icon_key entry name = entry @ CHR 0x00 # name"

definition app_icon_png :: "icon_world \<Rightarrow> string \<Rightarrow> string \<Rightarrow> icon_cache \<Rightarrow> bytes option \<times> icon_cache" where
  "app_icon_png W entry name cache =
     (case map_of cache (icon_key entry name) of
        Some data \<Rightarrow> (data, cache)
      | None \<Rightarrow>
          let data = load_app_icon W entry name in (data, map_put (icon_key entry name) data cache))"

subsection \<open>The size on the canvas\<close>

text \<open>Rounding to the nearest float: a relative error of at most 2 to the -53, far from the ends of the
  range.\<close>

definition rounds_well :: "(real \<Rightarrow> real) \<Rightarrow> bool" where
  "rounds_well f \<longleftrightarrow> (\<forall>x. 1 / 2 ^ 1000 \<le> x \<and> x \<le> 2 ^ 1000 \<longrightarrow> \<bar>f x - x\<bar> \<le> x / 2 ^ 53)"

lemma rounds_wellD:
  assumes "rounds_well f" and "1 / 2 ^ 100 \<le> x" and "x \<le> 2 ^ 100"
  shows "x * (1 - 1 / 2 ^ 53) \<le> f x \<and> f x \<le> x * (1 + 1 / 2 ^ 53)"
proof -
  have "(1::real) / 2 ^ 1000 \<le> 1 / 2 ^ 100" by (rule divide_left_mono) (auto intro: power_increasing)
  moreover have "(2::real) ^ 100 \<le> 2 ^ 1000" by (rule power_increasing) auto
  ultimately have "\<bar>f x - x\<bar> \<le> x / 2 ^ 53" using assms by (auto simp: rounds_well_def)
  then have "f x - x \<le> x / 2 ^ 53" "- (f x - x) \<le> x / 2 ^ 53" by (rule abs_le_D1, rule abs_le_D2)
  then show ?thesis by (simp add: field_simps)
qed

text \<open>The product of the size with the scale is the exact quotient up to four parts in 2 to the 53.\<close>

lemma scaled_exact:
  assumes f: "rounds_well f" and n: "0 < n" "n \<le> m" and m: "m \<le> 2 ^ 31"
  defines "q \<equiv> 64 * real_of_int n / real_of_int m"
  shows "\<bar>f (f (of_int n * f (64 / of_int m)) + 1 / 2) - (q + 1 / 2)\<bar> \<le> 1 / 2 ^ 40"
    and "0 < q" and "q \<le> 64"
proof -
  have mr: "1 \<le> real_of_int m" "real_of_int m \<le> 2 ^ 31" "1 \<le> real_of_int n" "real_of_int n \<le> real_of_int m"
    using n m by (auto simp: of_int_le_iff [symmetric] simp del: of_int_le_iff)
  define s where "s = 64 / real_of_int m"
  have s: "1 / 2 ^ 25 \<le> s" "s \<le> 64" using mr by (auto simp: s_def field_simps)
  have q: "q = of_int n * s" by (simp add: q_def s_def)
  show q0: "0 < q" and q64: "q \<le> 64" using mr by (auto simp: q_def field_simps)
  have qs: "s \<le> q" using mr s by (simp add: q mult_le_cancel_right1)
  have s1: "s * (1 - 1 / 2 ^ 53) \<le> f s" "f s \<le> s * (1 + 1 / 2 ^ 53)"
    using rounds_wellD [OF f, of s] s by auto
  define p where "p = of_int n * f s"
  have "of_int n * (s * (1 - 1 / 2 ^ 53)) \<le> p" "p \<le> of_int n * (s * (1 + 1 / 2 ^ 53))"
    unfolding p_def using s1 mr by (auto intro!: mult_left_mono)
  then have p: "q * (1 - 1 / 2 ^ 53) \<le> p" "p \<le> q * (1 + 1 / 2 ^ 53)" by (simp_all add: q mult.assoc)
  have pr: "1 / 2 ^ 100 \<le> p" "p \<le> 65"
    using p qs s q64 by (auto simp: field_simps)
  have fp: "p * (1 - 1 / 2 ^ 53) \<le> f p" "f p \<le> p * (1 + 1 / 2 ^ 53)"
    using rounds_wellD [OF f, of p] pr by auto
  have d1: "\<bar>f p - q\<bar> \<le> 1 / 2 ^ 42" by (rule abs_leI) (use p fp pr q64 q0 in \<open>simp_all add: field_simps\<close>)
  have d2: "f p - q \<le> 1 / 2 ^ 42" "- (f p - q) \<le> 1 / 2 ^ 42" using d1 by (rule abs_le_D1, rule abs_le_D2)
  have r: "1 / 2 ^ 100 \<le> f p + 1 / 2" "f p + 1 / 2 \<le> 66" using d2 q0 q64 by (auto simp: field_simps)
  have "(f p + 1 / 2) * (1 - 1 / 2 ^ 53) \<le> f (f p + 1 / 2)" "f (f p + 1 / 2) \<le> (f p + 1 / 2) * (1 + 1 / 2 ^ 53)"
    using rounds_wellD [OF f, of "f p + 1 / 2"] r by auto
  then have "\<bar>f (f p + 1 / 2) - (q + 1 / 2)\<bar> \<le> 1 / 2 ^ 40"
    by (intro abs_leI) (use r d2 in \<open>simp_all add: field_simps\<close>)
  then show "\<bar>f (f (of_int n * f (64 / of_int m)) + 1 / 2) - (q + 1 / 2)\<bar> \<le> 1 / 2 ^ 40"
    by (simp add: p_def s_def)
qed

lemma scaled_bounds:
  assumes f: "rounds_well (iw_round W)" and n: "0 < n" "n \<le> m" and m: "m \<le> 2 ^ 31"
  shows "1 \<le> scaled W m n \<and> scaled W m n \<le> 64 \<and> (n = m \<longrightarrow> scaled W m n = 64) \<and>
         \<bar>of_int (scaled W m n) - 64 * real_of_int n / of_int m\<bar> \<le> 1"
proof -
  define y where "y = iw_round W (iw_round W (of_int n * iw_round W (64 / of_int m)) + 1 / 2)"
  define q where "q = 64 * real_of_int n / real_of_int m"
  have yb: "\<bar>y - (q + 1 / 2)\<bar> \<le> 1 / 2 ^ 40" and q: "0 < q" "q \<le> 64"
    using scaled_exact [OF f n m] by (simp_all add: y_def q_def)
  have y: "y - (q + 1 / 2) \<le> 1 / 4" "- (y - (q + 1 / 2)) \<le> 1 / 4"
    using abs_le_D1 [OF yb] abs_le_D2 [OF yb] by simp_all
  have s: "scaled W m n = max 1 \<lfloor>y\<rfloor>" by (simp add: scaled_def y_def Let_def app_icon_size_def)
  have fl: "real_of_int \<lfloor>y\<rfloor> \<le> y" "y < real_of_int \<lfloor>y\<rfloor> + 1" by linarith+
  have top: "\<lfloor>y\<rfloor> \<le> 64" using y q by (simp add: floor_le_iff)
  have full: "\<lfloor>y\<rfloor> = 64" if "n = m"
  proof -
    have "q = 64" using that n by (simp add: q_def)
    then show ?thesis using y by (simp add: floor_eq_iff)
  qed
  have near: "\<bar>of_int (scaled W m n) - q\<bar> \<le> 1"
  proof (cases "1 \<le> \<lfloor>y\<rfloor>")
    case True
    then have "scaled W m n = \<lfloor>y\<rfloor>" by (simp add: s)
    then show ?thesis using y fl by linarith
  next
    case False
    then have "y < 1" by linarith
    then show ?thesis using False y q by (intro abs_leI) (auto simp: s)
  qed
  have "1 \<le> scaled W m n" "scaled W m n \<le> 64" unfolding s using top by simp_all
  moreover have "scaled W m n = 64" if "n = m" using full [OF that] unfolding s by simp
  ultimately show ?thesis using near unfolding q_def by blast
qed

text \<open>C31. An icon is scaled to fit the 64 x 64 canvas whatever its size and however the floating point
  operations round: the rectangle it is drawn into lies on the canvas and is not empty, its larger side
  fills the canvas, the other side is within one pixel of the exact ratio, and the free space is the same
  on both sides up to one pixel.\<close>

theorem icon_scaled_to_fit:
  assumes "rounds_well (iw_round W)"
    and "0 < w" and "0 < h" and "w \<le> 2 ^ 31" and "h \<le> 2 ^ 31"
    and "icon_rect W w h = (x, y, x', y')"
  shows "0 \<le> x \<and> x < x' \<and> x' \<le> 64 \<and> 0 \<le> y \<and> y < y' \<and> y' \<le> 64 \<and> max (x' - x) (y' - y) = 64 \<and>
         \<bar>of_int (x' - x) - 64 * real_of_int w / of_int (max w h)\<bar> \<le> 1 \<and>
         \<bar>of_int (y' - y) - 64 * real_of_int h / of_int (max w h)\<bar> \<le> 1 \<and>
         64 - x' - x \<in> {0, 1} \<and> 64 - y' - y \<in> {0, 1}"
proof -
  define a b where "a = scaled W (max w h) w" and "b = scaled W (max w h) h"
  have a: "1 \<le> a" "a \<le> 64" "w = max w h \<Longrightarrow> a = 64" "\<bar>of_int a - 64 * real_of_int w / of_int (max w h)\<bar> \<le> 1"
    using scaled_bounds [OF assms(1), of w "max w h"] assms by (auto simp: a_def)
  have b: "1 \<le> b" "b \<le> 64" "h = max w h \<Longrightarrow> b = 64" "\<bar>of_int b - 64 * real_of_int h / of_int (max w h)\<bar> \<le> 1"
    using scaled_bounds [OF assms(1), of h "max w h"] assms by (auto simp: b_def)
  have half: "(64 - c) sdiv 2 = (64 - c) div 2" if "c \<le> 64" for c :: int
    using that by (simp add: signed_divide_int_def sgn_if)
  have r: "x = (64 - a) div 2" "y = (64 - b) div 2" "x' = x + a" "y' = y + b"
    using assms(6) a b by (auto simp: icon_rect_def Let_def a_def [symmetric] b_def [symmetric] app_icon_size_def half)
  have "max a b = 64" using a b by (cases "h \<le> w") auto
  moreover have "0 \<le> (64 - c) div 2 \<and> (64 - c) div 2 + c \<le> 64 \<and> 64 - ((64 - c) div 2 + c) - (64 - c) div 2 \<in> {0, 1}"
    if "1 \<le> c" "c \<le> 64" for c :: int using that by auto
  ultimately show ?thesis using a b by (simp add: r)
qed

definition plain_desktop :: icon_world where
  "plain_desktop =
     \<lparr>iw_home = ''/home/u'', iw_env = (\<lambda>_. []),
      iw_glob = (\<lambda>p. if p = ''/usr/share/icons/*/*/apps/app.png''
                      then [''/usr/share/icons/hicolor/32x32/apps/app.png'', ''/usr/share/icons/hicolor/128x128/apps/app.png''] else []),
      iw_stat = (\<lambda>_. False),
      iw_read = (\<lambda>p. if p = ''/usr/share/icons/hicolor/128x128/apps/app.png'' then Some [1] else None),
      iw_on_path = (\<lambda>_. False), iw_exec = (\<lambda>_. None), iw_png_config = (\<lambda>_. Some (128, 96)),
      iw_png_decode = (\<lambda>_. Some \<lparr>ii_width = 128, ii_height = 96, ii_pixels = [2]\<rparr>),
      iw_draw = (\<lambda>i r. ii_pixels i), iw_png_encode = Some, iw_round = (\<lambda>x. x)\<rparr>"

theorem icon_scaled_to_fit_witness:
  "icon_rect plain_desktop 128 96 = (0, 8, 64, 56) \<and> max (64 - 0) (56 - 8) = (64::int) \<and> 64 - 56 - 8 \<in> {0, 1::int}"
proof -
  have f: "rounds_well (iw_round plain_desktop)" by (simp add: rounds_well_def plain_desktop_def)
  have r: "icon_rect plain_desktop 128 96 = (0, 8, 64, 56)"
    by (simp add: icon_rect_def scaled_def plain_desktop_def app_icon_size_def Let_def signed_divide_int_def)
  show ?thesis using icon_scaled_to_fit [OF f _ _ _ _ r] r by simp
qed

subsection \<open>The file that is chosen\<close>

lemma consider_fold:
  "fold consider_icon cs b =
     (case find (\<lambda>c. icon_score (snd c) < snd b \<and> (\<forall>d \<in> set cs. icon_score (snd c) \<le> icon_score (snd d))) cs of
        None \<Rightarrow> b | Some c \<Rightarrow> (fst c, icon_score (snd c)))"
proof (induction cs arbitrary: b)
  case (Cons c cs)
  have f: "find P (c # cs) = (if P c then Some c else find P cs)" for P by simp
  show ?case
  proof (cases "icon_score (snd c) < snd b")
    case True
    have b': "consider_icon c b = (fst c, icon_score (snd c))" using True by (simp add: consider_icon_def)
    show ?thesis
    proof (cases "\<forall>d \<in> set cs. icon_score (snd c) \<le> icon_score (snd d)")
      case all: True
      then have "find (\<lambda>x. icon_score (snd x) < icon_score (snd c) \<and> (\<forall>d \<in> set cs. icon_score (snd x) \<le> icon_score (snd d))) cs = None"
        by (auto simp: find_None_iff not_less)
      then show ?thesis using True all by (simp add: Cons.IH b')
    next
      case False
      then obtain d where d: "d \<in> set cs" "icon_score (snd d) < icon_score (snd c)" by (auto simp: not_le)
      have "find (\<lambda>x. icon_score (snd x) < icon_score (snd c) \<and> (\<forall>d \<in> set cs. icon_score (snd x) \<le> icon_score (snd d))) cs =
            find (\<lambda>x. icon_score (snd x) < snd b \<and> (\<forall>d \<in> set (c # cs). icon_score (snd x) \<le> icon_score (snd d))) cs"
        by (rule find_cong_set) (use d True in fastforce)
      moreover have "\<exists>x. find (\<lambda>x. icon_score (snd x) < icon_score (snd c) \<and> (\<forall>d \<in> set cs. icon_score (snd x) \<le> icon_score (snd d))) cs = Some x"
      proof -
        obtain x where x: "x \<in> set cs" "\<forall>y \<in> set cs. icon_score (snd x) \<le> icon_score (snd y)"
          using ex_min_if_finite [of "(\<lambda>y. icon_score (snd y)) ` set cs"] d(1)
          by (metis (no_types, lifting) List.finite_set empty_iff finite_imageI image_iff not_less)
        have "icon_score (snd x) < icon_score (snd c)" using x(2) d by force
        then have "find (\<lambda>x. icon_score (snd x) < icon_score (snd c) \<and> (\<forall>d \<in> set cs. icon_score (snd x) \<le> icon_score (snd d))) cs \<noteq> None"
          unfolding find_None_iff using x by blast
        then show ?thesis by (simp only: not_None_eq)
      qed
      ultimately show ?thesis using False True by (auto simp: Cons.IH b')
    qed
  next
    case False
    have "find (\<lambda>x. icon_score (snd x) < snd b \<and> (\<forall>d \<in> set (c # cs). icon_score (snd x) \<le> icon_score (snd d))) cs =
          find (\<lambda>x. icon_score (snd x) < snd b \<and> (\<forall>d \<in> set cs. icon_score (snd x) \<le> icon_score (snd d))) cs"
      by (rule find_cong_set) (use False in auto)
    moreover have "consider_icon c b = b" using False by (simp add: consider_icon_def)
    ultimately show ?thesis using False by (simp add: Cons.IH)
  qed
qed simp

lemma parse_int64_range: "parse_int64 s = Some i \<Longrightarrow> i < 2 ^ 63"
  by (auto simp: parse_int64_def Let_def split: if_splits option.splits)

lemma candidates_in_range:
  assumes "c \<in> set (concat (map (png_candidates W n) dirs))"
  shows "icon_score (snd c) < 2 ^ 63 - 1"
proof -
  have "0 < snd c \<and> snd c < 2 ^ 63"
    using assms parse_int64_range
    by (fastforce simp: png_candidates_def Let_def List.map_filter_def size_in_path_def split: if_splits option.splits prod.splits)
  then show ?thesis by (auto simp: icon_score_def app_icon_size_def Let_def)
qed

lemma nearest_candidate:
  assumes "cs \<noteq> []" and range: "\<And>c. c \<in> set cs \<Longrightarrow> icon_score (snd c) < t"
  shows "\<exists>as c bs. cs = as @ c # bs \<and> fst (fold consider_icon cs ([], t)) = fst c \<and>
    (\<forall>d \<in> set as. icon_score (snd c) < icon_score (snd d)) \<and>
    (\<forall>d \<in> set bs. icon_score (snd c) \<le> icon_score (snd d))"
proof -
  define P where "P c \<longleftrightarrow> icon_score (snd c) < t \<and> (\<forall>d \<in> set cs. icon_score (snd c) \<le> icon_score (snd d))" for c :: "string \<times> int"
  obtain x where "x \<in> set cs" "\<forall>y \<in> set cs. icon_score (snd x) \<le> icon_score (snd y)"
    using ex_min_if_finite [of "(\<lambda>y. icon_score (snd y)) ` set cs"] assms(1)
    by (metis (no_types, lifting) List.finite_set finite_imageI image_iff image_is_empty not_less set_empty)
  then have "find P cs \<noteq> None" using range [of x] unfolding find_None_iff P_def by blast
  then obtain c where c: "find P cs = Some c" by auto
  then obtain i where i: "i < length cs" "P (cs ! i)" "c = cs ! i" "\<forall>j < i. \<not> P (cs ! j)" by (auto simp: find_Some_iff)
  have split: "cs = take i cs @ c # drop (Suc i) cs" using i by (simp add: id_take_nth_drop)
  have best: "\<forall>d \<in> set cs. icon_score (snd c) \<le> icon_score (snd d)" using i by (simp add: P_def)
  have "icon_score (snd c) < icon_score (snd d)" if d: "d \<in> set (take i cs)" for d
  proof (rule ccontr)
    assume "\<not> ?thesis"
    then have "P d" using best in_set_takeD [OF d] range by (fastforce simp: P_def)
    then show False using d i by (auto simp: in_set_conv_nth)
  qed
  moreover have "fst (fold consider_icon cs ([], t)) = fst c"
    using c unfolding P_def [abs_def] by (simp add: consider_fold)
  ultimately show ?thesis using split best by (metis in_set_dropD)
qed

lemma find_icon_best:
  assumes "\<not> path_is_abs n" "CHR ''/'' \<notin> set n" "CHR 0x5C \<notin> set n"
    and "fst (fold consider_icon (concat (map (png_candidates W n) (data_dirs W))) ([], 2 ^ 63 - 1)) \<noteq> []"
  shows "find_icon_file W n = fst (fold consider_icon (concat (map (png_candidates W n) (data_dirs W))) ([], 2 ^ 63 - 1))"
  using assms by (simp add: find_icon_file_def Let_def)

text \<open>Among the PNG files of an icon theme and the pixmaps, the search takes the one whose size is
  nearest to 64 pixels, where a missing pixel counts four times as much as one too many, and the first of
  them in the order of the directories; only if there is none does it look for an SVG or in
  \<open>/usr/share/pixmaps\<close>.\<close>

theorem nearest_icon_is_taken:
  assumes name: "\<not> path_is_abs n" "CHR ''/'' \<notin> set n" "CHR 0x5C \<notin> set n"
    and cs: "cs = concat (map (png_candidates W n) (data_dirs W))" "cs \<noteq> []"
    and files: "\<forall>c \<in> set cs. fst c \<noteq> []"
  shows "\<exists>as c bs. cs = as @ c # bs \<and> find_icon_file W n = fst c \<and>
    (\<forall>d \<in> set as. icon_score (snd c) < icon_score (snd d)) \<and>
    (\<forall>d \<in> set bs. icon_score (snd c) \<le> icon_score (snd d))"
proof -
  have range: "icon_score (snd c) < 2 ^ 63 - 1" if "c \<in> set cs" for c
    using candidates_in_range that by (simp only: cs(1))
  obtain as c bs where c: "cs = as @ c # bs" "fst (fold consider_icon cs ([], 2 ^ 63 - 1)) = fst c"
      "\<forall>d \<in> set as. icon_score (snd c) < icon_score (snd d)" "\<forall>d \<in> set bs. icon_score (snd c) \<le> icon_score (snd d)"
    using nearest_candidate [OF cs(2) range] by blast
  moreover have "find_icon_file W n = fst c"
    using find_icon_best [OF name, of W] files c(1,2) by (simp add: cs(1) [symmetric])
  ultimately show ?thesis by blast
qed

theorem nearest_icon_is_taken_witness:
  "find_icon_file plain_desktop ''app'' = ''/usr/share/icons/hicolor/128x128/apps/app.png''"
proof -
  have dirs: "data_dirs plain_desktop = [''/home/u/.local/share'', ''/home/u/.local/share/flatpak/exports/share'',
      ''/var/lib/flatpak/exports/share'', ''/usr/local/share'', ''/usr/share'']" by code_simp
  have cs: "concat (map (png_candidates plain_desktop ''app'') (data_dirs plain_desktop)) =
      [(''/usr/share/icons/hicolor/32x32/apps/app.png'', 32), (''/usr/share/icons/hicolor/128x128/apps/app.png'', 128)]"
    unfolding dirs by code_simp
  have "\<exists>as c bs. concat (map (png_candidates plain_desktop ''app'') (data_dirs plain_desktop)) = as @ c # bs \<and>
      find_icon_file plain_desktop ''app'' = fst c \<and>
      (\<forall>d \<in> set as. icon_score (snd c) < icon_score (snd d)) \<and>
      (\<forall>d \<in> set bs. icon_score (snd c) \<le> icon_score (snd d))"
    by (rule nearest_icon_is_taken [OF _ _ _ refl]) (simp_all add: cs path_is_abs_def has_prefix_def)
  then show ?thesis
    unfolding cs by (auto simp: Cons_eq_append_conv icon_score_def app_icon_size_def)
qed

subsection \<open>Desktop files\<close>

text \<open>A key is read from the group \<open>[Desktop Entry]\<close> only: whatever groups come before it, the value of
  its first line with the key is returned.\<close>

lemma scan_entry_other:
  "\<forall>l \<in> set pre. length l < scan_limit \<and> trim_space l \<noteq> ''[Desktop Entry]'' \<Longrightarrow>
   scan_entry key False (pre @ ls) = scan_entry key False ls"
  by (induction pre) (auto simp: Let_def not_le)

lemma scan_entry_body:
  "\<forall>l \<in> set body. length l < scan_limit \<and> \<not> has_prefix (trim_space l) ''['' \<and> \<not> has_prefix (trim_space l) (key @ ''='') \<Longrightarrow>
   scan_entry key True (body @ ls) = scan_entry key True ls"
  by (induction body) (auto simp: Let_def not_le)

lemma desktop_entry_value:
  assumes "\<forall>l \<in> set pre. length l < scan_limit \<and> trim_space l \<noteq> ''[Desktop Entry]''"
    and "\<forall>l \<in> set body. length l < scan_limit \<and> \<not> has_prefix (trim_space l) ''['' \<and> \<not> has_prefix (trim_space l) (key @ ''='')"
    and "length h < scan_limit" and "trim_space h = ''[Desktop Entry]''"
    and "length l < scan_limit" and "trim_space l = key @ ''='' @ v"
    and "\<not> has_prefix (key @ ''='' @ v) ''[''" and "key \<noteq> ''Name''"
  shows "scan_entry key False (pre @ h # body @ l # rest) = trim_space v"
proof -
  have "scan_entry key True (l # rest) = trim_space v"
    using assms(5-8) by (simp add: Let_def not_le trim_prefix_def has_prefix_def)
  then show ?thesis
    using scan_entry_other [OF assms(1), of key "h # body @ l # rest"] scan_entry_body [OF assms(2), of "l # rest"] assms(3,4)
    by (simp add: Let_def not_le has_prefix_def)
qed

subsection \<open>The cache\<close>

definition valid_key :: "string \<Rightarrow> bool" where
  "valid_key entry \<longleftrightarrow> CHR 0x00 \<notin> set entry"

lemma icon_key_inject:
  assumes "valid_key e" "valid_key e'"
  shows "icon_key e n = icon_key e' n' \<longleftrightarrow> e = e' \<and> n = n'"
proof -
  have t: "takeWhile (\<lambda>c. c \<noteq> CHR 0x00) (icon_key x m) = x" if "valid_key x" for x m
    using that by (auto simp: icon_key_def valid_key_def takeWhile_append)
  show ?thesis using t [OF assms(1), of n] t [OF assms(2), of n'] by (auto simp: icon_key_def)
qed

lemma first_icon_small: "first_icon W ns = Some png \<Longrightarrow> length png \<le> app_icon_max_bytes"
  by (induction ns) (auto simp: Let_def render_icon_def split: if_splits option.splits)

type_synonym icon_call = "icon_world \<times> string \<times> string"

fun run_icons :: "icon_call list \<Rightarrow> icon_cache \<Rightarrow> bytes option list" where
  "run_icons [] cache = []"
| "run_icons ((W, e, n) # cs) cache =
     (let r = app_icon_png W e n cache in fst r # run_icons cs (snd r))"

definition first_call :: "string \<Rightarrow> string \<Rightarrow> icon_call list \<Rightarrow> icon_call option" where
  "first_call e n cs = find (\<lambda>(_, e', n'). e' = e \<and> n' = n) cs"

text \<open>The icon as it was when the player was first asked for.\<close>

definition icon_at_first :: "icon_call list \<Rightarrow> icon_call \<Rightarrow> bytes option" where
  "icon_at_first cs c =
     (case first_call (fst (snd c)) (snd (snd c)) cs of None \<Rightarrow> None | Some (W, e, n) \<Rightarrow> load_app_icon W e n)"

definition cache_of :: "icon_call list \<Rightarrow> icon_cache \<Rightarrow> bool" where
  "cache_of cs cache \<longleftrightarrow>
     (\<forall>e n. valid_key e \<longrightarrow> map_of cache (icon_key e n) = map_option (\<lambda>(W, _, _). load_app_icon W e n) (first_call e n cs))"

lemma first_call_snoc:
  "first_call e n (cs @ [(W, e', n')]) =
     (case first_call e n cs of Some c \<Rightarrow> Some c | None \<Rightarrow> if e' = e \<and> n' = n then Some (W, e, n) else None)"
  by (induction cs) (auto simp: first_call_def)

lemma first_call_append: "first_call e n ps = Some c \<Longrightarrow> first_call e n (ps @ cs) = Some c"
  by (induction ps) (auto simp: first_call_def split: if_splits)

lemma first_callD: "first_call e n cs = Some (W, e', n') \<Longrightarrow> e' = e \<and> n' = n"
  by (auto simp: first_call_def find_Some_iff)

lemma app_icon_png_step:
  assumes "cache_of ps cache" and "valid_key e" and r: "app_icon_png W e n cache = (d, cache')"
  shows "cache_of (ps @ [(W, e, n)]) cache' \<and> d = icon_at_first (ps @ [(W, e, n)]) (W, e, n)"
proof (cases "first_call e n ps")
  case None
  then have m: "map_of cache (icon_key e n) = None" using assms(1,2) by (simp add: cache_of_def)
  have d: "d = load_app_icon W e n" and c: "cache' = map_put (icon_key e n) (load_app_icon W e n) cache"
    using r m by (auto simp: app_icon_png_def Let_def)
  show ?thesis
    using assms(1,2) None
    by (auto simp: cache_of_def c d icon_at_first_def first_call_snoc icon_key_inject split: option.split)
next
  case (Some c)
  obtain V where c: "first_call e n ps = Some (V, e, n)" using Some first_callD by (metis prod_cases3)
  then have "map_of cache (icon_key e n) = Some (load_app_icon V e n)" using assms(1,2) by (simp add: cache_of_def)
  then have "d = load_app_icon V e n" and "cache' = cache" using r by (auto simp: app_icon_png_def)
  then show ?thesis
    using assms(1) c by (auto simp: cache_of_def icon_at_first_def first_call_snoc split: option.split)
qed

lemma run_icons_from:
  "cache_of ps cache \<Longrightarrow> \<forall>(W, e, n) \<in> set cs. valid_key e \<Longrightarrow>
   run_icons cs cache = map (icon_at_first (ps @ cs)) cs"
proof (induction cs arbitrary: ps cache)
  case (Cons c cs)
  obtain W e n where c: "c = (W, e, n)" by (cases c)
  obtain d cache' where r: "app_icon_png W e n cache = (d, cache')" by (cases "app_icon_png W e n cache")
  have s: "cache_of (ps @ [c]) cache'" "d = icon_at_first (ps @ [c]) c"
    using app_icon_png_step [OF Cons.prems(1) _ r] Cons.prems(2) by (auto simp: c)
  have "first_call e n (ps @ [c]) \<noteq> None" by (auto simp: c first_call_snoc split: option.split)
  then obtain f where "first_call e n (ps @ [c]) = Some f" by auto
  then have "icon_at_first (ps @ [c]) c = icon_at_first (ps @ c # cs) c"
    using first_call_append [of e n "ps @ [c]" f cs] by (simp add: icon_at_first_def c)
  then show ?case using Cons.IH [OF s(1)] Cons.prems(2) s(2) r by (simp add: c)
qed simp

text \<open>The cache answers like a search made when the player was first asked for: in any sequence of
  calls, however the desktop changes between them, every call returns what the search found at the first
  call for the same desktop entry and identity, a miss included, and no icon is larger than 8 KB. (A
  desktop entry comes from the bus, where strings hold no zero byte.)\<close>

theorem icons_cached_for_life:
  assumes "\<forall>(W, e, n) \<in> set cs. valid_key e"
  shows "run_icons cs [] = map (icon_at_first cs) cs \<and>
    (\<forall>d \<in> set (run_icons cs []). case d of None \<Rightarrow> True | Some png \<Rightarrow> length png \<le> 8192)"
proof -
  have r: "run_icons cs [] = map (icon_at_first cs) cs"
    using run_icons_from [of "[]" "[]" cs] assms by (simp add: cache_of_def first_call_def)
  have "case icon_at_first cs c of None \<Rightarrow> True | Some png \<Rightarrow> length png \<le> 8192" for c
    using first_icon_small
    by (fastforce simp: icon_at_first_def load_app_icon_def app_icon_max_bytes_def split: option.split)
  then show ?thesis by (auto simp: r)
qed

theorem icons_cached_for_life_witness:
  "run_icons [(plain_desktop, [], ''App''), (plain_desktop\<lparr>iw_glob := (\<lambda>_. [])\<rparr>, [], ''App'')] [] = [Some [2], Some [2]]"
proof -
  define cs :: "icon_call list" where "cs = [(plain_desktop, [], ''App''), (plain_desktop\<lparr>iw_glob := (\<lambda>_. [])\<rparr>, [], ''App'')]"
  have "find_icon_file plain_desktop ''app'' = ''/usr/share/icons/hicolor/128x128/apps/app.png''" by code_simp
  moreover have "render_icon plain_desktop ''/usr/share/icons/hicolor/128x128/apps/app.png'' = Some [2]"
    by (simp add: render_icon_def load_icon_image_def to_lower_def lower_char_def has_suffix_def has_prefix_def
        plain_desktop_def app_icon_max_bytes_def)
  moreover have "to_lower ''App'' = ''app''" by code_simp
  ultimately have "load_app_icon plain_desktop [] ''App'' = Some [2]"
    by (simp add: load_app_icon_def icon_names_def)
  then have "map (icon_at_first cs) cs = [Some [2], Some [2]]"
    by (simp add: cs_def icon_at_first_def first_call_def)
  moreover have "run_icons cs [] = map (icon_at_first cs) cs"
    using icons_cached_for_life [of cs] by (simp add: cs_def valid_key_def)
  ultimately show ?thesis by (simp add: cs_def)
qed

text \<open>Callers that look up, search and store at the same time: the lock is free while one searches, so
  two may search for the same player, but in one desktop all get the same answer.\<close>

datatype icon_event = IconLook string string | IconFound nat

record icon_users =
  iu_cache :: icon_cache
  iu_loading :: "(string \<times> string) list"
  iu_answers :: "((string \<times> string) \<times> bytes option) list"

fun icon_user :: "icon_world \<Rightarrow> icon_event \<Rightarrow> icon_users \<Rightarrow> icon_users" where
  "icon_user W (IconLook e n) s =
     (case map_of (iu_cache s) (icon_key e n) of
        Some d \<Rightarrow> s\<lparr>iu_answers := ((e, n), d) # iu_answers s\<rparr>
      | None \<Rightarrow> s\<lparr>iu_loading := iu_loading s @ [(e, n)]\<rparr>)"
| "icon_user W (IconFound k) s =
     (if k \<ge> length (iu_loading s) then s
      else (let (e, n) = iu_loading s ! k; d = load_app_icon W e n
        in s\<lparr>iu_cache := map_put (icon_key e n) d (iu_cache s),
             iu_loading := take k (iu_loading s) @ drop (Suc k) (iu_loading s),
             iu_answers := ((e, n), d) # iu_answers s\<rparr>))"

definition users_ok :: "icon_world \<Rightarrow> icon_users \<Rightarrow> bool" where
  "users_ok W s \<longleftrightarrow>
     (\<forall>e n d. valid_key e \<longrightarrow> map_of (iu_cache s) (icon_key e n) = Some d \<longrightarrow> d = load_app_icon W e n) \<and>
     (\<forall>(e, n) \<in> set (iu_loading s). valid_key e) \<and>
     (\<forall>((e, n), d) \<in> set (iu_answers s). d = load_app_icon W e n)"

definition valid_look :: "icon_event \<Rightarrow> bool" where
  "valid_look ev \<longleftrightarrow> (case ev of IconLook e n \<Rightarrow> valid_key e | IconFound k \<Rightarrow> True)"

lemma icon_user_ok: "users_ok W s \<Longrightarrow> valid_look ev \<Longrightarrow> users_ok W (icon_user W ev s)"
proof (cases ev)
  case (IconLook e n)
  assume "users_ok W s" "valid_look ev"
  then show ?thesis by (auto simp: IconLook users_ok_def valid_look_def split: option.split)
next
  case (IconFound k)
  assume s: "users_ok W s"
  show ?thesis
  proof (cases "k < length (iu_loading s)")
    case True
    obtain e n where en: "iu_loading s ! k = (e, n)" by fastforce
    then have v: "valid_key e" using s True nth_mem by (fastforce simp: users_ok_def)
    define d where "d = load_app_icon W e n"
    define ls where "ls = take k (iu_loading s) @ drop (Suc k) (iu_loading s)"
    have ls: "set ls \<subseteq> set (iu_loading s)" by (auto simp: ls_def dest: in_set_takeD in_set_dropD)
    have "icon_user W ev s = s\<lparr>iu_cache := map_put (icon_key e n) d (iu_cache s), iu_loading := ls,
        iu_answers := ((e, n), d) # iu_answers s\<rparr>"
      using True by (simp add: IconFound en Let_def d_def ls_def)
    moreover have "d' = load_app_icon W e' n'"
      if "valid_key e'" "map_of (map_put (icon_key e n) d (iu_cache s)) (icon_key e' n') = Some d'" for e' n' d'
    proof (cases "e' = e \<and> n' = n")
      case True
      then show ?thesis using that(2) by (simp add: d_def)
    next
      case False
      then have "icon_key e' n' \<noteq> icon_key e n" using icon_key_inject [OF that(1) v] by blast
      then have "map_of (iu_cache s) (icon_key e' n') = Some d'" using that(2) by simp
      then show ?thesis using s that(1) unfolding users_ok_def by blast
    qed
    moreover have "users_ok W (s\<lparr>iu_cache := c, iu_loading := ls, iu_answers := ((e, n), d) # iu_answers s\<rparr>)"
      if "\<And>e n d. valid_key e \<Longrightarrow> map_of c (icon_key e n) = Some d \<Longrightarrow> d = load_app_icon W e n" for c
    proof -
      have "\<forall>(e, n) \<in> set ls. valid_key e" using s ls unfolding users_ok_def by blast
      moreover have "\<forall>((e, n), d) \<in> set (((e, n), d) # iu_answers s). d = load_app_icon W e n"
        using s unfolding users_ok_def by (simp add: d_def)
      ultimately show ?thesis using that by (simp add: users_ok_def)
    qed
    ultimately show ?thesis by metis
  qed (use s in \<open>simp add: IconFound\<close>)
qed

definition no_users :: icon_users where
  "no_users = \<lparr>iu_cache = [], iu_loading = [], iu_answers = []\<rparr>"

definition icon_step :: "icon_world \<Rightarrow> icon_users \<Rightarrow> icon_users \<Rightarrow> bool" where
  "icon_step W s t \<longleftrightarrow> (\<exists>ev. valid_look ev \<and> t = icon_user W ev s)"

interpretation icon_callers: step_system "\<lambda>s. s = no_users" "icon_step W" "users_ok W" for W
  proof
  show "users_ok W s" if "s = no_users" for s using that by (simp add: users_ok_def no_users_def)
  show "users_ok W t" if "users_ok W s" "icon_step W s t" for s t
    using that icon_user_ok unfolding icon_step_def by blast
qed

lemma callers_agree:
  assumes "reach (\<lambda>s. s = no_users) (icon_step W) s" and "((e, n), d) \<in> set (iu_answers s)"
  shows "d = load_app_icon W e n"
  using icon_callers.reach_inv [OF assms(1)] assms(2) unfolding users_ok_def by blast

end
