(* ===== verification/Clipboard_Sync.thy ===== *)
theory Clipboard_Sync
  imports Session_Requests
begin

text \<open>
  The clipboard service (\<open>libquava/clipboard/sync.go\<close>, with \<open>libquava/models/clipboard.go\<close>): it watches
  the clipboard of the host and pushes what changes, but not what it has just pushed or what came
  from a phone.

  The service record holds the last content known and the state of the watcher: \<open>started\<close> is the flag
  the lifecycle lock guards, \<open>watching\<close> tells whether the goroutine still runs. The clipboard
  library is a parameter through the results of its calls. \<open>push_clipboard_content\<close> returns the content for which
  the callback is called, \<open>None\<close> when it is not; the daemon makes the call.
\<close>

subsection \<open>The service\<close>

definition text_type :: string where "text_type = ''text''"
definition image_type :: string where "image_type = ''image''"
definition file_type :: string where "file_type = ''file''"
definition other_type :: string where "other_type = ''other''"

record clipboard_service =
  last_updated :: int
  last_content :: clipboard_content
  has_push :: bool
  started :: bool
  watching :: bool

datatype clipboard_error = ClipRunning | ClipInit | ClipTooLong

definition no_content :: clipboard_content where
  "no_content = \<lparr>content_type = [], clip_content = []\<rparr>"

definition new_clipboard_service :: "bool \<Rightarrow> clipboard_service" where
  "new_clipboard_service push = \<lparr>last_updated = 0, last_content = no_content, has_push = push,
     started = False, watching = False\<rparr>"

definition start_clipboard_service ::
    "bool \<Rightarrow> clipboard_service \<Rightarrow> clipboard_error option \<times> clipboard_service" where
  "start_clipboard_service init_ok c =
     (if started c then (Some ClipRunning, c)
      else if \<not> init_ok then (Some ClipInit, c)
      else (None, c\<lparr>started := True, watching := True\<rparr>))"

text \<open>The goroutine ends when its context is cancelled or the channel of changes is closed.\<close>

definition watch_ended :: "clipboard_service \<Rightarrow> clipboard_service" where
  "watch_ended c = c\<lparr>watching := False\<rparr>"

definition stop_clipboard_service :: "clipboard_service \<Rightarrow> clipboard_service" where
  "stop_clipboard_service c = (if \<not> started c then c else c\<lparr>started := False, watching := False\<rparr>)"

definition remember_content :: "int \<Rightarrow> clipboard_content \<Rightarrow> clipboard_service \<Rightarrow> clipboard_service" where
  "remember_content now x c = c\<lparr>last_content := x, last_updated := now\<rparr>"

definition push_clipboard_content ::
    "int \<Rightarrow> clipboard_content \<Rightarrow> clipboard_service \<Rightarrow>
     (clipboard_error + clipboard_content option) \<times> clipboard_service" where
  "push_clipboard_content now x c =
     (if length (clip_content x) > MaxClipboardBytes then (Inl ClipTooLong, c)
      else if last_content c = x then (Inr None, c)
      else (Inr (if has_push c then Some x else None), c\<lparr>last_content := x, last_updated := now\<rparr>))"

text \<open>A change the watcher hears: it is text, and it is pushed while the goroutine runs.\<close>

definition clipboard_changed ::
    "int \<Rightarrow> bytes \<Rightarrow> clipboard_service \<Rightarrow> (clipboard_error + clipboard_content option) \<times> clipboard_service" where
  "clipboard_changed now bs c =
     (if \<not> watching c then (Inr None, c)
      else push_clipboard_content now \<lparr>content_type = text_type, clip_content = bs\<rparr> c)"

subsection \<open>What is pushed\<close>

text \<open>
  The reference: of the texts of the host (\<open>FromHost\<close>) and of the phones (\<open>FromPhone\<close>), in the order in
  which they arrive, a text of the host is pushed when it is within the limit and is not the text
  the clipboard held before; texts beyond the limit do not count.
\<close>

datatype clip_event = FromHost bytes | FromPhone bytes

fun text_of :: "clip_event \<Rightarrow> bytes" where
  "text_of (FromHost b) = b"
| "text_of (FromPhone b) = b"

fun counts :: "clip_event \<Rightarrow> bool" where
  "counts (FromHost b) \<longleftrightarrow> length b \<le> MaxClipboardBytes"
| "counts (FromPhone b) \<longleftrightarrow> True"

definition must_push :: "clip_event list \<Rightarrow> nat \<Rightarrow> bool" where
  "must_push es i \<longleftrightarrow> counts (es ! i) \<and> (\<exists>b. es ! i = FromHost b) \<and>
     (let before = filter counts (take i es)
      in before = [] \<or> text_of (last before) \<noteq> text_of (es ! i))"

definition clip_turn :: "clip_event \<Rightarrow> clipboard_service \<Rightarrow> clipboard_content option \<times> clipboard_service" where
  "clip_turn e c =
     (case e of
        FromHost b \<Rightarrow> (case clipboard_changed 0 b c of (r, c') \<Rightarrow> (case r of Inr p \<Rightarrow> p | Inl _ \<Rightarrow> None, c'))
      | FromPhone b \<Rightarrow> (None, remember_content 0 \<lparr>content_type = text_type, clip_content = b\<rparr> c))"

fun clip_run :: "clip_event list \<Rightarrow> clipboard_service \<Rightarrow> clipboard_content option list" where
  "clip_run [] c = []"
| "clip_run (e # es) c = (case clip_turn e c of (p, c') \<Rightarrow> p # clip_run es c')"

definition text_content :: "bytes \<Rightarrow> clipboard_content" where
  "text_content b = \<lparr>content_type = text_type, clip_content = b\<rparr>"

definition knows :: "clip_event list \<Rightarrow> clipboard_service \<Rightarrow> bool" where
  "knows es c \<longleftrightarrow> watching c \<and> has_push c \<and>
     last_content c = (if filter counts es = [] then no_content else text_content (text_of (last (filter counts es))))"

lemma text_content_eq [simp]: "text_content a = text_content b \<longleftrightarrow> a = b"
  "text_content a \<noteq> no_content" "no_content \<noteq> text_content a"
  by (auto simp: text_content_def no_content_def text_type_def)

lemma text_content_bytes [simp]: "clip_content (text_content b) = b"
  by (simp add: text_content_def)

lemma clip_turn_knows:
  assumes "knows es c"
  shows "knows (es @ [e]) (snd (clip_turn e c))"
    and "fst (clip_turn e c) =
      (if must_push (es @ [e]) (length es) then Some (text_content (text_of e)) else None)"
proof -
  show "knows (es @ [e]) (snd (clip_turn e c))"
    using assms by (cases e) (auto simp: knows_def clip_turn_def clipboard_changed_def
        push_clipboard_content_def remember_content_def text_content_def [symmetric])
  show "fst (clip_turn e c) =
      (if must_push (es @ [e]) (length es) then Some (text_content (text_of e)) else None)"
    using assms by (cases e) (auto simp: knows_def clip_turn_def clipboard_changed_def must_push_def Let_def
        push_clipboard_content_def text_content_def [symmetric])
qed

lemma must_push_append: "i < length es \<Longrightarrow> must_push (es @ fs) i = must_push es i"
  by (simp add: must_push_def nth_append)

lemma clip_run_from:
  "knows es c \<Longrightarrow> clip_run fs c =
     map (\<lambda>i. if must_push (es @ fs) i then Some (text_content (text_of ((es @ fs) ! i))) else None)
       [length es..<length es + length fs]"
proof (induction fs arbitrary: es c)
  case (Cons e fs)
  obtain p c' where t: "clip_turn e c = (p, c')" by fastforce
  have k: "knows (es @ [e]) c'" and p: "p = (if must_push (es @ [e]) (length es) then Some (text_content (text_of e)) else None)"
    using clip_turn_knows [OF Cons.prems, of e] t by auto
  have m: "must_push (es @ e # fs) (length es) = must_push (es @ [e]) (length es)"
    using must_push_append [of "length es" "es @ [e]" fs] by simp
  show ?case using Cons.IH [OF k] p m by (simp add: t upt_conv_Cons del: upt_Suc)
qed simp

subsection \<open>Properties\<close>


text \<open>A watcher that has ended by itself is never replaced: after the channel of changes is closed,
  starting the service again reports that it is running, changes nothing, and no later text
  of the host is pushed, until the service is stopped.\<close>

theorem ended_watcher_not_restarted:
  assumes "started c"
  shows "start_clipboard_service ok (watch_ended c) = (Some ClipRunning, watch_ended c) \<and>
    clipboard_changed now bs (watch_ended c) = (Inr None, watch_ended c) \<and>
    fst (start_clipboard_service True (stop_clipboard_service (watch_ended c))) = None"
  using assms by (simp add: start_clipboard_service_def clipboard_changed_def watch_ended_def stop_clipboard_service_def)

lemma ended_watcher_not_restarted_witness:
  "fst (start_clipboard_service True (watch_ended (snd (start_clipboard_service True (new_clipboard_service True))))) =
     Some ClipRunning"
  using ended_watcher_not_restarted [of "snd (start_clipboard_service True (new_clipboard_service True))" True 0 "[]"]
  by (simp add: start_clipboard_service_def new_clipboard_service_def)

end
