(* ===== verification/Ssh_Service.thy ===== *)
theory Ssh_Service
  imports Go_Prelude
begin

text \<open>
  The SSH service of the daemon: \<open>libquava/ssh/setup.go\<close> and \<open>libquava/ssh/pty.go\<close>. The service
  authenticates no one (\<open>NoClientAuth\<close>); whom it serves is decided by the address a connection
  comes from, the table \<open>allowed\<close>.

  An address is \<open>None\<close> for nil, else what \<open>String\<close> prints. The SSH library and the terminal are
  parameters: a request carries what \<open>ssh.Unmarshal\<close> makes of its payload, \<open>loopback\<close> tells whether
  a host is the literal of a loopback IP, and \<open>key_io\<close> holds the results of the calls that read
  and create the host key. A listener and a connection are numbers.
\<close>

subsection \<open>Addresses\<close>

text \<open>\<open>net.SplitHostPort\<close>: the host, or \<open>None\<close> when the string is no host with a port.\<close>

definition before_last :: "char \<Rightarrow> string \<Rightarrow> string option" where
  "before_last c s =
     (if c \<in> set s then Some (rev (tl (dropWhile (\<lambda>x. x \<noteq> c) (rev s)))) else None)"

definition split_host :: "string \<Rightarrow> string option" where
  "split_host s =
     (case before_last CHR '':'' s of
        None \<Rightarrow> None
      | Some pre \<Rightarrow>
          let port = drop (Suc (length pre)) s in
          if s ! 0 = CHR ''['' then
            (case cut_at CHR '']'' s of
               None \<Rightarrow> None
             | Some (inside, rest) \<Rightarrow>
                 if rest = [] \<or> inside @ '']'' \<noteq> pre then None
                 else if CHR ''['' \<in> set (tl s) \<or> CHR '']'' \<in> set rest then None
                 else Some (tl inside))
          else if CHR '':'' \<in> set pre \<or> CHR ''['' \<in> set s \<or> CHR '']'' \<in> set s then None
          else Some pre)"

definition address_host :: "string option \<Rightarrow> string" where
  "address_host a =
     (case a of None \<Rightarrow> [] | Some s \<Rightarrow> (case split_host s of Some h \<Rightarrow> h | None \<Rightarrow> s))"

subsection \<open>The service\<close>

record ssh_service =
  listen_addr :: string
  has_config :: bool
  ssh_listener :: "nat option"
  next_listener :: nat
  ssh_conns :: "(nat, unit) gomap"
  allowed :: "(string, string) gomap"

datatype ssh_error = SshCancelled | SshNoConfig | SshAlreadyRunning | SshListen | SshStop

definition new_ssh_service :: "string \<Rightarrow> bool \<Rightarrow> ssh_service" where
  "new_ssh_service addr config =
     \<lparr>listen_addr = (if addr = [] then '':2222'' else addr), has_config = config, ssh_listener = None,
      next_listener = 0, ssh_conns = [], allowed = []\<rparr>"

definition remove_allowed_address :: "string \<Rightarrow> ssh_service \<Rightarrow> ssh_service" where
  "remove_allowed_address peer s = s\<lparr>allowed := map_del peer (allowed s)\<rparr>"

definition set_allowed_address :: "string \<Rightarrow> string option \<Rightarrow> ssh_service \<Rightarrow> ssh_service" where
  "set_allowed_address peer a s =
     (let host = address_host a in
      if host = [] then remove_allowed_address peer s
      else s\<lparr>allowed := map_put peer host (allowed s)\<rparr>)"

definition start_ssh :: "bool \<Rightarrow> bool \<Rightarrow> ssh_service \<Rightarrow> ssh_error option \<times> ssh_service" where
  "start_ssh alive listen_ok s =
     (if \<not> alive then (Some SshCancelled, s)
      else if \<not> has_config s then (Some SshNoConfig, s)
      else if ssh_listener s \<noteq> None then (Some SshAlreadyRunning, s)
      else if \<not> listen_ok then (Some SshListen, s)
      else (None, s\<lparr>ssh_listener := Some (next_listener s), next_listener := next_listener s + 1\<rparr>))"

definition stop_ssh :: "bool \<Rightarrow> ssh_service \<Rightarrow> ssh_error option \<times> ssh_service" where
  "stop_ssh close_ok s =
     (if ssh_listener s \<noteq> None \<and> \<not> close_ok then Some SshStop else None,
      s\<lparr>ssh_listener := None, ssh_conns := []\<rparr>)"

text \<open>The accept loop of listener \<open>l\<close>: a connection, or an error that is no \<open>Stop\<close>.\<close>

definition accepted_conn :: "nat \<Rightarrow> ssh_service \<Rightarrow> ssh_service" where
  "accepted_conn c s = s\<lparr>ssh_conns := map_put c () (ssh_conns s)\<rparr>"

definition accept_failed :: "nat \<Rightarrow> ssh_service \<Rightarrow> ssh_service" where
  "accept_failed l s =
     (if ssh_listener s \<noteq> Some l then s else s\<lparr>ssh_listener := None, allowed := []\<rparr>)"

definition conn_finished :: "nat \<Rightarrow> ssh_service \<Rightarrow> ssh_service" where
  "conn_finished c s = s\<lparr>ssh_conns := map_del c (ssh_conns s)\<rparr>"

definition is_allowed :: "(string \<Rightarrow> bool) \<Rightarrow> string option \<Rightarrow> ssh_service \<Rightarrow> bool" where
  "is_allowed loopback a s =
     (let host = address_host a in
      if host = [] then False
      else if loopback host then True
      else list_ex (\<lambda>(_, h). h = host) (allowed s))"

datatype conn_fate = ConnRejected | ConnHandshakeFailed | ConnServed

definition handle_connection :: "(string \<Rightarrow> bool) \<Rightarrow> string option \<Rightarrow> bool \<Rightarrow> ssh_service \<Rightarrow> conn_fate" where
  "handle_connection loopback a handshake_ok s =
     (if \<not> is_allowed loopback a s then ConnRejected
      else if \<not> handshake_ok then ConnHandshakeFailed else ConnServed)"

subsection \<open>Channels\<close>

record pty_request =
  pty_term :: string
  pty_cols :: "32 word"
  pty_rows :: "32 word"
  pty_width :: "32 word"
  pty_height :: "32 word"
  pty_modes :: string

record ssh_request =
  rq_type :: string
  rq_pty :: "pty_request option"
  rq_command :: "string option"
  rq_window :: "(32 word \<times> 32 word \<times> 32 word \<times> 32 word) option"

datatype ssh_run = RunNothing | RunShell | RunPtyShell pty_request "ssh_request list" | RunCommand string

definition handle_channel :: "string \<Rightarrow> bool \<Rightarrow> bool" where
  "handle_channel kind accept_ok \<longleftrightarrow> kind = ''session'' \<and> accept_ok"

text \<open>The replies to the requests of a session, and what is run for them.\<close>

fun handle_session :: "ssh_request list \<Rightarrow> pty_request option \<Rightarrow> bool list \<times> ssh_run" where
  "handle_session [] p = ([], RunNothing)"
| "handle_session (r # rs) p =
     (let refuse = (case handle_session rs p of (bs, x) \<Rightarrow> (False # bs, x)) in
      if rq_type r = ''pty-req'' then
        (case rq_pty r of
           None \<Rightarrow> refuse
         | Some q \<Rightarrow> (case handle_session rs (Some q) of (bs, x) \<Rightarrow> (True # bs, x)))
      else if rq_type r = ''env'' then refuse
      else if rq_type r = ''shell'' then
        ([True], case p of Some q \<Rightarrow> RunPtyShell q rs | None \<Rightarrow> RunShell)
      else if rq_type r = ''exec'' then
        (case rq_command r of
           None \<Rightarrow> refuse
         | Some c \<Rightarrow> ([True], RunCommand c))
      else refuse)"

definition shell_path :: "string \<Rightarrow> string" where
  "shell_path env = (if env = [] then ''/bin/bash'' else env)"

text \<open>How a command ended: \<open>ExecFailed\<close> is an error other than \<open>exec.ExitError\<close>.\<close>

datatype exec_end = ExecOk | ExecExit int | ExecFailed

definition exit_status :: "exec_end \<Rightarrow> 32 word" where
  "exit_status e = (case e of ExecOk \<Rightarrow> 0 | ExecExit n \<Rightarrow> word_of_int n | ExecFailed \<Rightarrow> 1)"

subsection \<open>The terminal\<close>

record winsize =
  ws_cols :: "16 word"
  ws_rows :: "16 word"
  ws_x :: "16 word"
  ws_y :: "16 word"

definition non_zero_dimension :: "32 word \<Rightarrow> 32 word" where
  "non_zero_dimension v = (if v = 0 then 1 else v)"

definition window_size :: "32 word \<Rightarrow> 32 word \<Rightarrow> 32 word \<Rightarrow> 32 word \<Rightarrow> winsize" where
  "window_size cols rows w h =
     \<lparr>ws_cols = ucast (non_zero_dimension cols), ws_rows = ucast (non_zero_dimension rows),
      ws_x = ucast w, ws_y = ucast h\<rparr>"

definition initial_size :: "pty_request \<Rightarrow> winsize" where
  "initial_size q = window_size (pty_cols q) (pty_rows q) (pty_width q) (pty_height q)"

definition term_name :: "pty_request \<Rightarrow> string" where
  "term_name q = (if pty_term q = [] then ''xterm'' else pty_term q)"

text \<open>The goroutine that serves requests while the shell runs: the sizes it sets, in order. Every
  request that is no resize is refused, once for each; a resize is not answered.\<close>

fun resizes :: "ssh_request list \<Rightarrow> winsize list \<times> nat" where
  "resizes [] = ([], 0)"
| "resizes (r # rs) =
     (case resizes rs of (ws, refused) \<Rightarrow>
        if rq_type r = ''window-change'' then
          (case rq_window r of
             None \<Rightarrow> (ws, refused)
           | Some (c, l, x, y) \<Rightarrow> (window_size c l x y # ws, refused))
        else (ws, refused + 1))"

subsection \<open>The host key\<close>

datatype create_result = Created | AlreadyThere "bytes option" | CreateFailed

record 'k key_io =
  parse_key :: "bytes \<Rightarrow> 'k option"
  generate_key :: "bytes option"
  marshal_ok :: bool
  key_mkdir_ok :: bool
  key_create :: create_result
  stored :: "nat option"
  key_close_ok :: bool

datatype key_error =
    KeyParse | KeyRead | KeyGenerate | KeyMarshal | KeyMkdir | KeyReadAgain | KeyCreate | KeyWrite | KeyClose

definition parse_private_key :: "'k key_io \<Rightarrow> bytes \<Rightarrow> key_error + 'k" where
  "parse_private_key io data = (case parse_key io data of None \<Rightarrow> Inl KeyParse | Some k \<Rightarrow> Inr k)"

text \<open>\<open>generate_key\<close> is the encoded form of a fresh key; \<open>stored\<close> is \<open>None\<close> when writing it succeeds,
  else how many of its bytes reached the file. A file that cannot be read but exists is \<open>unreadable\<close>.\<close>

definition load_or_generate_key ::
    "'k key_io \<Rightarrow> bool \<Rightarrow> string \<Rightarrow> (string, bytes) gomap \<Rightarrow> (key_error + 'k) \<times> (string, bytes) gomap" where
  "load_or_generate_key io unreadable path fs =
     (if unreadable then (Inl KeyRead, fs)
      else case map_of fs path of
        Some data \<Rightarrow> (parse_private_key io data, fs)
      | None \<Rightarrow>
          (case generate_key io of
             None \<Rightarrow> (Inl KeyGenerate, fs)
           | Some pem \<Rightarrow>
               if \<not> marshal_ok io then (Inl KeyMarshal, fs)
               else if \<not> key_mkdir_ok io then (Inl KeyMkdir, fs)
               else (case key_create io of
                   CreateFailed \<Rightarrow> (Inl KeyCreate, fs)
                 | AlreadyThere None \<Rightarrow> (Inl KeyReadAgain, fs)
                 | AlreadyThere (Some data) \<Rightarrow> (parse_private_key io data, map_put path data fs)
                 | Created \<Rightarrow>
                     (case stored io of
                        Some n \<Rightarrow> (Inl KeyWrite, map_put path (take n pem) fs)
                      | None \<Rightarrow>
                          if \<not> key_close_ok io then (Inl KeyClose, map_put path pem fs)
                          else (parse_private_key io pem, map_put path pem fs)))))"

subsection \<open>Properties\<close>

lemma parse_private_Inr: "parse_private_key io bs = Inr k \<longleftrightarrow> parse_key io bs = Some k"
  by (simp add: parse_private_key_def split: option.split)

lemma parse_private_Inl: "parse_private_key io bs = Inl e \<longleftrightarrow> parse_key io bs = None \<and> e = KeyParse"
  by (auto simp: parse_private_key_def split: option.split)

lemma loaded_key:
  assumes "load_or_generate_key io u path fs = (Inr k, fs')"
  shows "\<exists>bs. map_of fs' path = Some bs \<and> parse_key io bs = Some k"
proof (cases "map_of fs path")
  case (Some bs)
  then show ?thesis using assms by (cases u) (simp_all add: load_or_generate_key_def parse_private_Inr)
next
  case None
  show ?thesis
  proof (cases "generate_key io")
    case g: (Some pem)
    note d = load_or_generate_key_def None g
    show ?thesis
    proof (cases "u \<or> \<not> marshal_ok io \<or> \<not> key_mkdir_ok io")
      case True
      then show ?thesis using assms by (auto simp: d split: if_splits)
    next
      case False
      show ?thesis
      proof (cases "key_create io")
        case Created
        then show ?thesis using assms False
          by (cases "stored io"; cases "key_close_ok io") (auto simp: d parse_private_Inr)
      next
        case (AlreadyThere o1)
        then show ?thesis using assms False by (cases o1) (auto simp: d parse_private_Inr)
      qed (use assms False in \<open>auto simp: d\<close>)
    qed
  qed (use assms None in \<open>auto simp: load_or_generate_key_def split: if_splits\<close>)
qed

lemma partial_key:
  assumes "load_or_generate_key io False path fs = (Inl KeyWrite, fs')"
    and "generate_key io = Some pem" "stored io = Some n"
  shows "map_of fs' path = Some (take n pem)"
proof (cases "map_of fs path")
  case (Some bs)
  then show ?thesis using assms by (auto simp: load_or_generate_key_def parse_private_Inl)
next
  case None
  note d = load_or_generate_key_def None assms(2,3)
  show ?thesis
  proof (cases "key_create io")
    case (AlreadyThere o1)
    then show ?thesis using assms by (cases o1) (auto simp: d parse_private_Inl split: if_splits)
  qed (use assms in \<open>auto simp: d split: if_splits\<close>)
qed

text \<open>The host key persists: once it was loaded or created, every later start, whatever the generator or the
  file system answers then, finds the same key and leaves the files as they are.\<close>

theorem host_key_persists:
  assumes "load_or_generate_key io unreadable path fs = (Inr k, fs')"
    and "parse_key io' = parse_key io"
  shows "load_or_generate_key io' False path fs' = (Inr k, fs')"
  using loaded_key [OF assms(1)] assms(2) by (auto simp: load_or_generate_key_def parse_private_Inr)

definition key_system :: "string key_io" where
  "key_system = \<lparr>parse_key = (\<lambda>bs. if bs = [] then None else Some (bytes_str bs)), generate_key = Some [7, 8], marshal_ok = True,
     key_mkdir_ok = True, key_create = Created, stored = None, key_close_ok = True\<rparr>"

lemma host_key_persists_witness:
  "load_or_generate_key (key_system\<lparr>generate_key := Some [9]\<rparr>) False ''ssh_host_key''
     (snd (load_or_generate_key key_system False ''ssh_host_key'' [])) =
   (Inr (bytes_str [7, 8]), snd (load_or_generate_key key_system False ''ssh_host_key'' []))"
  by (rule host_key_persists [of key_system False _ "[]"])
    (simp_all add: load_or_generate_key_def parse_private_key_def key_system_def)

text \<open>A host key that could not be written completely is never replaced: the part that reached the file is
  read at every later start, and if it is no key, the service cannot be created again.\<close>

theorem partial_host_key_stays:
  assumes "load_or_generate_key io False path fs = (Inl KeyWrite, fs')"
    and "generate_key io = Some pem" "stored io = Some n" "parse_key io' (take n pem) = None"
  shows "load_or_generate_key io' False path fs' = (Inl KeyParse, fs')"
  using partial_key [OF assms(1-3)] assms(4) by (simp add: load_or_generate_key_def parse_private_Inl)

lemma partial_host_key_stays_witness:
  "fst (load_or_generate_key key_system False ''ssh_host_key''
     (snd (load_or_generate_key (key_system\<lparr>stored := Some 0\<rparr>) False ''ssh_host_key'' []))) = Inl KeyParse"
proof -
  obtain fs where f: "load_or_generate_key (key_system\<lparr>stored := Some 0\<rparr>) False ''ssh_host_key'' [] = (Inl KeyWrite, fs)"
    by (simp add: load_or_generate_key_def key_system_def)
  have "generate_key (key_system\<lparr>stored := Some 0\<rparr>) = Some [7, 8]" "stored (key_system\<lparr>stored := Some 0\<rparr>) = Some 0"
    "parse_key key_system (take 0 [7, 8]) = None"
    by (simp_all add: key_system_def)
  from partial_host_key_stays [OF f this] show ?thesis by (simp add: f)
qed

text \<open>The size of a terminal is a width and a height of at least one, except for a request that is a
  multiple of 65536: the guard against zero looks at the number before it is cut to 16 bits.\<close>

theorem terminal_size_zero_iff:
  "(ws_cols (window_size c l x y) = 0 \<longleftrightarrow> c \<noteq> 0 \<and> unat c mod 65536 = 0) \<and>
   (ws_rows (window_size c l x y) = 0 \<longleftrightarrow> l \<noteq> 0 \<and> unat l mod 65536 = 0)"
proof -
  have "(ucast v :: 16 word) = 0 \<longleftrightarrow> unat v mod 65536 = 0" for v :: "32 word"
    by (simp add: word_unat_eq_iff unsigned_ucast_eq take_bit_eq_mod)
  then show ?thesis by (simp add: window_size_def non_zero_dimension_def)
qed

end
