(* ===== verification/Emulator.thy ===== *)
theory Emulator
  imports Remote_Input
begin

text \<open>
  The input emulator: \<open>libquava/inputs/keyboard.go\<close>, \<open>mouse.go\<close> and \<open>uinput.go\<close>.

  A virtual device is the bytes written to it so far and the outcomes of the writes to come; an
  event is the 24 bytes of the kernel's \<open>input_event\<close> on a 64-bit machine, little-endian. The
  tables \<open>keyMap\<close> and \<open>letterKeyCodes\<close> are association lists, in the order of the source.
  Every method runs under the emulator's mutex and is one function on its state. The context is
  the number of times it is still found alive.
\<close>

subsection \<open>Constants and tables\<close>

definition ev_syn :: "16 word" where "ev_syn = 0"
definition ev_key :: "16 word" where "ev_key = 1"
definition ev_rel :: "16 word" where "ev_rel = 2"
definition syn_report :: "16 word" where "syn_report = 0"
definition rel_x :: "16 word" where "rel_x = 0"
definition rel_y :: "16 word" where "rel_y = 1"
definition rel_hwheel :: "16 word" where "rel_hwheel = 6"
definition rel_wheel :: "16 word" where "rel_wheel = 8"

lemmas ev_defs = ev_syn_def ev_key_def ev_rel_def syn_report_def rel_x_def rel_y_def
  rel_hwheel_def rel_wheel_def

definition key_map :: "(32 word \<times> string \<times> nat) list" where
  "key_map =
    [
     (3, ''Super_L'', 125), (4, ''Escape'', 1), (19, ''Up'', 103), (20, ''Down'', 108),
     (21, ''Left'', 105), (22, ''Right'', 106), (23, ''Return'', 28),
     (24, ''XF86AudioRaiseVolume'', 115), (25, ''XF86AudioLowerVolume'', 114),
     (26, ''XF86PowerOff'', 116), (29, ''a'', 30), (30, ''b'', 48), (31, ''c'', 46),
     (32, ''d'', 32), (33, ''e'', 18), (34, ''f'', 33), (35, ''g'', 34), (36, ''h'', 35),
     (37, ''i'', 23), (38, ''j'', 36), (39, ''k'', 37), (40, ''l'', 38), (41, ''m'', 50),
     (42, ''n'', 49), (43, ''o'', 24), (44, ''p'', 25), (45, ''q'', 16), (46, ''r'', 19),
     (47, ''s'', 31), (48, ''t'', 20), (49, ''u'', 22), (50, ''v'', 47), (51, ''w'', 17),
     (52, ''x'', 45), (53, ''y'', 21), (54, ''z'', 44), (55, ''comma'', 51),
     (56, ''period'', 52), (57, ''Alt_L'', 56), (58, ''Shift_L'', 42), (59, ''Tab'', 15),
     (61, ''space'', 57), (62, ''space'', 57), (66, ''Return'', 28), (67, ''BackSpace'', 14),
     (68, ''grave'', 41), (69, ''minus'', 12), (70, ''equal'', 13), (71, ''bracketleft'', 26),
     (72, ''bracketright'', 27), (73, ''backslash'', 43), (74, ''semicolon'', 39),
     (75, ''apostrophe'', 40), (76, ''slash'', 53), (82, ''Menu'', 139),
     (92, ''Page_Up'', 104), (93, ''Page_Down'', 109), (111, ''Escape'', 1),
     (112, ''Delete'', 111), (113, ''Control_L'', 29), (114, ''Control_R'', 97),
     (115, ''Caps_Lock'', 58), (116, ''Scroll_Lock'', 70), (120, ''Print'', 99),
     (121, ''Pause'', 119), (122, ''Home'', 102), (123, ''End'', 107), (124, ''Insert'', 110),
     (131, ''F1'', 59), (132, ''F2'', 60), (133, ''F3'', 61), (134, ''F4'', 62),
     (135, ''F5'', 63), (136, ''F6'', 64), (137, ''F7'', 65), (138, ''F8'', 66),
     (139, ''F9'', 67), (140, ''F10'', 68), (141, ''F11'', 87), (142, ''F12'', 88),
     (144, ''KP_0'', 82), (145, ''KP_1'', 79), (146, ''KP_2'', 80), (147, ''KP_3'', 81),
     (148, ''KP_4'', 75), (149, ''KP_5'', 76), (150, ''KP_6'', 77), (151, ''KP_7'', 71),
     (152, ''KP_8'', 72), (153, ''KP_9'', 73), (154, ''KP_Divide'', 98),
     (155, ''KP_Multiply'', 55), (156, ''KP_Subtract'', 74), (157, ''KP_Add'', 78),
     (158, ''KP_Decimal'', 83), (160, ''KP_Enter'', 96), (7, ''0'', 11), (8, ''1'', 2),
     (9, ''2'', 3), (10, ''3'', 4), (11, ''4'', 5), (12, ''5'', 6), (13, ''6'', 7),
     (14, ''7'', 8), (15, ''8'', 9), (16, ''9'', 10)]"

definition letter_key_codes :: "(nat \<times> nat) list" where
  "letter_key_codes =
    [
     (97, 30), (98, 48), (99, 46), (100, 32), (101, 18), (102, 33), (103, 34), (104, 35),
     (105, 23), (106, 36), (107, 37), (108, 38), (109, 50), (110, 49), (111, 24), (112, 25),
     (113, 16), (114, 19), (115, 31), (116, 20), (117, 22), (118, 47), (119, 17), (120, 45),
     (121, 21), (122, 44)]"

definition symbol_keys :: "(nat \<times> nat \<times> bool) list" where
  "symbol_keys =
    [
     (32, 57, False), (10, 28, False), (9, 15, False), (45, 12, False), (95, 12, True),
     (61, 13, False), (43, 13, True), (91, 26, False), (123, 26, True), (93, 27, False),
     (125, 27, True), (92, 43, False), (124, 43, True), (59, 39, False), (58, 39, True),
     (39, 40, False), (34, 40, True), (96, 41, False), (126, 41, True), (44, 51, False),
     (60, 51, True), (46, 52, False), (62, 52, True), (47, 53, False), (63, 53, True),
     (33, 2, True), (64, 3, True), (35, 4, True), (36, 5, True), (37, 6, True), (94, 7, True),
     (38, 8, True), (42, 9, True), (40, 10, True), (41, 11, True)]"

definition evdev_key :: "32 word \<Rightarrow> nat option" where
  "evdev_key c = map_option snd (map_of key_map c)"

definition evdev_button :: "byte \<Rightarrow> nat option" where
  "evdev_button b =
     (if b = 1 then Some 272 else if b = 2 then Some 274 else if b = 3 then Some 273
      else if b = 4 then Some 275 else if b = 5 then Some 276 else None)"

text \<open>The key code and whether Shift is needed; \<open>None\<close> is \<open>ok == false\<close>.\<close>

definition ascii_key :: "nat \<Rightarrow> (nat \<times> bool) option" where
  "ascii_key r =
     (if 65 \<le> r \<and> r \<le> 90 then map_option (\<lambda>c. (c, True)) (map_of letter_key_codes (r + 32))
      else case map_of letter_key_codes r of
        Some c \<Rightarrow> Some (c, False)
      | None \<Rightarrow>
          if 49 \<le> r \<and> r \<le> 57 then Some (r - 49 + 2, False)
          else if r = 48 then Some (11, False)
          else map_of symbol_keys r)"

subsection \<open>The device\<close>

datatype write_outcome = WriteOk | WriteErr nat | WriteShort nat

datatype emulator_error =
    UiOpen | UiIoctl | UiEnableKey nat | UiSetup | UiCreate | UiWrite | UiShort nat | UiDestroy
  | EmContext | EmInvalid input_error | EmClosed | EmUnsupportedKey "32 word"
  | EmUnsupportedButton byte | EmTextLength | EmNotAscii | EmUnmapped nat

record uinput_device =
  dev_file :: bool
  dev_out :: bytes
  dev_faults :: "write_outcome list"

definition put_le :: "nat \<Rightarrow> 'a::len word \<Rightarrow> bytes" where
  "put_le n w = map (\<lambda>i. ucast (drop_bit (8 * i) w)) [0..<n]"

definition event_bytes :: "16 word \<Rightarrow> 16 word \<Rightarrow> 32 word \<Rightarrow> bytes" where
  "event_bytes t c v = put_le 8 (0 :: 64 word) @ put_le 8 (0 :: 64 word) @ put_le 2 t @ put_le 2 c @ put_le 4 v"

definition dev_write :: "bytes \<Rightarrow> uinput_device \<Rightarrow> emulator_error option \<times> uinput_device" where
  "dev_write bs d =
     (if \<not> dev_file d then (Some UiWrite, d)
      else case dev_faults d of
        [] \<Rightarrow> (None, d\<lparr>dev_out := dev_out d @ bs\<rparr>)
      | WriteOk # fs \<Rightarrow> (None, d\<lparr>dev_out := dev_out d @ bs, dev_faults := fs\<rparr>)
      | WriteErr n # fs \<Rightarrow> (Some UiWrite, d\<lparr>dev_out := dev_out d @ take n bs, dev_faults := fs\<rparr>)
      | WriteShort n # fs \<Rightarrow>
          (if n < length bs then Some (UiShort n) else None,
           d\<lparr>dev_out := dev_out d @ take n bs, dev_faults := fs\<rparr>))"

definition dev_sync :: "uinput_device \<Rightarrow> emulator_error option \<times> uinput_device" where
  "dev_sync d = dev_write (event_bytes ev_syn syn_report 0) d"

definition dev_event :: "16 word \<Rightarrow> 16 word \<Rightarrow> 32 word \<Rightarrow> uinput_device \<Rightarrow> emulator_error option \<times> uinput_device" where
  "dev_event t c v d =
     (case dev_write (event_bytes t c v) d of
        (Some e, d') \<Rightarrow> (Some e, d')
      | (None, d') \<Rightarrow> dev_sync d')"

text \<open>\<open>Close\<close>: the results of \<open>UI_DEV_DESTROY\<close> (with \<open>EINVAL\<close> as success) and of closing.\<close>

definition dev_close :: "bool \<Rightarrow> bool \<Rightarrow> uinput_device \<Rightarrow> emulator_error option \<times> uinput_device" where
  "dev_close destroy_ok close_ok d =
     (if \<not> dev_file d then (None, d)
      else (if destroy_ok \<and> close_ok then None else Some UiDestroy, d\<lparr>dev_file := False\<rparr>))"

subsection \<open>Creating the devices\<close>

definition ui_set_ev_bit :: nat where "ui_set_ev_bit = 0x40045564"
definition ui_set_key_bit :: nat where "ui_set_key_bit = 0x40045565"
definition ui_set_rel_bit :: nat where "ui_set_rel_bit = 0x40045566"
definition ui_dev_create :: nat where "ui_dev_create = 0x5501"
definition ui_dev_setup :: nat where "ui_dev_setup = 0x405c5503"

datatype ioctl_call = IoInt nat nat | IoSetup nat bytes

text \<open>The struct \<open>uinputSetup\<close>, field after field.\<close>

definition setup_bytes :: "string \<Rightarrow> bytes" where
  "setup_bytes name =
     take 80 (str_bytes name @ replicate 80 0) @ put_le 2 (0x03 :: 16 word) @
     put_le 2 (0x1209 :: 16 word) @ put_le 2 (0x5156 :: 16 word) @ put_le 2 (1 :: 16 word) @
     put_le 4 (0 :: 32 word)"

definition create_calls :: "string \<Rightarrow> (ioctl_call \<times> emulator_error) list" where
  "create_calls name =
     [(IoSetup ui_dev_setup (setup_bytes name), UiSetup), (IoInt ui_dev_create 0, UiCreate)]"

definition extra_keys :: "nat list" where
  "extra_keys = [2..<59]"

definition keyboard_calls :: "(ioctl_call \<times> emulator_error) list" where
  "keyboard_calls =
     [(IoInt ui_set_ev_bit (unat ev_key), UiIoctl)] @
     map (\<lambda>(_, _, k). (IoInt ui_set_key_bit k, UiEnableKey k)) key_map @
     map (\<lambda>k. (IoInt ui_set_key_bit k, UiIoctl)) extra_keys"

definition mouse_calls :: "(ioctl_call \<times> emulator_error) list" where
  "mouse_calls =
     map (\<lambda>e. (IoInt ui_set_ev_bit (unat e), UiIoctl)) [ev_key, ev_rel] @
     map (\<lambda>k. (IoInt ui_set_key_bit k, UiIoctl)) [272, 273, 274, 275, 276] @
     map (\<lambda>r. (IoInt ui_set_rel_bit (unat r), UiIoctl)) [rel_x, rel_y, rel_wheel, rel_hwheel]"

text \<open>One call after the other until one fails; \<open>results\<close> are the outcomes of the calls.\<close>

fun run_ioctls :: "(ioctl_call \<times> emulator_error) list \<Rightarrow> bool list \<Rightarrow> emulator_error option \<times> ioctl_call list \<times> bool list" where
  "run_ioctls [] results = (None, [], results)"
| "run_ioctls ((c, e) # cs) results =
     (case results of
        False # rs \<Rightarrow> (Some e, [c], rs)
      | _ \<Rightarrow> (case run_ioctls cs (tl results) of (r, done, rs) \<Rightarrow> (r, c # done, rs)))"

text \<open>\<open>openUinput\<close> followed by the calls; a failure closes the file again.\<close>

definition new_device ::
    "(ioctl_call \<times> emulator_error) list \<Rightarrow> string \<Rightarrow> bool \<Rightarrow> bool list \<Rightarrow> write_outcome list \<Rightarrow>
     (emulator_error + uinput_device) \<times> ioctl_call list \<times> bool list" where
  "new_device calls name open_ok results faults =
     (if \<not> open_ok then (Inl UiOpen, [], results)
      else case run_ioctls (calls @ create_calls name) results of
        (Some e, done, rs) \<Rightarrow> (Inl e, done, rs)
      | (None, done, rs) \<Rightarrow> (Inr \<lparr>dev_file = True, dev_out = [], dev_faults = faults\<rparr>, done, rs))"

subsection \<open>The emulator\<close>

record emulator =
  keyboard :: uinput_device
  mouse :: uinput_device
  held_keys :: "(32 word, unit) gomap"
  held_buttons :: "(byte, unit) gomap"
  em_closed :: bool

text \<open>\<open>env\<close> is \<open>QUAVA_UINPUT_PATH\<close>, \<open>there\<close> what \<open>os.Stat\<close> finds.\<close>

definition uinput_path :: "string \<Rightarrow> (string \<Rightarrow> bool) \<Rightarrow> string" where
  "uinput_path env there =
     (if env \<noteq> [] then env
      else if \<not> there ''/dev/uinput'' \<and> there ''/dev/input/uinput'' then ''/dev/input/uinput''
      else ''/dev/uinput'')"

definition new_emulator ::
    "bool \<Rightarrow> bool \<Rightarrow> bool list \<Rightarrow> write_outcome list \<Rightarrow> write_outcome list \<Rightarrow> emulator_error + emulator" where
  "new_emulator open1 open2 results faults1 faults2 =
     (case new_device keyboard_calls ''Quava Virtual Keyboard'' open1 results faults1 of
        (Inl e, _) \<Rightarrow> Inl e
      | (Inr kbd, _, rs) \<Rightarrow>
          (case new_device mouse_calls ''Quava Virtual Mouse'' open2 rs faults2 of
             (Inl e, _) \<Rightarrow> Inl e
           | (Inr ms, _) \<Rightarrow>
               Inr \<lparr>keyboard = kbd, mouse = ms, held_keys = [], held_buttons = [], em_closed = False\<rparr>))"

definition kbd_event :: "nat \<Rightarrow> 32 word \<Rightarrow> emulator \<Rightarrow> emulator_error option \<times> emulator" where
  "kbd_event code v e =
     (case dev_event ev_key (of_nat code) v (keyboard e) of (r, d) \<Rightarrow> (r, e\<lparr>keyboard := d\<rparr>))"

definition mouse_event :: "16 word \<Rightarrow> 16 word \<Rightarrow> 32 word \<Rightarrow> emulator \<Rightarrow> emulator_error option \<times> emulator" where
  "mouse_event t c v e =
     (case dev_event t c v (mouse e) of (r, d) \<Rightarrow> (r, e\<lparr>mouse := d\<rparr>))"

definition mouse_sync :: "emulator \<Rightarrow> emulator_error option \<times> emulator" where
  "mouse_sync e = (case dev_sync (mouse e) of (r, d) \<Rightarrow> (r, e\<lparr>mouse := d\<rparr>))"

text \<open>\<open>and_then\<close> is \<open>if err := ...; err != nil { return err }\<close>.\<close>

definition and_then ::
    "(emulator \<Rightarrow> emulator_error option \<times> emulator) \<Rightarrow> (emulator \<Rightarrow> emulator_error option \<times> emulator) \<Rightarrow>
     emulator \<Rightarrow> emulator_error option \<times> emulator" where
  "and_then f g e = (case f e of (Some r, e') \<Rightarrow> (Some r, e') | (None, e') \<Rightarrow> g e')"

definition nothing :: "emulator \<Rightarrow> emulator_error option \<times> emulator" where
  "nothing e = (None, e)"

fun type_runes :: "nat list \<Rightarrow> emulator \<Rightarrow> emulator_error option \<times> emulator" where
  "type_runes [] e = (None, e)"
| "type_runes (r # rs) e =
     (if r < 0x20 \<or> r > 0x7E then (Some EmNotAscii, e)
      else case ascii_key r of
        None \<Rightarrow> (Some (EmUnmapped r), e)
      | Some (code, shifted) \<Rightarrow>
          and_then (if shifted then kbd_event 42 1 else nothing)
          (and_then (kbd_event code 1)
          (and_then (kbd_event code 0)
          (and_then (if shifted then kbd_event 42 0 else nothing) (type_runes rs)))) e)"

text \<open>\<open>Apply\<close> has validated the text, so that it has runes.\<close>

definition type_text :: "string \<Rightarrow> emulator \<Rightarrow> emulator_error option \<times> emulator" where
  "type_text s e =
     (if s = [] \<or> length s > 4096 then (Some EmTextLength, e)
      else case string_runes s of None \<Rightarrow> (Some EmNotAscii, e) | Some rs \<Rightarrow> type_runes rs e)"

text \<open>\<open>int32(math.Round(v))\<close>: to the nearest integer, halves away from zero.\<close>

definition round_away :: "real \<Rightarrow> int" where
  "round_away r = (if r \<ge> 0 then \<lfloor>r + 1 / 2\<rfloor> else \<lceil>r - 1 / 2\<rceil>)"

definition delta32 :: "float64 \<Rightarrow> 32 word" where
  "delta32 v = word_of_int (round_away (fin_of v))"

definition apply_mouse :: "remote_input \<Rightarrow> emulator \<Rightarrow> emulator_error option \<times> emulator" where
  "apply_mouse i =
     (if in_type i = InputPointerMove then
        and_then (mouse_event ev_rel rel_x (delta32 (delta_x i)))
        (and_then (mouse_event ev_rel rel_y (delta32 (delta_y i))) mouse_sync)
      else if in_type i = InputPointerButton then
        (case evdev_button (in_button i) of
           None \<Rightarrow> (\<lambda>e. (Some (EmUnsupportedButton (in_button i)), e))
         | Some code \<Rightarrow>
             mouse_event ev_key (of_nat code) (if in_action i = InputActionUp then 0 else 1))
      else if in_type i = InputScroll then
        and_then (if \<not> is_zero (delta_y i) then mouse_event ev_rel rel_wheel (delta32 (delta_y i)) else nothing)
        (and_then (if \<not> is_zero (delta_x i) then mouse_event ev_rel rel_hwheel (delta32 (delta_x i)) else nothing)
          mouse_sync)
      else nothing)"

definition note_held :: "remote_input \<Rightarrow> emulator \<Rightarrow> emulator" where
  "note_held i e =
     (if in_type i = InputKey then
        e\<lparr>held_keys := (if in_action i = InputActionDown then map_put (key_code i) () (held_keys e)
                        else map_del (key_code i) (held_keys e))\<rparr>
      else if in_type i = InputPointerButton then
        e\<lparr>held_buttons := (if in_action i = InputActionDown then map_put (in_button i) () (held_buttons e)
                           else map_del (in_button i) (held_buttons e))\<rparr>
      else e)"

definition emit :: "remote_input \<Rightarrow> emulator \<Rightarrow> emulator_error option \<times> emulator" where
  "emit i e =
     (if in_type i = InputKey then
        (case evdev_key (key_code i) of
           None \<Rightarrow> (Some (EmUnsupportedKey (key_code i)), e)
         | Some code \<Rightarrow> kbd_event code (if in_action i = InputActionUp then 0 else 1) e)
      else if in_type i = InputText then type_text (in_text i) e
      else apply_mouse i e)"

definition apply_input :: "bool \<Rightarrow> remote_input \<Rightarrow> emulator \<Rightarrow> emulator_error option \<times> emulator" where
  "apply_input alive i e =
     (if \<not> alive then (Some EmContext, e)
      else case validate i of
        Some x \<Rightarrow> (Some (EmInvalid x), e)
      | None \<Rightarrow>
          if em_closed e then (Some EmClosed, e)
          else (case emit i e of
              (Some r, e') \<Rightarrow> (Some r, e')
            | (None, e') \<Rightarrow> (None, note_held i e')))"

text \<open>The two loops of \<open>Reset\<close>; \<open>alive\<close> counts how often the context is still found alive.\<close>

fun reset_keys :: "32 word list \<Rightarrow> nat \<Rightarrow> emulator \<Rightarrow> emulator_error list \<times> nat \<times> emulator" where
  "reset_keys [] alive e = ([], alive, e)"
| "reset_keys (c # cs) 0 e = ([EmContext], 0, e)"
| "reset_keys (c # cs) (Suc alive) e =
     (case evdev_key c of
        None \<Rightarrow> reset_keys cs alive e
      | Some ev \<Rightarrow>
          (case kbd_event ev 0 e of
             (None, e') \<Rightarrow> reset_keys cs alive (e'\<lparr>held_keys := map_del c (held_keys e')\<rparr>)
           | (Some r, e') \<Rightarrow>
               (case reset_keys cs alive e' of (rs, n, e'') \<Rightarrow> (r # rs, n, e''))))"

fun reset_buttons :: "byte list \<Rightarrow> nat \<Rightarrow> emulator \<Rightarrow> emulator_error list \<times> nat \<times> emulator" where
  "reset_buttons [] alive e = ([], alive, e)"
| "reset_buttons (b # bs) 0 e = ([EmContext], 0, e)"
| "reset_buttons (b # bs) (Suc alive) e =
     (case evdev_button b of
        None \<Rightarrow> reset_buttons bs alive e
      | Some ev \<Rightarrow>
          (case mouse_event ev_key (of_nat ev) 0 e of
             (None, e') \<Rightarrow> reset_buttons bs alive (e'\<lparr>held_buttons := map_del b (held_buttons e')\<rparr>)
           | (Some r, e') \<Rightarrow>
               (case reset_buttons bs alive e' of (rs, n, e'') \<Rightarrow> (r # rs, n, e''))))"

definition reset_emulator :: "nat \<Rightarrow> emulator \<Rightarrow> emulator_error list \<times> emulator" where
  "reset_emulator alive e =
     (case reset_keys (map fst (held_keys e)) alive e of
        (rs, n, e1) \<Rightarrow>
          (case reset_buttons (map fst (held_buttons e1)) n e1 of (rs', _, e2) \<Rightarrow> (rs @ rs', e2)))"

fun release_keys :: "32 word list \<Rightarrow> emulator \<Rightarrow> emulator_error list \<times> emulator" where
  "release_keys [] e = ([], e)"
| "release_keys (c # cs) e =
     (let (r, e1) = (case evdev_key c of None \<Rightarrow> (None, e) | Some ev \<Rightarrow> kbd_event ev 0 e);
          (rs, e2) = release_keys cs (e1\<lparr>held_keys := map_del c (held_keys e1)\<rparr>)
      in (case r of None \<Rightarrow> rs | Some x \<Rightarrow> x # rs, e2))"

fun release_buttons :: "byte list \<Rightarrow> emulator \<Rightarrow> emulator_error list \<times> emulator" where
  "release_buttons [] e = ([], e)"
| "release_buttons (b # bs) e =
     (let (r, e1) = (case evdev_button b of None \<Rightarrow> (None, e) | Some ev \<Rightarrow> mouse_event ev_key (of_nat ev) 0 e);
          (rs, e2) = release_buttons bs (e1\<lparr>held_buttons := map_del b (held_buttons e1)\<rparr>)
      in (case r of None \<Rightarrow> rs | Some x \<Rightarrow> x # rs, e2))"

definition release_all :: "emulator \<Rightarrow> emulator_error list \<times> emulator" where
  "release_all e =
     (case release_keys (map fst (held_keys e)) e of
        (rs, e1) \<Rightarrow>
          (case release_buttons (map fst (held_buttons e1)) e1 of (rs', e2) \<Rightarrow> (rs @ rs', e2)))"

text \<open>\<open>mo\<close> and \<open>ko\<close>: do destroying and closing the mouse and the keyboard succeed?\<close>

definition close_emulator :: "bool \<Rightarrow> bool \<Rightarrow> emulator \<Rightarrow> emulator_error list \<times> emulator" where
  "close_emulator mo ko e =
     (if em_closed e then ([], e)
      else case release_all e of
        (rs, e1) \<Rightarrow>
          (let (r1, m) = dev_close mo True (mouse e1);
               (r2, k) = dev_close ko True (keyboard e1)
           in (rs @ (case r1 of None \<Rightarrow> [] | Some x \<Rightarrow> [x]) @ (case r2 of None \<Rightarrow> [] | Some x \<Rightarrow> [x]),
               e1\<lparr>mouse := m, keyboard := k, em_closed := True\<rparr>)))"

subsection \<open>The kernel's view of a device\<close>

text \<open>
  The kernel reads the device's bytes as \<open>input_event\<close>s. \<open>event_stream\<close> is that reading and
  \<open>pressed\<close> the keys that are down after a stream of events.
\<close>

type_synonym event = "16 word \<times> 16 word \<times> 32 word"

definition event_enc :: "event \<Rightarrow> bytes" where
  "event_enc = (\<lambda>(t, c, v). event_bytes t c v)"

definition read_event :: "bytes \<Rightarrow> unit + event \<times> bytes" where
  "read_event bs =
     (if length bs < 24 then Inl ()
      else Inr ((get_u16 (bs ! 17) (bs ! 16), get_u16 (bs ! 19) (bs ! 18),
                 get_u32 (bs ! 23) (bs ! 22) (bs ! 21) (bs ! 20)), drop 24 bs))"

definition event_stream :: "bytes \<Rightarrow> event list" where
  "event_stream bs =
     (case read_n read_event (length bs div 24) bs of Inl _ \<Rightarrow> [] | Inr (evs, _) \<Rightarrow> evs)"

definition press :: "event \<Rightarrow> 16 word set \<Rightarrow> 16 word set" where
  "press = (\<lambda>(t, c, v) S. if t \<noteq> ev_key then S else if v = 0 then S - {c} else insert c S)"

definition pressed :: "event list \<Rightarrow> 16 word set" where
  "pressed evs = fold press evs {}"

lemma put_le_nums:
  "put_le 2 (w :: 16 word) = [ucast w, ucast (drop_bit 8 w)]"
  "put_le 4 (v :: 32 word) = [ucast v, ucast (drop_bit 8 v), ucast (drop_bit 16 v), ucast (drop_bit 24 v)]"
  "put_le 8 (0 :: 64 word) = [0, 0, 0, 0, 0, 0, 0, 0]"
  by (simp_all add: put_le_def upt_rec)

lemma length_event_enc [simp]: "length (event_enc ev) = 24"
  by (cases ev) (simp add: event_enc_def event_bytes_def put_le_nums)

lemma read_event_enc: "read_event (event_enc ev @ rest) = Inr (ev, rest)"
proof -
  obtain t c v where ev: "ev = (t, c, v)" by (cases ev)
  have "event_enc ev @ rest =
      [0, 0, 0, 0, 0, 0, 0, 0, 0, 0, 0, 0, 0, 0, 0, 0, ucast t, ucast (drop_bit 8 t), ucast c,
       ucast (drop_bit 8 c), ucast v, ucast (drop_bit 8 v), ucast (drop_bit 16 v), ucast (drop_bit 24 v)] @ rest"
    by (simp add: ev event_enc_def event_bytes_def put_le_nums)
  then show ?thesis unfolding ev by (simp add: read_event_def)
qed

interpretation events: stream_codec event_enc read_event "\<lambda>_. True"
  by unfold_locales (rule read_event_enc)

lemma length_event_encs [simp]: "length (concat (map event_enc evs)) = 24 * length evs"
  by (induction evs) simp_all

lemma event_stream_enc [simp]: "event_stream (concat (map event_enc evs)) = evs"
  using events.read_many [of evs "[]"] by (simp add: event_stream_def list.pred_True)

lemma pressed_Nil [simp]: "pressed [] = {}"
  by (simp add: pressed_def)

lemma pressed_append [simp]: "pressed (a @ b) = fold press b (pressed a)"
  by (simp add: pressed_def)

lemma press_simps [simp]:
  "press (ev_key, c, v) S = (if v = 0 then S - {c} else insert c S)"
  "press (ev_syn, c, v) S = S" "press (ev_rel, c, v) S = S"
  by (simp_all add: press_def ev_defs)

subsection \<open>Writing without faults\<close>

abbreviation healthy :: "uinput_device \<Rightarrow> bool" where
  "healthy d \<equiv> dev_file d \<and> dev_faults d = []"

definition dev_emit :: "event list \<Rightarrow> uinput_device \<Rightarrow> uinput_device" where
  "dev_emit evs d = d\<lparr>dev_out := dev_out d @ concat (map event_enc evs)\<rparr>"

lemma dev_emit_simps [simp]:
  "dev_file (dev_emit evs d) = dev_file d" "dev_faults (dev_emit evs d) = dev_faults d"
  "dev_emit evs' (dev_emit evs d) = dev_emit (evs @ evs') d" "dev_emit [] d = d"
  by (simp_all add: dev_emit_def)

abbreviation syn :: event where
  "syn \<equiv> (ev_syn, syn_report, 0)"

lemma dev_sync_healthy: "healthy d \<Longrightarrow> dev_sync d = (None, dev_emit [syn] d)"
  by (simp add: dev_sync_def dev_write_def dev_emit_def event_enc_def)

lemma dev_event_healthy: "healthy d \<Longrightarrow> dev_event t c v d = (None, dev_emit [(t, c, v), syn] d)"
  using dev_sync_healthy [of "dev_emit [(t, c, v)] d"]
  by (simp add: dev_event_def dev_write_def dev_emit_def event_enc_def)

definition kbd_emit :: "event list \<Rightarrow> emulator \<Rightarrow> emulator" where
  "kbd_emit evs e = e\<lparr>keyboard := dev_emit evs (keyboard e)\<rparr>"

definition mouse_emit :: "event list \<Rightarrow> emulator \<Rightarrow> emulator" where
  "mouse_emit evs e = e\<lparr>mouse := dev_emit evs (mouse e)\<rparr>"

lemma emit_simps [simp]:
  "kbd_emit evs' (kbd_emit evs e) = kbd_emit (evs @ evs') e" "kbd_emit [] e = e"
  "mouse_emit evs' (mouse_emit evs e) = mouse_emit (evs @ evs') e" "mouse_emit [] e = e"
  "keyboard (kbd_emit evs e) = dev_emit evs (keyboard e)" "mouse (kbd_emit evs e) = mouse e"
  "keyboard (mouse_emit evs e) = keyboard e" "mouse (mouse_emit evs e) = dev_emit evs (mouse e)"
  "held_keys (kbd_emit evs e) = held_keys e" "held_keys (mouse_emit evs e) = held_keys e"
  "held_buttons (kbd_emit evs e) = held_buttons e" "held_buttons (mouse_emit evs e) = held_buttons e"
  "em_closed (kbd_emit evs e) = em_closed e" "em_closed (mouse_emit evs e) = em_closed e"
  by (simp_all add: kbd_emit_def mouse_emit_def)

lemma kbd_event_healthy:
  "healthy (keyboard e) \<Longrightarrow> kbd_event code v e = (None, kbd_emit [(ev_key, of_nat code, v), syn] e)"
  by (simp add: kbd_event_def dev_event_healthy kbd_emit_def)

lemma mouse_event_healthy:
  "healthy (mouse e) \<Longrightarrow> mouse_event t c v e = (None, mouse_emit [(t, c, v), syn] e)"
  by (simp add: mouse_event_def dev_event_healthy mouse_emit_def)

lemma mouse_sync_healthy: "healthy (mouse e) \<Longrightarrow> mouse_sync e = (None, mouse_emit [syn] e)"
  by (simp add: mouse_sync_def dev_sync_healthy mouse_emit_def)

lemma and_then_None [simp]: "f e = (None, e') \<Longrightarrow> and_then f g e = g e'"
  by (simp add: and_then_def)

subsection \<open>Reading the text back from a US keyboard\<close>

text \<open>The rows of a US keyboard: the code of the first key, the plain and the shifted characters.\<close>

definition us_rows :: "(nat \<times> string \<times> string) list" where
  "us_rows =
     [(2, ''1234567890-='', ''!@#$%^&*()_+''),
      (16, ''qwertyuiop[]'', ''QWERTYUIOP{}''),
      (30, ''asdfghjkl;'' @ [CHR 0x27, CHR 0x60], ''ASDFGHJKL:'' @ [CHR 0x22, CHR 0x7E]),
      (43, CHR 0x5C # ''zxcvbnm,./'', ''|ZXCVBNM<>?''),
      (57, '' '', '' '')]"

fun number_from :: "nat \<Rightarrow> string \<Rightarrow> (nat \<times> nat) list" where
  "number_from k [] = []"
| "number_from k (c # cs) = (k, of_char c) # number_from (Suc k) cs"

definition us_plain :: "(nat \<times> nat) list" where
  "us_plain = concat (map (\<lambda>(k, plain, _). number_from k plain) us_rows)"

definition us_upper :: "(nat \<times> nat) list" where
  "us_upper = concat (map (\<lambda>(k, _, upper). number_from k upper) us_rows)"

definition us_rune :: "nat \<Rightarrow> bool \<Rightarrow> nat option" where
  "us_rune c shifted = map_of (if shifted then us_upper else us_plain) c"

fun us_typed :: "bool \<Rightarrow> event list \<Rightarrow> nat list" where
  "us_typed shifted [] = []"
| "us_typed shifted ((t, c, v) # evs) =
     (if t \<noteq> ev_key then us_typed shifted evs
      else if c = 42 then us_typed (v \<noteq> 0) evs
      else if v = 0 then us_typed shifted evs
      else (case us_rune (unat c) shifted of None \<Rightarrow> [] | Some r \<Rightarrow> [r]) @ us_typed shifted evs)"

definition printable :: "nat \<Rightarrow> bool" where
  "printable r \<longleftrightarrow> 0x20 \<le> r \<and> r \<le> 0x7E"

lemma printable_cases: "printable r \<longleftrightarrow> r \<in> set [32..<127]"
  unfolding printable_def set_upt by auto

text \<open>One pass over the printable characters: each has a key, and the key types it.\<close>

lemma ascii_key_us:
  "(\<lambda>(plain, upper). list_all (\<lambda>r. case ascii_key r of None \<Rightarrow> False
     | Some (code, shifted) \<Rightarrow> map_of (if shifted then upper else plain) code = Some r
         \<and> code < 59 \<and> code \<noteq> 42 \<and> 2 \<le> code) [32..<127]) (us_plain, us_upper)"
  by code_simp

lemma printable_us:
  assumes "printable r"
  obtains code shifted where "ascii_key r = Some (code, shifted)" "us_rune code shifted = Some r"
    "code < 59" "code \<noteq> 42" "2 \<le> code"
proof -
  have "\<forall>r \<in> set [32..<127]. case ascii_key r of None \<Rightarrow> False
     | Some (code, shifted) \<Rightarrow> us_rune code shifted = Some r \<and> code < 59 \<and> code \<noteq> 42 \<and> 2 \<le> code"
    using ascii_key_us unfolding list_all_iff us_rune_def prod.case .
  then have "case ascii_key r of None \<Rightarrow> False
     | Some (code, shifted) \<Rightarrow> us_rune code shifted = Some r \<and> code < 59 \<and> code \<noteq> 42 \<and> 2 \<le> code"
    using assms unfolding printable_cases by (rule bspec)
  then show ?thesis using that by (cases "ascii_key r") auto
qed

text \<open>The events that spell a rune, and the runes up to the first one that cannot be typed.\<close>

definition spell_rune :: "nat \<Rightarrow> event list" where
  "spell_rune r =
     (case ascii_key r of
        None \<Rightarrow> []
      | Some (code, shifted) \<Rightarrow>
          (if shifted then [(ev_key, 42, 1), syn] else []) @
          [(ev_key, of_nat code, 1), syn, (ev_key, of_nat code, 0), syn] @
          (if shifted then [(ev_key, 42, 0), syn] else []))"

lemma type_runes_healthy:
  "healthy (keyboard e) \<Longrightarrow>
   type_runes rs e =
     (if list_all printable rs then None else Some EmNotAscii,
      kbd_emit (concat (map spell_rune (takeWhile printable rs))) e)"
proof (induction rs arbitrary: e)
  case (Cons r rs)
  show ?case
  proof (cases "printable r")
    case True
    then obtain code shifted where k: "ascii_key r = Some (code, shifted)" by (rule printable_us)
    from True have r: "\<not> (r < 0x20 \<or> r > 0x7E)" by (simp add: printable_def)
    show ?thesis
      using r k True Cons.prems Cons.IH [of "kbd_emit (spell_rune r) e"]
      by (cases shifted) (simp_all add: kbd_event_healthy nothing_def spell_rune_def)
  qed (auto simp: printable_def)
qed simp


lemma key_code_16: "code < 59 \<Longrightarrow> unat (of_nat code :: 16 word) = code"
  by (simp add: unsigned_of_nat take_bit_nat_eq_self)

lemma us_typed_spell_rune:
  assumes "printable r" shows "us_typed False (spell_rune r @ evs) = r # us_typed False evs"
proof -
  obtain code shifted where k: "ascii_key r = Some (code, shifted)" "us_rune code shifted = Some r"
      "code < 59" "code \<noteq> 42" "2 \<le> code" by (rule printable_us [OF assms])
  have "(of_nat code :: 16 word) \<noteq> 42"
  proof
    assume "(of_nat code :: 16 word) = 42"
    then have "unat (of_nat code :: 16 word) = unat (42 :: 16 word)" by simp
    then show False using k(4) by (simp add: key_code_16 [OF k(3)])
  qed
  then show ?thesis using k by (cases shifted) (simp_all add: spell_rune_def key_code_16 ev_defs)
qed

lemma us_typed_spell: "list_all printable rs \<Longrightarrow> us_typed False (concat (map spell_rune rs)) = rs"
  by (induction rs) (simp_all add: us_typed_spell_rune us_typed_spell_rune [where evs = "[]", simplified])

subsection \<open>What is pressed is held\<close>

text \<open>The codes of the held keys: \<open>held_codes evdev_key\<close>, of the buttons: \<open>held_codes evdev_button\<close>.\<close>

definition held_codes :: "('c \<Rightarrow> nat option) \<Rightarrow> ('c, unit) gomap \<Rightarrow> 16 word set" where
  "held_codes f m = {of_nat k | c k. map_has m c \<and> f c = Some k}"

lemma held_codes_Nil [simp]: "held_codes f [] = {}"
  by (simp add: held_codes_def)

lemma held_codesI: "map_has m c \<Longrightarrow> f c = Some k \<Longrightarrow> of_nat k \<in> held_codes f m"
  unfolding held_codes_def by blast

lemma held_codes_put:
  assumes f: "f c = Some k" and S: "S \<subseteq> held_codes f m"
  shows "insert (of_nat k) S \<subseteq> held_codes f (map_put c () m)"
proof (rule subsetI)
  fix x assume "x \<in> insert (of_nat k) S"
  then consider "x = of_nat k" | "x \<in> held_codes f m" using S by blast
  then show "x \<in> held_codes f (map_put c () m)"
  proof cases
    case 1
    then show ?thesis using held_codesI [of "map_put c () m" c f k] f by simp
  next
    case 2
    then obtain c' k' where "x = of_nat k'" "map_has m c'" "f c' = Some k'" by (auto simp: held_codes_def)
    then show ?thesis using held_codesI [of "map_put c () m" c' f k'] by simp
  qed
qed

lemma held_codes_del:
  assumes f: "f c = Some k" and S: "S \<subseteq> held_codes f m"
  shows "S - {of_nat k} \<subseteq> held_codes f (map_del c m)"
proof (rule subsetI)
  fix x assume x: "x \<in> S - {of_nat k}"
  then obtain c' k' where c: "x = of_nat k'" "map_has m c'" "f c' = Some k'"
    using S by (auto simp: held_codes_def)
  then have "c' \<noteq> c" using f x by auto
  then show "x \<in> held_codes f (map_del c m)" using held_codesI [of "map_del c m" c' f k'] c by simp
qed

text \<open>The events a device can report after the given calls.\<close>

definition capable :: "ioctl_call set \<Rightarrow> event \<Rightarrow> bool" where
  "capable calls = (\<lambda>(t, c, v). t = ev_syn \<or> IoInt ui_set_ev_bit (unat t) \<in> calls \<and>
     (t = ev_key \<and> IoInt ui_set_key_bit (unat c) \<in> calls \<or>
      t = ev_rel \<and> IoInt ui_set_rel_bit (unat c) \<in> calls))"

abbreviation asked :: "(ioctl_call \<times> emulator_error) list \<Rightarrow> event \<Rightarrow> bool" where
  "asked calls \<equiv> capable (fst ` set calls)"

lemma capable_mono: "A \<subseteq> B \<Longrightarrow> capable A ev \<Longrightarrow> capable B ev"
  by (cases ev) (auto simp: capable_def)

lemma asked_keyboard:
  "asked keyboard_calls (ev_syn, c, v)"
  "(k \<in> set (map (snd \<circ> snd) key_map) \<or> k \<in> set extra_keys) \<Longrightarrow> k < 256 \<Longrightarrow> asked keyboard_calls (ev_key, of_nat k, v)"
proof -
  show "asked keyboard_calls (ev_syn, c, v)" by (simp add: capable_def)
  assume k: "k \<in> set (map (snd \<circ> snd) key_map) \<or> k \<in> set extra_keys" "k < 256"
  then have "unat (of_nat k :: 16 word) = k" by (simp add: unsigned_of_nat take_bit_nat_eq_self)
  then show "asked keyboard_calls (ev_key, of_nat k, v)"
    using k(1) unfolding capable_def keyboard_calls_def by (force simp: ev_defs image_iff)
qed

lemma in_extra_keys: "k \<in> set extra_keys \<longleftrightarrow> 2 \<le> k \<and> k < 59"
  by (simp only: extra_keys_def set_upt atLeastLessThan_iff)

lemma key_map_codes: "list_all (\<lambda>(_, _, k). 1 \<le> k \<and> k < 256) key_map"
  by code_simp

lemma evdev_key_asked:
  assumes "evdev_key c = Some k" shows "asked keyboard_calls (ev_key, of_nat k, v)"
proof -
  from assms obtain n where n: "(c, n, k) \<in> set key_map"
    by (auto simp: evdev_key_def dest: map_of_SomeD)
  then have "k < 256" using key_map_codes unfolding list_all_iff by force
  moreover from n have "k \<in> set (map (snd \<circ> snd) key_map)" by force
  ultimately show ?thesis by (simp add: asked_keyboard(2))
qed

lemma spell_rune_asked:
  assumes "printable r" shows "list_all (asked keyboard_calls) (spell_rune r)"
proof -
  obtain code shifted where k: "ascii_key r = Some (code, shifted)" "code < 59" "2 \<le> code"
    by (rule printable_us [OF assms])
  have "2 \<le> k \<Longrightarrow> k < 59 \<Longrightarrow> asked keyboard_calls (ev_key, of_nat k, v)" for k v
    using asked_keyboard(2) [of k] by (simp add: in_extra_keys)
  from this [of code] this [of 42] k show ?thesis
    by (simp add: spell_rune_def asked_keyboard(1))
qed

lemma evdev_button_asked: "evdev_button b = Some k \<Longrightarrow> asked mouse_calls (ev_key, of_nat k, v)"
  by (auto simp: evdev_button_def capable_def mouse_calls_def ev_defs split: if_split_asm)

lemma mouse_asked:
  "asked mouse_calls (ev_syn, c, v)"
  "c \<in> {rel_x, rel_y, rel_wheel, rel_hwheel} \<Longrightarrow> asked mouse_calls (ev_rel, c, v)"
  by (auto simp: capable_def mouse_calls_def ev_defs)

lemma press_spell_rune: "fold press (spell_rune r) S \<subseteq> S"
  by (auto simp: spell_rune_def split: option.splits)

lemma press_mono: "S \<subseteq> T \<Longrightarrow> press ev S \<subseteq> press ev T"
  by (cases ev) (auto simp: press_def)

lemma fold_press_mono: "S \<subseteq> T \<Longrightarrow> fold press evs S \<subseteq> fold press evs T"
  by (induction evs arbitrary: S T) (simp_all add: press_mono)

lemma press_spell: "fold press (concat (map spell_rune rs)) S \<subseteq> S"
proof (induction rs arbitrary: S)
  case (Cons r rs)
  have "fold press (concat (map spell_rune rs)) (fold press (spell_rune r) S) \<subseteq> fold press (spell_rune r) S"
    by (rule Cons.IH)
  with press_spell_rune [of r S] show ?case by auto
qed simp

lemma spell_asked: "list_all (asked keyboard_calls) (concat (map spell_rune (takeWhile printable rs)))"
  by (induction rs) (simp_all add: spell_rune_asked)

text \<open>
  \<open>wrote ks ms e\<close>: the two devices never failed and carry the events \<open>ks\<close> and \<open>ms\<close>, all of which
  they were set up for. \<open>in_use\<close> is the emulator before \<open>Close\<close>, \<open>shut\<close> after it.
\<close>

definition wrote :: "event list \<Rightarrow> event list \<Rightarrow> emulator \<Rightarrow> bool" where
  "wrote ks ms e \<longleftrightarrow>
     dev_out (keyboard e) = concat (map event_enc ks) \<and> dev_out (mouse e) = concat (map event_enc ms) \<and>
     dev_faults (keyboard e) = [] \<and> dev_faults (mouse e) = [] \<and>
     list_all (asked keyboard_calls) ks \<and> list_all (asked mouse_calls) ms"

definition in_use :: "event list \<Rightarrow> event list \<Rightarrow> emulator \<Rightarrow> bool" where
  "in_use ks ms e \<longleftrightarrow> wrote ks ms e \<and> dev_file (keyboard e) \<and> dev_file (mouse e) \<and> \<not> em_closed e \<and>
     pressed ks \<subseteq> held_codes evdev_key (held_keys e) \<and>
     pressed ms \<subseteq> held_codes evdev_button (held_buttons e) \<and>
     (\<forall>c. map_has (held_keys e) c \<longrightarrow> evdev_key c \<noteq> None) \<and>
     (\<forall>b. map_has (held_buttons e) b \<longrightarrow> evdev_button b \<noteq> None)"

definition shut :: "event list \<Rightarrow> event list \<Rightarrow> emulator \<Rightarrow> bool" where
  "shut ks ms e \<longleftrightarrow> wrote ks ms e \<and> em_closed e \<and> held_keys e = [] \<and> held_buttons e = [] \<and>
     pressed ks = {} \<and> pressed ms = {}"

lemma wrote_emit:
  "wrote ks ms e \<Longrightarrow> list_all (asked keyboard_calls) evs \<Longrightarrow> wrote (ks @ evs) ms (kbd_emit evs e)"
  "wrote ks ms e \<Longrightarrow> list_all (asked mouse_calls) evs \<Longrightarrow> wrote ks (ms @ evs) (mouse_emit evs e)"
  by (auto simp: wrote_def dev_emit_def)

lemma wrote_held [simp]:
  "wrote ks ms (e\<lparr>held_keys := m\<rparr>) = wrote ks ms e" "wrote ks ms (e\<lparr>held_buttons := n\<rparr>) = wrote ks ms e"
  by (simp_all add: wrote_def)

lemma in_use_healthy: "in_use ks ms e \<Longrightarrow> healthy (keyboard e) \<and> healthy (mouse e)"
  by (simp add: in_use_def wrote_def)

lemma key_down:
  assumes "in_use ks ms e" "evdev_key c = Some k"
  shows "in_use (ks @ [(ev_key, of_nat k, 1), syn]) ms
    (kbd_emit [(ev_key, of_nat k, 1), syn] e\<lparr>held_keys := map_put c () (held_keys e)\<rparr>)"
  using assms held_codes_put [of evdev_key c k "pressed ks" "held_keys e"]
  by (simp add: in_use_def wrote_emit(1) evdev_key_asked asked_keyboard(1))

lemma key_up:
  assumes "in_use ks ms e" "evdev_key c = Some k"
  shows "in_use (ks @ [(ev_key, of_nat k, 0), syn]) ms
    (kbd_emit [(ev_key, of_nat k, 0), syn] e\<lparr>held_keys := map_del c (held_keys e)\<rparr>)"
  using assms held_codes_del [of evdev_key c k "pressed ks" "held_keys e"]
  by (simp add: in_use_def wrote_emit(1) evdev_key_asked asked_keyboard(1))

lemma button_down:
  assumes "in_use ks ms e" "evdev_button c = Some k"
  shows "in_use ks (ms @ [(ev_key, of_nat k, 1), syn])
    (mouse_emit [(ev_key, of_nat k, 1), syn] e\<lparr>held_buttons := map_put c () (held_buttons e)\<rparr>)"
  using assms held_codes_put [of evdev_button c k "pressed ms" "held_buttons e"]
  by (simp add: in_use_def wrote_emit(2) evdev_button_asked mouse_asked(1))

lemma button_up:
  assumes "in_use ks ms e" "evdev_button c = Some k"
  shows "in_use ks (ms @ [(ev_key, of_nat k, 0), syn])
    (mouse_emit [(ev_key, of_nat k, 0), syn] e\<lparr>held_buttons := map_del c (held_buttons e)\<rparr>)"
  using assms held_codes_del [of evdev_button c k "pressed ms" "held_buttons e"]
  by (simp add: in_use_def wrote_emit(2) evdev_button_asked mouse_asked(1))

lemma in_use_text:
  assumes "in_use ks ms e"
  shows "in_use (ks @ concat (map spell_rune (takeWhile printable rs))) ms
    (kbd_emit (concat (map spell_rune (takeWhile printable rs))) e)"
  using assms press_spell [of "takeWhile printable rs" "pressed ks"]
  by (auto simp: in_use_def wrote_emit(1) spell_asked)

definition moves_only :: "event \<Rightarrow> bool" where
  "moves_only = (\<lambda>(t, c, v). t = ev_syn \<or> t = ev_rel \<and> c \<in> {rel_x, rel_y, rel_wheel, rel_hwheel})"

lemma moves_only_press: "moves_only ev \<Longrightarrow> press ev S = S"
  by (cases ev) (auto simp: moves_only_def)

lemma moves_only_asked: "moves_only ev \<Longrightarrow> asked mouse_calls ev"
proof (cases ev)
  case (fields t c v)
  assume "moves_only ev"
  then consider "t = ev_syn" | "t = ev_rel" "c \<in> {rel_x, rel_y, rel_wheel, rel_hwheel}"
    unfolding fields moves_only_def by auto
  then show ?thesis
    unfolding fields by cases (simp_all only: mouse_asked)
qed

lemma moves_only_fold: "list_all moves_only evs \<Longrightarrow> fold press evs S = S"
  by (induction evs) (simp_all add: moves_only_press)

lemma in_use_motion:
  assumes "in_use ks ms e" "list_all moves_only evs"
  shows "in_use ks (ms @ evs) (mouse_emit evs e)"
proof -
  have "list_all (asked mouse_calls) evs"
    using assms(2) by (rule list.pred_mono_strong) (rule moves_only_asked)
  then show ?thesis
    using assms by (simp add: in_use_def wrote_emit(2) moves_only_fold)
qed

lemma apply_mouse_motion:
  assumes "in_use ks ms e" "in_type i \<noteq> InputPointerButton"
  shows "\<exists>evs. list_all moves_only evs \<and> apply_mouse i e = (None, mouse_emit evs e)"
proof -
  let ?ev = "\<lambda>c v. [(ev_rel, c, v), syn]"
  have h: "healthy (mouse e)" using in_use_healthy [OF assms(1)] by simp
  have m: "moves_only syn" "c \<in> {rel_x, rel_y, rel_wheel, rel_hwheel} \<Longrightarrow> moves_only (ev_rel, c, v)" for c v
    by (auto simp: moves_only_def)
  consider "in_type i = InputPointerMove" | "in_type i = InputScroll"
    | "in_type i \<noteq> InputPointerMove" "in_type i \<noteq> InputScroll" by blast
  then show ?thesis
  proof cases
    case 1
    then show ?thesis using h m
      by (intro exI [of _ "?ev rel_x (delta32 (delta_x i)) @ ?ev rel_y (delta32 (delta_y i)) @ [syn]"])
        (simp add: apply_mouse_def mouse_event_healthy mouse_sync_healthy)
  next
    case 2
    let ?y = "if \<not> is_zero (delta_y i) then ?ev rel_wheel (delta32 (delta_y i)) else []"
    let ?x = "if \<not> is_zero (delta_x i) then ?ev rel_hwheel (delta32 (delta_x i)) else []"
    from 2 assms(2) show ?thesis using h m
      by (intro exI [of _ "?y @ ?x @ [syn]"])
        (simp add: apply_mouse_def mouse_event_healthy mouse_sync_healthy nothing_def input_constants)
  next
    case 3
    then show ?thesis using assms(2) by (intro exI [of _ "[]"]) (simp add: apply_mouse_def nothing_def)
  qed
qed

lemma key_actions:
  "validate i = None \<Longrightarrow> in_type i = InputKey \<or> in_type i = InputPointerButton \<Longrightarrow>
   in_action i = InputActionDown \<or> in_action i = InputActionUp"
  by (auto simp: validate_def input_constants split: if_split_asm)

lemma apply_key_in_use:
  assumes "in_use ks ms e" "validate i = None" "in_type i = InputKey" "evdev_key (key_code i) = Some k"
  shows "\<exists>ks' ms'. in_use ks' ms' (snd (apply_input True i e))"
proof -
  have h: "healthy (keyboard e)" "\<not> em_closed e" using assms(1) by (simp_all add: in_use_def wrote_def)
  consider "in_action i = InputActionDown" | "in_action i = InputActionUp"
    using key_actions [OF assms(2)] assms(3) by blast
  then show ?thesis
  proof cases
    case 1
    then have "snd (apply_input True i e) =
        kbd_emit [(ev_key, of_nat k, 1), syn] e\<lparr>held_keys := map_put (key_code i) () (held_keys e)\<rparr>"
      using assms h by (simp add: apply_input_def emit_def kbd_event_healthy note_held_def input_constants)
    then show ?thesis using key_down [OF assms(1,4)] by auto
  next
    case 2
    then have "snd (apply_input True i e) =
        kbd_emit [(ev_key, of_nat k, 0), syn] e\<lparr>held_keys := map_del (key_code i) (held_keys e)\<rparr>"
      using assms h by (simp add: apply_input_def emit_def kbd_event_healthy note_held_def input_constants)
    then show ?thesis using key_up [OF assms(1,4)] by auto
  qed
qed

lemma apply_button_in_use:
  assumes "in_use ks ms e" "validate i = None" "in_type i = InputPointerButton" "evdev_button (in_button i) = Some k"
  shows "\<exists>ks' ms'. in_use ks' ms' (snd (apply_input True i e))"
proof -
  have h: "healthy (mouse e)" "\<not> em_closed e" using assms(1) by (simp_all add: in_use_def wrote_def)
  consider "in_action i = InputActionDown" | "in_action i = InputActionUp"
    using key_actions [OF assms(2)] assms(3) by blast
  then show ?thesis
  proof cases
    case 1
    then have "snd (apply_input True i e) =
        mouse_emit [(ev_key, of_nat k, 1), syn] e\<lparr>held_buttons := map_put (in_button i) () (held_buttons e)\<rparr>"
      using assms h
      by (simp add: apply_input_def emit_def apply_mouse_def mouse_event_healthy note_held_def input_constants)
    then show ?thesis using button_down [OF assms(1,4)] by auto
  next
    case 2
    then have "snd (apply_input True i e) =
        mouse_emit [(ev_key, of_nat k, 0), syn] e\<lparr>held_buttons := map_del (in_button i) (held_buttons e)\<rparr>"
      using assms h
      by (simp add: apply_input_def emit_def apply_mouse_def mouse_event_healthy note_held_def input_constants)
    then show ?thesis using button_up [OF assms(1,4)] by auto
  qed
qed

lemma note_held_other: "in_type i \<noteq> InputKey \<Longrightarrow> in_type i \<noteq> InputPointerButton \<Longrightarrow> note_held i e = e"
  by (simp add: note_held_def)

lemma apply_quiet:
  assumes "\<not> alive \<or> validate i \<noteq> None \<or> em_closed e" shows "snd (apply_input alive i e) = e"
  using assms by (auto simp: apply_input_def split: option.splits)

lemma apply_emit_error:
  assumes "emit i e = (Some r, e')" "validate i = None" "\<not> em_closed e"
  shows "apply_input True i e = (Some r, e')"
  using assms by (simp add: apply_input_def)

lemma apply_in_use:
  assumes "in_use ks ms e" shows "\<exists>ks' ms'. in_use ks' ms' (snd (apply_input alive i e))"
proof (cases "\<not> alive \<or> validate i \<noteq> None")
  case True
  then have "snd (apply_input alive i e) = e" using apply_quiet by blast
  with assms show ?thesis by auto
next
  case False
  then have v: "validate i = None" and a: "alive" by auto
  have h: "healthy (keyboard e)" "\<not> em_closed e" using assms by (simp_all add: in_use_def wrote_def)
  consider (key) k where "in_type i = InputKey" "evdev_key (key_code i) = Some k"
    | (nokey) "in_type i = InputKey" "evdev_key (key_code i) = None"
    | (button) k where "in_type i = InputPointerButton" "evdev_button (in_button i) = Some k"
    | (nobutton) "in_type i = InputPointerButton" "evdev_button (in_button i) = None"
    | (typing) "in_type i = InputText"
    | (motion) "in_type i \<noteq> InputKey" "in_type i \<noteq> InputPointerButton" "in_type i \<noteq> InputText"
    by (cases "evdev_key (key_code i)"; cases "evdev_button (in_button i)") blast+
  then show ?thesis
  proof cases
    case key
    show ?thesis using apply_key_in_use [OF assms v key] a by simp
  next
    case button
    show ?thesis using apply_button_in_use [OF assms v button] a by simp
  next
    case nokey
    then have "snd (apply_input alive i e) = e"
      using apply_emit_error [OF _ v h(2)] a by (simp add: emit_def)
    with assms show ?thesis by auto
  next
    case nobutton
    then have "snd (apply_input alive i e) = e"
      using apply_emit_error [OF _ v h(2)] a by (simp add: emit_def apply_mouse_def input_constants)
    with assms show ?thesis by auto
  next
    case typing
    then obtain rs where rs: "string_runes (in_text i) = Some rs" and len: "in_text i \<noteq> []" "length (in_text i) \<le> 4096"
      using v by (auto simp: validate_def input_constants split: if_split_asm option.split_asm)
    have n: "note_held i x = x" for x using typing by (simp add: note_held_other input_constants)
    have "snd (apply_input alive i e) = kbd_emit (concat (map spell_rune (takeWhile printable rs))) e"
      using typing v a h len rs n
      by (simp add: apply_input_def emit_def type_text_def type_runes_healthy input_constants)
    then show ?thesis using in_use_text [OF assms, of rs] by auto
  next
    case motion
    obtain evs where evs: "list_all moves_only evs" "apply_mouse i e = (None, mouse_emit evs e)"
      using apply_mouse_motion [OF assms motion(2)] by blast
    then have "snd (apply_input alive i e) = mouse_emit evs e"
      using motion v a h by (simp add: apply_input_def emit_def note_held_other)
    then show ?thesis using in_use_motion [OF assms evs(1)] by auto
  qed
qed

text \<open>The loops of \<open>Reset\<close> and \<open>Close\<close> release one held key, or button, after the other.\<close>

lemma reset_keys_in_use:
  "in_use ks ms e \<Longrightarrow> list_all (\<lambda>c. evdev_key c \<noteq> None) cs \<Longrightarrow>
   \<exists>ks' n e'. (\<exists>rs. reset_keys cs alive e = (rs, n, e')) \<and> in_use ks' ms e' \<and> held_buttons e' = held_buttons e \<and>
     n = alive - length cs \<and> (length cs \<le> alive \<longrightarrow> held_keys e' = fold map_del cs (held_keys e))"
proof (induction cs alive e arbitrary: ks rule: reset_keys.induct)
  case (3 c cs alive e)
  then obtain k where k: "evdev_key c = Some k" by auto
  have h: "healthy (keyboard e)" using "3.prems"(1) in_use_healthy by blast
  define e1 where "e1 = kbd_emit [(ev_key, of_nat k, 0), syn] e\<lparr>held_keys := map_del c (held_keys e)\<rparr>"
  have u: "in_use (ks @ [(ev_key, of_nat k, 0), syn]) ms e1"
    unfolding e1_def using key_up [OF "3.prems"(1) k] .
  have r: "reset_keys (c # cs) (Suc alive) e = reset_keys cs alive e1"
    using k h by (simp add: kbd_event_healthy e1_def)
  have e1: "held_buttons e1 = held_buttons e" "held_keys e1 = map_del c (held_keys e)"
    by (simp_all add: e1_def)
  have l: "list_all (\<lambda>c. evdev_key c \<noteq> None) cs" using "3.prems"(2) by simp
  show ?case
    using "3.IH"(2) [OF k kbd_event_healthy [OF h, symmetric] refl _ l, of "ks @ [(ev_key, of_nat k, 0), syn]"] u e1
    unfolding r by (simp add: e1_def)
qed auto

lemma reset_buttons_in_use:
  "in_use ks ms e \<Longrightarrow> list_all (\<lambda>c. evdev_button c \<noteq> None) cs \<Longrightarrow>
   \<exists>ms' e'. (\<exists>rs n. reset_buttons cs alive e = (rs, n, e')) \<and> in_use ks ms' e' \<and> held_keys e' = held_keys e \<and>
     (length cs \<le> alive \<longrightarrow> held_buttons e' = fold map_del cs (held_buttons e))"
proof (induction cs alive e arbitrary: ms rule: reset_buttons.induct)
  case (3 c cs alive e)
  then obtain k where k: "evdev_button c = Some k" by auto
  have h: "healthy (mouse e)" using "3.prems"(1) in_use_healthy by blast
  define e1 where "e1 = mouse_emit [(ev_key, of_nat k, 0), syn] e\<lparr>held_buttons := map_del c (held_buttons e)\<rparr>"
  have u: "in_use ks (ms @ [(ev_key, of_nat k, 0), syn]) e1"
    unfolding e1_def using button_up [OF "3.prems"(1) k] .
  have r: "reset_buttons (c # cs) (Suc alive) e = reset_buttons cs alive e1"
    using k h by (simp add: mouse_event_healthy e1_def)
  have e1: "held_keys e1 = held_keys e" "held_buttons e1 = map_del c (held_buttons e)"
    by (simp_all add: e1_def)
  have l: "list_all (\<lambda>c. evdev_button c \<noteq> None) cs" using "3.prems"(2) by simp
  show ?case
    using "3.IH"(2) [OF k mouse_event_healthy [OF h, symmetric] refl _ l, of "ms @ [(ev_key, of_nat k, 0), syn]"] u e1
    unfolding r by (simp add: e1_def)
qed auto

lemma release_keys_in_use:
  "in_use ks ms e \<Longrightarrow> list_all (\<lambda>c. evdev_key c \<noteq> None) cs \<Longrightarrow>
   \<exists>ks' e'. release_keys cs e = ([], e') \<and> in_use ks' ms e' \<and> held_buttons e' = held_buttons e \<and>
     held_keys e' = fold map_del cs (held_keys e)"
proof (induction cs arbitrary: ks e)
  case (Cons c cs)
  then obtain k where k: "evdev_key c = Some k" by auto
  have h: "healthy (keyboard e)" using Cons.prems(1) in_use_healthy by blast
  let ?e1 = "kbd_emit [(ev_key, of_nat k, 0), syn] e\<lparr>held_keys := map_del c (held_keys e)\<rparr>"
  obtain ks' e' where i: "release_keys cs ?e1 = ([], e')" "in_use ks' ms e'"
      "held_buttons e' = held_buttons ?e1" "held_keys e' = fold map_del cs (held_keys ?e1)"
    using Cons.IH [OF key_up [OF Cons.prems(1) k]] Cons.prems(2) by auto
  then show ?case using k h by (simp add: kbd_event_healthy Let_def) blast
qed auto

lemma release_buttons_in_use:
  "in_use ks ms e \<Longrightarrow> list_all (\<lambda>c. evdev_button c \<noteq> None) cs \<Longrightarrow>
   \<exists>ms' e'. release_buttons cs e = ([], e') \<and> in_use ks ms' e' \<and> held_keys e' = held_keys e \<and>
     held_buttons e' = fold map_del cs (held_buttons e)"
proof (induction cs arbitrary: ms e)
  case (Cons c cs)
  then obtain k where k: "evdev_button c = Some k" by auto
  have h: "healthy (mouse e)" using Cons.prems(1) in_use_healthy by blast
  let ?e1 = "mouse_emit [(ev_key, of_nat k, 0), syn] e\<lparr>held_buttons := map_del c (held_buttons e)\<rparr>"
  obtain ms' e' where i: "release_buttons cs ?e1 = ([], e')" "in_use ks ms' e'"
      "held_keys e' = held_keys ?e1" "held_buttons e' = fold map_del cs (held_buttons ?e1)"
    using Cons.IH [OF button_up [OF Cons.prems(1) k]] Cons.prems(2) by auto
  then show ?case using k h by (simp add: mouse_event_healthy Let_def) blast
qed auto

lemma fold_map_del_all: "fst ` set m \<subseteq> set cs \<Longrightarrow> fold map_del cs m = []"
proof (induction cs arbitrary: m)
  case (Cons c cs)
  have "fst ` set (map_del c m) \<subseteq> set cs" using Cons.prems by (auto simp: set_map_del)
  with Cons.IH show ?case by simp
qed simp

lemma held_mapped:
  assumes "in_use ks ms e"
  shows "list_all (\<lambda>c. evdev_key c \<noteq> None) (map fst (held_keys e))"
    "list_all (\<lambda>c. evdev_button c \<noteq> None) (map fst (held_buttons e))"
  using assms unfolding in_use_def list_all_iff map_has_iff by auto

lemma release_all_in_use:
  assumes "in_use ks ms e"
  obtains ks' ms' e' where "release_all e = ([], e')" "in_use ks' ms' e'" "held_keys e' = []" "held_buttons e' = []"
proof -
  obtain ks' e1 where 1: "release_keys (map fst (held_keys e)) e = ([], e1)" "in_use ks' ms e1"
      "held_keys e1 = []"
    using release_keys_in_use [OF assms held_mapped(1) [OF assms]] fold_map_del_all [of "held_keys e"] by auto
  obtain ms' e2 where 2: "release_buttons (map fst (held_buttons e1)) e1 = ([], e2)" "in_use ks' ms' e2"
      "held_keys e2 = []" "held_buttons e2 = []"
    using release_buttons_in_use [OF 1(2) held_mapped(2) [OF 1(2)]] fold_map_del_all [of "held_buttons e1"] 1(3) by auto
  show ?thesis using that [OF _ 2(2-4)] 1 2 by (simp add: release_all_def)
qed

lemma in_use_no_held:
  assumes "in_use ks ms e" "held_keys e = []" "held_buttons e = []"
  shows "pressed ks = {} \<and> pressed ms = {}"
  using assms by (simp add: in_use_def)

lemma close_in_use:
  assumes "in_use ks ms e"
  shows "\<exists>ks' ms'. shut ks' ms' (snd (close_emulator mo ko e))"
proof -
  obtain ks' ms' e' where r: "release_all e = ([], e')" "in_use ks' ms' e'" "held_keys e' = []" "held_buttons e' = []"
    by (rule release_all_in_use [OF assms])
  have o: "\<not> em_closed e" using assms by (simp add: in_use_def)
  have f: "dev_file (mouse e')" "dev_file (keyboard e')" using in_use_healthy [OF r(2)] by auto
  have "snd (close_emulator mo ko e) = e'\<lparr>mouse := (mouse e')\<lparr>dev_file := False\<rparr>,
      keyboard := (keyboard e')\<lparr>dev_file := False\<rparr>, em_closed := True\<rparr>"
    using o f r(1) by (simp add: close_emulator_def dev_close_def Let_def)
  then have "shut ks' ms' (snd (close_emulator mo ko e))"
    using r in_use_no_held [OF r(2-4)] by (simp add: shut_def in_use_def wrote_def)
  then show ?thesis by blast
qed

lemma reset_in_use:
  assumes "in_use ks ms e"
  shows "\<exists>ks' ms'. in_use ks' ms' (snd (reset_emulator alive e)) \<and>
    (length (held_keys e) + length (held_buttons e) \<le> alive \<longrightarrow>
       held_keys (snd (reset_emulator alive e)) = [] \<and> held_buttons (snd (reset_emulator alive e)) = [])"
proof -
  let ?cs = "map fst (held_keys e)"
  obtain ks' n e1 rs where 1: "reset_keys ?cs alive e = (rs, n, e1)" "in_use ks' ms e1"
      "held_buttons e1 = held_buttons e" "n = alive - length ?cs"
      "length ?cs \<le> alive \<longrightarrow> held_keys e1 = fold map_del ?cs (held_keys e)"
    using reset_keys_in_use [OF assms held_mapped(1) [OF assms], of alive] by blast
  let ?bs = "map fst (held_buttons e1)"
  obtain ms' e2 rs' n' where 2: "reset_buttons ?bs n e1 = (rs', n', e2)" "in_use ks' ms' e2"
      "held_keys e2 = held_keys e1" "length ?bs \<le> n \<longrightarrow> held_buttons e2 = fold map_del ?bs (held_buttons e1)"
    using reset_buttons_in_use [OF 1(2) held_mapped(2) [OF 1(2)], of n] by blast
  have "snd (reset_emulator alive e) = e2" using 1(1) 2(1) by (simp add: reset_emulator_def)
  moreover have "length (held_keys e) + length (held_buttons e) \<le> alive \<longrightarrow> held_keys e2 = [] \<and> held_buttons e2 = []"
    using 1(3-5) 2(3,4) fold_map_del_all [of "held_keys e" ?cs] fold_map_del_all [of "held_buttons e1" ?bs] by auto
  ultimately show ?thesis using 2(2) by blast
qed

lemma shut_stays:
  assumes "shut ks ms e"
  shows "snd (apply_input alive i e) = e" "snd (reset_emulator n e) = e" "snd (close_emulator mo ko e) = e"
  using assms by (auto simp: shut_def apply_quiet reset_emulator_def close_emulator_def)

subsection \<open>Properties\<close>

text \<open>The calls of the interface \<open>Emulator\<close>.\<close>

datatype em_op = OpApply bool remote_input | OpReset nat | OpClose bool bool

fun run_op :: "em_op \<Rightarrow> emulator \<Rightarrow> emulator" where
  "run_op (OpApply alive i) e = snd (apply_input alive i e)"
| "run_op (OpReset alive) e = snd (reset_emulator alive e)"
| "run_op (OpClose mo ko) e = snd (close_emulator mo ko e)"

definition keys_down :: "emulator \<Rightarrow> 16 word set" where
  "keys_down e = pressed (event_stream (dev_out (keyboard e)))"

definition buttons_down :: "emulator \<Rightarrow> 16 word set" where
  "buttons_down e = pressed (event_stream (dev_out (mouse e)))"

lemma new_device_Inr:
  "new_device calls name open_ok results faults = (Inr d, done, rest) \<Longrightarrow>
   d = \<lparr>dev_file = True, dev_out = [], dev_faults = faults\<rparr> \<and>
   run_ioctls (calls @ create_calls name) results = (None, done, rest)"
  by (auto simp: new_device_def split: if_split_asm prod.splits option.splits)

lemma run_ioctls_done: "run_ioctls cs results = (None, done, rest) \<Longrightarrow> done = map fst cs"
  by (induction cs results arbitrary: "done" rule: run_ioctls.induct)
    (auto split: list.splits bool.splits prod.splits)

lemma new_emulator_devices:
  assumes "new_emulator o1 o2 results f1 f2 = Inr e"
  obtains done1 rs done2 rest where
    "new_device keyboard_calls ''Quava Virtual Keyboard'' o1 results f1 = (Inr (keyboard e), done1, rs)"
    "new_device mouse_calls ''Quava Virtual Mouse'' o2 rs f2 = (Inr (mouse e), done2, rest)"
    "held_keys e = []" "held_buttons e = []" "\<not> em_closed e"
  using assms by (auto simp: new_emulator_def split: prod.splits sum.splits)

lemma new_emulator_in_use:
  assumes "new_emulator o1 o2 results [] [] = Inr e" shows "in_use [] [] e"
proof -
  obtain done1 rs done2 rest where
      k: "new_device keyboard_calls ''Quava Virtual Keyboard'' o1 results [] = (Inr (keyboard e), done1, rs)"
      and m: "new_device mouse_calls ''Quava Virtual Mouse'' o2 rs [] = (Inr (mouse e), done2, rest)"
      and "held_keys e = []" "held_buttons e = []" "\<not> em_closed e"
    by (rule new_emulator_devices [OF assms])
  then show ?thesis using new_device_Inr [OF k] new_device_Inr [OF m] by (simp add: in_use_def wrote_def)
qed

definition in_use_or_shut :: "emulator \<Rightarrow> bool" where
  "in_use_or_shut e \<longleftrightarrow> (\<exists>ks ms. in_use ks ms e \<or> shut ks ms e)"

lemma run_op_keeps: "in_use_or_shut e \<Longrightarrow> in_use_or_shut (run_op p e)"
  unfolding in_use_or_shut_def
  using apply_in_use reset_in_use close_in_use shut_stays by (cases p) (simp_all, metis+)

interpretation emulator_ops: step_system "\<lambda>e. in_use_or_shut e" "\<lambda>e e'. \<exists>p. e' = run_op p e" in_use_or_shut
  by unfold_locales (auto intro: run_op_keeps)

lemma run_ops_steps: "(\<lambda>e e'. \<exists>p. e' = run_op p e)\<^sup>*\<^sup>* e (fold run_op ops e)"
  by (induction ops arbitrary: e) (auto intro: converse_rtranclp_into_rtranclp)

lemma run_ops_keeps:
  assumes "new_emulator o1 o2 results [] [] = Inr e"
  shows "in_use_or_shut (fold run_op ops e)"
  using emulator_ops.steps_inv [OF run_ops_steps] new_emulator_in_use [OF assms]
  unfolding in_use_or_shut_def by blast

lemma wrote_streams:
  "wrote ks ms e \<Longrightarrow> event_stream (dev_out (keyboard e)) = ks \<and> event_stream (dev_out (mouse e)) = ms"
  by (simp add: wrote_def)

lemma in_use_or_shut_down:
  "in_use_or_shut e \<Longrightarrow> keys_down e \<subseteq> held_codes evdev_key (held_keys e) \<and>
     buttons_down e \<subseteq> held_codes evdev_button (held_buttons e)"
  unfolding in_use_or_shut_def in_use_def shut_def keys_down_def buttons_down_def
  using wrote_streams by fastforce

lemma closed_down: "in_use_or_shut e \<Longrightarrow> keys_down (snd (close_emulator mo ko e)) = {} \<and>
    buttons_down (snd (close_emulator mo ko e)) = {}"
proof -
  assume "in_use_or_shut e"
  then obtain ks ms where "shut ks ms (snd (close_emulator mo ko e))"
    unfolding in_use_or_shut_def using close_in_use shut_stays(3) by metis
  then show ?thesis using wrote_streams unfolding shut_def keys_down_def buttons_down_def by metis
qed

lemma reset_down:
  assumes "in_use_or_shut e" "length (held_keys e) + length (held_buttons e) \<le> n"
  shows "keys_down (snd (reset_emulator n e)) = {} \<and> buttons_down (snd (reset_emulator n e)) = {}"
proof -
  have "held_keys (snd (reset_emulator n e)) = [] \<and> held_buttons (snd (reset_emulator n e)) = []"
    using assms reset_in_use shut_stays(2) unfolding in_use_or_shut_def by (metis shut_def)
  moreover have "in_use_or_shut (snd (reset_emulator n e))"
    using run_op_keeps [OF assms(1), of "OpReset n"] by simp
  ultimately show ?thesis using in_use_or_shut_down [of "snd (reset_emulator n e)"] by simp
qed

text \<open>C7. Whatever the phone sends and in whatever order the emulator's methods are called, a key or
  button is down on the virtual devices, as the kernel decodes their bytes, only if the emulator
  counts it as held; \<open>Close\<close> leaves none down, and neither does a \<open>Reset\<close> whose context lives as
  long as its loops. The device files do not fail here.\<close>

theorem emulator_releases_everything:
  assumes "new_emulator o1 o2 results [] [] = Inr e0"
    and "e = fold run_op ops e0"
  shows "keys_down e \<subseteq> held_codes evdev_key (held_keys e) \<and>
    buttons_down e \<subseteq> held_codes evdev_button (held_buttons e) \<and>
    keys_down (snd (close_emulator mo ko e)) = {} \<and> buttons_down (snd (close_emulator mo ko e)) = {} \<and>
    (length (held_keys e) + length (held_buttons e) \<le> n \<longrightarrow>
       keys_down (snd (reset_emulator n e)) = {} \<and> buttons_down (snd (reset_emulator n e)) = {})"
proof -
  have "in_use_or_shut e" unfolding assms(2) by (rule run_ops_keeps [OF assms(1)])
  then show ?thesis using in_use_or_shut_down closed_down reset_down by blast
qed

text \<open>No key, button or axis is ever reported that its device was not set up for: every event
  written is a report or belongs to an event type and a code that were enabled by an \<open>ioctl\<close> before
  the device was created.\<close>

theorem emulator_stays_in_capabilities:
  assumes "new_emulator o1 o2 results [] [] = Inr e0"
    and "e = fold run_op ops e0"
  shows "\<exists>calls1 calls2 rs rest.
    new_device keyboard_calls ''Quava Virtual Keyboard'' o1 results [] = (Inr (keyboard e0), calls1, rs) \<and>
    new_device mouse_calls ''Quava Virtual Mouse'' o2 rs [] = (Inr (mouse e0), calls2, rest) \<and>
    list_all (capable (set calls1)) (event_stream (dev_out (keyboard e))) \<and>
    list_all (capable (set calls2)) (event_stream (dev_out (mouse e)))"
proof -
  obtain calls1 rs calls2 rest where
      k: "new_device keyboard_calls ''Quava Virtual Keyboard'' o1 results [] = (Inr (keyboard e0), calls1, rs)"
      and m: "new_device mouse_calls ''Quava Virtual Mouse'' o2 rs [] = (Inr (mouse e0), calls2, rest)"
    by (rule new_emulator_devices [OF assms(1)])
  have s: "fst ` set keyboard_calls \<subseteq> set calls1" "fst ` set mouse_calls \<subseteq> set calls2"
    using run_ioctls_done [of "keyboard_calls @ create_calls ''Quava Virtual Keyboard''" results calls1 rs]
      run_ioctls_done [of "mouse_calls @ create_calls ''Quava Virtual Mouse''" rs calls2 rest]
      new_device_Inr [OF k] new_device_Inr [OF m] by auto
  obtain ks ms where w: "wrote ks ms e"
    using run_ops_keeps [OF assms(1), of ops] unfolding assms(2) in_use_or_shut_def in_use_def shut_def by blast
  then have "list_all (asked keyboard_calls) ks" "list_all (asked mouse_calls) ms"
    unfolding wrote_def by blast+
  then have "list_all (capable (set calls1)) ks" "list_all (capable (set calls2)) ms"
    using capable_mono s by (auto elim!: list.pred_mono_strong)
  then show ?thesis using k m wrote_streams [OF w] by simp
qed

text \<open>A text event that passes validation types its printable ASCII prefix, character by
  character, so that a US keyboard reads exactly that prefix back; a text that holds any other
  character (which validation allows) fails with its prefix already typed.\<close>

theorem text_typed_up_to_unprintable:
  assumes "in_use ks ms e" and "in_type i = InputText" and "validate i = None"
    and "string_runes (in_text i) = Some rs"
  shows "\<exists>evs. apply_input True i e =
      (if list_all printable rs then None else Some EmNotAscii,
       e\<lparr>keyboard := (keyboard e)\<lparr>dev_out := dev_out (keyboard e) @ concat (map event_enc evs)\<rparr>\<rparr>) \<and>
    us_typed False evs = takeWhile printable rs"
proof -
  have h: "healthy (keyboard e)" "\<not> em_closed e" using assms(1) by (simp_all add: in_use_def wrote_def)
  have len: "in_text i \<noteq> []" "length (in_text i) \<le> 4096"
    using assms(2,3) by (auto simp: validate_def input_constants split: if_split_asm option.split_asm)
  have "note_held i x = x" for x using assms(2) by (simp add: note_held_other input_constants)
  then have "apply_input True i e = (if list_all printable rs then None else Some EmNotAscii,
      kbd_emit (concat (map spell_rune (takeWhile printable rs))) e)"
    using assms h len by (simp add: apply_input_def emit_def type_text_def type_runes_healthy input_constants)
  moreover have "list_all printable (takeWhile printable rs)"
    by (induction rs) simp_all
  ultimately show ?thesis
    using us_typed_spell [of "takeWhile printable rs"] unfolding kbd_emit_def dev_emit_def by blast
qed

lemma round_away_near: "\<bar>real_of_int (round_away r) - r\<bar> \<le> 1 / 2"
  unfolding abs_le_iff round_away_def using floor_correct [of "r + 1 / 2"] ceiling_correct [of "r - 1 / 2"]
  by (cases "0 \<le> r") (simp_all only: if_True if_False, linarith+)

lemma delta32_exact:
  assumes "\<bar>r\<bar> \<le> 10000" shows "sint (delta32 (Fin r)) = round_away r"
proof -
  have "real_of_int (round_away r) \<le> 10001 \<and> - 10001 \<le> real_of_int (round_away r)"
    using round_away_near [of r] assms unfolding abs_le_iff by linarith
  then have "round_away r \<le> 10001 \<and> - 10001 \<le> round_away r" by linarith
  then show ?thesis
    by (simp add: delta32_def fin_of_def signed_of_int signed_take_bit_int_eq_self)
qed

text \<open>A pointer movement that passes validation is reported without overflow: the two axis values
  are within half a unit of the deltas, and the events are the x axis, the y axis and the reports.\<close>

theorem pointer_move_exact:
  assumes "in_use ks ms e" and "in_type i = InputPointerMove" and "validate i = None"
    and "delta_x i = Fin x" and "delta_y i = Fin y"
  shows "\<exists>dx dy. apply_input True i e = (None, e\<lparr>mouse := (mouse e)\<lparr>dev_out := dev_out (mouse e) @
      concat (map event_enc [(ev_rel, rel_x, dx), syn, (ev_rel, rel_y, dy), syn, syn])\<rparr>\<rparr>) \<and>
    \<bar>real_of_int (sint dx) - x\<bar> \<le> 1 / 2 \<and> \<bar>real_of_int (sint dy) - y\<bar> \<le> 1 / 2"
proof -
  have h: "healthy (mouse e)" "\<not> em_closed e" using assms(1) by (simp_all add: in_use_def wrote_def)
  have b: "\<bar>x\<bar> \<le> 10000" "\<bar>y\<bar> \<le> 10000" using valid_deltas [OF assms(3)] assms(4,5) by auto
  have "apply_input True i e = (None, mouse_emit [(ev_rel, rel_x, delta32 (Fin x)), syn,
      (ev_rel, rel_y, delta32 (Fin y)), syn, syn] e)"
    using assms h
    by (simp add: apply_input_def emit_def apply_mouse_def mouse_event_healthy mouse_sync_healthy note_held_def
        input_constants)
  then show ?thesis
    using delta32_exact [OF b(1)] delta32_exact [OF b(2)] round_away_near unfolding mouse_emit_def dev_emit_def by metis
qed

text \<open>A key press whose report cannot be written stays pressed: the press has reached the device but
  the error keeps it out of the held keys, so that not even \<open>Close\<close> releases it.\<close>

theorem failed_report_leaves_key_down:
  assumes "new_emulator o1 o2 results (WriteOk # WriteErr 0 # faults) [] = Inr e"
    and "in_type i = InputKey" and "in_action i = InputActionDown" and "validate i = None"
    and "evdev_key (key_code i) = Some k"
  shows "fst (apply_input True i e) = Some UiWrite \<and>
    keys_down (snd (close_emulator mo ko (snd (apply_input True i e)))) = {of_nat k}"
proof -
  obtain calls1 rs calls2 rest where
      d: "new_device keyboard_calls ''Quava Virtual Keyboard'' o1 results (WriteOk # WriteErr 0 # faults) =
        (Inr (keyboard e), calls1, rs)"
      and m: "new_device mouse_calls ''Quava Virtual Mouse'' o2 rs [] = (Inr (mouse e), calls2, rest)"
      and e: "held_keys e = []" "held_buttons e = []" "\<not> em_closed e"
    by (rule new_emulator_devices [OF assms(1)])
  let ?ev = "(ev_key, of_nat k :: 16 word, 1 :: 32 word)"
  have kb: "keyboard e = \<lparr>dev_file = True, dev_out = [], dev_faults = WriteOk # WriteErr 0 # faults\<rparr>"
    using new_device_Inr [OF d] by simp
  have a: "apply_input True i e =
      (Some UiWrite, e\<lparr>keyboard := \<lparr>dev_file = True, dev_out = event_enc ?ev, dev_faults = faults\<rparr>\<rparr>)"
    using assms(2-5) e kb
    by (simp add: apply_input_def emit_def kbd_event_def dev_event_def dev_write_def dev_sync_def
        event_enc_def input_constants)
  have "dev_out (keyboard (snd (close_emulator mo ko (snd (apply_input True i e))))) = event_enc ?ev"
    using e by (simp add: a close_emulator_def release_all_def dev_close_def Let_def)
  then show ?thesis
    using event_stream_enc [of "[?ev]"] by (simp add: a keys_down_def pressed_def)
qed

subsection \<open>Concrete runs\<close>

definition fresh_emulator :: "write_outcome list \<Rightarrow> emulator" where
  "fresh_emulator faults = \<lparr>keyboard = \<lparr>dev_file = True, dev_out = [], dev_faults = faults\<rparr>,
     mouse = \<lparr>dev_file = True, dev_out = [], dev_faults = []\<rparr>, held_keys = [], held_buttons = [], em_closed = False\<rparr>"

lemma run_ioctls_ok: "run_ioctls cs [] = (None, map fst cs, [])"
  by (induction cs) auto

lemma fresh_new: "new_emulator True True [] faults [] = Inr (fresh_emulator faults)"
  by (simp add: new_emulator_def new_device_def run_ioctls_ok fresh_emulator_def)

definition press_enter :: remote_input where
  "press_enter = \<lparr>in_type = 1, in_action = 1, key_code = 66, in_button = 0, delta_x = Fin 0, delta_y = Fin 0,
     in_text = []\<rparr>"

definition move_right :: remote_input where
  "move_right = \<lparr>in_type = 2, in_action = 0, key_code = 0, in_button = 0, delta_x = Fin (5 / 2), delta_y = Fin 0,
     in_text = []\<rparr>"

text \<open>\<open>Hi\<close> followed by the two bytes of an accented letter and an exclamation mark.\<close>

definition type_hi :: remote_input where
  "type_hi = \<lparr>in_type = 5, in_action = 0, key_code = 0, in_button = 0, delta_x = Fin 0, delta_y = Fin 0,
     in_text = ''Hi'' @ [CHR 0xC3, CHR 0xA9, CHR 0x21]\<rparr>"

lemma press_enter_valid: "validate press_enter = None"
  by (simp add: validate_def press_enter_def bad_delta_def input_constants supported_android_key_def)

lemma move_right_valid: "validate move_right = None"
  by (simp add: validate_def move_right_def bad_delta_def is_zero_def input_constants)

lemma type_hi_runes: "string_runes (in_text type_hi) = Some [0x48, 0x69, 0xE9, 0x21]"
  unfolding type_hi_def remote_input.select_convs by code_simp

lemma type_hi_valid: "validate type_hi = None"
  unfolding validate_def type_hi_runes
  by (simp add: type_hi_def bad_delta_def input_constants is_control_def)

lemma enter_key: "evdev_key (key_code press_enter) = Some 28"
  unfolding press_enter_def remote_input.select_convs by code_simp

lemma fresh_in_use: "in_use [] [] (fresh_emulator [])"
  using new_emulator_in_use [OF fresh_new] .

lemma emulator_releases_everything_witness:
  "let e = fold run_op [OpApply True press_enter, OpApply True type_hi] (fresh_emulator [])
   in keys_down e \<subseteq> held_codes evdev_key (held_keys e) \<and> keys_down (snd (close_emulator True True e)) = {}"
  unfolding Let_def
  using emulator_releases_everything [OF fresh_new refl, of "[OpApply True press_enter, OpApply True type_hi]"]
  by blast

lemma emulator_stays_in_capabilities_witness:
  "\<exists>calls1. list_all (capable (set calls1))
     (event_stream (dev_out (keyboard (fold run_op [OpApply True type_hi] (fresh_emulator [])))))"
  using emulator_stays_in_capabilities [OF fresh_new refl, of "[OpApply True type_hi]"] by blast

lemma text_typed_up_to_unprintable_witness:
  "fst (apply_input True type_hi (fresh_emulator [])) = Some EmNotAscii \<and>
   (\<exists>evs. us_typed False evs = [0x48, 0x69] \<and>
     keyboard (snd (apply_input True type_hi (fresh_emulator []))) =
       (keyboard (fresh_emulator []))\<lparr>dev_out := [] @ concat (map event_enc evs)\<rparr>)"
proof -
  have t: "in_type type_hi = InputText" by (simp add: type_hi_def input_constants)
  have p: "list_all printable [0x48, 0x69, 0xE9, 0x21] = False"
    "takeWhile printable [0x48, 0x69, 0xE9, 0x21] = [0x48, 0x69]"
    by (simp_all add: printable_def)
  have "dev_out (keyboard (fresh_emulator [])) = []" by (simp add: fresh_emulator_def)
  then show ?thesis
    using text_typed_up_to_unprintable [OF fresh_in_use t type_hi_valid type_hi_runes] unfolding p by auto
qed

lemma pointer_move_exact_witness:
  "\<exists>dx :: 32 word. fst (apply_input True move_right (fresh_emulator [])) = None \<and>
     \<bar>real_of_int (sint dx) - 5 / 2\<bar> \<le> 1 / 2"
proof -
  have m: "in_type move_right = InputPointerMove" "delta_x move_right = Fin (5 / 2)" "delta_y move_right = Fin 0"
    by (simp_all add: move_right_def input_constants)
  from pointer_move_exact [OF fresh_in_use m(1) move_right_valid m(2,3)] show ?thesis
    by (elim exE conjE) (metis fst_conv)
qed

lemma failed_report_leaves_key_down_witness:
  "keys_down (snd (close_emulator True True
     (snd (apply_input True press_enter (fresh_emulator [WriteOk, WriteErr 0]))))) = {28}"
proof -
  have p: "in_type press_enter = InputKey" "in_action press_enter = InputActionDown"
    by (simp_all add: press_enter_def input_constants)
  show ?thesis
    using failed_report_leaves_key_down [OF fresh_new p press_enter_valid enter_key, where mo = True and ko = True] by simp
qed

end
