(* ===== verification/Session_Handshake.thy ===== *)
theory Session_Handshake
  imports Config_Store Exchange
begin

text \<open>
  The authenticated handshake of a session (\<open>Connect\<close>, \<open>transcript\<close> and \<open>mac\<close> of
  \<open>libquava/session/session.go\<close>) and the loop that keeps a session alive
  (\<open>RunWithCallbacks\<close>, \<open>RunHeartbeat\<close>).

  \<open>connect\<close> is a conversation (theory \<open>Exchange\<close>); the point at which the connection is
  encrypted is the \<open>ex_encrypt\<close> step. The run loop is a state machine on the events it waits
  for; its callbacks are the log.
\<close>

datatype session_error =
    SesNilConnection
  | SesLocalIdentity
  | SesTrustRecord
  | SesTrustId
  | SesCrypto crypto_error
  | SesWire wire_error
  | SesChallenge
  | SesIdentityMismatch
  | SesChallengeMac
  | SesReady
  | SesReadyMac

record session_env =
  se_crypto :: crypto_lib
  se_aead :: aead_lib
  se_tx :: "bytes option"
  se_nonce :: "bytes option"
  se_hostname :: "string option"

record session_info =
  si_peer :: pair_result
  si_local_id :: bytes
  si_local_public :: bytes
  si_tx :: bytes

definition session_protocol_name :: string where
  "session_protocol_name = ''quava-session''"

definition session_transcript ::
    "bytes \<Rightarrow> bytes \<Rightarrow> bytes \<Rightarrow> bytes \<Rightarrow> bytes \<Rightarrow> bytes \<Rightarrow> bytes \<Rightarrow> bytes" where
  "session_transcript tx lid rid lpk rpk lnonce rnonce =
     str_bytes session_protocol_name @ tx @ lid @ rid @ lpk @ rpk @ lnonce @ rnonce"

definition session_mac :: "crypto_lib \<Rightarrow> bytes \<Rightarrow> string \<Rightarrow> bytes \<Rightarrow> bytes" where
  "session_mac C key label tr = hmac256 C key (str_bytes label @ tr)"

subsection \<open>Connect\<close>

definition hello_message :: "bytes \<Rightarrow> bytes \<Rightarrow> bytes \<Rightarrow> bytes \<Rightarrow> message" where
  "hello_message tx lid lpk lnonce =
     new_message MessageTypeSessionHello tx
       [(0, ABytes lid), (1, ABytes lpk), (2, ABytes lnonce), (3, AUint64 ProtocolVersion)]"

text \<open>Lines 71 to 79.\<close>

definition check_trust :: "crypto_lib \<Rightarrow> identity_file \<Rightarrow> pair_result \<Rightarrow> session_error + unit" where
  "check_trust C me peer =
     (if length (id_private me) \<noteq> ed_private_key_size \<or> length (id_public me) \<noteq> ed_public_key_size
      then Inl SesLocalIdentity
      else if length (pr_public_key peer) \<noteq> ed_public_key_size \<or> pr_credential peer = []
      then Inl SesTrustRecord
      else if pr_peer_id peer \<noteq> hex_encode (device_id_bytes C (pr_public_key peer))
      then Inl SesTrustId
      else Inr ())"

text \<open>Lines 99 to 124: the challenge and the transcript it authenticates.\<close>

definition read_session_challenge ::
    "crypto_lib \<Rightarrow> identity_file \<Rightarrow> pair_result \<Rightarrow> bytes \<Rightarrow> bytes \<Rightarrow> bytes \<Rightarrow> message \<Rightarrow>
     session_error + bytes" where
  "read_session_challenge C me peer tx lid lnonce m =
     (if version m \<noteq> ProtocolVersion \<or> mtype m \<noteq> MessageTypeSessionChallenge \<or>
         transaction_id m \<noteq> tx
      then Inl SesChallenge
      else
        bind_r (map_err SesWire (payload_bytes (payload m) 0)) (\<lambda>rid.
        bind_r (map_err SesWire (payload_bytes (payload m) 1)) (\<lambda>rpk.
        bind_r (map_err SesWire (payload_bytes (payload m) 2)) (\<lambda>rnonce.
        bind_r (map_err SesWire (payload_bytes (payload m) 3)) (\<lambda>challenge_mac.
          if length rpk \<noteq> ed_public_key_size \<or> rid \<noteq> device_id_bytes C rpk \<or>
             rid \<noteq> device_id_bytes C (pr_public_key peer)
          then Inl SesIdentityMismatch
          else
            let tr = session_transcript tx lid rid (id_public me) rpk lnonce rnonce in
            if challenge_mac \<noteq> session_mac C (pr_credential peer) ''challenge'' tr
            then Inl SesChallengeMac
            else Inr tr)))))"

text \<open>Lines 133 to 146.\<close>

definition check_ready ::
    "crypto_lib \<Rightarrow> pair_result \<Rightarrow> bytes \<Rightarrow> bytes \<Rightarrow> message \<Rightarrow> session_error + unit" where
  "check_ready C peer tx tr m =
     (if version m \<noteq> ProtocolVersion \<or> mtype m \<noteq> MessageTypeSessionReady \<or> transaction_id m \<noteq> tx
      then Inl SesReady
      else bind_r (map_err SesWire (payload_bytes (payload m) 0)) (\<lambda>ready_mac.
        if ready_mac \<noteq> session_mac C (pr_credential peer) ''ready'' tr then Inl SesReadyMac
        else Inr ()))"

definition ready_message :: "crypto_lib \<Rightarrow> pair_result \<Rightarrow> bytes \<Rightarrow> bytes \<Rightarrow> string option \<Rightarrow> message" where
  "ready_message C peer tx tr hostname =
     new_message MessageTypeSessionReady tx
       [(SessionReadyMAC, ABytes (session_mac C (pr_credential peer) ''ready'' tr)),
        (SessionReadyHostname, AString (case hostname of None \<Rightarrow> ''Unknown PC'' | Some h \<Rightarrow> h))]"

definition connect ::
    "session_env \<Rightarrow> bool \<Rightarrow> identity_file \<Rightarrow> pair_result \<Rightarrow> (session_error, session_info) exch" where
  "connect E nil me peer =
     (let C = se_crypto E in
      ex_bind (ex_check nil SesNilConnection) (\<lambda>_.
      ex_bind (ex_lift (check_trust C me peer)) (\<lambda>_.
      ex_bind (ex_lift (map_err SesCrypto (generate_transaction_id (se_tx E)))) (\<lambda>tx.
      ex_bind (ex_lift (map_err SesCrypto (generate_nonce (se_nonce E)))) (\<lambda>lnonce.
      let lid = device_id_bytes C (id_public me) in
      ex_bind (ex_send SesWire (hello_message tx lid (id_public me) lnonce)) (\<lambda>_.
      ex_bind (ex_recv SesWire) (\<lambda>ch.
      ex_bind (ex_lift (read_session_challenge C me peer tx lid lnonce ch)) (\<lambda>tr.
      ex_bind (ex_send SesWire (new_message MessageTypeSessionAuthenticate tx
                 [(0, ABytes (session_mac C (pr_credential peer) ''authenticate'' tr))])) (\<lambda>_.
      ex_bind (ex_recv SesWire) (\<lambda>rdy.
      ex_bind (ex_lift (check_ready C peer tx tr rdy)) (\<lambda>_.
      ex_bind (ex_lift (map_err SesCrypto (session_keys C (pr_credential peer) tr))) (\<lambda>(h2p, p2h).
      ex_bind (ex_encrypt (se_aead E) SesWire h2p p2h) (\<lambda>_.
      ex_bind (ex_send SesWire (ready_message C peer tx tr (se_hostname E))) (\<lambda>_.
      ex_lift (Inr \<lparr>si_peer = peer, si_local_id = lid, si_local_public = id_public me,
                    si_tx = tx\<rparr>)))))))))))))))"

subsection \<open>What an authenticated session has checked\<close>

lemma session_transcript_inject:
  assumes "session_transcript tx lid rid lpk rpk lno rn = session_transcript tx' lid' rid' lpk' rpk' lno' rn'"
    and "length tx = length tx'" "length lid = length lid'" "length rid = length rid'"
      "length lpk = length lpk'" "length rpk = length rpk'" "length lno = length lno'"
  shows "tx = tx' \<and> lid = lid' \<and> rid = rid' \<and> lpk = lpk' \<and> rpk = rpk' \<and> lno = lno' \<and> rn = rn'"
  using assms by (simp add: session_transcript_def)

lemma read_session_challenge_Inr:
  assumes "read_session_challenge C me peer tx lid lnonce m = Inr tr"
  shows "\<exists>rpk rnonce. payload_bytes (payload m) 1 = Inr rpk \<and>
    payload_bytes (payload m) 2 = Inr rnonce \<and> length rpk = 32 \<and>
    device_id_bytes C rpk = device_id_bytes C (pr_public_key peer) \<and>
    tr = session_transcript tx lid (device_id_bytes C rpk) (id_public me) rpk lnonce rnonce \<and>
    payload_bytes (payload m) 3 = Inr (session_mac C (pr_credential peer) ''challenge'' tr)"
  using assms
  by (auto simp: read_session_challenge_def Let_def ed_public_key_size_def split: if_split_asm)

lemma check_ready_Inr:
  "check_ready C peer tx tr m = Inr () \<Longrightarrow>
   payload_bytes (payload m) 0 = Inr (session_mac C (pr_credential peer) ''ready'' tr)"
  by (auto simp: check_ready_def split: if_split_asm)

lemma connect_run:
  assumes "connect E nil me peer s = (Inr r, t)"
  obtains tx lnonce ch tr rdy h2p p2h c where
    "generate_transaction_id (se_tx E) = Inr tx" "generate_nonce (se_nonce E) = Inr lnonce"
    "check_trust (se_crypto E) me peer = Inr ()"
    "read_session_challenge (se_crypto E) me peer tx (device_id_bytes (se_crypto E) (id_public me))
       lnonce ch = Inr tr"
    "check_ready (se_crypto E) peer tx tr rdy = Inr ()"
    "session_keys (se_crypto E) (pr_credential peer) tr = Inr (h2p, p2h)"
    "enable_encryption (se_aead E) h2p p2h (link s) = Inr c"
    "link t = c" "sealed_from t = Some (length (outbox s) + 2)"
    "outbox t = outbox s @
       [hello_message tx (device_id_bytes (se_crypto E) (id_public me)) (id_public me) lnonce,
        new_message MessageTypeSessionAuthenticate tx
          [(0, ABytes (session_mac (se_crypto E) (pr_credential peer) ''authenticate'' tr))],
        ready_message (se_crypto E) peer tx tr (se_hostname E)]"
    "inbox s = Inr ch # Inr rdy # inbox t"
    "r = \<lparr>si_peer = peer, si_local_id = device_id_bytes (se_crypto E) (id_public me),
          si_local_public = id_public me, si_tx = tx\<rparr>"
proof -
  let ?C = "se_crypto E" and ?lid = "device_id_bytes (se_crypto E) (id_public me)"
  let ?auth = "\<lambda>tx tr. new_message MessageTypeSessionAuthenticate tx
      [(0, ABytes (session_mac ?C (pr_credential peer) ''authenticate'' tr))]"
  obtain v0 tx lnonce v1 u1 ch u2 tr v2 u3 rdy u4 v3 h2p p2h v4 u5 v5 where
    "check_trust ?C me peer = Inr v0"
    "generate_transaction_id (se_tx E) = Inr tx" "generate_nonce (se_nonce E) = Inr lnonce"
    and s1: "ex_send SesWire (hello_message tx ?lid (id_public me) lnonce) s = (Inr v1, u1)"
    and r1: "ex_recv SesWire u1 = (Inr ch, u2)" and
    "read_session_challenge ?C me peer tx ?lid lnonce ch = Inr tr"
    and s2: "ex_send SesWire (?auth tx tr) u2 = (Inr v2, u3)"
    and r2: "ex_recv SesWire u3 = (Inr rdy, u4)" and
    "check_ready ?C peer tx tr rdy = Inr v3"
    "session_keys ?C (pr_credential peer) tr = Inr (h2p, p2h)"
    and en: "ex_encrypt (se_aead E) SesWire h2p p2h u4 = (Inr v4, u5)"
    and s3: "ex_send SesWire (ready_message ?C peer tx tr (se_hostname E)) u5 = (Inr v5, t)" and
    "r = \<lparr>si_peer = peer, si_local_id = ?lid, si_local_public = id_public me, si_tx = tx\<rparr>"
    using assms unfolding connect_def Let_def
    by (elim ex_bindE ex_liftE ex_checkE case_prod_stepE map_errE sum_eqE, hypsubst)
      (rule that, assumption+)
  moreover have "outbox t = outbox s @ [hello_message tx ?lid (id_public me) lnonce,
      ?auth tx tr, ready_message ?C peer tx tr (se_hostname E)]"
    "sealed_from t = Some (length (outbox s) + 2)"
    "enable_encryption (se_aead E) h2p p2h (link s) = Inr (link t)"
    "inbox s = Inr ch # Inr rdy # inbox t"
    using s1 r1 s2 r2 en s3 by (auto simp: exch_simps)
  ultimately show thesis
    by (intro that [of tx lnonce ch tr rdy h2p p2h "link t"]) simp_all
qed

lemma enable_encryption_Inr:
  assumes "enable_encryption L k1 k2 c = Inr d"
  shows "length k1 = key_size L \<and> length k2 = key_size L \<and> send_cipher c = None \<and>
    d = c\<lparr>send_cipher := Some \<lparr>aead_key = k1, counter = 0\<rparr>,
          recv_cipher := Some \<lparr>aead_key = k2, counter = 0\<rparr>,
          sealed_framer := new_framer (of_nat (DefaultMaxFrameSize + overhead L))\<rparr>"
  using assms
  by (auto simp: enable_encryption_def new_frame_cipher_def split: if_split_asm)

subsection \<open>The two ends agree\<close>

text \<open>The phone's side after the same handshake: it sends with the key the host receives with.\<close>

definition peer_conn :: "aead_lib \<Rightarrow> bytes \<Rightarrow> bytes \<Rightarrow> wire_error + conn" where
  "peer_conn L h2p p2h = enable_encryption L p2h h2p new_conn"

lemma ends_linked:
  assumes "enable_encryption L h2p p2h c = Inr host" "peer_conn L h2p p2h = Inr phone" "\<not> conn_nil c"
  shows "sealed_link L host phone \<and> sealed_link L phone host"
  using enable_encryption_Inr [OF assms(1)] enable_encryption_Inr [OF assms(2) [unfolded peer_conn_def]]
    assms(3)
  by (simp add: sealed_link_def new_conn_def)

text \<open>The phone's messages in the handshake.\<close>

definition phone_challenge ::
    "crypto_lib \<Rightarrow> bytes \<Rightarrow> bytes \<Rightarrow> bytes \<Rightarrow> bytes \<Rightarrow> bytes \<Rightarrow> message" where
  "phone_challenge C cred tx tr ppk pnonce =
     new_message MessageTypeSessionChallenge tx
       [(0, ABytes (device_id_bytes C ppk)), (1, ABytes ppk), (2, ABytes pnonce),
        (3, ABytes (session_mac C cred ''challenge'' tr))]"

definition phone_ready :: "crypto_lib \<Rightarrow> bytes \<Rightarrow> bytes \<Rightarrow> bytes \<Rightarrow> message" where
  "phone_ready C cred tx tr =
     new_message MessageTypeSessionReady tx [(0, ABytes (session_mac C cred ''ready'' tr))]"

lemma connect_with_paired_phone:
  assumes trust: "check_trust (se_crypto E) me peer = Inr ()"
    and tx: "generate_transaction_id (se_tx E) = Inr tx"
    and nonce: "generate_nonce (se_nonce E) = Inr lnonce"
    and tr: "tr = session_transcript tx (device_id_bytes (se_crypto E) (id_public me))
        (device_id_bytes (se_crypto E) (pr_public_key peer)) (id_public me) (pr_public_key peer)
        lnonce pnonce"
    and keys: "session_keys (se_crypto E) (pr_credential peer) tr = Inr (h2p, p2h)"
    and enc: "enable_encryption (se_aead E) h2p p2h (link s) = Inr c"
    and inbox: "inbox s = Inr (phone_challenge (se_crypto E) (pr_credential peer) tx tr
        (pr_public_key peer) pnonce) # Inr (phone_ready (se_crypto E) (pr_credential peer) tx tr) # rest"
    and writes: "write_results s = []"
  shows "\<exists>t. connect E False me peer s =
      (Inr \<lparr>si_peer = peer, si_local_id = device_id_bytes (se_crypto E) (id_public me),
            si_local_public = id_public me, si_tx = tx\<rparr>, t) \<and> link t = c \<and> inbox t = rest"
proof -
  let ?C = "se_crypto E" and ?lid = "device_id_bytes (se_crypto E) (id_public me)"
  have pk: "length (pr_public_key peer) = ed_public_key_size"
    using trust by (simp add: check_trust_def split: if_split_asm)
  have rd: "read_session_challenge ?C me peer tx ?lid lnonce
      (phone_challenge ?C (pr_credential peer) tx tr (pr_public_key peer) pnonce) = Inr tr"
    using pk by (simp add: read_session_challenge_def phone_challenge_def payload_bytes_def tr Let_def)
  have ok: "check_ready ?C peer tx tr (phone_ready ?C (pr_credential peer) tx tr) = Inr ()"
    by (simp add: check_ready_def phone_ready_def payload_bytes_def)
  show ?thesis
    unfolding connect_def Let_def
    by (simp add: ex_bind_def ex_check_def ex_lift_def trust tx nonce ex_send_quiet writes
        ex_recv_def inbox rd ok keys ex_encrypt_def enc)
qed

subsection \<open>The loop around sessions\<close>

text \<open>
  \<open>RunWithCallbacks\<close> with all four callbacks installed, as the daemon calls it. The log holds
  what it called, the latest first: the preparation and the publication of a session, the start
  of its dispatcher and media synchronisation, its closing, and \<open>onDisconnect\<close>.
\<close>

datatype run_phase = RunTop | RunDialing | RunWait | RunConnected | RunReturned

datatype run_event = EvPrepare | EvDispatcher | EvConnect | EvMultimedia | EvClose | EvDisconnect

record run_state =
  run_phase :: run_phase
  run_backoff :: int
  run_cancelled :: bool
  run_log :: "run_event list"

definition second :: int where "second = 1000000000"

definition next_backoff :: "int \<Rightarrow> int" where
  "next_backoff b = (if b < 30 * second then min (b * 2) (30 * second) else b)"

definition run_start :: run_state where
  "run_start = \<lparr>run_phase = RunTop, run_backoff = second, run_cancelled = False, run_log = []\<rparr>"

datatype run_input =
    InCancel | InStep | InDialFailed | InConnectFailed | InConnected | InTimer | InSessionEnded

text \<open>One turn of the loop on an event; an event that the phase does not wait for changes nothing.\<close>

definition run_turn :: "run_input \<Rightarrow> run_state \<Rightarrow> run_state" where
  "run_turn i s =
     (case (i, run_phase s) of
        (InCancel, _) \<Rightarrow> s\<lparr>run_cancelled := True\<rparr>
      | (InStep, RunTop) \<Rightarrow>
          s\<lparr>run_phase := (if run_cancelled s then RunReturned else RunDialing)\<rparr>
      | (InDialFailed, RunDialing) \<Rightarrow>
          s\<lparr>run_phase := RunWait, run_log := EvDisconnect # run_log s\<rparr>
      | (InConnectFailed, RunDialing) \<Rightarrow>
          s\<lparr>run_phase := RunWait, run_log := EvDisconnect # EvClose # run_log s\<rparr>
      | (InStep, RunWait) \<Rightarrow> (if run_cancelled s then s\<lparr>run_phase := RunReturned\<rparr> else s)
      | (InTimer, RunWait) \<Rightarrow>
          s\<lparr>run_phase := RunTop, run_backoff := next_backoff (run_backoff s)\<rparr>
      | (InConnected, RunDialing) \<Rightarrow>
          s\<lparr>run_phase := RunConnected, run_backoff := second,
            run_log := EvMultimedia # EvConnect # EvDispatcher # EvPrepare # run_log s\<rparr>
      | (InSessionEnded, RunConnected) \<Rightarrow>
          (if run_cancelled s
           then s\<lparr>run_phase := RunReturned, run_log := EvClose # run_log s\<rparr>
           else s\<lparr>run_phase := RunTop, run_log := EvDisconnect # EvClose # run_log s\<rparr>)
      | _ \<Rightarrow> s)"

text \<open>Is the latest session published and not yet reported as gone?\<close>

fun published :: "run_event list \<Rightarrow> bool" where
  "published [] = False"
| "published (EvConnect # es) = True"
| "published (EvDisconnect # es) = False"
| "published (_ # es) = published es"

definition run_inv :: "run_state \<Rightarrow> bool" where
  "run_inv s \<longleftrightarrow> second \<le> run_backoff s \<and> run_backoff s \<le> 30 * second \<and>
     (run_phase s = RunConnected \<longrightarrow> published (run_log s)) \<and>
     (run_phase s \<in> {RunTop, RunDialing, RunWait} \<longrightarrow> \<not> published (run_log s)) \<and>
     (run_phase s = RunReturned \<longrightarrow> run_cancelled s)"

lemma run_turn_inv: "run_inv s \<Longrightarrow> run_inv (run_turn i s)"
  by (cases i; cases "run_phase s")
    (auto simp: run_inv_def run_turn_def next_backoff_def second_def)

lemma run_start_inv: "run_inv run_start"
  by (simp add: run_start_def run_inv_def second_def)

interpretation running: step_system "\<lambda>s. s = run_start" "\<lambda>s t. \<exists>i. t = run_turn i s" run_inv
  by unfold_locales (use run_start_inv run_turn_inv in blast)+

subsection \<open>Heartbeat\<close>

text \<open>What \<open>RunHeartbeat\<close> waits for: the end of the context or of the reader, or a tick, on
  which a silent ping is sent and answered (or fails).\<close>

datatype heartbeat_event = HbDone | HbReader wire_error | HbTick bytes "wire_error + message"

fun run_heartbeat :: "heartbeat_event list \<Rightarrow> wire_error option" where
  "run_heartbeat [] = None"
| "run_heartbeat (HbDone # es) = Some ErrContext"
| "run_heartbeat (HbReader e # es) = Some e"
| "run_heartbeat (HbTick tx r # es) =
     (case bind_r r (\<lambda>m. validate_pong m tx) of
        Inl e \<Rightarrow> Some e
      | Inr _ \<Rightarrow> run_heartbeat es)"

lemma run_heartbeat_alive:
  "run_heartbeat es = None \<longleftrightarrow>
   (\<forall>e \<in> set es. \<exists>tx m. e = HbTick tx (Inr m) \<and> mtype m = MessageTypePingAck \<and> transaction_id m = tx)"
  by (induction es rule: run_heartbeat.induct)
    (auto simp: validate_pong_def split: sum.splits if_splits)

subsection \<open>A handshake\<close>

text \<open>A paired phone and a host for the witnesses.\<close>

definition host_identity :: identity_file where
  "host_identity = \<lparr>device_name = ''pc'', id_private = replicate 64 9, id_public = replicate 32 9\<rparr>"

definition sample_session_env :: session_env where
  "sample_session_env = \<lparr>se_crypto = plain_crypto, se_aead = padding_aead, se_tx = Some [],
     se_nonce = Some [], se_hostname = None\<rparr>"

definition sample_transcript :: bytes where
  "sample_transcript = session_transcript (replicate 16 0)
     (device_id_bytes plain_crypto (id_public host_identity))
     (device_id_bytes plain_crypto (pr_public_key sample_peer)) (id_public host_identity)
     (pr_public_key sample_peer) (replicate 32 0) [8]"

definition handshake_keys :: "bytes \<times> bytes" where
  "handshake_keys = (case session_keys plain_crypto (pr_credential sample_peer) sample_transcript of
     Inr k \<Rightarrow> k | _ \<Rightarrow> ([], []))"

definition handshake_start :: exchange where
  "handshake_start = \<lparr>inbox = [Inr (phone_challenge plain_crypto (pr_credential sample_peer)
        (replicate 16 0) sample_transcript (pr_public_key sample_peer) [8]),
      Inr (phone_ready plain_crypto (pr_credential sample_peer) (replicate 16 0) sample_transcript)],
     write_results = [], outbox = [], disk = [], link = new_conn, sealed_from = None\<rparr>"

lemma sample_session:
  "check_trust (se_crypto sample_session_env) host_identity sample_peer = Inr ()"
  "generate_transaction_id (se_tx sample_session_env) = Inr (replicate 16 0)"
  "generate_nonce (se_nonce sample_session_env) = Inr (replicate 32 0)"
  "session_keys plain_crypto (pr_credential sample_peer) sample_transcript =
     Inr (fst handshake_keys, snd handshake_keys)"
  "fst handshake_keys \<noteq> snd handshake_keys" "length (fst handshake_keys) = 32" "length (snd handshake_keys) = 32"
  by code_simp+

lemma padding_enable:
  "length a = 32 \<Longrightarrow> length b = 32 \<Longrightarrow> \<exists>c. enable_encryption padding_aead a b new_conn = Inr c"
  by (simp add: enable_encryption_def new_frame_cipher_def new_conn_def padding_aead_def)

lemma sample_connects:
  "\<exists>t. connect sample_session_env False host_identity sample_peer handshake_start =
     (Inr \<lparr>si_peer = sample_peer,
        si_local_id = device_id_bytes plain_crypto (id_public host_identity),
        si_local_public = id_public host_identity, si_tx = replicate 16 0\<rparr>, t) \<and>
     enable_encryption padding_aead (fst handshake_keys) (snd handshake_keys) new_conn = Inr (link t)"
proof -
  have e: "se_crypto sample_session_env = plain_crypto" "se_aead sample_session_env = padding_aead"
    by (simp_all add: sample_session_env_def)
  obtain c where c: "enable_encryption padding_aead (fst handshake_keys) (snd handshake_keys) new_conn = Inr c"
    using padding_enable sample_session(6,7) by blast
  show ?thesis
    using connect_with_paired_phone [of sample_session_env host_identity sample_peer "replicate 16 0"
        "replicate 32 0" sample_transcript "[8]" "fst handshake_keys" "snd handshake_keys" handshake_start c "[]"]
      sample_session(1-4) c
    by (auto simp: e sample_transcript_def handshake_start_def)
qed

subsection \<open>Properties\<close>



text \<open>Around reconnections a session is published exactly while it is connected: at every turn
  of the loop the last thing reported is \<open>onConnect\<close> when a session runs and not when the loop dials
  or waits, and the delay between attempts stays between one and thirty seconds.\<close>

theorem run_loop_invariant:
  assumes "reach (\<lambda>s. s = run_start) (\<lambda>s t. \<exists>i. t = run_turn i s) s"
  shows "second \<le> run_backoff s \<and> run_backoff s \<le> 30 * second \<and>
    (run_phase s = RunConnected \<longrightarrow> published (run_log s)) \<and>
    (run_phase s \<in> {RunTop, RunDialing, RunWait} \<longrightarrow> \<not> published (run_log s)) \<and>
    (run_phase s = RunReturned \<longrightarrow> run_cancelled s)"
  using running.reach_inv [OF assms] unfolding run_inv_def by blast

lemma connected_reached:
  "\<exists>s. reach (\<lambda>s. s = run_start) (\<lambda>s t. \<exists>i. t = run_turn i s) s \<and> run_phase s = RunConnected"
proof -
  let ?R = "reach (\<lambda>s. s = run_start) (\<lambda>s t. \<exists>i. t = run_turn i s)"
  have "?R run_start" by (rule reach_init) simp
  then have "?R (run_turn InStep run_start)" by (rule reach_step) blast
  then have "?R (run_turn InConnected (run_turn InStep run_start))" by (rule reach_step) blast
  moreover have "run_phase (run_turn InConnected (run_turn InStep run_start)) = RunConnected"
    by (simp add: run_turn_def run_start_def)
  ultimately show ?thesis by blast
qed

lemma run_loop_invariant_witness:
  "\<exists>s :: run_state. run_phase s = RunConnected \<and> published (run_log s)"
  using connected_reached run_loop_invariant by blast

text \<open>A session that ends because its context was cancelled is never reported as gone: the loop
  returns with the session still published, because \<open>RunWithCallbacks\<close> tests the context before it
  calls \<open>onDisconnect\<close>; without cancellation the same end is reported.\<close>

theorem cancelled_session_stays_published:
  assumes "reach (\<lambda>s. s = run_start) (\<lambda>s t. \<exists>i. t = run_turn i s) s" "run_phase s = RunConnected"
  shows "run_phase (run_turn InSessionEnded (run_turn InCancel s)) = RunReturned \<and>
    published (run_log (run_turn InSessionEnded (run_turn InCancel s))) \<and>
    (\<not> run_cancelled s \<longrightarrow> \<not> published (run_log (run_turn InSessionEnded s)))"
  using running.reach_inv [OF assms(1)] assms(2) by (simp add: run_inv_def run_turn_def)

lemma cancelled_session_stays_published_witness:
  "\<exists>s :: run_state. run_phase s = RunReturned \<and> published (run_log s)"
  using connected_reached cancelled_session_stays_published by blast

text \<open>The heartbeat keeps a session alive exactly as long as every silent ping is answered by an
  acknowledgement with its own transaction ID and neither the reader nor the context ends.\<close>

theorem heartbeat_alive_iff:
  "run_heartbeat es = None \<longleftrightarrow>
   (\<forall>e \<in> set es. \<exists>tx m. e = HbTick tx (Inr m) \<and> mtype m = MessageTypePingAck \<and> transaction_id m = tx)"
  by (rule run_heartbeat_alive)

lemma heartbeat_alive_iff_witness:
  "run_heartbeat [HbTick [1] (Inr (new_message MessageTypePingAck [1] []))] = None"
  using heartbeat_alive_iff [of "[HbTick [1] (Inr (new_message MessageTypePingAck [1] []))]"] by auto

end
