(* ===== verification/Pairing.thy ===== *)
theory Pairing
  imports Config_Store Exchange
begin

text \<open>
  The initiator of the pairing protocol: \<open>libquava/pairing/pairing.go\<close>.

  \<open>initiate\<close> is the code's sequence of messages, checks and derivations as a conversation
  (theory \<open>Exchange\<close>). What it draws at random, the user's answer to the verification code and
  the environment of the store are arguments (\<open>pair_env\<close>).
\<close>

datatype pairing_error =
    PairConfig config_error
  | PairCrypto crypto_error
  | PairWire wire_error
  | PairBadIdentity
  | PairWrongPeer
  | PairVersion "64 word"
  | PairCodeMismatch
  | PairConfirmFailed
  | PairUserRejected
  | PairIdMismatch
  | PairMacMismatch

record pair_env =
  pe_crypto :: crypto_lib
  pe_yaml :: yaml_lib
  pe_base :: "string option"
  pe_mkdir :: bool
  pe_faults :: save_faults
  pe_tmp :: string
  pe_hostname :: "string option"
  pe_new_identity :: "identity option"
  pe_tx :: "bytes option"
  pe_nonce :: "bytes option"
  pe_eph :: "bytes option"
  pe_confirm :: "32 word \<Rightarrow> string \<Rightarrow> pairing_error + bool"
  pe_now :: int

record initiator_options =
  storage_dir :: string
  opt_device_name :: string
  remote_device_name :: string
  expected_peer_id :: string
  capabilities :: "64 word list"

subsection \<open>Identity and trust store\<close>

definition read_files :: "files \<Rightarrow> string \<Rightarrow> read_outcome" where
  "read_files fs p = (case map_of fs p of None \<Rightarrow> ReadMissing | Some d \<Rightarrow> ReadOk d)"

definition open_disk :: "pair_env \<Rightarrow> string \<Rightarrow> (pairing_error, string \<times> config_file) exch" where
  "open_disk E storage s =
     (map_err PairConfig (open_store (pe_crypto E) (pe_yaml E) storage (pe_base E) (pe_mkdir E)
        (read_files (disk s))), s)"

definition save_disk :: "pair_env \<Rightarrow> string \<Rightarrow> config_file \<Rightarrow> (pairing_error, unit) exch" where
  "save_disk E dir f s =
     (case save_store (pe_yaml E) (pe_faults E) (pe_tmp E) (config_path dir) f (disk s) of
        (None, _, fs) \<Rightarrow> (Inr (), s\<lparr>disk := fs\<rparr>)
      | (Some e, _, fs) \<Rightarrow> (Inl (PairConfig e), s\<lparr>disk := fs\<rparr>))"

definition fallback_device_name :: "string option \<Rightarrow> string \<Rightarrow> string" where
  "fallback_device_name hostname name =
     (if trim_space name \<noteq> [] then trim_space name
      else case hostname of
        None \<Rightarrow> ''Quava''
      | Some h \<Rightarrow> if trim_space h = [] then ''Quava'' else h)"

definition load_or_create_identity ::
    "pair_env \<Rightarrow> string \<Rightarrow> string \<Rightarrow> (pairing_error, identity_file) exch" where
  "load_or_create_identity E storage name =
     ex_bind (open_disk E storage) (\<lambda>(dir, f).
       case get_identity (Some f) of
         Some i \<Rightarrow>
           ex_bind (ex_check (length (id_private i) \<noteq> ed_private_key_size \<or>
                              length (id_public i) \<noteq> ed_public_key_size) PairBadIdentity) (\<lambda>_.
           if trim_space (device_name i) = [] then
             (let i = i\<lparr>device_name := fallback_device_name (pe_hostname E) name\<rparr> in
              ex_bind (save_disk E dir (set_identity i f)) (\<lambda>_. ex_lift (Inr i)))
           else ex_lift (Inr i))
       | None \<Rightarrow>
           ex_bind (ex_lift (map_err PairCrypto (generate_identity_key_pair (pe_new_identity E)))) (\<lambda>k.
           (let i = \<lparr>device_name = fallback_device_name (pe_hostname E) name,
                     id_private = private_key k, id_public = public_key k\<rparr> in
            ex_bind (save_disk E dir (set_identity i f)) (\<lambda>_. ex_lift (Inr i)))))"

definition persist_trust :: "pair_env \<Rightarrow> string \<Rightarrow> pair_result \<Rightarrow> (pairing_error, unit) exch" where
  "persist_trust E storage r =
     ex_bind (open_disk E storage) (\<lambda>(dir, f).
     ex_bind (ex_lift (map_err PairConfig (upsert_device r f))) (\<lambda>f'.
       save_disk E dir f'))"

definition validate_message ::
    "message \<Rightarrow> 64 word \<Rightarrow> bytes \<Rightarrow> pairing_error + unit" where
  "validate_message m t tx =
     (if version m \<noteq> ProtocolVersion then Inl (PairVersion (version m))
      else if mtype m \<noteq> t then Inl (PairWire (ErrUnexpectedType (mtype m)))
      else if transaction_id m \<noteq> tx then Inl (PairWire ErrUnexpectedID)
      else Inr ())"

subsection \<open>The messages\<close>

definition pair_request :: "bytes \<Rightarrow> bytes \<Rightarrow> identity_file \<Rightarrow> bytes \<Rightarrow> 64 word list \<Rightarrow> message" where
  "pair_request tx iid me inonce caps =
     new_message MessageTypePairRequest tx
       [(0, ABytes iid), (1, ABytes (id_public me)), (2, ABytes inonce),
        (3, AUint64s [ProtocolVersion]), (4, AString (device_name me)), (5, AUint64s caps)]"

record challenge =
  ch_device_id :: bytes
  ch_public_key :: bytes
  ch_nonce :: bytes
  ch_version :: "64 word"
  ch_ephemeral :: bytes
  ch_code :: "64 word"

text \<open>Lines 69 to 115: the challenge, its checks in the code's order.\<close>

definition read_challenge ::
    "pair_env \<Rightarrow> initiator_options \<Rightarrow> bytes \<Rightarrow> bytes \<Rightarrow> bytes \<Rightarrow> message \<Rightarrow> pairing_error + challenge" where
  "read_challenge E opts tx ipk inonce m =
     bind_r (validate_message m MessageTypePairChallenge tx) (\<lambda>_.
     bind_r (map_err PairWire (payload_bytes (payload m) 0)) (\<lambda>rid.
       let expected = canon (expected_peer_id opts) in
       if expected \<noteq> [] \<and> expected \<noteq> hex_encode rid then Inl PairWrongPeer
       else
     bind_r (map_err PairWire (payload_bytes (payload m) 1)) (\<lambda>rpk.
     bind_r (map_err PairWire (payload_bytes (payload m) 2)) (\<lambda>rnonce.
     bind_r (map_err PairWire (payload_uint (payload m) 3)) (\<lambda>v.
       if v \<noteq> ProtocolVersion then Inl (PairVersion v)
       else
     bind_r (map_err PairWire (payload_bytes (payload m) 4)) (\<lambda>reph.
     bind_r (map_err PairWire (payload_uint (payload m) 5)) (\<lambda>code.
       if ucast (verification_code (pe_crypto E) ipk rpk inonce rnonce tx) \<noteq> code
       then Inl PairCodeMismatch
       else Inr \<lparr>ch_device_id = rid, ch_public_key = rpk, ch_nonce = rnonce, ch_version = v,
                 ch_ephemeral = reph, ch_code = code\<rparr>)))))))"

text \<open>Lines 164 to 193: the completion.\<close>

definition check_complete ::
    "crypto_lib \<Rightarrow> bytes \<Rightarrow> bytes \<Rightarrow> bytes \<Rightarrow> challenge \<Rightarrow> message \<Rightarrow> pairing_error + unit" where
  "check_complete C tx master transcript ch m =
     bind_r (validate_message m MessageTypePairComplete tx) (\<lambda>_.
     bind_r (map_err PairWire (payload_bytes (payload m) 0)) (\<lambda>rid.
     bind_r (map_err PairWire (payload_bytes (payload m) 1)) (\<lambda>mac.
     bind_r (map_err PairWire (payload_bytes (payload m) 2)) (\<lambda>sig.
       if rid \<noteq> ch_device_id ch then Inl PairIdMismatch
       else if mac \<noteq> confirmation_mac C master tx then Inl PairMacMismatch
       else map_err PairCrypto (verify_transcript C (ch_public_key ch) transcript sig)))))"

definition remote_name :: "initiator_options \<Rightarrow> challenge \<Rightarrow> string" where
  "remote_name opts ch =
     (if trim_space (remote_device_name opts) = [] then hex_encode (ch_device_id ch)
      else remote_device_name opts)"

definition challenge_transcript ::
    "bytes \<Rightarrow> bytes \<Rightarrow> bytes \<Rightarrow> bytes \<Rightarrow> bytes \<Rightarrow> challenge \<Rightarrow> bytes" where
  "challenge_transcript tx iid ipk inonce ieph ch =
     transcript_bytes (ch_version ch) tx iid (ch_device_id ch) ipk (ch_public_key ch) inonce
       (ch_nonce ch) ieph (ch_ephemeral ch)"

subsection \<open>Initiate\<close>

definition user_rejects :: "bytes \<Rightarrow> (pairing_error, unit) exch" where
  "user_rejects tx s =
     (Inl PairUserRejected,
      snd (ex_send PairWire (new_message MessageTypePairCancel tx [(0, AUint64 ReasonUserRejected)]) s))"

definition initiate ::
    "pair_env \<Rightarrow> initiator_options \<Rightarrow> (pairing_error, pair_result) exch" where
  "initiate E opts =
     (let C = pe_crypto E in
      ex_bind (load_or_create_identity E (storage_dir opts) (opt_device_name opts)) (\<lambda>me.
      ex_bind (ex_lift (map_err PairCrypto (generate_transaction_id (pe_tx E)))) (\<lambda>tx.
      ex_bind (ex_lift (map_err PairCrypto (generate_nonce (pe_nonce E)))) (\<lambda>inonce.
      ex_bind (ex_lift (map_err PairCrypto (generate_x25519_key_pair C (pe_eph E)))) (\<lambda>(epriv, epub).
      let iid = device_id_bytes C (id_public me) in
      ex_bind (ex_send PairWire (pair_request tx iid me inonce (capabilities opts))) (\<lambda>_.
      ex_bind (ex_recv PairWire) (\<lambda>m.
      ex_bind (ex_lift (read_challenge E opts tx (id_public me) inonce m)) (\<lambda>ch.
      ex_bind (ex_lift (pe_confirm E (ucast (ch_code ch)) (remote_name opts ch))) (\<lambda>ok.
      ex_bind (if ok then ex_lift (Inr ()) else user_rejects tx) (\<lambda>_.
      ex_bind (ex_lift (map_err PairCrypto (x25519_shared_secret C epriv (ch_ephemeral ch)))) (\<lambda>shared.
      ex_bind (ex_lift (map_err PairCrypto (master_secret C inonce (ch_nonce ch) shared))) (\<lambda>master.
      let transcript = challenge_transcript tx iid (id_public me) inonce epub ch;
          sig = sign_transcript C (id_private me) transcript in
      ex_bind (ex_send PairWire (new_message MessageTypePairAuthenticate tx
                 [(0, ABytes epub), (1, ABytes sig)])) (\<lambda>_.
      ex_bind (ex_send PairWire (new_message MessageTypePairConfirm tx [(1, ABool True)])) (\<lambda>_.
      ex_bind (ex_recv PairWire) (\<lambda>done_msg.
      ex_bind (ex_lift (check_complete C tx master transcript ch done_msg)) (\<lambda>_.
      ex_bind (ex_lift (map_err PairCrypto (peer_credential_key C tx master))) (\<lambda>cred.
      let r = \<lparr>pr_peer_id = hex_encode (ch_device_id ch), pr_public_key = ch_public_key ch,
               pr_peer_name = remote_name opts ch, pr_protocol_version = ch_version ch,
               pr_permissions = capabilities opts, pr_credential = cred, pr_paired_at = pe_now E,
               pr_code = ucast (ch_code ch), pr_selected_version = ch_version ch,
               pr_transaction_id = tx, pr_initiator_id = hex_encode iid\<rparr> in
      ex_bind (persist_trust E (storage_dir opts) r) (\<lambda>_. ex_lift (Inr r)))))))))))))))))))"

subsection \<open>What a completed pairing has checked\<close>

lemma user_rejects_Inr [exch_simps]: "user_rejects tx s = (Inr u, t) \<longleftrightarrow> False"
  by (simp add: user_rejects_def)

lemma confirm_stepE:
  "(if ok then ex_lift (Inr ()) else user_rejects tx) s = (Inr u, t) \<Longrightarrow>
   (ok = True \<Longrightarrow> s = t \<Longrightarrow> P) \<Longrightarrow> P"
  by (simp add: exch_simps split: if_splits)

text \<open>The values a run of \<open>initiate\<close> computes on the way to its result.\<close>

record pair_run =
  run_me :: identity_file
  run_tx :: bytes
  run_nonce :: bytes
  run_eph :: "bytes \<times> bytes"
  run_challenge_msg :: message
  run_challenge :: challenge
  run_shared :: bytes
  run_master :: bytes
  run_complete_msg :: message

definition run_device_id :: "crypto_lib \<Rightarrow> pair_run \<Rightarrow> bytes" where
  "run_device_id C w = device_id_bytes C (id_public (run_me w))"

definition run_transcript :: "crypto_lib \<Rightarrow> pair_run \<Rightarrow> bytes" where
  "run_transcript C w =
     challenge_transcript (run_tx w) (run_device_id C w) (id_public (run_me w)) (run_nonce w)
       (snd (run_eph w)) (run_challenge w)"

definition run_result :: "pair_env \<Rightarrow> initiator_options \<Rightarrow> pair_run \<Rightarrow> bytes \<Rightarrow> pair_result" where
  "run_result E opts w cred =
     \<lparr>pr_peer_id = hex_encode (ch_device_id (run_challenge w)),
      pr_public_key = ch_public_key (run_challenge w),
      pr_peer_name = remote_name opts (run_challenge w),
      pr_protocol_version = ch_version (run_challenge w), pr_permissions = capabilities opts,
      pr_credential = cred, pr_paired_at = pe_now E,
      pr_code = ucast (ch_code (run_challenge w)),
      pr_selected_version = ch_version (run_challenge w), pr_transaction_id = run_tx w,
      pr_initiator_id = hex_encode (run_device_id (pe_crypto E) w)\<rparr>"

definition run_checks :: "pair_env \<Rightarrow> initiator_options \<Rightarrow> pair_run \<Rightarrow> bool" where
  "run_checks E opts w \<longleftrightarrow>
     (let C = pe_crypto E in
      generate_transaction_id (pe_tx E) = Inr (run_tx w) \<and>
      generate_nonce (pe_nonce E) = Inr (run_nonce w) \<and>
      generate_x25519_key_pair C (pe_eph E) = Inr (run_eph w) \<and>
      read_challenge E opts (run_tx w) (id_public (run_me w)) (run_nonce w) (run_challenge_msg w) =
        Inr (run_challenge w) \<and>
      pe_confirm E (ucast (ch_code (run_challenge w))) (remote_name opts (run_challenge w)) = Inr True \<and>
      x25519_shared_secret C (fst (run_eph w)) (ch_ephemeral (run_challenge w)) = Inr (run_shared w) \<and>
      master_secret C (run_nonce w) (ch_nonce (run_challenge w)) (run_shared w) = Inr (run_master w) \<and>
      check_complete C (run_tx w) (run_master w) (run_transcript C w) (run_challenge w)
        (run_complete_msg w) = Inr ())"

lemma initiate_run:
  assumes "initiate E opts s = (Inr r, t)"
  obtains w cred u where "run_checks E opts w"
    "peer_credential_key (pe_crypto E) (run_tx w) (run_master w) = Inr cred"
    "r = run_result E opts w cred"
    "persist_trust E (storage_dir opts) r u = (Inr (), t)"
proof -
  let ?C = "pe_crypto E"
  obtain me :: identity_file and tx inonce epriv epub m ch shared master m2 cred u v1 v2 eph ok r' t' where
    "generate_transaction_id (pe_tx E) = Inr tx"
    "generate_nonce (pe_nonce E) = Inr inonce"
    "generate_x25519_key_pair ?C (pe_eph E) = Inr eph" "eph = (epriv, epub)"
    "read_challenge E opts tx (id_public me) inonce m = Inr ch"
    "pe_confirm E (ucast (ch_code ch)) (remote_name opts ch) = Inr ok" "ok = True"
    "x25519_shared_secret ?C epriv (ch_ephemeral ch) = Inr shared"
    "master_secret ?C inonce (ch_nonce ch) shared = Inr master"
    "check_complete ?C tx master (challenge_transcript tx (device_id_bytes ?C (id_public me))
       (id_public me) inonce epub ch) ch m2 = Inr v1"
    "peer_credential_key ?C tx master = Inr cred"
    "persist_trust E (storage_dir opts) r' u = (Inr v2, t')" "t' = t" "r' = r"
    "r' = \<lparr>pr_peer_id = hex_encode (ch_device_id ch), pr_public_key = ch_public_key ch,
          pr_peer_name = remote_name opts ch, pr_protocol_version = ch_version ch,
          pr_permissions = capabilities opts, pr_credential = cred, pr_paired_at = pe_now E,
          pr_code = ucast (ch_code ch), pr_selected_version = ch_version ch,
          pr_transaction_id = tx,
          pr_initiator_id = hex_encode (device_id_bytes ?C (id_public me))\<rparr>"
    using assms unfolding initiate_def Let_def
    by (elim ex_bindE ex_liftE case_prod_stepE confirm_stepE map_errE sum_eqE)
      (rule that, assumption+, rule refl)
  then show thesis
    by (intro that [of "\<lparr>run_me = me, run_tx = tx, run_nonce = inonce, run_eph = (epriv, epub),
        run_challenge_msg = m, run_challenge = ch, run_shared = shared, run_master = master,
        run_complete_msg = m2\<rparr>" cred u])
      (simp_all add: run_checks_def run_result_def run_transcript_def run_device_id_def)
qed

lemma read_challenge_Inr:
  assumes "read_challenge E opts tx ipk inonce m = Inr ch"
  shows "ch_version ch = ProtocolVersion"
    and "canon (expected_peer_id opts) \<noteq> [] \<Longrightarrow> hex_encode (ch_device_id ch) = canon (expected_peer_id opts)"
    and "ch_code ch = ucast (verification_code (pe_crypto E) ipk (ch_public_key ch) inonce (ch_nonce ch) tx)"
    and "transaction_id m = tx"
  using assms by (auto simp: read_challenge_def validate_message_def Let_def split: if_split_asm)

lemma check_complete_Inr:
  assumes "check_complete C tx master transcript ch m = Inr ()"
  shows "length (ch_public_key ch) = 32"
    and "payload_bytes (payload m) 1 = Inr (confirmation_mac C master tx)"
    and "\<exists>sig. payload_bytes (payload m) 2 = Inr sig \<and>
      ed_verify C (ch_public_key ch) (sha256 C transcript) sig"
  using assms
  by (auto simp: check_complete_def verify_transcript_def transcript_digest_def
      ed_public_key_size_def split: if_split_asm)

lemma ucast_code [simp]: "ucast (ucast (c :: 32 word) :: 64 word) = c"
  by (rule bit_word_eqI) (auto simp: bit_simps)

subsection \<open>The store after pairing\<close>

lemma open_store_dir:
  "open_store C Y storage base ok rd = Inr (dir, f) \<Longrightarrow> resolve_dir storage base = Inr dir"
  by (cases "resolve_dir storage base")
    (auto simp: open_store_def split: read_outcome.split_asm option.split_asm if_split_asm)

text \<open>The temporary file of \<open>Save\<close> (\<open>.config.yaml-*\<close>) is not the configuration file.\<close>

definition fresh_temp :: "pair_env \<Rightarrow> bool" where
  "fresh_temp E \<longleftrightarrow> \<not> has_suffix (pe_tmp E) ''/config.yaml''"

lemma fresh_temp_path: "fresh_temp E \<Longrightarrow> pe_tmp E \<noteq> config_path dir"
  by (auto simp: fresh_temp_def config_path_def has_suffix_conv)

lemma persist_trust_disk:
  assumes tmp: "fresh_temp E" and "persist_trust E storage r s = (Inr (), t)"
  obtains dir f g where "open_disk E storage s = (Inr (dir, f), s)"
    "upsert_device r f = Inr g" "resolve_dir storage (pe_base E) = Inr dir"
    "map_of (disk t) (config_path dir) = yaml_marshal (pe_yaml E) (g\<lparr>cf_version := current_version\<rparr>)"
    "yaml_marshal (pe_yaml E) (g\<lparr>cf_version := current_version\<rparr>) \<noteq> None"
    "validate_config (pe_crypto E) f = Inr ()"
proof -
  obtain dir f g where o: "open_disk E storage s = (Inr (dir, f), s)"
      and g: "upsert_device r f = Inr g" and sv: "save_disk E dir g s = (Inr (), t)"
    using assms(2) by (auto simp: persist_trust_def exch_simps open_disk_def split: prod.splits)
  have st: "open_store (pe_crypto E) (pe_yaml E) storage (pe_base E) (pe_mkdir E)
      (read_files (disk s)) = Inr (dir, f)"
    using o by (simp add: open_disk_def)
  have dir: "resolve_dir storage (pe_base E) = Inr dir" by (rule open_store_dir [OF st])
  have "map_of (disk t) (config_path dir) = yaml_marshal (pe_yaml E) (g\<lparr>cf_version := current_version\<rparr>)
      \<and> yaml_marshal (pe_yaml E) (g\<lparr>cf_version := current_version\<rparr>) \<noteq> None"
    using sv fresh_temp_path [OF tmp, of dir]
    by (auto simp: save_disk_def save_store_def save_cleanup_def Let_def
        split: option.split_asm if_split_asm prod.split_asm)
  with o g dir st that show thesis using open_store_valid by blast
qed

text \<open>After pairing the store can be opened again exactly if the peer's record is valid.\<close>

lemma reopen_after_pairing:
  assumes yaml: "yaml_roundtrip (pe_yaml E)" and p: "persist_trust E storage r s = (Inr (), t)"
    and mk: "pe_mkdir E" and tmp: "fresh_temp E"
  shows "(\<exists>x. open_disk E storage t = (Inr x, t)) \<longleftrightarrow>
    check_device (pe_crypto E) (canon (pr_peer_id r), r\<lparr>pr_peer_id := canon (pr_peer_id r)\<rparr>) = Inr ()"
proof -
  obtain dir f g where g: "upsert_device r f = Inr g"
      and dir: "resolve_dir storage (pe_base E) = Inr dir"
      and d: "map_of (disk t) (config_path dir) =
        yaml_marshal (pe_yaml E) (g\<lparr>cf_version := current_version\<rparr>)"
        "yaml_marshal (pe_yaml E) (g\<lparr>cf_version := current_version\<rparr>) \<noteq> None"
      and v: "validate_config (pe_crypto E) f = Inr ()"
    by (rule persist_trust_disk [OF tmp p])
  let ?i = "canon (pr_peer_id r)" and ?r = "r\<lparr>pr_peer_id := canon (pr_peer_id r)\<rparr>"
  let ?g = "g\<lparr>cf_version := current_version\<rparr>"
  have g': "g = f\<lparr>cf_devices := map_put ?i ?r (cf_devices f)\<rparr>"
    using g by (simp add: upsert_device_def Let_def split: if_split_asm)
  obtain data where data: "yaml_marshal (pe_yaml E) ?g = Some data" using d(2) by blast
  have "read_files (disk t) (config_path dir) = ReadOk data"
    using d(1) data by (simp add: read_files_def)
  then have "(\<exists>x. open_disk E storage t = (Inr x, t)) \<longleftrightarrow> validate_config (pe_crypto E) ?g = Inr ()"
    using dir mk yaml data
    by (auto simp: open_disk_def open_store_def yaml_roundtrip_def migrate_config_def
        current_version_def)
  also have "\<dots> \<longleftrightarrow> check_device (pe_crypto E) (?i, ?r) = Inr ()"
  proof
    assume "validate_config (pe_crypto E) ?g = Inr ()"
    then have "\<forall>e \<in> set (map_put ?i ?r (cf_devices f)). check_device (pe_crypto E) e = Inr ()"
      by (simp add: validate_config_conv config_maps_ok_def g')
    moreover have "(?i, ?r) \<in> set (map_put ?i ?r (cf_devices f))"
      by (simp add: map_of_SomeD)
    ultimately show "check_device (pe_crypto E) (?i, ?r) = Inr ()" by blast
  next
    assume c: "check_device (pe_crypto E) (?i, ?r) = Inr ()"
    have "\<forall>e \<in> set (map_put ?i ?r (cf_devices f)). check_device (pe_crypto E) e = Inr ()"
      using v c by (intro map_entries_put) (simp_all add: validate_config_conv config_maps_ok_def)
    then show "validate_config (pe_crypto E) ?g = Inr ()"
      using v by (auto simp: validate_config_conv config_maps_ok_def g')
  qed
  finally show ?thesis .
qed

subsection \<open>A responder that follows the protocol\<close>

text \<open>The other side of the protocol, as the initiator expects it, with the identifier it claims,
  and what the primitives have to satisfy for the two to agree. An honest responder claims the
  identifier of its key.\<close>

record responder =
  rs_claims :: bytes
  rs_private :: bytes
  rs_nonce :: bytes
  rs_ephemeral :: bytes

definition primitives_agree :: "crypto_lib \<Rightarrow> bool" where
  "primitives_agree C \<longleftrightarrow> (\<forall>k. length (ed_public C k) = 32) \<and>
     (\<forall>k d. ed_verify C (ed_public C k) d (ed_sign C k d)) \<and>
     (\<forall>k. x_private_ok C k \<and> x_public_ok C (x_public C k)) \<and>
     (\<forall>a b. x_ecdh C a (x_public C b) = x_ecdh C b (x_public C a) \<and> x_ecdh C a (x_public C b) \<noteq> None)"

definition rs_public :: "crypto_lib \<Rightarrow> responder \<Rightarrow> bytes" where
  "rs_public C R = ed_public C (rs_private R)"

definition honest :: "crypto_lib \<Rightarrow> responder \<Rightarrow> bool" where
  "honest C R \<longleftrightarrow> rs_claims R = device_id_bytes C (rs_public C R)"

definition rs_challenge :: "crypto_lib \<Rightarrow> responder \<Rightarrow> bytes \<Rightarrow> bytes \<Rightarrow> bytes \<Rightarrow> challenge" where
  "rs_challenge C R tx ipk inonce =
     \<lparr>ch_device_id = rs_claims R, ch_public_key = rs_public C R,
      ch_nonce = rs_nonce R, ch_version = ProtocolVersion,
      ch_ephemeral = x_public C (rs_ephemeral R),
      ch_code = ucast (verification_code C ipk (rs_public C R) inonce (rs_nonce R) tx)\<rparr>"

definition rs_challenge_msg :: "bytes \<Rightarrow> challenge \<Rightarrow> message" where
  "rs_challenge_msg tx ch =
     new_message MessageTypePairChallenge tx
       [(0, ABytes (ch_device_id ch)), (1, ABytes (ch_public_key ch)), (2, ABytes (ch_nonce ch)),
        (3, AUint64 (ch_version ch)), (4, ABytes (ch_ephemeral ch)), (5, AUint64 (ch_code ch))]"

definition rs_master :: "crypto_lib \<Rightarrow> responder \<Rightarrow> bytes \<Rightarrow> bytes \<Rightarrow> crypto_error + bytes" where
  "rs_master C R inonce ieph =
     bind_r (x25519_shared_secret C (rs_ephemeral R) ieph) (master_secret C inonce (rs_nonce R))"

definition rs_complete_msg :: "crypto_lib \<Rightarrow> responder \<Rightarrow> bytes \<Rightarrow> bytes \<Rightarrow> bytes \<Rightarrow> message" where
  "rs_complete_msg C R tx master transcript =
     new_message MessageTypePairComplete tx
       [(0, ABytes (rs_claims R)), (1, ABytes (confirmation_mac C master tx)),
        (2, ABytes (sign_transcript C (rs_private R) transcript))]"

lemma read_rs_challenge:
  assumes "canon (expected_peer_id opts) = [] \<or>
      canon (expected_peer_id opts) = hex_encode (rs_claims R)"
  shows "read_challenge E opts tx ipk inonce
      (rs_challenge_msg tx (rs_challenge (pe_crypto E) R tx ipk inonce)) =
    Inr (rs_challenge (pe_crypto E) R tx ipk inonce)"
  using assms
  by (auto simp: read_challenge_def validate_message_def rs_challenge_msg_def rs_challenge_def
      payload_bytes_def payload_uint_def Let_def)

lemma check_rs_complete:
  assumes "primitives_agree C"
  shows "check_complete C tx master transcript (rs_challenge C R tx ipk inonce)
      (rs_complete_msg C R tx master transcript) = Inr ()"
  using assms
  by (simp add: check_complete_def validate_message_def rs_complete_msg_def rs_challenge_def
      payload_bytes_def verify_transcript_def sign_transcript_def primitives_agree_def
      rs_public_def ed_public_key_size_def)

lemma shared_secret_agrees:
  assumes "primitives_agree C"
  shows "x25519_shared_secret C a (x_public C b) = x25519_shared_secret C b (x_public C a)"
  using assms by (simp add: x25519_shared_secret_def primitives_agree_def)

text \<open>The record the initiator stores for this responder.\<close>

definition rs_result ::
    "crypto_lib \<Rightarrow> initiator_options \<Rightarrow> int \<Rightarrow> bytes \<Rightarrow> challenge \<Rightarrow> bytes \<Rightarrow> bytes \<Rightarrow> pair_result" where
  "rs_result C opts now ipk ch tx cred =
     \<lparr>pr_peer_id = hex_encode (ch_device_id ch), pr_public_key = ch_public_key ch,
      pr_peer_name = remote_name opts ch, pr_protocol_version = ch_version ch,
      pr_permissions = capabilities opts, pr_credential = cred, pr_paired_at = now,
      pr_code = ucast (ch_code ch), pr_selected_version = ch_version ch, pr_transaction_id = tx,
      pr_initiator_id = hex_encode (device_id_bytes C ipk)\<rparr>"

lemma initiate_with_responder:
  assumes prim: "primitives_agree (pe_crypto E)"
    and me: "load_or_create_identity E (storage_dir opts) (opt_device_name opts) s = (Inr me, s1)"
    and tx: "generate_transaction_id (pe_tx E) = Inr tx"
    and nonce: "generate_nonce (pe_nonce E) = Inr inonce"
    and eph: "pe_eph E = Some epriv"
    and ch: "ch = rs_challenge (pe_crypto E) R tx (id_public me) inonce"
    and expected: "canon (expected_peer_id opts) = [] \<or>
      canon (expected_peer_id opts) = hex_encode (ch_device_id ch)"
    and confirmed: "pe_confirm E (ucast (ch_code ch)) (remote_name opts ch) = Inr True"
    and master: "rs_master (pe_crypto E) R inonce (x_public (pe_crypto E) epriv) = Inr master"
    and cred: "peer_credential_key (pe_crypto E) tx master = Inr cred"
    and inbox: "inbox s1 = Inr (rs_challenge_msg tx ch) # Inr (rs_complete_msg (pe_crypto E) R tx master
        (challenge_transcript tx (device_id_bytes (pe_crypto E) (id_public me)) (id_public me)
          inonce (x_public (pe_crypto E) epriv) ch)) # later"
    and writes: "write_results s1 = []"
    and r: "r = rs_result (pe_crypto E) opts (pe_now E) (id_public me) ch tx cred"
  shows "\<exists>u. initiate E opts s = ex_bind (persist_trust E (storage_dir opts) r) (\<lambda>_. ex_lift (Inr r)) u \<and>
    disk u = disk s1 \<and> length (outbox u) = length (outbox s1) + 3"
proof -
  let ?C = "pe_crypto E"
  have eph': "generate_x25519_key_pair ?C (pe_eph E) = Inr (epriv, x_public ?C epriv)"
    by (simp add: generate_x25519_key_pair_def eph)
  have rd: "read_challenge E opts tx (id_public me) inonce (rs_challenge_msg tx ch) = Inr ch"
    using read_rs_challenge [of opts R E tx "id_public me" inonce] expected
    by (simp add: ch rs_challenge_def)
  obtain shared where sh: "x25519_shared_secret ?C epriv (ch_ephemeral ch) = Inr shared"
      and ms: "master_secret ?C inonce (ch_nonce ch) shared = Inr master"
    using master shared_secret_agrees [OF prim, of epriv "rs_ephemeral R"]
    by (auto simp: rs_master_def ch rs_challenge_def)
  have done_ok: "check_complete ?C tx master tr ch (rs_complete_msg ?C R tx master tr) = Inr ()" for tr
    unfolding ch by (rule check_rs_complete [OF prim])
  let ?iid = "device_id_bytes ?C (id_public me)" and ?epub = "x_public ?C epriv"
  let ?sig = "sign_transcript ?C (id_private me)
      (challenge_transcript tx ?iid (id_public me) inonce ?epub ch)"
  let ?u = "s1\<lparr>outbox := outbox s1 @ [pair_request tx ?iid me inonce (capabilities opts),
      new_message MessageTypePairAuthenticate tx [(0, ABytes ?epub), (1, ABytes ?sig)],
      new_message MessageTypePairConfirm tx [(1, ABool True)]], inbox := later\<rparr>"
  have "initiate E opts s = ex_bind (persist_trust E (storage_dir opts) r) (\<lambda>_. ex_lift (Inr r)) ?u"
    unfolding initiate_def Let_def
    by (simp add: ex_bind_def me tx nonce eph' ex_lift_def ex_send_quiet writes ex_recv_def inbox
        rd confirmed sh ms done_ok cred r rs_result_def)
  then show ?thesis by (intro exI [of _ ?u]) simp
qed

subsection \<open>A run\<close>

text \<open>A stored identity, a peer and an environment in which everything succeeds.\<close>

definition sample_me :: identity_file where
  "sample_me = \<lparr>device_name = ''pc'', id_private = replicate 64 0, id_public = replicate 32 0\<rparr>"

definition my_config :: config_file where
  "my_config = empty_config\<lparr>cf_identity := Some sample_me\<rparr>"

definition sample_env :: "yaml_lib \<Rightarrow> pair_env" where
  "sample_env Y = \<lparr>pe_crypto = plain_crypto,
     pe_yaml = Y,
     pe_base = None, pe_mkdir = True,
     pe_faults = \<lparr>temp_ok = True, chmod_ok = True, write_ok = True, written = 0, sync_ok = True,
        close_ok = True, rename_ok = True, remove_ok = True\<rparr>,
     pe_tmp = ''t'', pe_hostname = None, pe_new_identity = None, pe_tx = Some [], pe_nonce = Some [],
     pe_eph = Some [3], pe_confirm = (\<lambda>_ _. Inr True), pe_now = 0\<rparr>"

definition sample_opts :: initiator_options where
  "sample_opts = \<lparr>storage_dir = ''/d'', opt_device_name = [], remote_device_name = [],
     expected_peer_id = [], capabilities = []\<rparr>"

definition sample_responder :: "bytes \<Rightarrow> responder" where
  "sample_responder i = \<lparr>rs_claims = i, rs_private = [5], rs_nonce = [6], rs_ephemeral = [7]\<rparr>"

definition sample_tx :: bytes where "sample_tx = replicate 16 0"
definition sample_nonce :: bytes where "sample_nonce = replicate 32 0"

definition sample_challenge :: "bytes \<Rightarrow> challenge" where
  "sample_challenge i = rs_challenge plain_crypto (sample_responder i) sample_tx (id_public sample_me) sample_nonce"

definition sample_master :: bytes where
  "sample_master = (case rs_master plain_crypto (sample_responder []) sample_nonce [3] of Inr m \<Rightarrow> m | _ \<Rightarrow> [])"

definition sample_exchange :: "bytes \<Rightarrow> exchange" where
  "sample_exchange i = \<lparr>inbox = [Inr (rs_challenge_msg sample_tx (sample_challenge i)),
      Inr (rs_complete_msg plain_crypto (sample_responder i) sample_tx sample_master
        (challenge_transcript sample_tx (device_id_bytes plain_crypto (id_public sample_me))
          (id_public sample_me) sample_nonce [3] (sample_challenge i)))],
     write_results = [], outbox = [], disk = [(''/d/config.yaml'', [1])], link = new_conn,
     sealed_from = None\<rparr>"

lemma sample_open:
  "open_store plain_crypto (two_yaml my_config c) ''/d'' None True
     (read_files [(''/d/config.yaml'', [1])]) = Inr (''/d'', my_config)"
proof -
  have r: "resolve_dir ''/d'' None = Inr ''/d''" by code_simp
  have v: "migrate_config my_config = Inr my_config" "validate_config plain_crypto my_config = Inr ()"
    by code_simp+
  show ?thesis
    by (simp add: open_store_def r read_files_def config_path_def two_yaml_def v)
qed

lemma sample_primitives: "primitives_agree plain_crypto"
  by (auto simp: primitives_agree_def plain_crypto_def pad32_def xor.commute
      intro!: nth_equalityI)

lemma sample_load:
  "load_or_create_identity (sample_env (two_yaml my_config c)) (storage_dir sample_opts) (opt_device_name sample_opts)
     (sample_exchange i) = (Inr sample_me, sample_exchange i)"
proof -
  have o: "open_disk (sample_env (two_yaml my_config c)) ''/d'' (sample_exchange i) = (Inr (''/d'', my_config), sample_exchange i)"
    using sample_open by (simp add: open_disk_def sample_exchange_def sample_env_def)
  have g: "get_identity (Some my_config) = Some sample_me" by code_simp
  have k: "length (id_private sample_me) = ed_private_key_size"
    "length (id_public sample_me) = ed_public_key_size" "trim_space (device_name sample_me) \<noteq> []"
    by code_simp+
  have d: "storage_dir sample_opts = ''/d''" by (simp add: sample_opts_def)
  show ?thesis
    unfolding load_or_create_identity_def
    by (simp add: ex_bind_def ex_check_def ex_lift_def d o g k)
qed

definition sample_cred :: bytes where
  "sample_cred = (case peer_credential_key plain_crypto sample_tx sample_master of Inr k \<Rightarrow> k | _ \<Rightarrow> [])"

definition sample_result :: "bytes \<Rightarrow> pair_result" where
  "sample_result i = rs_result plain_crypto sample_opts 0 (id_public sample_me) (sample_challenge i)
     sample_tx sample_cred"

definition result_config :: "bytes \<Rightarrow> config_file" where
  "result_config i = my_config\<lparr>cf_devices := [(canon (hex_encode i),
     (sample_result i)\<lparr>pr_peer_id := canon (hex_encode i)\<rparr>)]\<rparr>"

lemma sample_persist:
  assumes "disk u = disk (sample_exchange i)" "canon (hex_encode i) \<noteq> []"
  shows "\<exists>t. persist_trust (sample_env (two_yaml my_config (result_config i))) ''/d'' (sample_result i) u = (Inr (), t)"
proof -
  let ?E = "sample_env (two_yaml my_config (result_config i))"
  have o: "open_disk ?E ''/d'' u = (Inr (''/d'', my_config), u)"
    using sample_open assms(1) by (simp add: open_disk_def sample_exchange_def sample_env_def)
  have g: "upsert_device (sample_result i) my_config = Inr (result_config i)"
    using assms(2)
    by (simp add: upsert_device_def Let_def sample_result_def rs_result_def sample_challenge_def
        rs_challenge_def sample_responder_def result_config_def)
      (simp add: my_config_def empty_config_def)
  have v: "(result_config i)\<lparr>cf_version := current_version\<rparr> = result_config i"
    by (simp add: result_config_def my_config_def empty_config_def current_version_def)
  have m: "\<exists>d. yaml_marshal (two_yaml my_config (result_config i)) (result_config i) = Some d"
    by (simp add: two_yaml_def)
  have "\<exists>t. save_disk ?E ''/d'' (result_config i) u = (Inr (), t)"
    using m by (auto simp: save_disk_def save_store_def save_cleanup_def sample_env_def config_path_def
        Let_def v)
  then show ?thesis
    by (simp add: persist_trust_def ex_bind_def ex_lift_def o g)
qed

lemma sample_keys:
  "rs_master plain_crypto (sample_responder i) sample_nonce [3] = Inr sample_master"
  "peer_credential_key plain_crypto sample_tx sample_master = Inr sample_cred"
  "honest plain_crypto (sample_responder (device_id_bytes plain_crypto (rs_public plain_crypto (sample_responder []))))"
proof -
  have "\<exists>cred. peer_credential_key plain_crypto sample_tx sample_master = Inr cred"
    by (simp add: peer_credential_key_def hkdf_sha256_def plain_crypto_def)
  then show "peer_credential_key plain_crypto sample_tx sample_master = Inr sample_cred"
    by (auto simp: sample_cred_def)
  have "\<exists>m. rs_master plain_crypto (sample_responder i) sample_nonce [3] = Inr m"
    by (simp add: rs_master_def x25519_shared_secret_def master_secret_def hkdf_sha256_def
        plain_crypto_def)
  moreover have "rs_master plain_crypto (sample_responder i) sample_nonce [3] =
      rs_master plain_crypto (sample_responder []) sample_nonce [3]"
    by (simp add: rs_master_def sample_responder_def)
  ultimately show "rs_master plain_crypto (sample_responder i) sample_nonce [3] = Inr sample_master"
    by (auto simp: sample_master_def)
  show "honest plain_crypto (sample_responder (device_id_bytes plain_crypto (rs_public plain_crypto (sample_responder []))))"
    by (simp add: honest_def rs_public_def sample_responder_def)
qed

lemma sample_env_simps:
  "pe_crypto (sample_env (two_yaml my_config c)) = plain_crypto" "pe_now (sample_env (two_yaml my_config c)) = 0" "pe_eph (sample_env (two_yaml my_config c)) = Some [3]"
  "generate_transaction_id (pe_tx (sample_env (two_yaml my_config c))) = Inr sample_tx"
  "generate_nonce (pe_nonce (sample_env (two_yaml my_config c))) = Inr sample_nonce"
  "pe_confirm (sample_env (two_yaml my_config c)) code n = Inr True" "x_public plain_crypto k = k"
  "storage_dir sample_opts = ''/d''" "canon (expected_peer_id sample_opts) = []"
proof -
  show "canon (expected_peer_id sample_opts) = []" by code_simp
qed (simp_all add: sample_env_def sample_opts_def generate_transaction_id_def generate_nonce_def
    random_bytes_def sample_tx_def sample_nonce_def plain_crypto_def)

lemma sample_initiate:
  "\<exists>u. initiate (sample_env (two_yaml my_config c)) sample_opts (sample_exchange i) =
      ex_bind (persist_trust (sample_env (two_yaml my_config c)) ''/d'' (sample_result i))
        (\<lambda>_. ex_lift (Inr (sample_result i))) u \<and>
    disk u = disk (sample_exchange i)"
  using initiate_with_responder [of "sample_env (two_yaml my_config c)" sample_opts
      "sample_exchange i" sample_me "sample_exchange i" sample_tx sample_nonce "[3]"
      "sample_challenge i" "sample_responder i" sample_master sample_cred "[]" "sample_result i"]
    sample_primitives sample_load [of c i] sample_keys(1) [of i] sample_keys(2)
  by (auto simp: sample_env_simps sample_challenge_def sample_exchange_def sample_result_def)

text \<open>The initiator pairs with the sample responder whatever identifier it claims.\<close>

lemma sample_pairs:
  assumes "canon (hex_encode i) \<noteq> []"
  shows "\<exists>t. initiate (sample_env (two_yaml my_config (result_config i))) sample_opts (sample_exchange i) =
    (Inr (sample_result i), t)"
proof -
  let ?E = "sample_env (two_yaml my_config (result_config i))"
  obtain u where u: "initiate ?E sample_opts (sample_exchange i) =
      ex_bind (persist_trust ?E ''/d'' (sample_result i)) (\<lambda>_. ex_lift (Inr (sample_result i))) u"
      "disk u = disk (sample_exchange i)"
    using sample_initiate by blast
  show ?thesis using sample_persist [OF u(2) assms] u(1) by (auto simp: ex_bind_def ex_lift_def)
qed

subsection \<open>Properties\<close>

lemma storage_dir_sample: "storage_dir sample_opts = ''/d''"
  by (simp add: sample_opts_def)





text \<open>C35. After a successful pairing the configuration can be opened again exactly if the identifier
  the peer claimed is the one of its key: \<open>Initiate\<close> does not check this, stores the record all the
  same, and \<open>Open\<close> refuses the file from then on.\<close>

theorem pairing_then_reopen:
  assumes "initiate E opts s = (Inr r, t)" "yaml_roundtrip (pe_yaml E)" "pe_mkdir E" "fresh_temp E"
    and "pr_credential r \<noteq> []"
  shows "(\<exists>x. open_disk E (storage_dir opts) t = (Inr x, t)) \<longleftrightarrow>
    device_id_from_public_key (pe_crypto E) (pr_public_key r) = pr_peer_id r"
proof -
  obtain w cred u where w: "run_checks E opts w" and r: "r = run_result E opts w cred"
    and p: "persist_trust E (storage_dir opts) r u = (Inr (), t)"
    by (rule initiate_run [OF assms(1)])
  have cc: "check_complete (pe_crypto E) (run_tx w) (run_master w) (run_transcript (pe_crypto E) w)
      (run_challenge w) (run_complete_msg w) = Inr ()"
    using w unfolding run_checks_def Let_def by blast
  have len: "length (pr_public_key r) = 32"
    using check_complete_Inr(1) [OF cc] by (simp add: r run_result_def)
  have c: "canon (pr_peer_id r) = pr_peer_id r" by (simp add: r run_result_def)
  obtain dir f g where "upsert_device r f = Inr g"
    by (rule persist_trust_disk [OF assms(4) p])
  then have n: "pr_peer_id r \<noteq> []" by (simp add: upsert_device_def c Let_def split: if_split_asm)
  have "check_device (pe_crypto E) (pr_peer_id r, r) = Inr () \<longleftrightarrow>
      device_id_from_public_key (pe_crypto E) (pr_public_key r) = pr_peer_id r"
    using assms(5) len n by (simp add: check_device_def c ed_public_key_size_def)
  then show ?thesis using reopen_after_pairing [OF assms(2) p assms(3,4)] by (simp add: c)
qed

lemma pairing_then_reopen_witness:
  "\<exists>E r t. initiate E sample_opts (sample_exchange [1]) = (Inr r, t) \<and>
     \<not> (\<exists>x. open_disk E ''/d'' t = (Inr x, t))"
proof -
  let ?E = "sample_env (two_yaml my_config (result_config [1]))"
  have i: "canon (hex_encode [1]) \<noteq> []" by (simp only: canon_hex_encode) code_simp
  then obtain t where t: "initiate ?E sample_opts (sample_exchange [1]) = (Inr (sample_result [1]), t)"
    using sample_pairs by blast
  have e: "yaml_roundtrip (pe_yaml ?E)" "pe_mkdir ?E" "fresh_temp ?E"
    by (simp_all add: sample_env_def two_yaml_roundtrip) (simp add: fresh_temp_def sample_env_def, code_simp)
  have l: "length (device_id_from_public_key plain_crypto (pr_public_key (sample_result [1]))) \<noteq>
      length (pr_peer_id (sample_result [1]))"
    by (simp add: sample_result_def rs_result_def sample_challenge_def rs_challenge_def
        sample_responder_def device_id_from_public_key_def plain_crypto_def pad32_def)
  have k: "sample_cred \<noteq> []"
    by code_simp
  then have cr: "pr_credential (sample_result [1]) \<noteq> []"
    by (auto simp: sample_result_def rs_result_def)
  have "device_id_from_public_key (pe_crypto ?E) (pr_public_key (sample_result [1])) \<noteq>
      pr_peer_id (sample_result [1])" using l by (auto simp: sample_env_simps)
  then have "\<not> (\<exists>x. open_disk ?E (storage_dir sample_opts) t = (Inr x, t))"
    using pairing_then_reopen [OF t e cr] by blast
  then show ?thesis using t unfolding storage_dir_sample by blast
qed

end
