(* ===== verification/Daemon_State.thy ===== *)
theory Daemon_State
  imports Media_Session Clipboard_Sync Ssh_Service Emulator Session_Handshake Pairing Discovery_Collector
begin

text \<open>
  The daemon \<open>quavad\<close>: its state (\<open>quavad/main.go\<close>, \<open>quavad/models/daemon.go\<close>) and what it does with it
  (\<open>daemon_lifecycle.go\<close>, \<open>daemon_services.go\<close>, \<open>daemon_ipc.go\<close>, \<open>utils/misc.go\<close>).

  Every part of a function of the source that runs without releasing the lock \<open>mu\<close>, and every call it
  makes outside of the lock, is one \<open>action\<close>; \<open>act\<close> runs an action and gives the actions that the
  function goes on with. A function is thereby a list of actions, and the goroutines of the daemon can
  be interleaved between any two of them (theory \<open>Daemon\<close>). Outcomes of calls to the system (whether a
  file could be written, a port opened) are arguments of the actions.

  A session is a pointer: the number of an object in \<open>dm_objs\<close>, which a goroutine may still hold after
  the daemon has forgotten it. A cancel function is the token of the goroutine whose context it
  cancels. \<open>dm_inputs\<close>, \<open>dm_clips\<close> and \<open>dm_calls\<close> record what the handlers of a session returned to it,
  \<open>dm_replies\<close> what was written to the control socket.
\<close>

subsection \<open>State\<close>

record live_session =
  ls_peer :: string
  ls_addr :: "string option"
  ls_gone :: bool
  ls_exch :: exchange
  ls_status :: "device_status option"

record managed_session =
  ms_cancel :: nat
  ms_active :: "nat option"

record daemon_request =
  dr_command :: string
  dr_peer :: string
  dr_timeout :: int
  dr_confirm :: "bool option"
  dr_bus_name :: string
  dr_offset :: "64 word"
  dr_enabled :: bool
  dr_loop :: string
  dr_volume :: float64
  dr_position :: "64 word"
  dr_device :: string
  dr_filters :: "notification_filters option"

record device_settings =
  ds_notification_sync :: string
  ds_clipboard_sync :: bool
  ds_input_enabled :: bool
  ds_input_auto :: bool
  ds_auto_connect :: bool

datatype daemon_error =
    DmBadRequest | DmNeedsPeer | DmUnsupported string | DmNotPaired | DmNoIdentity | DmNotConnected
  | DmNotFound | DmConnectFirst | DmInputTaken | DmInputDisabled | DmNoActive | DmNoClipboard
  | DmClipboardType string | DmClipboardLimit | DmClipboardRead | DmClipboardWrite
  | DmFiltersRequired | DmDiscovery | DmClient | DmNoRemote | DmDial | DmIdentityMismatch
  | DmConfig config_error | DmRequest request_error | DmEmulator emulator_error
  | DmReset "emulator_error list" | DmMedia media_error | DmAudio audio_error | DmPairing pairing_error
  | DmClipboard clipboard_error

datatype response =
    RespOk
  | RespError daemon_error
  | RespCode "32 word" string
  | RespDevice pair_result
  | RespDevices "pair_result list" "string list" "(string, device_settings) gomap" "(string, device_status) gomap"
  | RespDiscovered "device list"
  | RespPlayers "media_player list"
  | RespPlayer media_player
  | RespAudio "audio_device list"
  | RespFilters notification_filters

record pair_outcome =
  po_client :: bool
  po_found :: "device option"
  po_dial :: bool
  po_env :: pair_env
  po_exch :: exchange
  po_reload_mkdir :: bool

text \<open>What the control socket, the sound and the players are asked, and what phones and host report.\<close>

datatype control =
    SetAutoConnect string bool save_faults
  | Disconnect string
  | SetInputEnabled string bool nat
  | SetInputAuto string bool save_faults
  | Unpair string save_faults nat
  | WithActive string request_op
  | ClipboardStart bool
  | ClipboardStop
  | ClipboardPush string "bytes option"
  | SetClipboardSync string bool save_faults
  | SetNotificationSync string string save_faults
  | FiltersGet
  | FiltersSet "notification_filters option" save_faults
  | ListDevices string
  | Discovered "device list option"
  | PairDevice string pair_outcome

datatype media_request =
    MediaList
  | MediaActive
  | MediaSetActive string
  | MediaControl media_command
  | MediaAuto
  | AudioList
  | AudioControl daemon_request

datatype daemon_event =
    CheckInput string bool "emulator_error + emulator" remote_input
  | CallMute bool
  | CheckClipboard clipboard_content bool int
  | ShowNotification string android_notification
  | HostChanged int bytes
  | PushClipboard clipboard_content
  | PushNotification notification_content
  | PushClear "32 word"
  | AllSessions request_op

datatype action =
    Control nat control
  | Media nat media_request
  | Event daemon_event
  | Reply nat response
  | StartSession string "nat option"
  | CancelSession nat
  | AllowAddress string "string option"
  | PublishSession string nat
  | StartSsh bool
  | UnpublishSession string bool nat
  | ForbidAddress string
  | StopSshIfInactive bool
  | StopSsh bool
  | ApplyInput string bool "emulator_error + emulator" remote_input
  | ResetInput nat
  | ResetInputFor nat nat
  | ForgetDevice string save_faults nat "nat option"
  | WriteClipboard clipboard_content bool
  | AskSession nat request_op
  | AskNotification nat notification_content
  | AskFor nat nat request_op
  | ClipboardReady nat nat "bytes option"
  | RefreshStore nat pair_result pair_outcome
  | AutoConnectPaired nat pair_result
  | AutoConnectAll
  | CloseConnections
  | CancelAll nat

record worker =
  wk_token :: nat
  wk_identity :: identity_file
  wk_peer :: pair_result
  wk_run :: run_state
  wk_session :: "nat option"
  wk_todo :: "action list"

record daemon =
  dm_stopped :: bool
  dm_store :: config_file
  dm_files :: files
  dm_sessions :: "(string, managed_session) gomap"
  dm_objs :: "(nat, live_session) gomap"
  dm_workers :: "worker list"
  dm_next :: nat
  dm_clipboard :: clipboard_service
  dm_bridge :: "notification_filters option"
  dm_emulator :: "emulator option"
  dm_enabled :: "(string, bool) gomap"
  dm_owner :: string
  dm_clipboard_ready :: bool
  dm_ssh :: "ssh_service option"
  dm_auto_muted :: bool
  dm_muted_before :: bool
  dm_media :: media_world
  dm_random :: "bytes option list"
  dm_conns :: "nat list"
  dm_replies :: "(nat \<times> response) list"
  dm_inputs :: "(string \<times> remote_input \<times> daemon_error option) list"
  dm_clips :: "(clipboard_content \<times> daemon_error option) list"
  dm_calls :: "(bool \<times> audio_error option) list"
  dm_written :: "bytes list"
  dm_shown :: "(string \<times> android_notification) list"

record daemon_env =
  de_crypto :: crypto_lib
  de_yaml :: yaml_lib
  de_base :: "string option"
  de_dir :: string
  de_tmp :: string
  de_bus :: bus
  de_tools :: audio_tools
  de_marshal :: marshaller
  de_hostname :: "string option"

subsection \<open>Small parts\<close>

definition request_timeout :: "int \<Rightarrow> int \<Rightarrow> int" where
  "request_timeout ms fallback =
     (if ms \<le> 0 then fallback else min ms (3 * 60 * 1000) * 1000000)"

definition local_device_name :: "string option \<Rightarrow> string" where
  "local_device_name hostname =
     (case hostname of None \<Rightarrow> ''Quava Linux''
      | Some n \<Rightarrow> if trim_space n = [] then ''Quava Linux'' else n)"

definition syncs_to_host :: "string \<Rightarrow> bool" where
  "syncs_to_host d \<longleftrightarrow> d = sync_both \<or> d = sync_to_host"

definition syncs_to_client :: "string \<Rightarrow> bool" where
  "syncs_to_client d \<longleftrightarrow> d = sync_both \<or> d = sync_to_client"

definition answer :: "nat option \<Rightarrow> response \<Rightarrow> action list" where
  "answer k r = (case k of None \<Rightarrow> [] | Some k \<Rightarrow> [Reply k r])"

definition result_of :: "daemon_error option \<Rightarrow> response" where
  "result_of e = (case e of None \<Rightarrow> RespOk | Some e \<Rightarrow> RespError e)"

text \<open>A setter of the store, followed by \<open>Save\<close>: what is set stays set when it cannot be saved.\<close>

definition change_store ::
    "daemon_env \<Rightarrow> save_faults \<Rightarrow> (config_file \<Rightarrow> config_error + config_file) \<Rightarrow> daemon \<Rightarrow>
     daemon_error option \<times> daemon" where
  "change_store E x g d =
     (case g (dm_store d) of
        Inl e \<Rightarrow> (Some (DmConfig e), d)
      | Inr f \<Rightarrow>
          (case save_store (de_yaml E) x (de_tmp E) (config_path (de_dir E)) f (dm_files d) of
             (e, f', fs) \<Rightarrow> (map_option DmConfig e, d\<lparr>dm_store := f', dm_files := fs\<rparr>)))"

definition active_of :: "string \<Rightarrow> daemon \<Rightarrow> nat option" where
  "active_of i d = (case map_of (dm_sessions d) i of None \<Rightarrow> None | Some m \<Rightarrow> ms_active m)"

definition set_active :: "string \<Rightarrow> nat option \<Rightarrow> daemon \<Rightarrow> daemon" where
  "set_active i a d =
     (case map_of (dm_sessions d) i of
        None \<Rightarrow> d
      | Some m \<Rightarrow> d\<lparr>dm_sessions := map_put i (m\<lparr>ms_active := a\<rparr>) (dm_sessions d)\<rparr>)"

definition targets :: "(string \<Rightarrow> bool) \<Rightarrow> daemon \<Rightarrow> nat list" where
  "targets P d = List.map_filter (\<lambda>(i, m). if P i then ms_active m else None) (dm_sessions d)"

definition own_input :: "string \<Rightarrow> daemon \<Rightarrow> daemon" where
  "own_input i d = d\<lparr>dm_owner := i, dm_enabled := map_put i True (dm_enabled d)\<rparr>"

definition drop_input :: "string \<Rightarrow> daemon \<Rightarrow> daemon" where
  "drop_input i d =
     (if dm_owner d = i then d\<lparr>dm_owner := [], dm_enabled := map_put i False (dm_enabled d)\<rparr> else d)"

definition may_input :: "string \<Rightarrow> daemon \<Rightarrow> bool" where
  "may_input i d \<longleftrightarrow> get_or False (dm_enabled d) i \<and> dm_owner d = i"

definition free_input :: "string \<Rightarrow> daemon \<Rightarrow> bool" where
  "free_input i d \<longleftrightarrow> dm_owner d = [] \<or> dm_owner d = i"

end
