(* ===== verification/Daemon_Ops.thy ===== *)
theory Daemon_Ops
  imports Daemon_State
begin

text \<open>
  The operations of the daemon on its state (\<open>quavad/daemon_lifecycle.go\<close>, \<open>daemon_services.go\<close>,
  \<open>daemon_ipc.go\<close>), each a function from the state to the state and to the actions the source goes on
  with, the dispatch of a request of the control socket, and \<open>act\<close>, which runs an action.
\<close>

subsection \<open>Sessions\<close>

definition start_session :: "string \<Rightarrow> nat option \<Rightarrow> daemon \<Rightarrow> daemon \<times> action list" where
  "start_session i k d =
     (case get_device (Some (dm_store d)) i of
        None \<Rightarrow> (d, answer k (RespError DmNotPaired))
      | Some peer \<Rightarrow>
          (case get_identity (Some (dm_store d)) of
             None \<Rightarrow> (d, answer k (RespError DmNoIdentity))
           | Some me \<Rightarrow>
               if map_has (dm_sessions d) (pr_peer_id peer) then (d, answer k RespOk)
               else let t = dm_next d in
                 (d\<lparr>dm_sessions := map_put (pr_peer_id peer) \<lparr>ms_cancel = t, ms_active = None\<rparr> (dm_sessions d),
                    dm_next := t + 1,
                    dm_workers := dm_workers d @ [\<lparr>wk_token = t, wk_identity = me, wk_peer = peer,
                      wk_run = run_start\<lparr>run_cancelled := dm_stopped d\<rparr>, wk_session = None, wk_todo = []\<rparr>]\<rparr>,
                  answer k RespOk)))"

definition start_auto_connect :: "daemon \<Rightarrow> daemon \<times> action list" where
  "start_auto_connect d =
     (d, map (\<lambda>i. StartSession i None)
           (filter (auto_connect (Some (dm_store d))) (map pr_peer_id (list_devices (Some (dm_store d))))))"

definition set_auto_connect_op ::
    "daemon_env \<Rightarrow> nat \<Rightarrow> string \<Rightarrow> bool \<Rightarrow> save_faults \<Rightarrow> daemon \<Rightarrow> daemon \<times> action list" where
  "set_auto_connect_op E k i on x d =
     (case change_store E x (set_auto_connect i on) d of
        (Some e, d') \<Rightarrow> (d', [Reply k (RespError e)])
      | (None, d') \<Rightarrow> (d', if on then [StartSession i (Some k)] else [Reply k RespOk]))"

definition disconnect :: "nat \<Rightarrow> string \<Rightarrow> daemon \<Rightarrow> daemon \<times> action list" where
  "disconnect k i d =
     (case map_of (dm_sessions d) i of
        None \<Rightarrow> (d, [Reply k (RespError DmNotConnected)])
      | Some m \<Rightarrow> (d, [CancelSession (ms_cancel m), Reply k RespOk]))"

definition cancel_session :: "nat \<Rightarrow> daemon \<Rightarrow> daemon" where
  "cancel_session t d =
     d\<lparr>dm_workers := map (\<lambda>w. if wk_token w = t then w\<lparr>wk_run := run_turn InCancel (wk_run w)\<rparr> else w) (dm_workers d)\<rparr>"

text \<open>The callbacks of \<open>runSession\<close>: after a handshake, and when a session or an attempt has failed.\<close>

definition on_connect_actions :: "string \<Rightarrow> nat \<Rightarrow> string option \<Rightarrow> bool \<Rightarrow> action list" where
  "on_connect_actions i n addr listen_ok = [AllowAddress i addr, PublishSession i n, StartSsh listen_ok]"

definition on_disconnect_actions :: "string \<Rightarrow> bool \<Rightarrow> nat \<Rightarrow> action list" where
  "on_disconnect_actions i stop_ok alive = [UnpublishSession i stop_ok alive]"

definition allow_address :: "string \<Rightarrow> string option \<Rightarrow> daemon \<Rightarrow> daemon" where
  "allow_address i addr d = d\<lparr>dm_ssh := map_option (set_allowed_address i addr) (dm_ssh d)\<rparr>"

definition forbid_address :: "string \<Rightarrow> daemon \<Rightarrow> daemon" where
  "forbid_address i d = d\<lparr>dm_ssh := map_option (remove_allowed_address i) (dm_ssh d)\<rparr>"

definition publish_session :: "string \<Rightarrow> nat \<Rightarrow> daemon \<Rightarrow> daemon" where
  "publish_session i n d =
     (let d1 = set_active i (Some n) d
      in if input_auto (Some (dm_store d1)) i \<and> free_input i d1 then own_input i d1 else d1)"

definition start_ssh_service :: "bool \<Rightarrow> daemon \<Rightarrow> daemon" where
  "start_ssh_service listen_ok d =
     d\<lparr>dm_ssh := map_option (\<lambda>s. snd (start_ssh (\<not> dm_stopped d) listen_ok s)) (dm_ssh d)\<rparr>"

definition unpublish_session :: "string \<Rightarrow> bool \<Rightarrow> nat \<Rightarrow> daemon \<Rightarrow> daemon \<times> action list" where
  "unpublish_session i stop_ok alive d =
     (drop_input i (set_active i None d),
      [ForbidAddress i, StopSshIfInactive stop_ok] @ (if dm_owner d = i then [ResetInput alive] else []))"

definition stop_ssh_if_inactive :: "bool \<Rightarrow> daemon \<Rightarrow> daemon \<times> action list" where
  "stop_ssh_if_inactive stop_ok d =
     (d, if list_ex (\<lambda>(i, m). ms_active m \<noteq> None) (dm_sessions d) \<or> dm_ssh d = None then []
         else [StopSsh stop_ok])"

definition stop_ssh_service :: "bool \<Rightarrow> daemon \<Rightarrow> daemon" where
  "stop_ssh_service stop_ok d = d\<lparr>dm_ssh := map_option (\<lambda>s. snd (stop_ssh stop_ok s)) (dm_ssh d)\<rparr>"

definition clear_session :: "string \<Rightarrow> nat \<Rightarrow> daemon \<Rightarrow> daemon \<times> action list" where
  "clear_session i alive d =
     (drop_input i (d\<lparr>dm_sessions := map_del i (dm_sessions d)\<rparr>),
      if dm_owner d = i then [ResetInput alive] else [])"

subsection \<open>Remote input\<close>

definition log_input :: "string \<Rightarrow> remote_input \<Rightarrow> daemon_error option \<Rightarrow> daemon \<Rightarrow> daemon" where
  "log_input i ev e d = d\<lparr>dm_inputs := dm_inputs d @ [(i, ev, e)]\<rparr>"

definition check_input ::
    "string \<Rightarrow> bool \<Rightarrow> emulator_error + emulator \<Rightarrow> remote_input \<Rightarrow> daemon \<Rightarrow> daemon \<times> action list" where
  "check_input i alive created ev d =
     (if may_input i d then (d, [ApplyInput i alive created ev])
      else (log_input i ev (Some DmInputDisabled) d, []))"

definition apply_remote_input ::
    "string \<Rightarrow> bool \<Rightarrow> emulator_error + emulator \<Rightarrow> remote_input \<Rightarrow> daemon \<Rightarrow> daemon" where
  "apply_remote_input i alive created ev d =
     (case (case dm_emulator d of Some em \<Rightarrow> Inr em | None \<Rightarrow> created) of
        Inl e \<Rightarrow> log_input i ev (Some (DmEmulator e)) d
      | Inr em \<Rightarrow>
          (case apply_input alive ev em of
             (r, em') \<Rightarrow> log_input i ev (map_option DmEmulator r) (d\<lparr>dm_emulator := Some em'\<rparr>)))"

definition reset_remote_input :: "nat \<Rightarrow> daemon \<Rightarrow> daemon_error option \<times> daemon" where
  "reset_remote_input alive d =
     (case dm_emulator d of
        None \<Rightarrow> (None, d)
      | Some em \<Rightarrow>
          (case reset_emulator alive em of
             (es, em') \<Rightarrow> (if es = [] then None else Some (DmReset es), d\<lparr>dm_emulator := Some em'\<rparr>)))"

definition set_input_enabled :: "nat \<Rightarrow> string \<Rightarrow> bool \<Rightarrow> nat \<Rightarrow> daemon \<Rightarrow> daemon \<times> action list" where
  "set_input_enabled k i on alive d =
     (if get_device (Some (dm_store d)) i = None then (d, [Reply k (RespError DmNotPaired)])
      else if on \<and> active_of i d = None then (d, [Reply k (RespError DmConnectFirst)])
      else if on \<and> \<not> free_input i d then (d, [Reply k (RespError DmInputTaken)])
      else if on then (own_input i d, [Reply k RespOk])
      else
        (d\<lparr>dm_enabled := map_put i False (dm_enabled d), dm_owner := (if dm_owner d = i then [] else dm_owner d)\<rparr>,
         if dm_owner d = i then [ResetInputFor k alive] else [Reply k RespOk]))"

definition set_input_auto_op ::
    "daemon_env \<Rightarrow> nat \<Rightarrow> string \<Rightarrow> bool \<Rightarrow> save_faults \<Rightarrow> daemon \<Rightarrow> daemon \<times> action list" where
  "set_input_auto_op E k i on x d =
     (case change_store E x (set_input_auto i on) d of
        (Some e, d') \<Rightarrow> (d', [Reply k (RespError e)])
      | (None, d') \<Rightarrow>
          (if on \<and> active_of i d' \<noteq> None \<and> free_input i d' then own_input i d' else d', [Reply k RespOk]))"

subsection \<open>Unpairing and shutdown\<close>

definition forget_device ::
    "daemon_env \<Rightarrow> string \<Rightarrow> save_faults \<Rightarrow> nat \<Rightarrow> nat option \<Rightarrow> daemon \<Rightarrow> daemon \<times> action list" where
  "forget_device E i x alive k d =
     (case change_store E x (remove_device i)
         (d\<lparr>dm_owner := (if dm_owner d = i then [] else dm_owner d), dm_enabled := map_del i (dm_enabled d)\<rparr>) of
        (e, d') \<Rightarrow>
          (d', (case map_of (dm_sessions d) i of None \<Rightarrow> [] | Some m \<Rightarrow> [CancelSession (ms_cancel m)]) @
               (if dm_owner d = i then [ResetInput alive] else []) @ answer k (result_of e)))"

definition unpair :: "nat \<Rightarrow> string \<Rightarrow> save_faults \<Rightarrow> nat \<Rightarrow> daemon \<Rightarrow> daemon \<times> action list" where
  "unpair k i x alive d =
     (d, if get_device (Some (dm_store d)) i = None then [Reply k (RespError DmNotPaired)]
         else (case active_of i d of None \<Rightarrow> [] | Some n \<Rightarrow> [AskSession n OpUnpair]) @ [ForgetDevice i x alive (Some k)])"

definition cancel_all :: "nat \<Rightarrow> daemon \<Rightarrow> daemon \<times> action list" where
  "cancel_all alive d =
     ((fold cancel_session (map (ms_cancel \<circ> snd) (dm_sessions d)) d)
        \<lparr>dm_owner := [], dm_enabled := map (\<lambda>(i, _). (i, False)) (dm_enabled d)\<rparr>,
      [ResetInput alive])"

definition shutdown_actions :: "bool \<Rightarrow> nat \<Rightarrow> action list" where
  "shutdown_actions stop_ok alive = [StopSsh stop_ok, CloseConnections, CancelAll alive]"

subsection \<open>Calls on sessions\<close>

definition session_request :: "request_op \<Rightarrow> bool \<Rightarrow> bytes option \<Rightarrow> (request_error, unit) exch" where
  "session_request op gone tx =
     (case op of
        OpPing \<Rightarrow> send_ping gone tx
      | OpHeartbeat \<Rightarrow> send_heartbeat gone tx
      | OpRing \<Rightarrow> send_ring gone tx
      | OpClipboard c \<Rightarrow> sync_clipboard gone tx c
      | OpClear nid \<Rightarrow> clear_notification gone tx nid
      | OpAction key a r \<Rightarrow> send_android_notification_action tx key a r
      | OpDismiss key \<Rightarrow> dismiss_android_notification tx key
      | OpUnpair \<Rightarrow> send_unpair gone tx)"

definition next_random :: "daemon \<Rightarrow> bytes option \<times> daemon" where
  "next_random d = (case dm_random d of [] \<Rightarrow> (Some [], d) | t # ts \<Rightarrow> (t, d\<lparr>dm_random := ts\<rparr>))"

definition call_session ::
    "nat \<Rightarrow> (bool \<Rightarrow> bytes option \<Rightarrow> (request_error, unit) exch) \<Rightarrow> daemon \<Rightarrow> request_error option \<times> daemon" where
  "call_session n f d =
     (case map_of (dm_objs d) n of
        None \<Rightarrow> (Some ReqClosed, d)
      | Some s \<Rightarrow>
          (case next_random d of (tx, d1) \<Rightarrow>
             (case f (ls_gone s) tx (ls_exch s) of
                (r, x) \<Rightarrow> (case r of Inl e \<Rightarrow> Some e | Inr _ \<Rightarrow> None,
                             d1\<lparr>dm_objs := map_put n (s\<lparr>ls_exch := x\<rparr>) (dm_objs d1)\<rparr>))))"

definition ask_session :: "nat \<Rightarrow> request_op \<Rightarrow> daemon \<Rightarrow> daemon" where
  "ask_session n op d = snd (call_session n (session_request op) d)"

definition ask_for :: "nat \<Rightarrow> nat \<Rightarrow> request_op \<Rightarrow> daemon \<Rightarrow> daemon \<times> action list" where
  "ask_for k n op d =
     (case call_session n (session_request op) d of
        (e, d') \<Rightarrow> (d', [Reply k (result_of (map_option DmRequest e))]))"

definition ask_notification :: "daemon_env \<Rightarrow> nat \<Rightarrow> notification_content \<Rightarrow> daemon \<Rightarrow> daemon" where
  "ask_notification E n c d = snd (call_session n (\<lambda>gone tx. sync_notifications (de_marshal E) gone tx c) d)"

definition with_active :: "nat \<Rightarrow> string \<Rightarrow> request_op \<Rightarrow> daemon \<Rightarrow> daemon \<times> action list" where
  "with_active k i op d =
     (d, case active_of i d of None \<Rightarrow> [Reply k (RespError DmNoActive)] | Some n \<Rightarrow> [AskFor k n op])"

definition wants_notifications :: "daemon \<Rightarrow> string \<Rightarrow> bool" where
  "wants_notifications d i \<longleftrightarrow> syncs_to_client (notification_sync (Some (dm_store d)) i)"

definition push_clipboard :: "clipboard_content \<Rightarrow> daemon \<Rightarrow> daemon \<times> action list" where
  "push_clipboard c d =
     (d, map (\<lambda>n. AskSession n (OpClipboard c)) (targets (clipboard_sync (Some (dm_store d))) d))"

definition push_notification :: "notification_content \<Rightarrow> daemon \<Rightarrow> daemon \<times> action list" where
  "push_notification c d = (d, map (\<lambda>n. AskNotification n c) (targets (wants_notifications d) d))"

definition push_clear :: "32 word \<Rightarrow> daemon \<Rightarrow> daemon \<times> action list" where
  "push_clear nid d = (d, map (\<lambda>n. AskSession n (OpClear nid)) (targets (wants_notifications d) d))"

definition with_active_sessions :: "request_op \<Rightarrow> daemon \<Rightarrow> daemon \<times> action list" where
  "with_active_sessions op d = (d, map (\<lambda>n. AskSession n op) (targets (\<lambda>_. True) d))"

subsection \<open>Clipboard, notifications, sound\<close>

definition log_clip :: "clipboard_content \<Rightarrow> daemon_error option \<Rightarrow> daemon \<Rightarrow> daemon" where
  "log_clip c e d = d\<lparr>dm_clips := dm_clips d @ [(c, e)]\<rparr>"

definition take_clipboard :: "clipboard_content \<Rightarrow> bool \<Rightarrow> int \<Rightarrow> daemon \<Rightarrow> daemon \<times> action list" where
  "take_clipboard c wr_ok now d =
     (if \<not> dm_clipboard_ready d then (log_clip c (Some DmNoClipboard) d, [])
      else if content_type c \<noteq> text_type then (log_clip c (Some (DmClipboardType (content_type c))) d, [])
      else if length (clip_content c) > MaxClipboardBytes then (log_clip c (Some DmClipboardLimit) d, [])
      else (d\<lparr>dm_clipboard := remember_content now c (dm_clipboard d)\<rparr>, [WriteClipboard c wr_ok]))"

definition write_clipboard :: "clipboard_content \<Rightarrow> bool \<Rightarrow> daemon \<Rightarrow> daemon" where
  "write_clipboard c wr_ok d =
     (if wr_ok then log_clip c None (d\<lparr>dm_written := dm_written d @ [clip_content c]\<rparr>)
      else log_clip c (Some DmClipboardWrite) d)"

definition host_changed :: "int \<Rightarrow> bytes \<Rightarrow> daemon \<Rightarrow> daemon \<times> action list" where
  "host_changed now bs d =
     (case clipboard_changed now bs (dm_clipboard d) of
        (r, c) \<Rightarrow> (d\<lparr>dm_clipboard := c\<rparr>, case r of Inr (Some x) \<Rightarrow> [Event (PushClipboard x)] | _ \<Rightarrow> []))"

definition clipboard_service_start :: "nat \<Rightarrow> bool \<Rightarrow> daemon \<Rightarrow> daemon \<times> action list" where
  "clipboard_service_start k init_ok d =
     (case start_clipboard_service init_ok (dm_clipboard d) of
        (r, c) \<Rightarrow>
          (case r of
             Some ClipInit \<Rightarrow> (d\<lparr>dm_clipboard := c\<rparr>, [Reply k (RespError (DmClipboard ClipInit))])
           | _ \<Rightarrow> (d\<lparr>dm_clipboard := c, dm_clipboard_ready := True\<rparr>, [Reply k RespOk])))"

definition clipboard_service_stop :: "nat \<Rightarrow> daemon \<Rightarrow> daemon \<times> action list" where
  "clipboard_service_stop k d =
     (d\<lparr>dm_clipboard := stop_clipboard_service (dm_clipboard d)\<rparr>, [Reply k RespOk])"

definition clipboard_push :: "nat \<Rightarrow> string \<Rightarrow> bytes option \<Rightarrow> daemon \<Rightarrow> daemon \<times> action list" where
  "clipboard_push k i read d =
     (d, case active_of i d of
           None \<Rightarrow> [Reply k (RespError DmNoActive)]
         | Some n \<Rightarrow> [ClipboardReady k n read])"

definition clipboard_push_ready :: "nat \<Rightarrow> nat \<Rightarrow> bytes option \<Rightarrow> daemon \<Rightarrow> daemon \<times> action list" where
  "clipboard_push_ready k n read d =
     (d, if \<not> dm_clipboard_ready d then [Reply k (RespError DmNoClipboard)]
         else (case read of
             None \<Rightarrow> [Reply k (RespError DmClipboardRead)]
           | Some bs \<Rightarrow>
               if length bs > MaxClipboardBytes then [Reply k (RespError DmClipboardLimit)]
               else [AskFor k n (OpClipboard \<lparr>content_type = text_type, clip_content = bs\<rparr>)]))"

definition set_clipboard_sync_op ::
    "daemon_env \<Rightarrow> nat \<Rightarrow> string \<Rightarrow> bool \<Rightarrow> save_faults \<Rightarrow> daemon \<Rightarrow> daemon \<times> action list" where
  "set_clipboard_sync_op E k i on x d =
     (case change_store E x (set_clipboard_sync i on) d of (e, d') \<Rightarrow> (d', [Reply k (result_of e)]))"

definition set_notification_sync_op ::
    "daemon_env \<Rightarrow> nat \<Rightarrow> string \<Rightarrow> string \<Rightarrow> save_faults \<Rightarrow> daemon \<Rightarrow> daemon \<times> action list" where
  "set_notification_sync_op E k i dir x d =
     (if get_device (Some (dm_store d)) i = None then (d, [Reply k (RespError DmNotPaired)])
      else case change_store E x (set_notification_sync i dir) d of (e, d') \<Rightarrow> (d', [Reply k (result_of e)]))"

definition show_notification :: "string \<Rightarrow> android_notification \<Rightarrow> daemon \<Rightarrow> daemon" where
  "show_notification i n d =
     (if dm_bridge d = None \<or> \<not> syncs_to_host (notification_sync (Some (dm_store d)) i) then d
      else d\<lparr>dm_shown := dm_shown d @ [(i, n)]\<rparr>)"

definition filters_get :: "nat \<Rightarrow> daemon \<Rightarrow> daemon \<times> action list" where
  "filters_get k d = (d, [Reply k (RespFilters (get_filters (Some (dm_store d))))])"

definition filters_set ::
    "daemon_env \<Rightarrow> nat \<Rightarrow> notification_filters option \<Rightarrow> save_faults \<Rightarrow> daemon \<Rightarrow> daemon \<times> action list" where
  "filters_set E k nf x d =
     (case nf of
        None \<Rightarrow> (d, [Reply k (RespError DmFiltersRequired)])
      | Some nf \<Rightarrow>
          (case change_store E x (set_notification_filters nf) d of
             (Some e, d') \<Rightarrow> (d', [Reply k (RespError e)])
           | (None, d') \<Rightarrow>
               (let f = get_filters (Some (dm_store d'))
                in (d'\<lparr>dm_bridge := map_option (\<lambda>_. f) (dm_bridge d')\<rparr>, [Reply k (RespFilters f)]))))"

definition ask_sound :: "'a audio_op \<Rightarrow> daemon \<Rightarrow> (audio_error + 'a) \<times> daemon" where
  "ask_sound f d =
     (case f (audio_log (dm_media d)) of (r, h) \<Rightarrow> (r, d\<lparr>dm_media := (dm_media d)\<lparr>audio_log := h\<rparr>\<rparr>))"

definition apply_call_mute :: "audio_tools \<Rightarrow> bool \<Rightarrow> daemon \<Rightarrow> audio_error option \<times> daemon" where
  "apply_call_mute A in_call d =
     (let mute = (\<lambda>b d. case ask_sound (set_output_device_muted A [] b) d of
                      (Inl e, d') \<Rightarrow> (Some e, d') | (Inr _, d') \<Rightarrow> (None, d'))
      in if in_call then
           (if dm_auto_muted d then (None, d)
            else case ask_sound (system_audio_state A) d of
              (Inl e, d1) \<Rightarrow> (Some e, d1)
            | (Inr st, d1) \<Rightarrow>
                (let d2 = d1\<lparr>dm_muted_before := sa_muted st, dm_auto_muted := True\<rparr>
                 in if sa_muted st then (None, d2) else mute True d2))
         else if \<not> dm_auto_muted d then (None, d)
         else
           (let d1 = d\<lparr>dm_auto_muted := False\<rparr>
            in if dm_muted_before d1 then (None, d1) else mute False d1))"

definition call_mute :: "audio_tools \<Rightarrow> bool \<Rightarrow> daemon \<Rightarrow> daemon" where
  "call_mute A in_call d =
     (case apply_call_mute A in_call d of (e, d') \<Rightarrow> d'\<lparr>dm_calls := dm_calls d' @ [(in_call, e)]\<rparr>)"

definition audio_list :: "audio_tools \<Rightarrow> nat \<Rightarrow> daemon \<Rightarrow> daemon \<times> action list" where
  "audio_list A k d =
     (case ask_sound (list_audio_output_devices A) d of
        (Inl e, d') \<Rightarrow> (d', [Reply k (RespError (DmAudio e))])
      | (Inr ds, d') \<Rightarrow> (d', [Reply k (RespAudio ds)]))"

definition audio_control :: "audio_tools \<Rightarrow> nat \<Rightarrow> daemon_request \<Rightarrow> daemon \<Rightarrow> daemon \<times> action list" where
  "audio_control A k r d =
     (let f = (if dr_command r = ''audio-volume'' then set_output_device_volume A (dr_device r) (dr_volume r)
               else if dr_command r = ''audio-mute'' then set_output_device_muted A (dr_device r) (dr_enabled r)
               else if dr_command r = ''audio-default'' then set_default_output_device A (dr_device r)
               else au_return (Inr ()))
      in case ask_sound f d of
           (Inl e, d') \<Rightarrow> (d', [Reply k (RespError (DmAudio e))])
         | (Inr _, d') \<Rightarrow> (d', [Reply k RespOk]))"

subsection \<open>Media players\<close>

definition player_response :: "media_error + media_player \<Rightarrow> response" where
  "player_response r = (case r of Inl e \<Rightarrow> RespError (DmMedia e) | Inr p \<Rightarrow> RespPlayer p)"

definition media_list :: "nat \<Rightarrow> daemon \<Rightarrow> daemon \<times> action list" where
  "media_list k d =
     (d, [Reply k (case list_media_players (dm_media d) of
                     Inl e \<Rightarrow> RespError (DmMedia e) | Inr ps \<Rightarrow> RespPlayers ps)])"

definition media_active :: "nat \<Rightarrow> daemon \<Rightarrow> daemon \<times> action list" where
  "media_active k d = (d, [Reply k (player_response (active_media_player (dm_media d)))])"

definition media_set_active :: "nat \<Rightarrow> string \<Rightarrow> daemon \<Rightarrow> daemon \<times> action list" where
  "media_set_active k n d =
     (case set_active_media_player n (dm_media d) of
        (Some e, w) \<Rightarrow> (d\<lparr>dm_media := w\<rparr>, [Reply k (RespError (DmMedia e))])
      | (None, w) \<Rightarrow>
          (d\<lparr>dm_media := w\<rparr>,
           [Reply k (player_response (bind_r (media_service w) (\<lambda>s. map_err MeMpris (get_player s (trim_space n)))))]))"

definition media_control :: "bus \<Rightarrow> nat \<Rightarrow> media_command \<Rightarrow> daemon \<Rightarrow> daemon \<times> action list" where
  "media_control b k c d =
     (case control_media b c (dm_media d) of
        (e, w) \<Rightarrow> (d\<lparr>dm_media := w\<rparr>, [Reply k (result_of (map_option DmMedia e))]))"

definition media_auto :: "nat \<Rightarrow> daemon \<Rightarrow> daemon \<times> action list" where
  "media_auto k d =
     (case use_automatic_media_player (dm_media d) of
        (e, w) \<Rightarrow> (d\<lparr>dm_media := w\<rparr>, [Reply k (result_of (map_option DmMedia e))]))"

end
