(* ===== verification/Daemon_Control.thy ===== *)
theory Daemon_Control
  imports Daemon_Ops
begin

text \<open>
  The control socket of the daemon (\<open>quavad/daemon_ipc.go\<close>): the list of devices, pairing, the
  dispatch of a request, and \<open>act\<close>, which runs one action of the daemon.
\<close>

subsection \<open>Devices\<close>

definition settings_of :: "daemon \<Rightarrow> string \<Rightarrow> device_settings" where
  "settings_of d i =
     \<lparr>ds_notification_sync = notification_sync (Some (dm_store d)) i,
      ds_clipboard_sync = clipboard_sync (Some (dm_store d)) i,
      ds_input_enabled = may_input i d,
      ds_input_auto = input_auto (Some (dm_store d)) i,
      ds_auto_connect = auto_connect (Some (dm_store d)) i\<rparr>"

definition connected_ids :: "daemon \<Rightarrow> string list" where
  "connected_ids d = map fst (filter (\<lambda>(i, m). ms_active m \<noteq> None) (dm_sessions d))"

definition status_reported :: "daemon \<Rightarrow> (string, device_status) gomap" where
  "status_reported d =
     List.map_filter (\<lambda>i. case active_of i d of
         None \<Rightarrow> None
       | Some n \<Rightarrow> (case map_of (dm_objs d) n of
             None \<Rightarrow> None
           | Some s \<Rightarrow> (case ls_status s of None \<Rightarrow> None | Some st \<Rightarrow> Some (i, st)))) (connected_ids d)"

definition devices_op :: "nat \<Rightarrow> string \<Rightarrow> daemon \<Rightarrow> daemon \<times> action list" where
  "devices_op k i d =
     (d, [Reply k
       (if i = [] then
          (let ds = list_devices (Some (dm_store d))
           in RespDevices ds (connected_ids d) (map (\<lambda>x. (pr_peer_id x, settings_of d (pr_peer_id x))) ds)
                (status_reported d))
        else case get_device (Some (dm_store d)) i of
          None \<Rightarrow> RespError DmNotFound | Some x \<Rightarrow> RespDevice x)])"

definition discover_op :: "nat \<Rightarrow> device list option \<Rightarrow> daemon \<Rightarrow> daemon \<times> action list" where
  "discover_op k found d =
     (d, [Reply k (case found of None \<Rightarrow> RespError DmDiscovery | Some ds \<Rightarrow> RespDiscovered ds)])"

subsection \<open>Pairing\<close>

text \<open>
  What the user answers: the code could be sent, and the request that came back. The answer of
  \<open>pe_confirm\<close> in the environment of the pairing is made of this.
\<close>

definition pair_confirmation :: "bool \<Rightarrow> daemon_request option \<Rightarrow> pairing_error + bool" where
  "pair_confirmation sent r =
     (if \<not> sent then Inl PairConfirmFailed
      else case r of
        None \<Rightarrow> Inl PairConfirmFailed
      | Some r \<Rightarrow>
          if dr_command r \<noteq> ''confirm_pairing'' then Inl PairConfirmFailed
          else (case dr_confirm r of None \<Rightarrow> Inl PairConfirmFailed | Some b \<Rightarrow> Inr b))"

definition pair_device :: "daemon_env \<Rightarrow> nat \<Rightarrow> string \<Rightarrow> pair_outcome \<Rightarrow> daemon \<Rightarrow> daemon \<times> action list" where
  "pair_device E k i p d =
     (if \<not> po_client p then (d, [Reply k (RespError DmClient)])
      else case po_found p of
        None \<Rightarrow> (d, [Reply k (RespError DmNoRemote)])
      | Some remote \<Rightarrow>
          if \<not> po_dial p then (d, [Reply k (RespError DmDial)])
          else (case initiate (po_env p)
                  \<lparr>storage_dir = [], opt_device_name = local_device_name (de_hostname E),
                   remote_device_name = dev_name remote, expected_peer_id = i, capabilities = []\<rparr>
                  ((po_exch p)\<lparr>disk := dm_files d\<rparr>) of
              (Inl e, s) \<Rightarrow> (d\<lparr>dm_files := disk s\<rparr>, [Reply k (RespError (DmPairing e))])
            | (Inr r, s) \<Rightarrow>
                (d\<lparr>dm_files := disk s\<rparr>,
                 if pr_peer_id r \<noteq> i then [Reply k (RespError DmIdentityMismatch)]
                 else [RefreshStore k r p])))"

definition refresh_store ::
    "daemon_env \<Rightarrow> nat \<Rightarrow> pair_result \<Rightarrow> pair_outcome \<Rightarrow> daemon \<Rightarrow> daemon \<times> action list" where
  "refresh_store E k r p d =
     (case open_store (de_crypto E) (de_yaml E) [] (de_base E) (po_reload_mkdir p) (read_files (dm_files d)) of
        Inl _ \<Rightarrow> d
      | Inr (_, f) \<Rightarrow> d\<lparr>dm_store := f\<rparr>,
      [AutoConnectPaired k r])"

definition auto_connect_paired :: "nat \<Rightarrow> pair_result \<Rightarrow> daemon \<Rightarrow> daemon \<times> action list" where
  "auto_connect_paired k r d =
     (d, (if auto_connect (Some (dm_store d)) (pr_peer_id r) then [StartSession (pr_peer_id r) None] else []) @
         [Reply k (RespDevice r)])"

subsection \<open>Dispatch\<close>

text \<open>What the system answers while a request is served.\<close>

record request_world =
  rw_faults :: save_faults
  rw_alive :: nat
  rw_init_ok :: bool
  rw_read :: "bytes option"
  rw_discovered :: "device list option"
  rw_pair :: pair_outcome

definition media_command_of :: "daemon_request \<Rightarrow> media_command" where
  "media_command_of r =
     \<lparr>mc_command = dr_command r, mc_bus_name = dr_bus_name r, mc_offset_ms = dr_offset r,
      mc_position_ms = dr_position r, mc_enabled = dr_enabled r, mc_loop_status = dr_loop r,
      mc_volume = dr_volume r\<rparr>"

definition media_controls :: "string list" where
  "media_controls =
     [''media-play-pause'', ''media-next'', ''media-previous'', ''media-play'', ''media-pause'', ''media-stop'',
      ''media-seek'', ''media-seek-to'', ''media-shuffle'', ''media-loop'', ''media-volume'']"

definition needs_peer :: "string \<Rightarrow> bool" where
  "needs_peer c \<longleftrightarrow> c \<noteq> ''devices'' \<and> c \<noteq> ''discover'' \<and> \<not> has_prefix c ''media-'' \<and>
     \<not> has_prefix c ''audio-'' \<and> \<not> has_prefix c ''notif-filters-''"

definition request_actions :: "nat \<Rightarrow> request_world \<Rightarrow> daemon_request \<Rightarrow> action list" where
  "request_actions k v r =
     (let c = dr_command r; i = canon (dr_peer r); x = rw_faults v; alive = rw_alive v in
      if needs_peer c \<and> i = [] then [Reply k (RespError DmNeedsPeer)]
      else if c = ''devices'' then [Control k (ListDevices i)]
      else if c = ''discover'' then [Control k (Discovered (rw_discovered v))]
      else if c = ''media-list'' then [Media k MediaList]
      else if c = ''media-active'' then [Media k MediaActive]
      else if c = ''media-set-active'' then [Media k (MediaSetActive (dr_bus_name r))]
      else if c \<in> set media_controls then [Media k (MediaControl (media_command_of r))]
      else if c = ''media-auto'' then [Media k MediaAuto]
      else if c = ''audio-list'' then [Media k AudioList]
      else if c \<in> {''audio-volume'', ''audio-mute'', ''audio-default''} then [Media k (AudioControl r)]
      else if c = ''notif-filters-get'' then [Control k FiltersGet]
      else if c = ''notif-filters-set'' then [Control k (FiltersSet (dr_filters r) x)]
      else if c = ''pair'' then [Control k (PairDevice i (rw_pair v))]
      else if c = ''connect'' then [StartSession i (Some k)]
      else if c = ''disconnect'' then [Control k (Disconnect i)]
      else if c = ''unpair'' then [Control k (Unpair i x alive)]
      else if c = ''autoconnect-on'' then [Control k (SetAutoConnect i True x)]
      else if c = ''autoconnect-off'' then [Control k (SetAutoConnect i False x)]
      else if c = ''ping'' then [Control k (WithActive i OpPing)]
      else if c = ''ring'' then [Control k (WithActive i OpRing)]
      else if c = ''clipboard-push'' then [Control k (ClipboardPush i (rw_read v))]
      else if c = ''clipboard-service-start'' then [Control k (ClipboardStart (rw_init_ok v))]
      else if c = ''clipboard-service-stop'' then [Control k ClipboardStop]
      else if c = ''clipboard-sync-on'' then [Control k (SetClipboardSync i True x)]
      else if c = ''clipboard-sync-off'' then [Control k (SetClipboardSync i False x)]
      else if c = ''input-enable'' then [Control k (SetInputEnabled i True alive)]
      else if c = ''input-disable'' then [Control k (SetInputEnabled i False alive)]
      else if c = ''input-auto-on'' then [Control k (SetInputAuto i True x)]
      else if c = ''input-auto-off'' then [Control k (SetInputAuto i False x)]
      else if c = ''notif-sync-both'' then [Control k (SetNotificationSync i sync_both x)]
      else if c = ''notif-sync-stop'' then [Control k (SetNotificationSync i sync_none x)]
      else if c = ''notif-sync-toclient'' then [Control k (SetNotificationSync i sync_to_client x)]
      else if c = ''notif-sync-tohost'' then [Control k (SetNotificationSync i sync_to_host x)]
      else [Reply k (RespError (DmUnsupported c))])"

definition handle_request :: "nat \<Rightarrow> request_world \<Rightarrow> daemon_request option \<Rightarrow> action list" where
  "handle_request k v r =
     (case r of None \<Rightarrow> [Reply k (RespError DmBadRequest)] | Some r \<Rightarrow> request_actions k v r)"

definition open_connection :: "nat \<Rightarrow> daemon \<Rightarrow> daemon" where
  "open_connection k d = d\<lparr>dm_conns := k # dm_conns d\<rparr>"

definition send_response :: "nat \<Rightarrow> response \<Rightarrow> daemon \<Rightarrow> daemon" where
  "send_response k r d = d\<lparr>dm_replies := dm_replies d @ [(k, r)], dm_conns := removeAll k (dm_conns d)\<rparr>"

definition close_connections :: "daemon \<Rightarrow> daemon" where
  "close_connections d = d\<lparr>dm_conns := []\<rparr>"

subsection \<open>Running an action\<close>

fun run_control :: "daemon_env \<Rightarrow> nat \<Rightarrow> control \<Rightarrow> daemon \<Rightarrow> daemon \<times> action list" where
  "run_control E k (SetAutoConnect i on x) d = set_auto_connect_op E k i on x d"
| "run_control E k (Disconnect i) d = disconnect k i d"
| "run_control E k (SetInputEnabled i on alive) d = set_input_enabled k i on alive d"
| "run_control E k (SetInputAuto i on x) d = set_input_auto_op E k i on x d"
| "run_control E k (Unpair i x alive) d = unpair k i x alive d"
| "run_control E k (WithActive i op) d = with_active k i op d"
| "run_control E k (ClipboardStart ok) d = clipboard_service_start k ok d"
| "run_control E k ClipboardStop d = clipboard_service_stop k d"
| "run_control E k (ClipboardPush i r) d = clipboard_push k i r d"
| "run_control E k (SetClipboardSync i on x) d = set_clipboard_sync_op E k i on x d"
| "run_control E k (SetNotificationSync i dir x) d = set_notification_sync_op E k i dir x d"
| "run_control E k FiltersGet d = filters_get k d"
| "run_control E k (FiltersSet nf x) d = filters_set E k nf x d"
| "run_control E k (ListDevices i) d = devices_op k i d"
| "run_control E k (Discovered ds) d = discover_op k ds d"
| "run_control E k (PairDevice i p) d = pair_device E k i p d"

fun run_media :: "daemon_env \<Rightarrow> nat \<Rightarrow> media_request \<Rightarrow> daemon \<Rightarrow> daemon \<times> action list" where
  "run_media E k MediaList d = media_list k d"
| "run_media E k MediaActive d = media_active k d"
| "run_media E k (MediaSetActive n) d = media_set_active k n d"
| "run_media E k (MediaControl c) d = media_control (de_bus E) k c d"
| "run_media E k MediaAuto d = media_auto k d"
| "run_media E k AudioList d = audio_list (de_tools E) k d"
| "run_media E k (AudioControl r) d = audio_control (de_tools E) k r d"

fun run_event :: "daemon_env \<Rightarrow> daemon_event \<Rightarrow> daemon \<Rightarrow> daemon \<times> action list" where
  "run_event E (CheckInput i alive created ev) d = check_input i alive created ev d"
| "run_event E (CallMute b) d = (call_mute (de_tools E) b d, [])"
| "run_event E (CheckClipboard c ok now) d = take_clipboard c ok now d"
| "run_event E (ShowNotification i n) d = (show_notification i n d, [])"
| "run_event E (HostChanged now bs) d = host_changed now bs d"
| "run_event E (PushClipboard c) d = push_clipboard c d"
| "run_event E (PushNotification c) d = push_notification c d"
| "run_event E (PushClear nid) d = push_clear nid d"
| "run_event E (AllSessions op) d = with_active_sessions op d"

fun act :: "daemon_env \<Rightarrow> action \<Rightarrow> daemon \<Rightarrow> daemon \<times> action list" where
  "act E (Control k c) d = run_control E k c d"
| "act E (Media k c) d = run_media E k c d"
| "act E (Event e) d = run_event E e d"
| "act E (Reply k r) d = (send_response k r d, [])"
| "act E (StartSession i k) d = start_session i k d"
| "act E (CancelSession t) d = (cancel_session t d, [])"
| "act E (AllowAddress i a) d = (allow_address i a d, [])"
| "act E (PublishSession i n) d = (publish_session i n d, [])"
| "act E (StartSsh ok) d = (start_ssh_service ok d, [])"
| "act E (UnpublishSession i ok alive) d = unpublish_session i ok alive d"
| "act E (ForbidAddress i) d = (forbid_address i d, [])"
| "act E (StopSshIfInactive ok) d = stop_ssh_if_inactive ok d"
| "act E (StopSsh ok) d = (stop_ssh_service ok d, [])"
| "act E (ApplyInput i alive created ev) d = (apply_remote_input i alive created ev d, [])"
| "act E (ResetInput alive) d = (snd (reset_remote_input alive d), [])"
| "act E (ResetInputFor k alive) d =
     (case reset_remote_input alive d of (e, d') \<Rightarrow> (d', [Reply k (result_of e)]))"
| "act E (ForgetDevice i x alive k) d = forget_device E i x alive k d"
| "act E (WriteClipboard c ok) d = (write_clipboard c ok d, [])"
| "act E (AskSession n op) d = (ask_session n op d, [])"
| "act E (AskNotification n c) d = (ask_notification E n c d, [])"
| "act E (AskFor k n op) d = ask_for k n op d"
| "act E (ClipboardReady k n r) d = clipboard_push_ready k n r d"
| "act E (RefreshStore k r p) d = refresh_store E k r p d"
| "act E (AutoConnectPaired k r) d = auto_connect_paired k r d"
| "act E AutoConnectAll d = start_auto_connect d"
| "act E CloseConnections d = (close_connections d, [])"
| "act E (CancelAll alive) d = cancel_all alive d"

end
