(* ===== verification/Daemon.thy ===== *)
theory Daemon
  imports Daemon_Control
begin

text \<open>
  The daemon as a system of goroutines: the goroutine of each session (\<open>runSession\<close> around
  \<open>RunWithCallbacks\<close>, the \<open>worker\<close>s), and the threads that serve a request of the control socket or a
  message of a phone. \<open>sched_step\<close> makes one choice of the scheduler or of the outside world; a run is a
  list of choices, so every interleaving of the actions of theory \<open>Daemon_Control\<close> is covered.
\<close>

subsection \<open>The system\<close>

record daemon_sys =
  sy_daemon :: daemon
  sy_pool :: "action list list"

datatype phone_event =
    PhoneInput bool "emulator_error + emulator" remote_input
  | PhoneClipboard clipboard_content bool int
  | PhoneNotification android_notification
  | PhoneCall bool
  | PhoneUnpair save_faults nat

datatype host_event =
    HostText int bytes
  | HostNotification notification_content
  | HostClosed "32 word"
  | HostAction string "64 word" string
  | HostDismiss string

record turn_outcome =
  to_addr :: "string option"
  to_exch :: exchange
  to_listen_ok :: bool
  to_stop_ok :: bool
  to_alive :: nat

datatype choice =
    FromSocket nat request_world "daemon_request option"
  | FromPhone nat phone_event
  | FromHost host_event
  | StatusReport nat device_status
  | Startup
  | Terminate
  | Shutdown bool nat
  | RunThread nat
  | RunWorker nat
  | WorkerTurn nat run_input turn_outcome
  | NoClient nat nat
  | EndWorker nat nat

definition phone_actions :: "string \<Rightarrow> phone_event \<Rightarrow> action list" where
  "phone_actions i e =
     (case e of
        PhoneInput alive created ev \<Rightarrow> [Event (CheckInput i alive created ev)]
      | PhoneClipboard c ok now \<Rightarrow> [Event (CheckClipboard c ok now)]
      | PhoneNotification n \<Rightarrow> [Event (ShowNotification i n)]
      | PhoneCall b \<Rightarrow> [Event (CallMute b)]
      | PhoneUnpair x alive \<Rightarrow> [ForgetDevice i x alive None])"

definition host_actions :: "host_event \<Rightarrow> action list" where
  "host_actions e =
     (case e of
        HostText now bs \<Rightarrow> [Event (HostChanged now bs)]
      | HostNotification c \<Rightarrow> [Event (PushNotification c)]
      | HostClosed nid \<Rightarrow> [Event (PushClear nid)]
      | HostAction key a r \<Rightarrow> [Event (AllSessions (OpAction key a r))]
      | HostDismiss key \<Rightarrow> [Event (AllSessions (OpDismiss key))])"

subsection \<open>The goroutine of a session\<close>

definition worker_id :: "worker \<Rightarrow> string" where
  "worker_id w = pr_peer_id (wk_peer w)"

definition update_worker :: "nat \<Rightarrow> (worker \<Rightarrow> worker) \<Rightarrow> daemon \<Rightarrow> daemon" where
  "update_worker t f d = d\<lparr>dm_workers := map (\<lambda>w. if wk_token w = t then f w else w) (dm_workers d)\<rparr>"

definition find_worker :: "nat \<Rightarrow> daemon \<Rightarrow> worker option" where
  "find_worker t d = find (\<lambda>w. wk_token w = t) (dm_workers d)"

text \<open>The callbacks the run loop has called since it had the log \<open>old\<close>, in order.\<close>

definition new_events :: "run_event list \<Rightarrow> run_event list \<Rightarrow> run_event list" where
  "new_events old evs = rev (take (length evs - length old) evs)"

definition callback_actions :: "string \<Rightarrow> nat \<Rightarrow> turn_outcome \<Rightarrow> run_event \<Rightarrow> action list" where
  "callback_actions i n out e =
     (case e of
        EvConnect \<Rightarrow> on_connect_actions i n (to_addr out) (to_listen_ok out)
      | EvDisconnect \<Rightarrow> on_disconnect_actions i (to_stop_ok out) (to_alive out)
      | _ \<Rightarrow> [])"

definition open_session :: "nat \<Rightarrow> string \<Rightarrow> turn_outcome \<Rightarrow> daemon \<Rightarrow> daemon" where
  "open_session n i out d =
     d\<lparr>dm_objs := map_put n \<lparr>ls_peer = i, ls_addr = to_addr out, ls_gone = False, ls_exch = to_exch out,
                              ls_status = None\<rparr> (dm_objs d),
       dm_next := n + 1\<rparr>"

definition close_session :: "nat option \<Rightarrow> daemon \<Rightarrow> daemon" where
  "close_session n d =
     (case n of
        None \<Rightarrow> d
      | Some n \<Rightarrow>
          (case map_of (dm_objs d) n of
             None \<Rightarrow> d
           | Some s \<Rightarrow> d\<lparr>dm_objs := map_put n (s\<lparr>ls_gone := True\<rparr>) (dm_objs d)\<rparr>))"

definition worker_turn :: "run_input \<Rightarrow> turn_outcome \<Rightarrow> worker \<Rightarrow> daemon \<Rightarrow> daemon" where
  "worker_turn i out w d =
     (let r = run_turn i (wk_run w);
          es = new_events (run_log (wk_run w)) (run_log r);
          n = dm_next d;
          connected = EvConnect \<in> set es;
          d1 = (if connected then open_session n (worker_id w) out d
                else if EvClose \<in> set es then close_session (wk_session w) d else d)
      in update_worker (wk_token w)
           (\<lambda>w. w\<lparr>wk_run := r, wk_session := (if connected then Some n else wk_session w),
                  wk_todo := concat (map (callback_actions (worker_id w) n out) es)\<rparr>) d1)"

text \<open>The end of \<open>runSession\<close>: \<open>clearSession\<close> and the return.\<close>

definition end_worker :: "worker \<Rightarrow> nat \<Rightarrow> daemon \<Rightarrow> daemon \<times> action list" where
  "end_worker w alive d =
     clear_session (worker_id w) alive
       (d\<lparr>dm_workers := filter (\<lambda>v. wk_token v \<noteq> wk_token w) (dm_workers d)\<rparr>)"

definition terminate :: "daemon \<Rightarrow> daemon" where
  "terminate d =
     d\<lparr>dm_stopped := True,
       dm_workers := map (\<lambda>w. w\<lparr>wk_run := run_turn InCancel (wk_run w)\<rparr>) (dm_workers d)\<rparr>"

subsection \<open>Steps\<close>

definition arrive :: "action list \<Rightarrow> daemon_sys \<Rightarrow> daemon_sys" where
  "arrive as s = s\<lparr>sy_pool := sy_pool s @ [as]\<rparr>"

definition run_thread :: "daemon_env \<Rightarrow> nat \<Rightarrow> daemon_sys \<Rightarrow> daemon_sys" where
  "run_thread E j s =
     (if j < length (sy_pool s) then
        (case sy_pool s ! j of
           [] \<Rightarrow> s
         | a # as \<Rightarrow>
             (case act E a (sy_daemon s) of
                (d, further) \<Rightarrow> \<lparr>sy_daemon = d, sy_pool = (sy_pool s)[j := further @ as]\<rparr>))
      else s)"

definition run_worker :: "daemon_env \<Rightarrow> nat \<Rightarrow> daemon_sys \<Rightarrow> daemon_sys" where
  "run_worker E t s =
     (case find_worker t (sy_daemon s) of
        None \<Rightarrow> s
      | Some w \<Rightarrow>
          (case wk_todo w of
             [] \<Rightarrow> s
           | a # as \<Rightarrow>
               (case act E a (sy_daemon s) of
                  (d, further) \<Rightarrow> s\<lparr>sy_daemon := update_worker t (\<lambda>v. v\<lparr>wk_todo := further @ as\<rparr>) d\<rparr>)))"

text \<open>A step of the loop needs that the callbacks before it have returned.\<close>

definition idle_worker :: "nat \<Rightarrow> daemon \<Rightarrow> worker option" where
  "idle_worker t d =
     (case find_worker t d of
        None \<Rightarrow> None
      | Some w \<Rightarrow> if wk_todo w = [] then Some w else None)"

definition end_step :: "worker \<Rightarrow> nat \<Rightarrow> daemon_sys \<Rightarrow> daemon_sys" where
  "end_step w alive s =
     (case end_worker w alive (sy_daemon s) of
        (d, further) \<Rightarrow> \<lparr>sy_daemon = d, sy_pool = sy_pool s @ [further]\<rparr>)"

fun sched_step :: "daemon_env \<Rightarrow> choice \<Rightarrow> daemon_sys \<Rightarrow> daemon_sys" where
  "sched_step E (FromSocket k v r) s =
     arrive (handle_request k v r) (s\<lparr>sy_daemon := open_connection k (sy_daemon s)\<rparr>)"
| "sched_step E (FromPhone n e) s =
     (case map_of (dm_objs (sy_daemon s)) n of
        None \<Rightarrow> s | Some x \<Rightarrow> arrive (phone_actions (ls_peer x) e) s)"
| "sched_step E (FromHost e) s = arrive (host_actions e) s"
| "sched_step E (StatusReport n st) s =
     (case map_of (dm_objs (sy_daemon s)) n of
        None \<Rightarrow> s
      | Some x \<Rightarrow>
          s\<lparr>sy_daemon := (sy_daemon s)\<lparr>dm_objs := map_put n (x\<lparr>ls_status := Some st\<rparr>) (dm_objs (sy_daemon s))\<rparr>\<rparr>)"
| "sched_step E Startup s = arrive [AutoConnectAll] s"
| "sched_step E Terminate s = s\<lparr>sy_daemon := terminate (sy_daemon s)\<rparr>"
| "sched_step E (Shutdown stop_ok alive) s = arrive (shutdown_actions stop_ok alive) s"
| "sched_step E (RunThread j) s = run_thread E j s"
| "sched_step E (RunWorker t) s = run_worker E t s"
| "sched_step E (WorkerTurn t i out) s =
     (case idle_worker t (sy_daemon s) of
        None \<Rightarrow> s
      | Some w \<Rightarrow> if i = InCancel then s else s\<lparr>sy_daemon := worker_turn i out w (sy_daemon s)\<rparr>)"
| "sched_step E (NoClient t alive) s =
     (case idle_worker t (sy_daemon s) of
        None \<Rightarrow> s
      | Some w \<Rightarrow>
          if run_phase (wk_run w) = RunTop \<and> run_log (wk_run w) = [] then end_step w alive s else s)"
| "sched_step E (EndWorker t alive) s =
     (case idle_worker t (sy_daemon s) of
        None \<Rightarrow> s
      | Some w \<Rightarrow> if run_phase (wk_run w) = RunReturned then end_step w alive s else s)"

definition new_daemon ::
    "daemon_env \<Rightarrow> config_file \<Rightarrow> files \<Rightarrow> bool \<Rightarrow> bool \<Rightarrow> bool \<Rightarrow> media_world \<Rightarrow> daemon" where
  "new_daemon E f fs key_ok clip_ok bridge_ok w =
     \<lparr>dm_stopped = False, dm_store = f, dm_files = fs, dm_sessions = [], dm_objs = [], dm_workers = [],
      dm_next = 0,
      dm_clipboard = snd (start_clipboard_service clip_ok (new_clipboard_service True)),
      dm_bridge = (if bridge_ok then Some (get_filters (Some f)) else None),
      dm_emulator = None, dm_enabled = [], dm_owner = [], dm_clipboard_ready = clip_ok,
      dm_ssh = (if key_ok then Some (new_ssh_service '':2222'' True) else None),
      dm_auto_muted = False, dm_muted_before = False, dm_media = w, dm_random = [], dm_conns = [],
      dm_replies = [], dm_inputs = [], dm_clips = [], dm_calls = [], dm_written = [], dm_shown = []\<rparr>"

definition daemon_start :: "daemon_env \<Rightarrow> daemon_sys \<Rightarrow> bool" where
  "daemon_start E s \<longleftrightarrow>
     (\<exists>f fs key_ok clip_ok bridge_ok w.
        s = \<lparr>sy_daemon = new_daemon E f fs key_ok clip_ok bridge_ok w, sy_pool = []\<rparr>)"

definition daemon_step :: "daemon_env \<Rightarrow> daemon_sys \<Rightarrow> daemon_sys \<Rightarrow> bool" where
  "daemon_step E s s' \<longleftrightarrow> (\<exists>c. s' = sched_step E c s)"

end
