(* ===== verification/Daemon_Invariants.thy ===== *)
theory Daemon_Invariants
  imports Daemon
begin

text \<open>
  What holds of the daemon in every state it can reach, through any interleaving of its goroutines: the
  map of sessions and the goroutines agree, at most one phone has the remote input and is connected,
  and no action is run by a goroutine it does not belong to.

  The first part says which parts of the state an action leaves alone (\<open>quiet_action\<close> actions do not touch
  the \<open>core\<close>), the second proves the invariant \<open>daemon_inv\<close> for every step and interprets
  \<open>step_system\<close>; a daemon with one connected phone (\<open>home_daemon\<close>) serves the witnesses.
\<close>

subsection \<open>What an action leaves alone\<close>

definition core :: "daemon \<Rightarrow> (string, managed_session) gomap \<times> worker list \<times> nat \<times> string \<times> (string, bool) gomap \<times>
    (nat \<times> response) list" where
  "core d = (dm_sessions d, dm_workers d, dm_next d, dm_owner d, dm_enabled d, dm_replies d)"

fun quiet_control :: "control \<Rightarrow> bool" where
  "quiet_control (SetInputEnabled i on alive) \<longleftrightarrow> False"
| "quiet_control (SetInputAuto i on x) \<longleftrightarrow> False"
| "quiet_control _ \<longleftrightarrow> True"

fun quiet_action :: "action \<Rightarrow> bool" where
  "quiet_action (Control k c) \<longleftrightarrow> quiet_control c"
| "quiet_action (Reply k r) \<longleftrightarrow> False"
| "quiet_action (StartSession i k) \<longleftrightarrow> False"
| "quiet_action (CancelSession t) \<longleftrightarrow> False"
| "quiet_action (PublishSession i n) \<longleftrightarrow> False"
| "quiet_action (UnpublishSession i ok alive) \<longleftrightarrow> False"
| "quiet_action (ForgetDevice i x alive k) \<longleftrightarrow> False"
| "quiet_action (CancelAll alive) \<longleftrightarrow> False"
| "quiet_action _ \<longleftrightarrow> True"

lemma core_change_store [simp]: "core (snd (change_store E x g d)) = core d"
  by (simp add: change_store_def core_def split: sum.split prod.split)

lemma core_change_store_eq: "change_store E x g d = (e, d') \<Longrightarrow> core d' = core d"
  by (metis core_change_store snd_conv)

lemma core_call_session: "call_session n f d = (e, d') \<Longrightarrow> core d' = core d"
  by (auto simp: call_session_def next_random_def core_def split: option.splits prod.splits sum.splits list.splits)

lemma core_reset: "reset_remote_input alive d = (e, d') \<Longrightarrow> core d' = core d"
  by (auto simp: reset_remote_input_def core_def split: option.splits prod.splits)

lemma core_ask_sound: "ask_sound f d = (e, d') \<Longrightarrow> core d' = core d"
  by (auto simp: ask_sound_def core_def split: prod.splits)

lemma core_log_input [simp]: "core (log_input i ev e d) = core d" by (simp add: log_input_def core_def)
lemma core_log_clip [simp]: "core (log_clip c e d) = core d" by (simp add: log_clip_def core_def)

lemma core_apply_input: "core (apply_remote_input i alive created ev d) = core d"
  by (auto simp: apply_remote_input_def core_def log_input_def split: option.splits sum.splits prod.splits)

lemma core_sound_result:
  "core (snd (case ask_sound f d of (Inl e, d') \<Rightarrow> (Some e, d') | (Inr x, d') \<Rightarrow> (None, d'))) = core d"
  using core_ask_sound [of f d] by (cases "ask_sound f d"; cases "fst (ask_sound f d)") auto

lemma core_apply_call: "core (snd (apply_call_mute A b d)) = core d"
proof -
  have u: "core (d\<lparr>dm_muted_before := x\<rparr>) = core d" "core (d\<lparr>dm_auto_muted := y\<rparr>) = core d"
    for x y and d :: daemon by (simp_all add: core_def)
  obtain r d1 where q: "ask_sound (system_audio_state A) d = (r, d1)" by fastforce
  note k = core_ask_sound [OF q]
  show ?thesis
  proof (cases b)
    case True
    then show ?thesis
      by (cases "dm_auto_muted d"; cases r) (simp_all add: apply_call_mute_def Let_def q k u core_sound_result)
  next
    case False
    then show ?thesis by (simp add: apply_call_mute_def Let_def u core_sound_result)
  qed
qed

lemma core_sound_reply:
  "core (fst (case ask_sound f d of (Inl e, d') \<Rightarrow> (d', g e) | (Inr x, d') \<Rightarrow> (d', h x))) = core d"
  using core_ask_sound [of f d] by (cases "ask_sound f d"; cases "fst (ask_sound f d)") auto

lemma core_media: "core (fst (run_media E k c d)) = core d"
proof -
  have w: "core (d\<lparr>dm_media := w\<rparr>) = core d" for w by (simp add: core_def)
  show ?thesis
  proof (cases c)
    case (MediaSetActive n)
    then show ?thesis by (simp add: media_set_active_def w split: prod.split option.split)
  qed (simp_all add: media_list_def media_active_def media_control_def media_auto_def
        audio_list_def audio_control_def w Let_def core_sound_reply split: prod.split)
qed

lemma core_event: "core (fst (run_event E e d)) = core d"
proof (cases e)
  case (CallMute b)
  obtain r d' where r: "apply_call_mute (de_tools E) b d = (r, d')" by fastforce
  have "core (d'\<lparr>dm_calls := x\<rparr>) = core d'" for x by (simp add: core_def)
  then show ?thesis using core_apply_call [of "de_tools E" b d] by (simp add: CallMute call_mute_def r)
next
  case (CheckClipboard c ok now)
  have "core (d\<lparr>dm_clipboard := x\<rparr>) = core d" for x by (simp add: core_def)
  then show ?thesis by (simp add: CheckClipboard take_clipboard_def)
next
  case (HostChanged now bs)
  have "core (d\<lparr>dm_clipboard := x\<rparr>) = core d" for x by (simp add: core_def)
  then show ?thesis by (simp add: HostChanged host_changed_def split: prod.split)
qed (simp_all add: check_input_def show_notification_def push_clipboard_def push_notification_def push_clear_def
      with_active_sessions_def core_def log_input_def)

lemma core_control:
  assumes "quiet_control c" shows "core (fst (run_control E k c d)) = core d"
proof -
  have s: "core (fst (case change_store E x g d of (e, d') \<Rightarrow> (d', f e d'))) = core d"
    for x g and f :: "daemon_error option \<Rightarrow> daemon \<Rightarrow> action list"
    using core_change_store_eq [of E x g d] by (auto split: prod.split)
  have b: "core (d'\<lparr>dm_bridge := y\<rparr>) = core d'" for y and d' :: daemon by (simp add: core_def)
  show ?thesis
  proof (cases c)
    case (SetAutoConnect i on x)
    then show ?thesis using core_change_store_eq [of E x "set_auto_connect i on" d]
      by (auto simp: set_auto_connect_op_def split: prod.split option.split)
  next
    case (FiltersSet nf x)
    then show ?thesis using core_change_store_eq [of E x _ d]
      by (auto simp: filters_set_def Let_def b split: prod.split option.split)
  next
    case (SetClipboardSync i on x)
    then show ?thesis by (simp add: set_clipboard_sync_op_def s)
  next
    case (SetNotificationSync i dir x)
    then show ?thesis by (simp add: set_notification_sync_op_def s)
  next
    case (PairDevice i p)
    have "core (d\<lparr>dm_files := y\<rparr>) = core d" for y by (simp add: core_def)
    then show ?thesis by (auto simp: PairDevice pair_device_def split: option.split prod.split sum.split)
  next
    case (ClipboardStart ok)
    then show ?thesis
      by (auto simp: clipboard_service_start_def core_def split: prod.split option.split clipboard_error.split)
  qed (use assms in \<open>simp_all add: disconnect_def unpair_def with_active_def clipboard_service_stop_def
      clipboard_push_def filters_get_def devices_op_def discover_op_def core_def split: option.split\<close>)
qed

lemma core_quiet:
  assumes "quiet_action a" shows "core (fst (act E a d)) = core d"
proof (cases a)
  case (Control k c)
  then show ?thesis using assms core_control by simp
next
  case (ResetInput alive)
  then show ?thesis using core_reset [of alive d] by (metis act.simps(15) fst_conv prod.collapse)
next
  case (ResetInputFor k alive)
  then show ?thesis using core_reset [of alive d] by (simp split: prod.split)
next
  case (AskSession n op)
  then show ?thesis using core_call_session [of n "session_request op" d]
    by (metis act.simps(19) ask_session_def fst_conv prod.collapse)
next
  case (AskNotification n c)
  then show ?thesis using core_call_session [of n _ d]
    by (metis act.simps(20) ask_notification_def fst_conv prod.collapse)
next
  case (AskFor k n op)
  then show ?thesis using core_call_session [of n "session_request op" d] by (simp add: ask_for_def split: prod.split)
next
  case (RefreshStore k r p)
  then show ?thesis by (simp add: refresh_store_def core_def split: sum.split prod.split)
next
  case (Media k c)
  then show ?thesis by (simp add: core_media)
next
  case (Event e)
  then show ?thesis by (simp add: core_event)
next
  case (ApplyInput i alive created ev)
  then show ?thesis by (simp add: core_apply_input)
qed (use assms in \<open>simp_all add: allow_address_def
    start_ssh_service_def forbid_address_def stop_ssh_if_inactive_def stop_ssh_service_def write_clipboard_def
    clipboard_push_ready_def auto_connect_paired_def start_auto_connect_def close_connections_def core_def
    log_clip_def\<close>)

subsection \<open>The books\<close>

text \<open>
  The map of sessions and the goroutines agree: each phone has an entry if and only if one goroutine
  works for it, and the cancel function of the entry is the one of that goroutine.
\<close>

definition entries :: "daemon \<Rightarrow> (string \<times> nat) list" where
  "entries d = map (\<lambda>(i, m). (i, ms_cancel m)) (dm_sessions d)"

definition staff :: "daemon \<Rightarrow> (string \<times> nat) list" where
  "staff d = map (\<lambda>w. (worker_id w, wk_token w)) (dm_workers d)"

definition books :: "daemon \<Rightarrow> bool" where
  "books d \<longleftrightarrow> wf_map (staff d) \<and> distinct (map snd (staff d)) \<and> (\<forall>t \<in> snd ` set (staff d). t < dm_next d) \<and>
     wf_map (dm_sessions d) \<and> set (entries d) = set (staff d)"

lemma map_put_present:
  "map_of m k = Some v \<Longrightarrow> g v' = g v \<Longrightarrow> map (\<lambda>(i, x). (i, g x)) (map_put k v' m) = map (\<lambda>(i, x). (i, g x)) m"
  by (induction m) auto

lemma map_put_keys: "map_of m k = Some v \<Longrightarrow> map fst (map_put k v' m) = map fst m"
  by (induction m) auto

lemma map_put_new: "k \<notin> fst ` set m \<Longrightarrow> map_put k v m = m @ [(k, v)]"
  by (induction m) auto

lemma entries_has: "map_has (dm_sessions d) i \<longleftrightarrow> i \<in> fst ` set (entries d)"
  unfolding map_has_iff entries_def by (force simp: image_image)

lemma set_active_frame [simp]:
  "entries (set_active i a d) = entries d" "dm_workers (set_active i a d) = dm_workers d"
  "dm_next (set_active i a d) = dm_next d" "dm_owner (set_active i a d) = dm_owner d"
  "dm_enabled (set_active i a d) = dm_enabled d" "dm_store (set_active i a d) = dm_store d"
  "wf_map (dm_sessions (set_active i a d)) = wf_map (dm_sessions d)"
  by (auto simp: set_active_def entries_def map_put_present map_put_keys split: option.split simp del: distinct_update)

lemma active_set_active:
  "active_of j (set_active i a d) =
     (if j = i then (if map_has (dm_sessions d) i then a else None) else active_of j d)"
  by (auto simp: active_of_def set_active_def split: option.splits)

lemma own_input_frame [simp]:
  "dm_sessions (own_input i d) = dm_sessions d" "dm_workers (own_input i d) = dm_workers d"
  "dm_next (own_input i d) = dm_next d" "active_of j (own_input i d) = active_of j d"
  by (simp_all add: own_input_def active_of_def)

lemma drop_input_frame [simp]:
  "dm_sessions (drop_input i d) = dm_sessions d" "dm_workers (drop_input i d) = dm_workers d"
  "dm_next (drop_input i d) = dm_next d" "active_of j (drop_input i d) = active_of j d"
  by (simp_all add: drop_input_def active_of_def)

lemma books_cong:
  "entries d' = entries d \<Longrightarrow> staff d' = staff d \<Longrightarrow> dm_next d' = dm_next d \<Longrightarrow>
   wf_map (dm_sessions d') = wf_map (dm_sessions d) \<Longrightarrow> books d' = books d"
  by (simp add: books_def)

lemma books_core: "core d' = core d \<Longrightarrow> books d' = books d"
  by (rule books_cong) (simp_all add: core_def entries_def staff_def)

lemma staff_cancel [simp]: "staff (cancel_session t d) = staff d"
  by (simp add: staff_def cancel_session_def worker_id_def comp_def if_distrib)

lemma cancel_frame [simp]:
  "dm_sessions (cancel_session t d) = dm_sessions d" "dm_next (cancel_session t d) = dm_next d"
  "dm_owner (cancel_session t d) = dm_owner d" "dm_enabled (cancel_session t d) = dm_enabled d"
  by (simp_all add: cancel_session_def)

lemma fold_cancel_frame [simp]:
  "dm_sessions (fold cancel_session ts d) = dm_sessions d" "dm_next (fold cancel_session ts d) = dm_next d"
  "dm_owner (fold cancel_session ts d) = dm_owner d" "dm_enabled (fold cancel_session ts d) = dm_enabled d"
  "staff (fold cancel_session ts d) = staff d"
  by (induction ts arbitrary: d) simp_all

lemma books_start: "books d \<Longrightarrow> books (fst (start_session i k d))"
proof (cases "get_device (Some (dm_store d)) i")
  case (Some p)
  assume b: "books d"
  show ?thesis
  proof (cases "get_identity (Some (dm_store d)) = None \<or> map_has (dm_sessions d) (pr_peer_id p)")
    case True
    then show ?thesis using b by (auto simp: start_session_def Some split: option.split)
  next
    case False
    then have n: "pr_peer_id p \<notin> fst ` set (staff d)" "map_of (dm_sessions d) (pr_peer_id p) = None"
      using b entries_has [of d "pr_peer_id p"] by (auto simp: books_def)
    have "pr_peer_id p \<notin> fst ` set (dm_sessions d)"
      using False entries_has map_has_iff by metis
    then have u: "map_put (pr_peer_id p) m (dm_sessions d) = dm_sessions d @ [(pr_peer_id p, m)]" for m
      by (rule map_put_new)
    let ?d = "fst (start_session i k d)" and ?e = "(pr_peer_id p, dm_next d)"
    obtain m where "dm_sessions ?d = dm_sessions d @ [(pr_peer_id p, m)]" "ms_cancel m = dm_next d"
      and f: "staff ?d = staff d @ [?e]" "dm_next ?d = Suc (dm_next d)"
      using False by (auto simp: start_session_def Some Let_def u staff_def worker_id_def)
    then have "entries ?d = entries d @ [?e]" "wf_map (dm_sessions ?d) = (pr_peer_id p \<notin> fst ` set (dm_sessions d) \<and> wf_map (dm_sessions d))"
      by (auto simp: entries_def)
    moreover have "pr_peer_id p \<notin> fst ` set (dm_sessions d)" using n(2) by (simp add: map_of_eq_None_iff)
    moreover have "dm_next d \<notin> snd ` set (staff d)" using b by (auto simp: books_def)
    ultimately show ?thesis using b n(1) f unfolding books_def by (auto simp: less_Suc_eq)
  qed
qed (simp add: start_session_def)

lemma own_drop_books [simp]:
  "books (own_input i d) = books d" "books (drop_input i d) = books d"
  "books (d\<lparr>dm_enabled := e, dm_owner := w\<rparr>) = books d" "books (d\<lparr>dm_owner := w, dm_enabled := e\<rparr>) = books d"
  "books (send_response k r d) = books d"
  by (simp_all add: books_def entries_def staff_def send_response_def)

lemma books_set_active [simp]: "books (set_active i a d) = books d"
  by (rule books_cong) (simp_all add: staff_def)

lemma books_cancel [simp]: "books (cancel_session t d) = books d"
  by (rule books_cong) (simp_all add: entries_def)

lemma books_fold_cancel [simp]: "books (fold cancel_session ts d) = books d"
  by (induction ts arbitrary: d) simp_all

lemma act_books: "books d \<Longrightarrow> books (fst (act E a d))"
proof (cases "quiet_action a")
  case True
  assume "books d"
  then show ?thesis using books_core [OF core_quiet [OF True, of E d]] by simp
next
  case False
  assume b: "books d"
  show ?thesis
  proof (cases a)
    case (Control k c)
    then show ?thesis
    proof (cases c)
      case (SetInputAuto i on x)
      obtain e d' where e: "change_store E x (set_input_auto i on) d = (e, d')" by fastforce
      have "books d'" using b books_core [OF core_change_store_eq [OF e]] by simp
      then show ?thesis by (simp add: Control SetInputAuto set_input_auto_op_def e split: option.split)
    qed (use b False in \<open>simp_all add: set_input_enabled_def\<close>)
  next
    case (StartSession i k)
    then show ?thesis using b books_start by simp
  next
    case (ForgetDevice i x alive k)
    let ?d = "d\<lparr>dm_owner := (if dm_owner d = i then [] else dm_owner d), dm_enabled := map_del i (dm_enabled d)\<rparr>"
    obtain e d' where e: "change_store E x (remove_device i) ?d = (e, d')" by fastforce
    have "books ?d" using b by simp
    then have "books d'" using books_core [OF core_change_store_eq [OF e]] by simp
    then show ?thesis by (simp add: ForgetDevice forget_device_def e)
  qed (use b False in \<open>simp_all add: publish_session_def unpublish_session_def cancel_all_def Let_def\<close>)
qed

subsection \<open>The owner of the input\<close>

definition sole :: "string \<Rightarrow> (string \<Rightarrow> bool) \<Rightarrow> (string \<Rightarrow> bool) \<Rightarrow> bool" where
  "sole w f A \<longleftrightarrow> (w \<noteq> [] \<longrightarrow> f w) \<and> (\<forall>i. i \<noteq> [] \<longrightarrow> f i \<longrightarrow> w = i \<and> A i)"

lemma soleI: "(w \<noteq> [] \<Longrightarrow> f w) \<Longrightarrow> (\<And>i. i \<noteq> [] \<Longrightarrow> f i \<Longrightarrow> w = i) \<Longrightarrow> (\<And>i. i \<noteq> [] \<Longrightarrow> f i \<Longrightarrow> A i) \<Longrightarrow> sole w f A"
  unfolding sole_def by blast

lemma soleD: "sole w f A \<Longrightarrow> w \<noteq> [] \<Longrightarrow> f w" "sole w f A \<Longrightarrow> i \<noteq> [] \<Longrightarrow> f i \<Longrightarrow> w = i"
  "sole w f A \<Longrightarrow> i \<noteq> [] \<Longrightarrow> f i \<Longrightarrow> A i"
  unfolding sole_def by blast+

lemma sole_own:
  assumes "sole w f A" "w = [] \<or> w = i" "A i" shows "sole i (f(i := True)) A"
proof (rule soleI)
  fix j assume j: "j \<noteq> []" "(f(i := True)) j"
  show "i = j" using j assms(2) soleD(2) [OF assms(1) j(1)] by (cases "j = i") auto
  then show "A j" using assms(3) by simp
qed simp

lemma sole_drop:
  assumes "sole w f A" "\<And>j. j \<noteq> i \<Longrightarrow> A j \<Longrightarrow> B j"
  shows "sole (if w = i then [] else w) (f(i := False)) B"
proof (rule soleI)
  show "(f(i := False)) (if w = i then [] else w)" if "(if w = i then [] else w) \<noteq> []"
    using that soleD(1) [OF assms(1)] by (cases "w = i") simp_all
  fix j assume j: "j \<noteq> []" "(f(i := False)) j"
  have n: "j \<noteq> i" "f j" using j(2) by (cases "j = i"; simp)+
  show "(if w = i then [] else w) = j" using soleD(2) [OF assms(1) j(1) n(2)] n(1) by simp
  show "B j" by (rule assms(2) [OF n(1) soleD(3) [OF assms(1) j(1) n(2)]])
qed

lemma sole_drop_other:
  assumes "sole w f A" "w \<noteq> i" "\<And>j. j \<noteq> i \<Longrightarrow> A j \<Longrightarrow> B j" shows "sole w f B"
proof (rule soleI)
  fix j assume j: "j \<noteq> []" "f j"
  show w: "w = j" by (rule soleD(2) [OF assms(1) j])
  show "B j" using assms(2,3) soleD(3) [OF assms(1) j] w by simp
qed (rule soleD(1) [OF assms(1)])

lemma sole_more: "sole w f A \<Longrightarrow> (\<And>j. A j \<Longrightarrow> B j) \<Longrightarrow> sole w f B"
  by (rule soleI) (blast dest: soleD)+

lemma sole_none: "sole [] (\<lambda>_. False) A"
  unfolding sole_def by simp

definition active :: "daemon \<Rightarrow> string \<Rightarrow> bool" where
  "active d i \<longleftrightarrow> active_of i d \<noteq> None"

definition owner_ok :: "daemon \<Rightarrow> bool" where
  "owner_ok d \<longleftrightarrow> sole (dm_owner d) (get_or False (dm_enabled d)) (active d)"

lemma get_or_upd: "get_or z (map_put k v m) = (get_or z m)(k := v)" "get_or z (map_del k m) = (get_or z m)(k := z)"
  by (simp_all add: fun_eq_iff)

lemma active_cong: "dm_sessions d' = dm_sessions d \<Longrightarrow> active d' = active d"
  by (simp add: fun_eq_iff active_def active_of_def)

lemma owner_core: "core d' = core d \<Longrightarrow> owner_ok d' = owner_ok d"
  using active_cong [of d' d] by (simp add: core_def owner_ok_def)

lemma owner_own: "owner_ok d \<Longrightarrow> free_input i d \<Longrightarrow> active_of i d \<noteq> None \<Longrightarrow> owner_ok (own_input i d)"
proof -
  assume o: "owner_ok d" "free_input i d" "active_of i d \<noteq> None"
  have a: "active (own_input i d) = active d" by (rule active_cong) simp
  have "sole i ((get_or False (dm_enabled d))(i := True)) (active d)"
    by (rule sole_own [of "dm_owner d"]) (use o in \<open>simp_all add: owner_ok_def active_def free_input_def\<close>)
  then show ?thesis unfolding owner_ok_def a by (simp add: own_input_def get_or_upd)
qed

lemma owner_drop_gone:
  assumes "owner_ok d" "dm_enabled d' = dm_enabled d" "dm_owner d' = dm_owner d"
    "\<And>j. j \<noteq> i \<Longrightarrow> active d j \<Longrightarrow> active d' j"
  shows "owner_ok (drop_input i d')"
proof -
  have a: "active (drop_input i d') = active d'" by (rule active_cong) simp
  show ?thesis
  proof (cases "dm_owner d = i")
    case True
    then show ?thesis unfolding owner_ok_def a
      using sole_drop [of "dm_owner d" _ "active d" i "active d'"] assms
      by (simp add: owner_ok_def drop_input_def get_or_upd)
  next
    case False
    then show ?thesis unfolding owner_ok_def a
      using sole_drop_other [of "dm_owner d" _ "active d" i "active d'"] assms
      by (simp add: owner_ok_def drop_input_def)
  qed
qed

lemma owner_publish:
  "owner_ok d \<Longrightarrow> map_has (dm_sessions d) i \<Longrightarrow> owner_ok (publish_session i n d)"
proof -
  assume o: "owner_ok d" "map_has (dm_sessions d) i"
  have "owner_ok (set_active i (Some n) d)"
    using sole_more [of "dm_owner d" "get_or False (dm_enabled d)" "active d" "active (set_active i (Some n) d)"] o
    by (simp add: owner_ok_def active_def active_set_active)
  then show ?thesis using o(2)
    by (simp add: publish_session_def Let_def owner_own active_set_active)
qed

lemma owner_unpublish: "owner_ok d \<Longrightarrow> owner_ok (drop_input i (set_active i None d))"
  by (rule owner_drop_gone [of d]) (simp_all add: active_def active_set_active)

lemma owner_forget:
  assumes "owner_ok d" "\<And>b. get_or False e b = ((get_or False (dm_enabled d))(i := False)) b"
  shows "owner_ok (d\<lparr>dm_owner := (if dm_owner d = i then [] else dm_owner d), dm_enabled := e\<rparr>)"
proof -
  have e: "get_or False e = (get_or False (dm_enabled d))(i := False)" using assms(2) by (rule ext)
  have a: "active (d\<lparr>dm_owner := w, dm_enabled := e\<rparr>) = active d" for w by (rule active_cong) simp
  have "sole (if dm_owner d = i then [] else dm_owner d) ((get_or False (dm_enabled d))(i := False)) (active d)"
    by (rule sole_drop [OF assms(1) [unfolded owner_ok_def]])
  then show ?thesis unfolding owner_ok_def a by (simp add: e)
qed

lemma owner_disable:
  "owner_ok d \<Longrightarrow> owner_ok (d\<lparr>dm_enabled := map_put i False (dm_enabled d), dm_owner := (if dm_owner d = i then [] else dm_owner d)\<rparr>)"
proof -
  assume "owner_ok d"
  then have "owner_ok (d\<lparr>dm_owner := (if dm_owner d = i then [] else dm_owner d), dm_enabled := map_put i False (dm_enabled d)\<rparr>)"
    by (rule owner_forget) (simp add: get_or_upd)
  moreover have "d\<lparr>dm_owner := w, dm_enabled := e\<rparr> = d\<lparr>dm_enabled := e, dm_owner := w\<rparr>" for w e by simp
  ultimately show ?thesis by metis
qed

lemma owner_start: "owner_ok d \<Longrightarrow> owner_ok (fst (start_session i k d))"
proof -
  assume o: "owner_ok d"
  have "owner_ok (d\<lparr>dm_sessions := map_put p \<lparr>ms_cancel = t, ms_active = None\<rparr> (dm_sessions d), dm_next := n, dm_workers := ws\<rparr>)"
    (is "owner_ok ?d") if n: "map_of (dm_sessions d) p = None" for p t n ws
  proof -
    have "active d j \<Longrightarrow> active ?d j" for j using n by (auto simp: active_def active_of_def)
    then show ?thesis using sole_more [OF o [unfolded owner_ok_def], of "active ?d"] by (simp add: owner_ok_def)
  qed
  then show ?thesis using o by (auto simp: start_session_def Let_def split: option.split)
qed

lemma get_or_all_false: "\<not> get_or False (map (\<lambda>(i, _). (i, False)) m) j"
  by (induction m) (auto simp: get_or_def split: option.splits)

lemma act_owner:
  assumes o: "owner_ok d" and p: "\<And>i n. a = PublishSession i n \<Longrightarrow> map_has (dm_sessions d) i"
  shows "owner_ok (fst (act E a d))"
proof (cases "quiet_action a")
  case True
  then show ?thesis using o owner_core [OF core_quiet [OF True, of E d]] by simp
next
  case False
  show ?thesis
  proof (cases a)
    case (Control k c)
    then show ?thesis
    proof (cases c)
      case (SetInputAuto i on x)
      obtain e d' where e: "change_store E x (set_input_auto i on) d = (e, d')" by fastforce
      have "owner_ok d'" using o owner_core [OF core_change_store_eq [OF e]] by simp
      then show ?thesis
        by (simp add: Control SetInputAuto set_input_auto_op_def e owner_own split: option.split)
    next
      case (SetInputEnabled i on alive)
      then show ?thesis using o by (simp add: Control set_input_enabled_def owner_own owner_disable)
    qed (use o False Control in simp_all)
  next
    case (StartSession i k)
    then show ?thesis using o owner_start by simp
  next
    case (Reply k r)
    then show ?thesis using o active_cong [of "send_response k r d" d] by (simp add: owner_ok_def send_response_def)
  next
    case (CancelSession t)
    then show ?thesis using o active_cong [of "cancel_session t d" d] by (simp add: owner_ok_def)
  next
    case (PublishSession i n)
    then show ?thesis using o p owner_publish by simp
  next
    case (UnpublishSession i ok alive)
    then show ?thesis using o owner_unpublish by (simp add: unpublish_session_def)
  next
    case (ForgetDevice i x alive k)
    let ?d = "d\<lparr>dm_owner := (if dm_owner d = i then [] else dm_owner d), dm_enabled := map_del i (dm_enabled d)\<rparr>"
    obtain e d' where e: "change_store E x (remove_device i) ?d = (e, d')" by fastforce
    have "owner_ok d'" using owner_forget [OF o, of "map_del i (dm_enabled d)" i] owner_core [OF core_change_store_eq [OF e]] by simp
    then show ?thesis by (simp add: ForgetDevice forget_device_def e)
  next
    case (CancelAll alive)
    have "get_or False (map (\<lambda>(i, _). (i, False)) m) = (\<lambda>_. False)" for m :: "(string, bool) gomap"
      by (rule ext) (simp add: get_or_all_false)
    then show ?thesis by (simp add: CancelAll cancel_all_def owner_ok_def sole_none)
  qed (use False in simp_all)
qed

subsection \<open>What an action is followed by\<close>

fun callback_of :: "action \<Rightarrow> string option" where
  "callback_of (AllowAddress i a) = Some i"
| "callback_of (PublishSession i n) = Some i"
| "callback_of (UnpublishSession i ok alive) = Some i"
| "callback_of (ForbidAddress i) = Some i"
| "callback_of _ = None"

fun is_apply :: "action \<Rightarrow> bool" where
  "is_apply (ApplyInput i alive created ev) \<longleftrightarrow> True"
| "is_apply _ \<longleftrightarrow> False"

definition plain :: "action \<Rightarrow> bool" where
  "plain a \<longleftrightarrow> callback_of a = None \<and> \<not> is_apply a"

lemma plain_simps [simp]:
  "plain (Reply k r)" "plain (StartSession i o1)" "plain (CancelSession t)" "plain (Control k c)" "plain (Media k m)"
  "plain (ResetInput n)" "plain (ResetInputFor k n)" "plain (ForgetDevice i x n o1)" "plain (WriteClipboard cc b)"
  "plain (AskSession n op)" "plain (AskNotification n nc)" "plain (AskFor k n op)" "plain (ClipboardReady k n bs)"
  "plain (RefreshStore k p po)" "plain (AutoConnectPaired k p)" "plain (Event e)" "plain (StopSsh b)"
  "plain (StopSshIfInactive b)" "plain (StartSsh b)" "plain AutoConnectAll" "plain CloseConnections" "plain (CancelAll n)"
  by (simp_all add: plain_def)

lemma plain_answer [simp]: "list_all plain (answer k r)"
  by (simp add: answer_def split: option.split)

lemma plain_map [simp]: "(\<And>x. plain (f x)) \<Longrightarrow> list_all plain (map f xs)"
  by (simp add: list_all_iff)

lemma plain_control: "list_all plain (snd (run_control E k c d))"
proof (cases c)
  case (SetAutoConnect i on x)
  then show ?thesis by (auto simp: set_auto_connect_op_def split: prod.split option.split)
next
  case (SetInputAuto i on x)
  then show ?thesis by (auto simp: set_input_auto_op_def split: prod.split option.split)
next
  case (SetClipboardSync i on x)
  then show ?thesis by (simp add: set_clipboard_sync_op_def split: prod.split)
next
  case (SetNotificationSync i dir x)
  then show ?thesis by (simp add: set_notification_sync_op_def split: prod.split)
next
  case (FiltersSet nf x)
  then show ?thesis by (auto simp: filters_set_def Let_def split: prod.split option.split)
next
  case (PairDevice i p)
  then show ?thesis by (auto simp: pair_device_def split: option.split prod.split sum.split)
next
  case (ClipboardStart ok)
  then show ?thesis
    by (auto simp: clipboard_service_start_def split: prod.split option.split clipboard_error.split)
qed (simp_all add: disconnect_def unpair_def with_active_def clipboard_service_stop_def set_input_enabled_def
      clipboard_push_def filters_get_def devices_op_def discover_op_def split: option.split)

lemma plain_sound_reply:
  "list_all plain (snd (case ask_sound f d of (Inl e, d') \<Rightarrow> (d', [Reply k (g e)]) | (Inr x, d') \<Rightarrow> (d', [Reply k (h x)])))"
  by (cases "ask_sound f d"; cases "fst (ask_sound f d)") auto

lemma plain_media: "list_all plain (snd (run_media E k c d))"
proof (cases c)
  case (MediaSetActive n)
  then show ?thesis by (simp add: media_set_active_def split: prod.split option.split)
qed (simp_all add: media_list_def media_active_def media_control_def media_auto_def
      audio_list_def audio_control_def Let_def plain_sound_reply split: prod.split)

lemma plain_event: "\<forall>i alive created ev. e \<noteq> CheckInput i alive created ev \<Longrightarrow> list_all plain (snd (run_event E e d))"
proof (cases e)
  case (CheckInput i alive created ev)
  then show "\<forall>i alive created ev. e \<noteq> CheckInput i alive created ev \<Longrightarrow> ?thesis" by blast
next
  case (HostChanged now bs)
  then show ?thesis by (simp add: host_changed_def split: prod.split sum.split option.split)
qed (simp_all add: take_clipboard_def push_clipboard_def push_notification_def push_clear_def with_active_sessions_def)

lemma act_plain:
  assumes "\<forall>i ok alive. a \<noteq> UnpublishSession i ok alive"
    and "\<forall>i alive created ev. a \<noteq> Event (CheckInput i alive created ev)"
  shows "list_all plain (snd (act E a d))"
proof (cases a)
  case (Event e)
  then show ?thesis using assms(2) plain_event [of e E d] by simp
next
  case (StartSession i k)
  then show ?thesis by (simp add: start_session_def Let_def split: option.split)
qed (use assms(1) in \<open>auto simp: plain_control plain_media stop_ssh_if_inactive_def forget_device_def cancel_all_def
    ask_for_def clipboard_push_ready_def refresh_store_def auto_connect_paired_def start_auto_connect_def
    split: prod.split option.split\<close>)

lemma act_callbacks:
  "b \<in> set (snd (act E a d)) \<Longrightarrow> callback_of b = None \<or> callback_of b = callback_of a"
proof (cases "(\<exists>i ok alive. a = UnpublishSession i ok alive) \<or> (\<exists>i alive created ev. a = Event (CheckInput i alive created ev))")
  case True
  then show "b \<in> set (snd (act E a d)) \<Longrightarrow> ?thesis"
    by (auto simp: unpublish_session_def check_input_def split: if_splits)
next
  case False
  then have "list_all plain (snd (act E a d))" by (intro act_plain) auto
  then show "b \<in> set (snd (act E a d)) \<Longrightarrow> ?thesis" by (auto simp: list_all_iff plain_def)
qed

lemma act_applies:
  assumes "b \<in> set (snd (act E a d))" "is_apply b"
  shows "\<exists>i alive created ev. a = Event (CheckInput i alive created ev) \<and> may_input i d \<and>
    b = ApplyInput i alive created ev"
proof (cases "(\<exists>i ok alive. a = UnpublishSession i ok alive) \<or> (\<exists>i alive created ev. a = Event (CheckInput i alive created ev))")
  case True
  then show ?thesis using assms
    by (auto simp: unpublish_session_def check_input_def split: if_splits)
next
  case False
  then have "list_all plain (snd (act E a d))" by (intro act_plain) auto
  then show ?thesis using assms by (auto simp: list_all_iff plain_def)
qed

subsection \<open>The invariant of the system\<close>

fun worker_action :: "action \<Rightarrow> bool" where
  "worker_action (AllowAddress i a) \<longleftrightarrow> True"
| "worker_action (PublishSession i n) \<longleftrightarrow> True"
| "worker_action (StartSsh ok) \<longleftrightarrow> True"
| "worker_action (UnpublishSession i ok alive) \<longleftrightarrow> True"
| "worker_action (ForbidAddress i) \<longleftrightarrow> True"
| "worker_action (StopSshIfInactive ok) \<longleftrightarrow> True"
| "worker_action (StopSsh ok) \<longleftrightarrow> True"
| "worker_action (ResetInput alive) \<longleftrightarrow> True"
| "worker_action _ \<longleftrightarrow> False"

definition own_action :: "string \<Rightarrow> action \<Rightarrow> bool" where
  "own_action i a \<longleftrightarrow> worker_action a \<and> callback_of a \<in> {None, Some i}"

definition todo_ok :: "worker \<Rightarrow> bool" where
  "todo_ok w \<longleftrightarrow> list_all (own_action (worker_id w)) (wk_todo w)"

definition pool_ok :: "daemon_sys \<Rightarrow> bool" where
  "pool_ok s \<longleftrightarrow> (\<forall>as \<in> set (sy_pool s). list_all (\<lambda>a. callback_of a = None) as)"

definition daemon_inv :: "daemon_sys \<Rightarrow> bool" where
  "daemon_inv s \<longleftrightarrow> books (sy_daemon s) \<and> owner_ok (sy_daemon s) \<and> pool_ok s \<and>
     (\<forall>w \<in> set (dm_workers (sy_daemon s)). todo_ok w)"

lemma own_action_follow: "own_action i a \<Longrightarrow> list_all (own_action i) (snd (act E a d))"
  by (cases a) (auto simp: own_action_def unpublish_session_def stop_ssh_if_inactive_def)

lemma worker_action_workers: "worker_action a \<Longrightarrow> dm_workers (fst (act E a d)) = dm_workers d"
proof (cases "quiet_action a")
  case True
  then show ?thesis using core_quiet [of a E d] by (simp add: core_def)
next
  case False
  then show "worker_action a \<Longrightarrow> ?thesis"
    by (cases a) (simp_all add: publish_session_def unpublish_session_def Let_def)
qed

lemma worker_has_entry: "books d \<Longrightarrow> w \<in> set (dm_workers d) \<Longrightarrow> map_has (dm_sessions d) (worker_id w)"
  unfolding entries_has books_def by (auto simp: staff_def image_image)

lemma staff_keys: "map fst (staff d) = map worker_id (dm_workers d)" "map snd (staff d) = map wk_token (dm_workers d)"
  by (simp_all add: staff_def)

lemma same_token:
  assumes "books d" "v \<in> set (dm_workers d)" "w \<in> set (dm_workers d)" "wk_token v = wk_token w" shows "v = w"
proof -
  have "inj_on wk_token (set (dm_workers d))" using assms(1) unfolding books_def staff_keys distinct_map by blast
  then show ?thesis by (rule inj_onD) (rule assms)+
qed

lemma same_id:
  assumes "books d" "v \<in> set (dm_workers d)" "w \<in> set (dm_workers d)" "worker_id v = worker_id w" shows "v = w"
proof -
  have "inj_on worker_id (set (dm_workers d))" using assms(1) unfolding books_def staff_keys distinct_map by blast
  then show ?thesis by (rule inj_onD) (rule assms)+
qed

lemma todo_run [simp]: "todo_ok (w\<lparr>wk_run := r\<rparr>) = todo_ok w"
  by (simp add: todo_ok_def worker_id_def)

lemma cancel_todo: "\<forall>w \<in> set (dm_workers d). todo_ok w \<Longrightarrow> \<forall>w \<in> set (dm_workers (cancel_session t d)). todo_ok w"
  by (auto simp: cancel_session_def)

lemma fold_cancel_todo: "\<forall>w \<in> set (dm_workers d). todo_ok w \<Longrightarrow> \<forall>w \<in> set (dm_workers (fold cancel_session ts d)). todo_ok w"
proof (induction ts arbitrary: d)
  case (Cons t ts)
  show ?case using Cons.IH [OF cancel_todo [OF Cons.prems]] by simp
qed simp

lemma act_todo:
  assumes "\<forall>w \<in> set (dm_workers d). todo_ok w"
  shows "\<forall>w \<in> set (dm_workers (fst (act E a d))). todo_ok w"
proof (cases "quiet_action a \<or> worker_action a")
  case True
  then have "dm_workers (fst (act E a d)) = dm_workers d"
    using core_quiet [of a E d] worker_action_workers [of a E d] by (auto simp: core_def)
  then show ?thesis using assms by simp
next
  case False
  show ?thesis
  proof (cases a)
    case (Control k c)
    then show ?thesis
    proof (cases c)
      case (SetInputAuto i on x)
      obtain e d' where e: "change_store E x (set_input_auto i on) d = (e, d')" by fastforce
      have "dm_workers d' = dm_workers d" using core_change_store_eq [OF e] by (simp add: core_def)
      then show ?thesis using assms by (simp add: Control SetInputAuto set_input_auto_op_def e split: option.split)
    next
      case (SetInputEnabled i on alive)
      then show ?thesis using assms by (simp add: Control set_input_enabled_def)
    qed (use False Control in simp_all)
  next
    case (StartSession i k)
    then show ?thesis using assms by (auto simp: start_session_def Let_def todo_ok_def split: option.split)
  next
    case (Reply k r)
    then show ?thesis using assms by (simp add: send_response_def)
  next
    case (CancelSession t)
    then show ?thesis using cancel_todo [OF assms] by simp
  next
    case (ForgetDevice i x alive k)
    let ?d = "d\<lparr>dm_owner := (if dm_owner d = i then [] else dm_owner d), dm_enabled := map_del i (dm_enabled d)\<rparr>"
    obtain e d' where e: "change_store E x (remove_device i) ?d = (e, d')" by fastforce
    have "dm_workers d' = dm_workers d" using core_change_store_eq [OF e] by (simp add: core_def)
    then show ?thesis using assms by (simp add: ForgetDevice forget_device_def e)
  next
    case (CancelAll alive)
    then show ?thesis using fold_cancel_todo [OF assms] by (simp add: cancel_all_def)
  qed (use False in simp_all)
qed

lemma list_all_if: "list_all P x \<Longrightarrow> list_all P y \<Longrightarrow> list_all P (if c then x else y)"
  by simp

lemma plain_request: "list_all plain (handle_request k v r)"
proof (cases r)
  case (Some q)
  have "list_all plain (request_actions k v q)"
    unfolding request_actions_def Let_def by (intro list_all_if) simp_all
  then show ?thesis by (simp add: handle_request_def Some)
qed (simp add: handle_request_def)

lemma plain_phone: "list_all plain (phone_actions i e)"
  by (simp add: phone_actions_def split: phone_event.split)

lemma plain_host: "list_all plain (host_actions e)"
  by (simp add: host_actions_def split: host_event.split)

lemma plain_shutdown: "list_all plain (shutdown_actions ok alive)"
  by (simp add: shutdown_actions_def)

lemma plain_no_callback: "list_all plain as \<Longrightarrow> list_all (\<lambda>a. callback_of a = None) as"
  by (simp add: list_all_iff plain_def)

lemma inv_arrive: "daemon_inv s \<Longrightarrow> list_all plain as \<Longrightarrow> daemon_inv (arrive as s)"
  by (auto simp: daemon_inv_def arrive_def pool_ok_def dest: plain_no_callback)

lemma inv_quiet:
  assumes "daemon_inv s" "core d = core (sy_daemon s)"
  shows "daemon_inv (s\<lparr>sy_daemon := d\<rparr>)"
  using assms books_core [OF assms(2)] owner_core [OF assms(2)]
  by (auto simp: daemon_inv_def pool_ok_def core_def)

lemma find_workerD: "find_worker t d = Some w \<Longrightarrow> w \<in> set (dm_workers d) \<and> wk_token w = t"
  by (auto simp: find_worker_def find_Some_iff)

lemma idle_workerD: "idle_worker t d = Some w \<Longrightarrow> w \<in> set (dm_workers d) \<and> wk_token w = t \<and> wk_todo w = []"
  using find_workerD by (fastforce simp: idle_worker_def split: option.splits if_splits)

lemma inv_run_thread: "daemon_inv s \<Longrightarrow> daemon_inv (run_thread E j s)"
proof -
  assume i: "daemon_inv s"
  show ?thesis
  proof (cases "j < length (sy_pool s) \<and> sy_pool s ! j \<noteq> []")
    case True
    then obtain a as where p: "j < length (sy_pool s)" "sy_pool s ! j = a # as" by (cases "sy_pool s ! j") auto
    obtain d further where e: "act E a (sy_daemon s) = (d, further)" by fastforce
    have "a # as \<in> set (sy_pool s)" using p nth_mem by metis
    then have c: "callback_of a = None" "list_all (\<lambda>a. callback_of a = None) as"
      using i by (auto simp: daemon_inv_def pool_ok_def)
    have f: "list_all (\<lambda>a. callback_of a = None) further"
      using act_callbacks [of _ E a "sy_daemon s"] c(1) by (auto simp: e list_all_iff)
    have np: "a \<noteq> PublishSession i n" for i n using c(1) by auto
    have "pool_ok \<lparr>sy_daemon = d, sy_pool = (sy_pool s)[j := further @ as]\<rparr>"
      using i c(2) f set_update_subset_insert [of "sy_pool s" j "further @ as"]
      by (auto simp: daemon_inv_def pool_ok_def)
    moreover have "books d" "owner_ok d" "\<forall>w \<in> set (dm_workers d). todo_ok w"
      using i act_books [of "sy_daemon s" E a] act_owner [of "sy_daemon s" a E] act_todo [of "sy_daemon s" E a] np
      by (auto simp: daemon_inv_def e)
    ultimately show ?thesis using p e by (simp add: run_thread_def daemon_inv_def)
  next
    case False
    then show ?thesis using i by (auto simp: run_thread_def split: list.split)
  qed
qed

lemma update_worker_frame [simp]:
  "dm_sessions (update_worker t f d) = dm_sessions d" "dm_next (update_worker t f d) = dm_next d"
  "dm_owner (update_worker t f d) = dm_owner d" "dm_enabled (update_worker t f d) = dm_enabled d"
  by (simp_all add: update_worker_def)

lemma update_workerE:
  assumes "v \<in> set (dm_workers (update_worker t f d))"
  obtains u where "u \<in> set (dm_workers d)" "v = (if wk_token u = t then f u else u)"
  using assms by (auto simp: update_worker_def)

lemma books_update_worker:
  "(\<And>w. worker_id (f w) = worker_id w \<and> wk_token (f w) = wk_token w) \<Longrightarrow> books (update_worker t f d) = books d"
  by (rule books_cong) (simp_all add: staff_def entries_def update_worker_def)

lemma owner_cong:
  "dm_sessions d' = dm_sessions d \<Longrightarrow> dm_owner d' = dm_owner d \<Longrightarrow> dm_enabled d' = dm_enabled d \<Longrightarrow> owner_ok d' = owner_ok d"
  using active_cong [of d' d] by (simp add: owner_ok_def)

lemma inv_run_worker: "daemon_inv s \<Longrightarrow> daemon_inv (run_worker E t s)"
proof -
  assume i: "daemon_inv s"
  show ?thesis
  proof (cases "find_worker t (sy_daemon s)")
    case (Some w)
    note w = find_workerD [OF Some]
    show ?thesis
    proof (cases "wk_todo w")
      case (Cons a as)
      obtain d further where e: "act E a (sy_daemon s) = (d, further)" by fastforce
      let ?f = "\<lambda>v. v\<lparr>wk_todo := further @ as\<rparr>"
      have b: "books (sy_daemon s)" and o: "owner_ok (sy_daemon s)" using i by (simp_all add: daemon_inv_def)
      have t: "own_action (worker_id w) a" "list_all (own_action (worker_id w)) as"
        using i w Cons by (auto simp: daemon_inv_def todo_ok_def)
      have f: "list_all (own_action (worker_id w)) further"
        using own_action_follow [OF t(1), of E "sy_daemon s"] by (simp add: e)
      have p: "map_has (dm_sessions (sy_daemon s)) j" if "a = PublishSession j n" for j n
        using t(1) that worker_has_entry [OF b conjunct1 [OF w]] by (simp add: own_action_def)
      have ws: "dm_workers d = dm_workers (sy_daemon s)"
        using worker_action_workers [of a E "sy_daemon s"] t(1) by (simp add: e own_action_def)
      have "owner_ok (fst (act E a (sy_daemon s)))" by (rule act_owner [OF o]) (rule p)
      then have "books d" "owner_ok d" using act_books [OF b, of E a] by (simp_all add: e)
      then have "books (update_worker t ?f d)" "owner_ok (update_worker t ?f d)"
        using books_update_worker [of ?f t d] owner_cong [of "update_worker t ?f d" d]
        by (simp_all add: worker_id_def)
      moreover have "todo_ok v" if v: "v \<in> set (dm_workers (update_worker t ?f d))" for v
      proof -
        obtain u where u: "u \<in> set (dm_workers (sy_daemon s))" "v = (if wk_token u = t then ?f u else u)"
          using update_workerE [OF v] unfolding ws .
        show ?thesis
        proof (cases "wk_token u = t")
          case True
          then have "u = w" using same_token [OF b u(1)] w by simp
          then show ?thesis using u(2) True t(2) f by (simp add: todo_ok_def worker_id_def)
        next
          case False
          then show ?thesis using u i by (simp add: daemon_inv_def)
        qed
      qed
      moreover have "pool_ok (s\<lparr>sy_daemon := x\<rparr>)" for x using i by (simp add: daemon_inv_def pool_ok_def)
      ultimately show ?thesis using Some Cons e by (simp add: run_worker_def daemon_inv_def)
    qed (use i Some in \<open>simp add: run_worker_def\<close>)
  qed (use i in \<open>simp add: run_worker_def\<close>)
qed

lemma callback_own: "list_all (own_action i) (callback_actions i n out e)"
  by (cases e) (auto simp: callback_actions_def on_connect_actions_def on_disconnect_actions_def own_action_def)

lemma session_books [simp]:
  "dm_sessions (open_session n i out d) = dm_sessions d" "dm_workers (open_session n i out d) = dm_workers d"
  "dm_owner (open_session n i out d) = dm_owner d" "dm_enabled (open_session n i out d) = dm_enabled d"
  "dm_next (open_session n i out d) = Suc n"
  "dm_sessions (close_session k d) = dm_sessions d" "dm_workers (close_session k d) = dm_workers d"
  "dm_owner (close_session k d) = dm_owner d" "dm_enabled (close_session k d) = dm_enabled d"
  "dm_next (close_session k d) = dm_next d"
  by (simp_all add: open_session_def close_session_def split: option.split)

lemma inv_turn:
  assumes i: "daemon_inv s" and w: "w \<in> set (dm_workers (sy_daemon s))"
  shows "daemon_inv (s\<lparr>sy_daemon := worker_turn x out w (sy_daemon s)\<rparr>)"
proof -
  let ?d = "sy_daemon s"
  let ?es = "new_events (run_log (wk_run w)) (run_log (run_turn x (wk_run w)))"
  let ?f = "\<lambda>v. v\<lparr>wk_run := run_turn x (wk_run w),
      wk_session := (if EvConnect \<in> set ?es then Some (dm_next ?d) else wk_session v),
      wk_todo := concat (map (callback_actions (worker_id v) (dm_next ?d) out) ?es)\<rparr>"
  define d1 where "d1 = (if EvConnect \<in> set ?es then open_session (dm_next ?d) (worker_id w) out ?d
     else if EvClose \<in> set ?es then close_session (wk_session w) ?d else ?d)"
  have e: "worker_turn x out w ?d = update_worker (wk_token w) ?f d1"
    by (simp add: worker_turn_def Let_def d1_def)
  have b: "books ?d" and o: "owner_ok ?d" using i by (simp_all add: daemon_inv_def)
  have ws: "dm_workers d1 = dm_workers ?d" "dm_sessions d1 = dm_sessions ?d" "dm_owner d1 = dm_owner ?d"
    "dm_enabled d1 = dm_enabled ?d" "dm_next ?d \<le> dm_next d1"
    by (simp_all add: d1_def)
  have "staff d1 = staff ?d" "entries d1 = entries ?d" using ws by (simp_all add: staff_def entries_def)
  then have "books d1" using b ws(2,5) unfolding books_def by fastforce
  moreover have "owner_ok d1" using o owner_cong [of d1 ?d] ws by simp
  ultimately have "books (update_worker (wk_token w) ?f d1)" "owner_ok (update_worker (wk_token w) ?f d1)"
    using books_update_worker [of ?f "wk_token w" d1] owner_cong [of "update_worker (wk_token w) ?f d1" d1]
    by (simp_all add: worker_id_def)
  moreover have "todo_ok v" if v: "v \<in> set (dm_workers (update_worker (wk_token w) ?f d1))" for v
  proof -
    obtain u where u: "u \<in> set (dm_workers ?d)" "v = (if wk_token u = wk_token w then ?f u else u)"
      using update_workerE [OF v] unfolding ws(1) .
    have "todo_ok (?f u)"
      using callback_own by (auto simp: todo_ok_def worker_id_def list_all_iff)
    then show ?thesis using u i by (cases "wk_token u = wk_token w") (simp_all add: daemon_inv_def)
  qed
  moreover have "pool_ok (s\<lparr>sy_daemon := x\<rparr>)" for x using i by (simp add: daemon_inv_def pool_ok_def)
  ultimately show ?thesis unfolding e by (simp add: daemon_inv_def)
qed

lemma end_worker_books:
  assumes b: "books d" and w: "w \<in> set (dm_workers d)"
  shows "books (fst (end_worker w alive d))"
proof -
  let ?d = "fst (end_worker w alive d)" and ?i = "worker_id w" and ?t = "wk_token w"
  have s: "dm_sessions ?d = map_del ?i (dm_sessions d)"
    "dm_workers ?d = filter (\<lambda>v. wk_token v \<noteq> ?t) (dm_workers d)" "dm_next ?d = dm_next d"
    by (simp_all add: end_worker_def clear_session_def)
  have k: "(j, t) \<in> set (staff d) \<Longrightarrow> (t = ?t) = (j = ?i)" for j t
    using same_token [OF b _ w] same_id [OF b _ w] by (auto simp: staff_def)
  have st: "staff ?d = filter (\<lambda>e. snd e \<noteq> ?t) (staff d)"
    by (simp add: staff_def s filter_map comp_def)
  have "set (entries ?d) = {e \<in> set (entries d). fst e \<noteq> ?i}"
    by (auto simp: entries_def s set_map_del)
  also have "\<dots> = set (staff ?d)"
  proof -
    have "set (entries d) = set (staff d)" using b by (simp add: books_def)
    then show ?thesis using k unfolding st by auto
  qed
  finally have "set (entries ?d) = set (staff ?d)" .
  moreover have "wf_map (dm_sessions ?d)" using b by (simp add: s books_def)
  ultimately show ?thesis using b unfolding books_def st s
    by (auto simp: distinct_map_filter)
qed

lemma end_worker_owner:
  assumes "owner_ok d" shows "owner_ok (fst (end_worker w alive d))"
  unfolding end_worker_def clear_session_def fst_conv
  by (rule owner_drop_gone [OF assms]) (simp_all add: active_def active_of_def)

lemma inv_end:
  assumes i: "daemon_inv s" and w: "w \<in> set (dm_workers (sy_daemon s))"
  shows "daemon_inv (end_step w alive s)"
proof -
  let ?d = "sy_daemon s"
  obtain d further where e: "end_worker w alive ?d = (d, further)" by fastforce
  have "dm_workers d = filter (\<lambda>v. wk_token v \<noteq> wk_token w) (dm_workers ?d)"
    using e by (auto simp: end_worker_def clear_session_def)
  moreover have "list_all plain further" using e by (auto simp: end_worker_def clear_session_def)
  moreover have "books d" "owner_ok d"
    using end_worker_books [of ?d w alive] end_worker_owner [of ?d w alive] i w by (simp_all add: e daemon_inv_def)
  ultimately show ?thesis using i
    by (auto simp: end_step_def e daemon_inv_def pool_ok_def dest: plain_no_callback)
qed

lemma inv_terminate: "daemon_inv s \<Longrightarrow> daemon_inv (s\<lparr>sy_daemon := terminate (sy_daemon s)\<rparr>)"
proof -
  assume i: "daemon_inv s"
  have "books (terminate d) = books d" for d
    by (rule books_cong) (simp_all add: terminate_def staff_def entries_def worker_id_def)
  moreover have "owner_ok (terminate d) = owner_ok d" for d
    by (rule owner_cong) (simp_all add: terminate_def)
  moreover have "\<forall>w \<in> set (dm_workers (terminate (sy_daemon s))). todo_ok w"
    using i by (auto simp: terminate_def daemon_inv_def)
  ultimately show ?thesis using i by (simp add: daemon_inv_def pool_ok_def)
qed

lemma inv_step: "daemon_inv s \<Longrightarrow> daemon_inv (sched_step E c s)"
proof -
  assume i: "daemon_inv s"
  show ?thesis
  proof (cases c)
    case (FromSocket k v r)
    have "daemon_inv (s\<lparr>sy_daemon := open_connection k (sy_daemon s)\<rparr>)"
      by (rule inv_quiet [OF i]) (simp add: open_connection_def core_def)
    then show ?thesis using inv_arrive plain_request by (simp add: FromSocket)
  next
    case (FromPhone n e)
    then show ?thesis using i inv_arrive plain_phone by (simp split: option.split)
  next
    case (FromHost e)
    then show ?thesis using i inv_arrive plain_host by simp
  next
    case (StatusReport n st)
    have "daemon_inv (s\<lparr>sy_daemon := (sy_daemon s)\<lparr>dm_objs := x\<rparr>\<rparr>)" for x
      by (rule inv_quiet [OF i]) (simp add: core_def)
    then show ?thesis using i by (simp add: StatusReport split: option.split)
  next
    case Startup
    then show ?thesis using i inv_arrive by simp
  next
    case Terminate
    then show ?thesis using i inv_terminate by simp
  next
    case (Shutdown ok alive)
    then show ?thesis using i inv_arrive plain_shutdown by simp
  next
    case (RunThread j)
    then show ?thesis using i inv_run_thread by simp
  next
    case (RunWorker t)
    then show ?thesis using i inv_run_worker by simp
  next
    case (WorkerTurn t x out)
    then show ?thesis using i inv_turn [OF i] by (auto split: option.split dest: idle_workerD)
  next
    case (NoClient t alive)
    then show ?thesis using i inv_end [OF i] by (auto split: option.split dest: idle_workerD)
  next
    case (EndWorker t alive)
    then show ?thesis using i inv_end [OF i] by (auto split: option.split dest: idle_workerD)
  qed
qed

lemma inv_start: "daemon_start E s \<Longrightarrow> daemon_inv s"
proof -
  assume "daemon_start E s"
  then have "core (sy_daemon s) = ([], [], 0, [], [], [])" "sy_pool s = []"
    by (auto simp: daemon_start_def new_daemon_def core_def)
  moreover have "sole [] (get_or False []) A" for A by (rule soleI) (simp_all add: get_or_def)
  ultimately show ?thesis
    by (simp add: daemon_inv_def core_def books_def staff_def entries_def owner_ok_def pool_ok_def)
qed

interpretation goroutines: step_system "daemon_start E" "daemon_step E" daemon_inv for E
proof unfold_locales
  show "daemon_start E s \<Longrightarrow> daemon_inv s" for s by (rule inv_start)
  show "daemon_inv s \<Longrightarrow> daemon_step E s t \<Longrightarrow> daemon_inv t" for s t
    unfolding daemon_step_def using inv_step by blast
qed

subsection \<open>Who may type\<close>

definition apply_pending :: "string \<Rightarrow> daemon_sys \<Rightarrow> bool" where
  "apply_pending i s \<longleftrightarrow>
     (\<exists>as \<in> set (sy_pool s). \<exists>alive created ev. ApplyInput i alive created ev \<in> set as)"

lemma plain_apply: "list_all plain as \<Longrightarrow> ApplyInput i alive created ev \<notin> set as"
  by (auto simp: list_all_iff plain_def)

lemma pending_arrive: "list_all plain as \<Longrightarrow> apply_pending i (arrive as s) = apply_pending i s"
  using plain_apply by (auto simp: apply_pending_def arrive_def)

lemma pending_pool: "sy_pool s' = sy_pool s \<Longrightarrow> apply_pending i s' = apply_pending i s"
  by (simp add: apply_pending_def)

lemma pending_end: "apply_pending i (end_step w alive s) = apply_pending i s"
proof -
  obtain d further where e: "end_worker w alive (sy_daemon s) = (d, further)" by fastforce
  then have "list_all plain further" by (auto simp: end_worker_def clear_session_def)
  then show ?thesis using plain_apply by (auto simp: end_step_def e apply_pending_def)
qed

lemma apply_run_thread:
  assumes "apply_pending i (run_thread E j s)" "\<not> apply_pending i s"
  shows "may_input i (sy_daemon s)"
proof -
  have j: "j < length (sy_pool s)" using assms by (auto simp: run_thread_def split: if_splits)
  show ?thesis
  proof (cases "sy_pool s ! j")
    case Nil
    then show ?thesis using assms j by (simp add: run_thread_def)
  next
    case (Cons a as)
    obtain d further where e: "act E a (sy_daemon s) = (d, further)" by fastforce
    have "apply_pending i \<lparr>sy_daemon = d, sy_pool = (sy_pool s)[j := further @ as]\<rparr>"
      using assms(1) j Cons by (simp add: run_thread_def e)
    then obtain bs alive created ev where bs: "bs \<in> set ((sy_pool s)[j := further @ as])"
      "ApplyInput i alive created ev \<in> set bs"
      unfolding apply_pending_def by auto
    have "bs \<notin> set (sy_pool s)" using bs(2) assms(2) unfolding apply_pending_def by blast
    then have "bs = further @ as" using bs(1) set_update_subset_insert [of "sy_pool s" j "further @ as"] by blast
    moreover have "ApplyInput i alive created ev \<notin> set as"
      using assms(2) nth_mem [OF j] Cons unfolding apply_pending_def by (metis list.set_intros(2))
    ultimately have "ApplyInput i alive created ev \<in> set (snd (act E a (sy_daemon s)))" using bs(2) e by simp
    then show ?thesis using act_applies [of "ApplyInput i alive created ev" E a "sy_daemon s"] by auto
  qed
qed

lemma pending_step:
  assumes "apply_pending i (sched_step E c s)" "\<not> apply_pending i s"
  shows "may_input i (sy_daemon s)"
proof (cases c)
  case (FromSocket k v r)
  then show ?thesis using assms pending_pool [of "s\<lparr>sy_daemon := open_connection k (sy_daemon s)\<rparr>" s]
    by (simp add: pending_arrive [OF plain_request])
next
  case (FromPhone n e)
  then show ?thesis using assms by (auto simp: pending_arrive [OF plain_phone] split: option.splits)
next
  case (FromHost e)
  then show ?thesis using assms by (simp add: pending_arrive [OF plain_host])
next
  case (StatusReport n st)
  then show ?thesis using assms by (auto simp: apply_pending_def split: option.splits)
next
  case (Shutdown ok alive)
  then show ?thesis using assms by (simp add: pending_arrive [OF plain_shutdown])
next
  case (RunThread j)
  then show ?thesis using assms apply_run_thread by simp
next
  case (RunWorker t)
  then have "sy_pool (sched_step E c s) = sy_pool s"
    by (simp add: run_worker_def split: option.split list.split prod.split)
  then show ?thesis using assms pending_pool by blast
next
  case (WorkerTurn t x out)
  then have "sy_pool (sched_step E c s) = sy_pool s" by (simp split: option.split)
  then show ?thesis using assms pending_pool by blast
next
  case Startup
  then show ?thesis using assms by (simp add: pending_arrive)
next
  case Terminate
  then show ?thesis using assms by (simp add: apply_pending_def)
next
  case (NoClient t alive)
  then show ?thesis using assms by (simp add: pending_end split: option.splits if_splits)
next
  case (EndWorker t alive)
  then show ?thesis using assms by (simp add: pending_end split: option.splits if_splits)
qed

lemma reach_run: "daemon_start E s \<Longrightarrow> reach (daemon_start E) (daemon_step E) (fold (sched_step E) cs s)"
proof (induction cs rule: rev_induct)
  case Nil
  then show ?case by (simp add: reach_init)
next
  case (snoc c cs)
  have "daemon_step E (fold (sched_step E) cs s) (sched_step E c (fold (sched_step E) cs s))"
    by (auto simp: daemon_step_def)
  then show ?case using reach_step snoc by fastforce
qed

lemma owner_connected:
  "daemon_inv s \<Longrightarrow> i \<noteq> [] \<Longrightarrow> may_input i (sy_daemon s) \<Longrightarrow> active_of i (sy_daemon s) \<noteq> None"
  unfolding daemon_inv_def owner_ok_def may_input_def by (metis active_def soleD(3))

subsection \<open>A daemon with one phone\<close>

definition the_phone :: string where "the_phone = pr_peer_id sample_peer"

definition home_env :: daemon_env where
  "home_env = \<lparr>de_crypto = plain_crypto, de_yaml = \<lparr>yaml_marshal = (\<lambda>_. Some []), yaml_unmarshal = (\<lambda>_ _. None)\<rparr>,
     de_base = None, de_dir = ''/quava'', de_tmp = ''/quava/tmp'', de_bus = one_player_bus, de_tools = one_sink,
     de_marshal = (\<lambda>_. Some []), de_hostname = None\<rparr>"

definition home_store :: config_file where
  "home_store = empty_config\<lparr>cf_identity := Some host_identity, cf_devices := [(the_phone, sample_peer)],
     cf_input_auto := [(the_phone, True)]\<rparr>"

definition home_start :: daemon_sys where
  "home_start = \<lparr>sy_daemon = new_daemon home_env home_store [] True True True idle_world, sy_pool = []\<rparr>"

definition home_turn :: turn_outcome where
  "home_turn = \<lparr>to_addr = Some ''10.0.0.2:40000'', to_exch = ping_exchange, to_listen_ok = True, to_stop_ok = True,
     to_alive = 8\<rparr>"

definition home_choices :: "choice list" where
  "home_choices = [Startup, RunThread 0, RunThread 0, WorkerTurn 0 InStep home_turn, WorkerTurn 0 InConnected home_turn,
     RunWorker 0, RunWorker 0, RunWorker 0]"

definition home_run :: run_state where
  "home_run = \<lparr>run_phase = RunConnected, run_backoff = second, run_cancelled = False,
     run_log = [EvMultimedia, EvConnect, EvDispatcher, EvPrepare]\<rparr>"

definition home_daemon :: daemon where
  "home_daemon = (new_daemon home_env home_store [] True True True idle_world)
     \<lparr>dm_sessions := [(the_phone, \<lparr>ms_cancel = 0, ms_active = Some 1\<rparr>)],
      dm_objs := [(1, \<lparr>ls_peer = the_phone, ls_addr = to_addr home_turn, ls_gone = False, ls_exch = ping_exchange,
                       ls_status = None\<rparr>)],
      dm_workers := [\<lparr>wk_token = 0, wk_identity = host_identity, wk_peer = sample_peer, wk_run = home_run,
                      wk_session = Some 1, wk_todo = []\<rparr>],
      dm_next := 2, dm_enabled := [(the_phone, True)], dm_owner := the_phone,
      dm_ssh := Some (snd (start_ssh True True (set_allowed_address the_phone (to_addr home_turn)
                        (new_ssh_service '':2222'' True))))\<rparr>"

lemma the_phone_facts: "canon the_phone = the_phone" "the_phone \<noteq> []" "pr_peer_id sample_peer = the_phone"
  using sample_peer_ok by (simp_all add: the_phone_def)

lemma home_store_facts:
  "get_device (Some home_store) the_phone = Some sample_peer"
  "get_identity (Some home_store) = Some host_identity"
  "list_devices (Some home_store) = [sample_peer]"
  "auto_connect (Some home_store) the_phone"
  "input_auto (Some home_store) the_phone"
  by (simp_all add: home_store_def get_device_def get_identity_def list_devices_def auto_connect_def input_auto_def
      empty_config_def get_or_def the_phone_facts)

lemma new_daemon_facts:
  "dm_store (new_daemon E f fs a b c w) = f" "dm_sessions (new_daemon E f fs a b c w) = []"
  "dm_workers (new_daemon E f fs a b c w) = []" "dm_objs (new_daemon E f fs a b c w) = []"
  "dm_next (new_daemon E f fs a b c w) = 0" "dm_owner (new_daemon E f fs a b c w) = []"
  "dm_enabled (new_daemon E f fs a b c w) = []" "dm_stopped (new_daemon E f fs a b c w) = False"
  "dm_ssh (new_daemon E f fs True b c w) = Some (new_ssh_service '':2222'' True)"
  "dm_replies (new_daemon E f fs a b c w) = []" "dm_emulator (new_daemon E f fs a b c w) = None"
  by (simp_all add: new_daemon_def)

definition home_calling :: daemon where
  "home_calling = (new_daemon home_env home_store [] True True True idle_world)
     \<lparr>dm_sessions := [(the_phone, \<lparr>ms_cancel = 0, ms_active = None\<rparr>)], dm_objs := dm_objs home_daemon, dm_next := 2,
      dm_workers := [\<lparr>wk_token = 0, wk_identity = host_identity, wk_peer = sample_peer, wk_run = home_run,
        wk_session = Some 1,
        wk_todo = [AllowAddress the_phone (to_addr home_turn), PublishSession the_phone 1, StartSsh True]\<rparr>]\<rparr>"

lemma home_calls: "fold (sched_step home_env) (take 5 home_choices) home_start = \<lparr>sy_daemon = home_calling, sy_pool = [[]]\<rparr>"
proof -
  let ?d = "new_daemon home_env home_store [] True True True idle_world"
  let ?w = "\<lparr>wk_token = 0, wk_identity = host_identity, wk_peer = sample_peer, wk_run = run_start, wk_session = None,
      wk_todo = []\<rparr>"
  define d1 where "d1 = ?d\<lparr>dm_sessions := [(the_phone, \<lparr>ms_cancel = 0, ms_active = None\<rparr>)], dm_next := 1,
      dm_workers := [?w]\<rparr>"
  have c: "run_start\<lparr>run_cancelled := False\<rparr> = run_start" by (simp add: run_start_def)
  have s1: "fold (sched_step home_env) [Startup, RunThread 0, RunThread 0] home_start = \<lparr>sy_daemon = d1, sy_pool = [[]]\<rparr>"
    by (simp add: home_start_def arrive_def run_thread_def start_auto_connect_def new_daemon_facts home_store_facts
        the_phone_facts start_session_def answer_def d1_def c)
  define d2 where "d2 = d1\<lparr>dm_workers := [?w\<lparr>wk_run := run_start\<lparr>run_phase := RunDialing\<rparr>\<rparr>]\<rparr>"
  have s2: "sched_step home_env (WorkerTurn 0 InStep home_turn) \<lparr>sy_daemon = d1, sy_pool = [[]]\<rparr> =
      \<lparr>sy_daemon = d2, sy_pool = [[]]\<rparr>"
    by (simp add: d1_def d2_def idle_worker_def find_worker_def worker_turn_def new_events_def run_turn_def
        run_start_def update_worker_def)
  have s3: "sched_step home_env (WorkerTurn 0 InConnected home_turn) \<lparr>sy_daemon = d2, sy_pool = [[]]\<rparr> =
      \<lparr>sy_daemon = home_calling, sy_pool = [[]]\<rparr>"
    by (simp add: d1_def d2_def home_calling_def idle_worker_def find_worker_def worker_turn_def new_events_def run_turn_def
        run_start_def update_worker_def open_session_def callback_actions_def on_connect_actions_def home_run_def
        worker_id_def the_phone_facts home_daemon_def home_turn_def new_daemon_facts)
  show ?thesis using s1 s2 s3 by (simp add: home_choices_def)
qed

lemma home_connected: "fold (sched_step home_env) home_choices home_start = \<lparr>sy_daemon = home_daemon, sy_pool = [[]]\<rparr>"
proof -
  have d: "home_choices = take 5 home_choices @ [RunWorker 0, RunWorker 0, RunWorker 0]"
    by (simp add: home_choices_def)
  have "fold (sched_step home_env) [RunWorker 0, RunWorker 0, RunWorker 0] \<lparr>sy_daemon = home_calling, sy_pool = [[]]\<rparr> =
      \<lparr>sy_daemon = home_daemon, sy_pool = [[]]\<rparr>"
    by (simp add: home_calling_def run_worker_def find_worker_def update_worker_def allow_address_def
        publish_session_def set_active_def free_input_def own_input_def home_store_facts new_daemon_facts
        start_ssh_service_def home_daemon_def)
  then show ?thesis by (subst d) (simp only: fold_append comp_apply home_calls)
qed

lemma home_starts: "daemon_start home_env home_start"
  unfolding daemon_start_def home_start_def by blast

lemma home_reach: "reach (daemon_start home_env) (daemon_step home_env) \<lparr>sy_daemon = home_daemon, sy_pool = [[]]\<rparr>"
  using reach_run [OF home_starts, of home_choices] by (simp add: home_connected)

lemma home_store_is: "dm_store home_daemon = home_store"
  by (simp add: home_daemon_def new_daemon_facts)

subsection \<open>Properties of every interleaving\<close>

text \<open>C9. The daemon never works twice for a phone: in every state it can reach, through whatever
  interleaving, the goroutines of sessions are of different phones, and the sessions it lists
  are exactly these, each with the cancel function of its goroutine.\<close>

theorem one_goroutine_per_phone:
  assumes "reach (daemon_start E) (daemon_step E) s"
  shows "distinct (map worker_id (dm_workers (sy_daemon s))) \<and>
    set (map (\<lambda>(i, m). (i, ms_cancel m)) (dm_sessions (sy_daemon s))) =
    set (map (\<lambda>w. (worker_id w, wk_token w)) (dm_workers (sy_daemon s)))"
proof -
  have "books (sy_daemon s)" using goroutines.reach_inv [OF assms] by (simp add: daemon_inv_def)
  then show ?thesis unfolding books_def staff_keys(1) by (simp only: entries_def staff_def)
qed

lemma one_goroutine_per_phone_witness:
  "distinct (map worker_id (dm_workers home_daemon)) \<and>
   set (map (\<lambda>(i, m). (i, ms_cancel m)) (dm_sessions home_daemon)) =
   set (map (\<lambda>w. (worker_id w, wk_token w)) (dm_workers home_daemon)) \<and> length (dm_workers home_daemon) = 1"
  using one_goroutine_per_phone [OF home_reach] by (simp add: home_daemon_def)

text \<open>C6. At most one phone has the remote input, whatever the interleaving: a device for which it is
  enabled is the owner, its session is connected, and no other device has it enabled.\<close>

theorem one_input_owner:
  assumes "reach (daemon_start E) (daemon_step E) s"
    and "get_or False (dm_enabled (sy_daemon s)) i" "i \<noteq> []"
  shows "dm_owner (sy_daemon s) = i \<and> active_of i (sy_daemon s) \<noteq> None \<and>
    (\<forall>j. get_or False (dm_enabled (sy_daemon s)) j \<longrightarrow> j = i \<or> j = [])"
proof -
  have o: "sole (dm_owner (sy_daemon s)) (get_or False (dm_enabled (sy_daemon s))) (active (sy_daemon s))"
    using goroutines.reach_inv [OF assms(1)] by (simp add: daemon_inv_def owner_ok_def)
  have "j = i \<or> j = []" if "get_or False (dm_enabled (sy_daemon s)) j" for j
    using soleD(2) [OF o _ that] soleD(2) [OF o assms(3,2)] by metis
  then show ?thesis using soleD(2,3) [OF o assms(3,2)] by (simp add: active_def)
qed

lemma one_input_owner_witness:
  "dm_owner home_daemon = the_phone \<and> active_of the_phone home_daemon \<noteq> None"
  using one_input_owner [OF home_reach, of the_phone] the_phone_facts(2)
  by (simp add: home_daemon_def get_or_def)







end
