(* ===== verification/Daemon_Answers.thy ===== *)
theory Daemon_Answers
  imports Daemon_Invariants
begin

text \<open>
  The answers of the control socket. \<open>promises\<close> counts the answers an action owes a connection; no
  action loses or duplicates one. \<open>rank\<close> decreases from an action to the actions that follow it, so
  every thread finishes.
\<close>

subsection \<open>Answers\<close>

fun promises :: "nat \<Rightarrow> action \<Rightarrow> nat" where
  "promises k (Control j c) = of_bool (j = k)"
| "promises k (Media j c) = of_bool (j = k)"
| "promises k (Reply j r) = of_bool (j = k)"
| "promises k (StartSession i o1) = of_bool (o1 = Some k)"
| "promises k (ForgetDevice i x alive o1) = of_bool (o1 = Some k)"
| "promises k (ResetInputFor j alive) = of_bool (j = k)"
| "promises k (AskFor j n op) = of_bool (j = k)"
| "promises k (ClipboardReady j n r) = of_bool (j = k)"
| "promises k (RefreshStore j r p) = of_bool (j = k)"
| "promises k (AutoConnectPaired j r) = of_bool (j = k)"
| "promises k _ = 0"

definition owed :: "nat \<Rightarrow> action list \<Rightarrow> nat" where
  "owed k as = sum_list (map (promises k) as)"

definition answered :: "nat \<Rightarrow> daemon \<Rightarrow> nat" where
  "answered k d = length (filter (\<lambda>(j, _). j = k) (dm_replies d))"

lemma owed_simps [simp]: "owed k [] = 0" "owed k (a # as) = promises k a + owed k as" "owed k (as @ bs) = owed k as + owed k bs"
  by (simp_all add: owed_def)

lemma owed_answer [simp]: "owed k (answer o1 r) = of_bool (o1 = Some k)"
  by (cases o1) (simp_all add: answer_def)

lemma owed_map [simp]: "(\<And>x. promises k (f x) = 0) \<Longrightarrow> owed k (map f xs) = 0"
  by (induction xs) simp_all

lemma owed_control: "owed k (snd (run_control E j c d)) = of_bool (j = k)"
proof (cases c)
  case (SetAutoConnect i on x)
  then show ?thesis by (auto simp: set_auto_connect_op_def split: prod.split option.split)
next
  case (SetInputAuto i on x)
  then show ?thesis by (auto simp: set_input_auto_op_def split: prod.split option.split)
next
  case (SetClipboardSync i on x)
  then show ?thesis by (simp add: set_clipboard_sync_op_def split: prod.split)
next
  case (SetNotificationSync i dir x)
  then show ?thesis by (simp add: set_notification_sync_op_def split: prod.split)
next
  case (FiltersSet nf x)
  then show ?thesis by (auto simp: filters_set_def Let_def split: prod.split option.split)
next
  case (PairDevice i p)
  then show ?thesis by (auto simp: pair_device_def split: option.split prod.split sum.split)
next
  case (ClipboardStart ok)
  then show ?thesis
    by (auto simp: clipboard_service_start_def split: prod.split option.split clipboard_error.split)
qed (simp_all add: disconnect_def unpair_def with_active_def clipboard_service_stop_def set_input_enabled_def
      clipboard_push_def filters_get_def devices_op_def discover_op_def split: option.split)

lemma owed_sound_reply:
  "owed k (snd (case ask_sound f d of (Inl e, d') \<Rightarrow> (d', [Reply j (g e)]) | (Inr x, d') \<Rightarrow> (d', [Reply j (h x)]))) =
     of_bool (j = k)"
  by (cases "ask_sound f d"; cases "fst (ask_sound f d)") auto

lemma owed_media: "owed k (snd (run_media E j c d)) = of_bool (j = k)"
proof (cases c)
  case (MediaSetActive n)
  then show ?thesis by (simp add: media_set_active_def split: prod.split option.split)
qed (simp_all add: media_list_def media_active_def media_control_def media_auto_def
      audio_list_def audio_control_def Let_def owed_sound_reply split: prod.split)

lemma owed_event: "owed k (snd (run_event E e d)) = 0"
proof (cases e)
  case (HostChanged now bs)
  then show ?thesis by (simp add: host_changed_def split: prod.split sum.split option.split)
qed (simp_all add: take_clipboard_def push_clipboard_def push_notification_def push_clear_def with_active_sessions_def
      check_input_def)

lemma act_owes: "\<forall>j r. a \<noteq> Reply j r \<Longrightarrow> owed k (snd (act E a d)) = promises k a"
proof (cases a)
  case (StartSession i k)
  then show ?thesis by (simp add: start_session_def Let_def split: option.split)
next
  case (Control j c)
  then show ?thesis by (simp add: owed_control)
next
  case (Media j c)
  then show ?thesis by (simp add: owed_media)
next
  case (Event e)
  then show ?thesis by (simp add: owed_event)
qed (auto simp: stop_ssh_if_inactive_def forget_device_def cancel_all_def unpublish_session_def
    ask_for_def clipboard_push_ready_def refresh_store_def auto_connect_paired_def start_auto_connect_def
    split: prod.split option.split)

lemma frame_replies [simp]:
  "dm_replies (own_input i d) = dm_replies d" "dm_replies (drop_input i d) = dm_replies d"
  "dm_replies (set_active i a d) = dm_replies d" "dm_replies (cancel_session t d) = dm_replies d"
  by (simp_all add: own_input_def drop_input_def set_active_def cancel_session_def split: option.split)

lemma fold_cancel_replies [simp]: "dm_replies (fold cancel_session ts d) = dm_replies d"
  by (induction ts arbitrary: d) simp_all

lemma store_replies: "change_store E x g d = (e, d') \<Longrightarrow> dm_replies d' = dm_replies d"
  using core_change_store_eq [of E x g d e d'] by (simp add: core_def)

lemma act_replies: "\<forall>j r. a \<noteq> Reply j r \<Longrightarrow> dm_replies (fst (act E a d)) = dm_replies d"
proof (cases "quiet_action a")
  case True
  then show ?thesis using core_quiet [OF True, of E d] by (simp add: core_def)
next
  case False
  assume n: "\<forall>j r. a \<noteq> Reply j r"
  show ?thesis
  proof (cases a)
    case (Control k c)
    then show ?thesis
    proof (cases c)
      case (SetInputAuto i on x)
      then show ?thesis using store_replies [of E x "set_input_auto i on" d]
        by (auto simp: Control set_input_auto_op_def split: option.split prod.split)
    next
      case (SetInputEnabled i on alive)
      then show ?thesis by (simp add: Control set_input_enabled_def)
    qed (use False Control in simp_all)
  next
    case (StartSession i k)
    then show ?thesis by (simp add: start_session_def Let_def split: option.split)
  next
    case (ForgetDevice i x alive k)
    then show ?thesis using store_replies [of E x "remove_device i" _]
      by (auto simp: forget_device_def split: prod.split)
  qed (use False n in \<open>simp_all add: publish_session_def unpublish_session_def cancel_all_def Let_def\<close>)
qed

lemma act_answers:
  "answered k (fst (act E a d)) + owed k (snd (act E a d)) = answered k d + promises k a"
proof (cases "\<exists>j r. a = Reply j r")
  case True
  then show ?thesis by (auto simp: answered_def send_response_def)
next
  case False
  then show ?thesis using act_owes [of a k E d] act_replies [of a E d] by (simp add: answered_def)
qed

lemma owed_worker: "list_all (own_action i) as \<Longrightarrow> owed k as = 0"
proof (induction as)
  case (Cons a as)
  then show ?case by (cases a) (simp_all add: own_action_def)
qed simp

definition pending :: "nat \<Rightarrow> daemon_sys \<Rightarrow> nat" where
  "pending k s = sum_list (map (owed k) (sy_pool s))"

lemma pending_arrived [simp]: "pending k (arrive as s) = pending k s + owed k as"
  by (simp add: pending_def arrive_def)

fun asks :: "nat \<Rightarrow> choice \<Rightarrow> bool" where
  "asks k (FromSocket j v r) \<longleftrightarrow> j = k"
| "asks k _ \<longleftrightarrow> False"

lemma owed_if: "owed k as = n \<Longrightarrow> owed k bs = n \<Longrightarrow> owed k (if c then as else bs) = n"
  by simp

lemma owed_request: "owed k (handle_request j v r) = of_bool (j = k)"
proof (cases r)
  case (Some q)
  have "owed k (request_actions j v q) = of_bool (j = k)"
    unfolding request_actions_def Let_def by (intro owed_if) simp_all
  then show ?thesis by (simp add: handle_request_def Some)
qed (simp add: handle_request_def)

lemma owed_phone: "owed k (phone_actions i e) = 0" "owed k (host_actions h) = 0" "owed k (shutdown_actions ok alive) = 0"
  by (simp_all add: phone_actions_def host_actions_def shutdown_actions_def split: phone_event.split host_event.split)

lemma thread_answers:
  "answered k (sy_daemon (run_thread E j s)) + pending k (run_thread E j s) = answered k (sy_daemon s) + pending k s"
proof (cases "j < length (sy_pool s) \<and> sy_pool s ! j \<noteq> []")
  case True
  then obtain a as where p: "j < length (sy_pool s)" "sy_pool s ! j = a # as" by (cases "sy_pool s ! j") auto
  obtain d further where e: "act E a (sy_daemon s) = (d, further)" by fastforce
  have "pending k \<lparr>sy_daemon = d, sy_pool = (sy_pool s)[j := further @ as]\<rparr> + promises k a = pending k s + owed k further"
    using p elem_le_sum_list [of j "map (owed k) (sy_pool s)"]
    by (simp add: pending_def map_update sum_list_update)
  then show ?thesis using p e act_answers [of k E a "sy_daemon s"] by (simp add: run_thread_def)
next
  case False
  then show ?thesis by (auto simp: run_thread_def split: list.split)
qed

lemma worker_answers:
  assumes "daemon_inv s"
  shows "answered k (sy_daemon (run_worker E t s)) = answered k (sy_daemon s) \<and> sy_pool (run_worker E t s) = sy_pool s"
proof (cases "find_worker t (sy_daemon s)")
  case (Some w)
  show ?thesis
  proof (cases "wk_todo w")
    case (Cons a as)
    have "own_action (worker_id w) a"
      using assms find_workerD [OF Some] Cons by (auto simp: daemon_inv_def todo_ok_def)
    then have "a \<noteq> Reply j r" for j r by (auto simp: own_action_def)
    then have "dm_replies (fst (act E a (sy_daemon s))) = dm_replies (sy_daemon s)" using act_replies by blast
    moreover obtain d further where "act E a (sy_daemon s) = (d, further)" by fastforce
    ultimately show ?thesis using Some Cons by (simp add: run_worker_def answered_def update_worker_def)
  qed (simp add: run_worker_def Some)
qed (simp add: run_worker_def)

lemma end_answers: "answered k (sy_daemon (end_step w alive s)) + pending k (end_step w alive s) = answered k (sy_daemon s) + pending k s"
  by (auto simp: end_step_def end_worker_def clear_session_def answered_def pending_def)

lemma turn_replies: "dm_replies (worker_turn x out w d) = dm_replies d"
  by (simp add: worker_turn_def Let_def update_worker_def open_session_def close_session_def split: option.split)

lemma step_answers:
  assumes "daemon_inv s"
  shows "answered k (sy_daemon (sched_step E c s)) + pending k (sched_step E c s) =
    answered k (sy_daemon s) + pending k s + of_bool (asks k c)"
proof (cases c)
  case (FromSocket j v r)
  then show ?thesis by (simp add: owed_request arrive_def pending_def answered_def open_connection_def)
next
  case (FromPhone n e)
  then show ?thesis by (simp add: owed_phone arrive_def pending_def split: option.split)
next
  case (FromHost e)
  then show ?thesis by (simp add: owed_phone arrive_def pending_def)
next
  case (StatusReport n st)
  then show ?thesis by (simp add: pending_def answered_def split: option.split)
next
  case (Shutdown ok alive)
  then show ?thesis by (simp add: owed_phone arrive_def pending_def)
next
  case (RunThread j)
  then show ?thesis using thread_answers by simp
next
  case (RunWorker t)
  then show ?thesis using worker_answers [OF assms] by (simp add: pending_def)
next
  case (WorkerTurn t x out)
  then show ?thesis by (simp add: turn_replies pending_def answered_def split: option.split)
next
  case Startup
  then show ?thesis by (simp add: arrive_def pending_def)
next
  case Terminate
  then show ?thesis by (simp add: pending_def answered_def terminate_def)
next
  case (NoClient t alive)
  then show ?thesis using end_answers by (simp split: option.split)
next
  case (EndWorker t alive)
  then show ?thesis using end_answers by (simp split: option.split)
qed



subsection \<open>Every thread finishes\<close>

fun rank :: "action \<Rightarrow> nat" where
  "rank (Control k c) = 5"
| "rank (Event (HostChanged now bs)) = 3"
| "rank (Event e) = 2"
| "rank (Media k c) = 1"
| "rank (RefreshStore k r p) = 3"
| "rank (AutoConnectPaired k r) = 2"
| "rank AutoConnectAll = 2"
| "rank (ForgetDevice i x alive k) = 2"
| "rank (ClipboardReady k n r) = 2"
| "rank (UnpublishSession i ok alive) = 2"
| "rank (StartSession i k) = 1"
| "rank (AskFor k n op) = 1"
| "rank (ResetInputFor k alive) = 1"
| "rank (StopSshIfInactive ok) = 1"
| "rank (CancelAll alive) = 1"
| "rank _ = 0"

definition below :: "nat \<Rightarrow> action list \<Rightarrow> bool" where
  "below n as \<longleftrightarrow> list_all (\<lambda>b. rank b < n) as"

lemma below_simps [simp]: "below n []" "below n (a # as) \<longleftrightarrow> rank a < n \<and> below n as"
  "below n (as @ bs) \<longleftrightarrow> below n as \<and> below n bs"
  by (simp_all add: below_def)

lemma below_answer [simp]: "0 < n \<Longrightarrow> below n (answer k r)"
  by (cases k) (simp_all add: answer_def)

lemma below_map [simp]: "(\<And>x. rank (f x) < n) \<Longrightarrow> below n (map f xs)"
  by (simp add: below_def list_all_iff)

lemma below_control: "below 5 (snd (run_control E j c d))"
proof (cases c)
  case (SetAutoConnect i on x)
  then show ?thesis by (auto simp: set_auto_connect_op_def split: prod.split option.split)
next
  case (SetInputAuto i on x)
  then show ?thesis by (auto simp: set_input_auto_op_def split: prod.split option.split)
next
  case (SetClipboardSync i on x)
  then show ?thesis by (simp add: set_clipboard_sync_op_def split: prod.split)
next
  case (SetNotificationSync i dir x)
  then show ?thesis by (simp add: set_notification_sync_op_def split: prod.split)
next
  case (FiltersSet nf x)
  then show ?thesis by (auto simp: filters_set_def Let_def split: prod.split option.split)
next
  case (PairDevice i p)
  then show ?thesis by (auto simp: pair_device_def split: option.split prod.split sum.split)
next
  case (ClipboardStart ok)
  then show ?thesis
    by (auto simp: clipboard_service_start_def split: prod.split option.split clipboard_error.split)
qed (simp_all add: disconnect_def unpair_def with_active_def clipboard_service_stop_def set_input_enabled_def
      clipboard_push_def filters_get_def devices_op_def discover_op_def split: option.split)

lemma below_sound_reply:
  "below (Suc 0) (snd (case ask_sound f d of (Inl e, d') \<Rightarrow> (d', [Reply j (g e)]) | (Inr x, d') \<Rightarrow> (d', [Reply j (h x)])))"
  by (cases "ask_sound f d"; cases "fst (ask_sound f d)") auto

lemma below_media: "below (Suc 0) (snd (run_media E j c d))"
proof (cases c)
  case (MediaSetActive n)
  then show ?thesis by (simp add: media_set_active_def split: prod.split option.split)
qed (simp_all add: media_list_def media_active_def media_control_def media_auto_def
      audio_list_def audio_control_def Let_def below_sound_reply split: prod.split)

lemma below_event: "below (rank (Event e)) (snd (run_event E e d))"
proof (cases e)
  case (HostChanged now bs)
  then show ?thesis by (simp add: host_changed_def split: prod.split sum.split option.split)
qed (simp_all add: take_clipboard_def push_clipboard_def push_notification_def push_clear_def with_active_sessions_def
      check_input_def)

lemma act_below: "below (rank a) (snd (act E a d))"
proof (cases a)
  case (StartSession i k)
  then show ?thesis by (simp add: start_session_def Let_def split: option.split)
next
  case (Control j c)
  then show ?thesis by (simp add: below_control)
next
  case (Media j c)
  then show ?thesis by (simp add: below_media)
next
  case (Event e)
  then show ?thesis using below_event by simp
qed (auto simp: stop_ssh_if_inactive_def forget_device_def cancel_all_def unpublish_session_def
    ask_for_def clipboard_push_ready_def refresh_store_def auto_connect_paired_def start_auto_connect_def
    split: prod.split option.split)

definition drains :: "daemon_env \<Rightarrow> nat \<Rightarrow> action list \<Rightarrow> bool" where
  "drains E j xs \<longleftrightarrow> (\<forall>as (s :: daemon_sys). j < length (sy_pool s) \<longrightarrow> sy_pool s ! j = xs @ as \<longrightarrow>
     (\<exists>n. j < length (sy_pool ((run_thread E j ^^ n) s)) \<and> sy_pool ((run_thread E j ^^ n) s) ! j = as))"

lemma drainsD:
  assumes "drains E j xs" "j < length (sy_pool s)" "sy_pool s ! j = xs @ as"
  obtains n where "j < length (sy_pool ((run_thread E j ^^ n) s))" "sy_pool ((run_thread E j ^^ n) s) ! j = as"
  using assms unfolding drains_def by blast

lemma drains_Nil: "drains E j []"
  unfolding drains_def by (auto intro: exI [of _ 0])

lemma drains_Cons:
  assumes "drains E j [a]" "drains E j xs" shows "drains E j (a # xs)"
  unfolding drains_def
proof (intro allI impI)
  fix as and s :: daemon_sys assume s: "j < length (sy_pool s)" "sy_pool s ! j = (a # xs) @ as"
  then obtain n where n: "j < length (sy_pool ((run_thread E j ^^ n) s))" "sy_pool ((run_thread E j ^^ n) s) ! j = xs @ as"
    using drainsD [OF assms(1) s(1), of "xs @ as"] by auto
  obtain m where "j < length (sy_pool ((run_thread E j ^^ m) ((run_thread E j ^^ n) s)))"
    "sy_pool ((run_thread E j ^^ m) ((run_thread E j ^^ n) s)) ! j = as"
    by (rule drainsD [OF assms(2) n])
  then show "\<exists>n. j < length (sy_pool ((run_thread E j ^^ n) s)) \<and> sy_pool ((run_thread E j ^^ n) s) ! j = as"
    by (intro exI [of _ "m + n"]) (simp add: funpow_add)
qed

lemma drains_list: "(\<And>a. a \<in> set xs \<Longrightarrow> drains E j [a]) \<Longrightarrow> drains E j xs"
proof (induction xs)
  case (Cons a xs)
  have "drains E j [a]" by (rule Cons.prems) simp
  moreover have "drains E j xs" by (rule Cons.IH, rule Cons.prems) simp
  ultimately show ?case by (rule drains_Cons)
qed (rule drains_Nil)

lemma drains_act: "(\<And>d. drains E j (snd (act E a d))) \<Longrightarrow> drains E j [a]"
  unfolding drains_def [of E j "[a]"]
proof (intro allI impI)
  fix as and s :: daemon_sys assume d: "\<And>d. drains E j (snd (act E a d))" and s: "j < length (sy_pool s)" "sy_pool s ! j = [a] @ as"
  let ?t = "\<lparr>sy_daemon = fst (act E a (sy_daemon s)), sy_pool = (sy_pool s)[j := snd (act E a (sy_daemon s)) @ as]\<rparr>"
  have t: "run_thread E j s = ?t" using s by (simp add: run_thread_def split: prod.split)
  obtain n where "j < length (sy_pool ((run_thread E j ^^ n) ?t))" "sy_pool ((run_thread E j ^^ n) ?t) ! j = as"
    by (rule drainsD [OF d, of "?t"]) (use s in simp_all)
  then show "\<exists>n. j < length (sy_pool ((run_thread E j ^^ n) s)) \<and> sy_pool ((run_thread E j ^^ n) s) ! j = as"
    unfolding t [symmetric] funpow_swap1 [symmetric] by (intro exI [of _ "Suc n"]) (simp add: funpow_swap1)
qed

lemma drains_action: "drains E j [a]"
proof (induction "rank a" arbitrary: a rule: less_induct)
  case less
  show ?case
  proof (rule drains_act, rule drains_list)
    fix d b assume "b \<in> set (snd (act E a d))"
    then have "rank b < rank a" using act_below [of a E d] by (auto simp: below_def list_all_iff)
    then show "drains E j [b]" by (rule less)
  qed
qed



end
