(* ===== verification/Daemon_Sessions.thy ===== *)
theory Daemon_Sessions
  imports Daemon_Invariants
begin

text \<open>
  How sessions of the daemon end: lost, cancelled by a request, or with the phone unpaired, and what is
  left of their SSH access and of the remote input.
\<close>

subsection \<open>Losing, cancelling and unpairing a session\<close>

text \<open>A session in use: the goroutine \<open>t\<close> waits for the end of the session of the phone \<open>i\<close>.\<close>

definition in_session :: "nat \<Rightarrow> string \<Rightarrow> daemon \<Rightarrow> bool" where
  "in_session t i d \<longleftrightarrow> (\<exists>w m. find_worker t d = Some w \<and> worker_id w = i \<and> wk_todo w = [] \<and>
     run_phase (wk_run w) = RunConnected \<and> \<not> run_cancelled (wk_run w) \<and>
     map_of (dm_sessions d) i = Some m \<and> ms_cancel m = t)"

lemma find_map_worker:
  assumes "\<And>w. wk_token (f w) = wk_token w"
  shows "find (\<lambda>w. wk_token w = t) (map (\<lambda>w. if wk_token w = t then f w else w) ws) =
    map_option f (find (\<lambda>w. wk_token w = t) ws)"
  using assms by (induction ws) auto

lemma find_update: "(\<And>w. wk_token (f w) = wk_token w) \<Longrightarrow> find_worker t (update_worker t f d) = map_option f (find_worker t d)"
  by (simp add: find_worker_def update_worker_def find_map_worker)

lemma cancel_as_update: "cancel_session t d = update_worker t (\<lambda>w. w\<lparr>wk_run := run_turn InCancel (wk_run w)\<rparr>) d"
  by (simp add: cancel_session_def update_worker_def)

lemma update_worker_ssh [simp]:
  "dm_ssh (update_worker t f d) = dm_ssh d" "dm_store (update_worker t f d) = dm_store d"
  "dm_replies (update_worker t f d) = dm_replies d"
  by (simp_all add: update_worker_def)

lemma find_worker_cong: "dm_workers d' = dm_workers d \<Longrightarrow> find_worker t d' = find_worker t d"
  by (simp add: find_worker_def)

lemma close_session_frame [simp]:
  "dm_ssh (close_session k d) = dm_ssh d" "dm_store (close_session k d) = dm_store d"
  "dm_replies (close_session k d) = dm_replies d"
  by (simp_all add: close_session_def split: option.split)

lemma end_cancelled:
  assumes f: "find_worker t d = Some w" and i: "worker_id w = i" "wk_todo w = []"
    and p: "run_phase (wk_run w) = RunConnected" "run_cancelled (wk_run w)"
    and s: "s = \<lparr>sy_daemon = d, sy_pool = pool\<rparr>"
  shows "\<exists>d' pool'. sched_step E (EndWorker t alive) (sched_step E (WorkerTurn t InSessionEnded out) s) =
      \<lparr>sy_daemon = d', sy_pool = pool'\<rparr> \<and> dm_ssh d' = dm_ssh d \<and> dm_store d' = dm_store d \<and>
      dm_replies d' = dm_replies d \<and> map_of (dm_sessions d') i = None \<and> find_worker t d' = None"
proof -
  let ?r = "run_turn InSessionEnded (wk_run w)"
  let ?f = "\<lambda>w'. w'\<lparr>wk_run := ?r, wk_session := wk_session w', wk_todo := []\<rparr>"
  let ?d1 = "update_worker t ?f (close_session (wk_session w) d)"
  have r: "?r = (wk_run w)\<lparr>run_phase := RunReturned, run_log := EvClose # run_log (wk_run w)\<rparr>"
    using p by (simp add: run_turn_def)
  have es: "new_events (run_log (wk_run w)) (run_log ?r) = [EvClose]"
    by (simp add: new_events_def r)
  have t: "wk_token w = t" using find_workerD [OF f] by simp
  have "worker_turn InSessionEnded out w d = ?d1"
    unfolding worker_turn_def Let_def es by (simp add: t callback_actions_def)
  moreover have "find_worker t ?d1 = Some (?f w)"
    using f find_worker_cong [of "close_session (wk_session w) d" d t] by (simp add: find_update)
  ultimately have s1: "sched_step E (WorkerTurn t InSessionEnded out) s = \<lparr>sy_daemon = ?d1, sy_pool = pool\<rparr>"
    and i1: "idle_worker t ?d1 = Some (?f w)"
    using f i by (simp_all add: s idle_worker_def)
  obtain d' further where e: "end_worker (?f w) alive ?d1 = (d', further)" by fastforce
  have "dm_ssh d' = dm_ssh d" "dm_store d' = dm_store d" "dm_replies d' = dm_replies d" "map_of (dm_sessions d') i = None"
    using e i(1) by (auto simp: end_worker_def clear_session_def drop_input_def worker_id_def)
  moreover have "find_worker t d' = None"
    using e t by (auto simp: end_worker_def clear_session_def find_worker_def find_None_iff)
  ultimately show ?thesis unfolding s1 using i1 r e by (simp add: end_step_def)
qed

lemma reset_ssh: "dm_ssh (snd (reset_remote_input alive d)) = dm_ssh d" "dm_store (snd (reset_remote_input alive d)) = dm_store d"
  "dm_workers (snd (reset_remote_input alive d)) = dm_workers d"
  by (simp_all add: reset_remote_input_def split: option.split prod.split)

lemma store_ssh: "change_store E x g d = (e, d') \<Longrightarrow> dm_ssh d' = dm_ssh d"
  by (auto simp: change_store_def split: sum.splits prod.splits)

lemma forget_store:
  assumes "change_store E x (remove_device i) d = (e, d')"
  shows "get_device (Some (dm_store d')) i = None"
proof (cases "map_has (cf_devices (dm_store d)) (canon i)")
  case True
  then show ?thesis using assms
    by (auto simp: change_store_def remove_device_def Let_def get_device_def save_store_def split: option.splits prod.splits if_splits)
next
  case False
  then show ?thesis using assms by (auto simp: change_store_def remove_device_def Let_def get_device_def)
qed

lemma run_worker_act:
  assumes f: "find_worker t d = Some w" and a: "wk_todo w = a # as" "worker_action a"
    and e: "act E a d = (d', further)"
  shows "run_worker E t \<lparr>sy_daemon = d, sy_pool = pool\<rparr> =
      \<lparr>sy_daemon = update_worker t (\<lambda>v. v\<lparr>wk_todo := further @ as\<rparr>) d', sy_pool = pool\<rparr>"
    and "find_worker t (update_worker t (\<lambda>v. v\<lparr>wk_todo := further @ as\<rparr>) d') = Some (w\<lparr>wk_todo := further @ as\<rparr>)"
proof -
  show "run_worker E t \<lparr>sy_daemon = d, sy_pool = pool\<rparr> =
      \<lparr>sy_daemon = update_worker t (\<lambda>v. v\<lparr>wk_todo := further @ as\<rparr>) d', sy_pool = pool\<rparr>"
    using f a e by (simp add: run_worker_def)
  have "find_worker t d' = Some w"
    using f find_worker_cong [of d' d t] worker_action_workers [OF a(2), of E d] by (simp add: e)
  then show "find_worker t (update_worker t (\<lambda>v. v\<lparr>wk_todo := further @ as\<rparr>) d') = Some (w\<lparr>wk_todo := further @ as\<rparr>)"
    by (simp add: find_update)
qed

lemma run_worker_idle:
  "find_worker t d = Some w \<Longrightarrow> wk_todo w = [] \<Longrightarrow> run_worker E t \<lparr>sy_daemon = d, sy_pool = pool\<rparr> = \<lparr>sy_daemon = d, sy_pool = pool\<rparr>"
  by (simp add: run_worker_def)

text \<open>The SSH service after what follows \<open>ForbidAddress\<close>: it is stopped if no session is left.\<close>

lemma run_ssh_cleanup:
  assumes f: "find_worker t d = Some w" and a: "wk_todo w = StopSshIfInactive ok # (if b then [ResetInput alive] else [])"
  shows "\<exists>d'. (run_worker E t ^^ 3) \<lparr>sy_daemon = d, sy_pool = pool\<rparr> = \<lparr>sy_daemon = d', sy_pool = pool\<rparr> \<and>
    dm_ssh d' = (if list_ex (\<lambda>(i, m). ms_active m \<noteq> None) (dm_sessions d) then dm_ssh d
                 else map_option (\<lambda>v. snd (stop_ssh ok v)) (dm_ssh d))"
proof -
  let ?stop = "\<not> list_ex (\<lambda>(i, m). ms_active m \<noteq> None) (dm_sessions d) \<and> dm_ssh d \<noteq> None"
  let ?rest = "if b then [ResetInput alive] else []"
  define d1 where "d1 = update_worker t (\<lambda>v. v\<lparr>wk_todo := (if ?stop then [StopSsh ok] else []) @ ?rest\<rparr>) d"
  have e1: "act E (StopSshIfInactive ok) d = (d, if ?stop then [StopSsh ok] else [])"
    by (auto simp: stop_ssh_if_inactive_def)
  have wa: "worker_action (StopSshIfInactive ok)" "worker_action (StopSsh ok)" "worker_action (ResetInput alive)" by simp_all
  note r1 = run_worker_act [OF f a wa(1) e1, folded d1_def]
  have three: "(g ^^ 3) x = g (g (g x))" for g :: "daemon_sys \<Rightarrow> daemon_sys" and x
    by (simp add: numeral_3_eq_3)
  have reset: "\<exists>d'. run_worker E t \<lparr>sy_daemon = e, sy_pool = pool\<rparr> = \<lparr>sy_daemon = d', sy_pool = pool\<rparr> \<and>
      dm_ssh d' = dm_ssh e \<and> (\<exists>w'. find_worker t d' = Some w' \<and> wk_todo w' = [])"
    if "find_worker t e = Some v" "wk_todo v = ?rest" for e v
  proof (cases b)
    case True
    have x: "act E (ResetInput alive) e = (snd (reset_remote_input alive e), [])" by simp
    have "wk_todo v = [ResetInput alive]" using that(2) True by simp
    from run_worker_act [OF that(1) this wa(3) x] show ?thesis by (auto simp: reset_ssh)
  next
    case False
    then show ?thesis using that run_worker_idle [of t e v E pool] by auto
  qed
  have idle: "\<exists>d'. run_worker E t \<lparr>sy_daemon = e, sy_pool = pool\<rparr> = \<lparr>sy_daemon = d', sy_pool = pool\<rparr> \<and>
      dm_ssh d' = dm_ssh e" if "\<exists>w'. find_worker t e = Some w' \<and> wk_todo w' = []" for e
    using that run_worker_idle by blast
  show ?thesis
  proof (cases ?stop)
    case True
    let ?v = "w\<lparr>wk_todo := StopSsh ok # ?rest\<rparr>"
    have v: "find_worker t d1 = Some ?v" "wk_todo ?v = StopSsh ok # ?rest" using r1(2) True by simp_all
    have e2: "act E (StopSsh ok) d1 = (stop_ssh_service ok d1, [])" by simp
    define d2 where "d2 = update_worker t (\<lambda>v. v\<lparr>wk_todo := [] @ ?rest\<rparr>) (stop_ssh_service ok d1)"
    note r2 = run_worker_act [OF v wa(2) e2, folded d2_def]
    obtain d3 where d3: "run_worker E t \<lparr>sy_daemon = d2, sy_pool = pool\<rparr> = \<lparr>sy_daemon = d3, sy_pool = pool\<rparr>"
      "dm_ssh d3 = dm_ssh d2"
      using reset [OF r2(2)] by auto
    have "(run_worker E t ^^ 3) \<lparr>sy_daemon = d, sy_pool = pool\<rparr> = \<lparr>sy_daemon = d3, sy_pool = pool\<rparr>"
      unfolding three r1(1) r2(1) d3(1) ..
    moreover have "dm_ssh d3 = map_option (\<lambda>v. snd (stop_ssh ok v)) (dm_ssh d)"
      using d3(2) by (simp add: d2_def stop_ssh_service_def d1_def)
    ultimately show ?thesis using True by auto
  next
    case False
    let ?v = "w\<lparr>wk_todo := ?rest\<rparr>"
    have v: "find_worker t d1 = Some ?v" "wk_todo ?v = ?rest" using r1(2) False by simp_all
    obtain d2 where d2: "run_worker E t \<lparr>sy_daemon = d1, sy_pool = pool\<rparr> = \<lparr>sy_daemon = d2, sy_pool = pool\<rparr>"
      "dm_ssh d2 = dm_ssh d1" "\<exists>w'. find_worker t d2 = Some w' \<and> wk_todo w' = []"
      using reset [OF v] by blast
    obtain d3 where d3: "run_worker E t \<lparr>sy_daemon = d2, sy_pool = pool\<rparr> = \<lparr>sy_daemon = d3, sy_pool = pool\<rparr>"
      "dm_ssh d3 = dm_ssh d2"
      using idle [OF d2(3)] by blast
    have "(run_worker E t ^^ 3) \<lparr>sy_daemon = d, sy_pool = pool\<rparr> = \<lparr>sy_daemon = d3, sy_pool = pool\<rparr>"
      unfolding three r1(1) d2(1) d3(1) ..
    moreover have "dm_ssh d3 = dm_ssh d" using d3(2) d2(2) by (simp add: d1_def)
    moreover have "\<not> list_ex (\<lambda>(i, m). ms_active m \<noteq> None) (dm_sessions d) \<Longrightarrow> dm_ssh d = None" using False by blast
    ultimately show ?thesis by (auto split: if_splits)
  qed
qed

lemma still_active:
  assumes l: "list_ex (\<lambda>(i, m). ms_active m \<noteq> None) (dm_sessions (set_active i None d))"
    and wf: "wf_map (dm_sessions d)"
  shows "\<exists>j. j \<noteq> i \<and> active_of j d \<noteq> None"
proof -
  obtain e where e: "e \<in> set (dm_sessions (set_active i None d))" "ms_active (snd e) \<noteq> None"
    using l unfolding list_ex_iff by (auto simp: split_beta)
  have "wf_map (dm_sessions (set_active i None d))" using wf by simp
  then have "map_of (dm_sessions (set_active i None d)) (fst e) = Some (snd e)"
    using map_entry [of _ "fst e" "snd e"] e(1) by (metis prod.collapse)
  then have a: "active_of (fst e) (set_active i None d) \<noteq> None" using e(2) unfolding active_of_def by simp
  have "fst e \<noteq> i" using a unfolding active_set_active by (metis (full_types))
  then show ?thesis using a unfolding active_set_active by (metis (full_types))
qed

lemma home_in_session: "in_session 0 the_phone home_daemon"
  by (simp add: in_session_def home_daemon_def find_worker_def worker_id_def the_phone_facts home_run_def)

lemma home_ssh: "dm_ssh home_daemon = Some (snd (start_ssh True True (set_allowed_address the_phone (to_addr home_turn)
    (new_ssh_service '':2222'' True))))"
  by (simp add: home_daemon_def)

lemma session_ended_turn:
  assumes "in_session t i d"
  shows "\<exists>w d1. sched_step E (WorkerTurn t InSessionEnded out) \<lparr>sy_daemon = d, sy_pool = pool\<rparr> = \<lparr>sy_daemon = d1, sy_pool = pool\<rparr> \<and>
    find_worker t d1 = Some w \<and> wk_todo w = [UnpublishSession i (to_stop_ok out) (to_alive out)] \<and>
    dm_ssh d1 = dm_ssh d \<and> dm_owner d1 = dm_owner d \<and> dm_sessions d1 = dm_sessions d"
proof -
  obtain w where f: "find_worker t d = Some w" "worker_id w = i" "wk_todo w = []"
    "run_phase (wk_run w) = RunConnected" "\<not> run_cancelled (wk_run w)"
    using assms(1) unfolding in_session_def by blast
  let ?r = "run_turn InSessionEnded (wk_run w)"
  let ?f = "\<lambda>w'. w'\<lparr>wk_run := ?r, wk_session := wk_session w',
    wk_todo := [UnpublishSession (worker_id w') (to_stop_ok out) (to_alive out)]\<rparr>"
  let ?d1 = "update_worker t ?f (close_session (wk_session w) d)"
  have r: "?r = (wk_run w)\<lparr>run_phase := RunTop, run_log := EvDisconnect # EvClose # run_log (wk_run w)\<rparr>"
    using f(4,5) by (simp add: run_turn_def)
  have es: "new_events (run_log (wk_run w)) (run_log ?r) = [EvClose, EvDisconnect]"
    by (simp add: new_events_def r)
  have t: "wk_token w = t" using find_workerD [OF f(1)] by simp
  have turn: "worker_turn InSessionEnded out w d = ?d1"
    unfolding worker_turn_def Let_def es by (simp add: t callback_actions_def on_disconnect_actions_def)
  have "sched_step E (WorkerTurn t InSessionEnded out) \<lparr>sy_daemon = d, sy_pool = pool\<rparr> = \<lparr>sy_daemon = ?d1, sy_pool = pool\<rparr>"
    using f by (simp add: idle_worker_def turn)
  moreover have "find_worker t ?d1 = Some (?f w)"
    using f find_worker_cong [of "close_session (wk_session w) d" d t] by (simp add: find_update)
  moreover have "wk_todo (?f w) = [UnpublishSession i (to_stop_ok out) (to_alive out)]" using f(2) by simp
  moreover have "dm_ssh ?d1 = dm_ssh d" "dm_owner ?d1 = dm_owner d" "dm_sessions ?d1 = dm_sessions d" by simp_all
  ultimately show ?thesis by blast
qed

lemma unpublish_run:
  assumes "find_worker t d = Some w" "wk_todo w = [UnpublishSession i ok alive]"
  shows "\<exists>d'. (run_worker E t ^^ 5) \<lparr>sy_daemon = d, sy_pool = pool\<rparr> = \<lparr>sy_daemon = d', sy_pool = pool\<rparr> \<and>
    dm_ssh d' = (if list_ex (\<lambda>(i, m). ms_active m \<noteq> None) (dm_sessions (set_active i None d))
      then map_option (remove_allowed_address i) (dm_ssh d)
      else map_option (\<lambda>v. snd (stop_ssh ok (remove_allowed_address i v))) (dm_ssh d))"
proof -
  let ?rest = "if dm_owner d = i then [ResetInput alive] else []"
  let ?todo = "ForbidAddress i # StopSshIfInactive ok # ?rest"
  have e2: "act E (UnpublishSession i ok alive) d = (drop_input i (set_active i None d), ?todo)"
    by (simp add: unpublish_session_def)
  define d2 where "d2 = update_worker t (\<lambda>v. v\<lparr>wk_todo := ?todo @ []\<rparr>) (drop_input i (set_active i None d))"
  note r2 = run_worker_act [OF assms _ e2, folded d2_def, simplified]
  let ?w2 = "w\<lparr>wk_todo := ?todo @ []\<rparr>"
  have w2: "find_worker t d2 = Some ?w2" "wk_todo ?w2 = ?todo" using r2(2) by simp_all
  have e3: "act E (ForbidAddress i) d2 = (forbid_address i d2, [])" by simp
  define d3 where "d3 = update_worker t (\<lambda>v. v\<lparr>wk_todo := [] @ StopSshIfInactive ok # ?rest\<rparr>) (forbid_address i d2)"
  note r3 = run_worker_act [OF w2 _ e3, folded d3_def, simplified]
  obtain w3 where w3: "find_worker t d3 = Some w3" "wk_todo w3 = StopSshIfInactive ok # ?rest"
    using r3(2) by simp
  obtain d' where d': "(run_worker E t ^^ 3) \<lparr>sy_daemon = d3, sy_pool = pool\<rparr> = \<lparr>sy_daemon = d', sy_pool = pool\<rparr>"
    "dm_ssh d' = (if list_ex (\<lambda>(i, m). ms_active m \<noteq> None) (dm_sessions d3) then dm_ssh d3
                 else map_option (\<lambda>v. snd (stop_ssh ok v)) (dm_ssh d3))"
    using run_ssh_cleanup [OF w3] by blast
  have five: "(g ^^ 5) x = (g ^^ 3) (g (g x))" for g :: "daemon_sys \<Rightarrow> daemon_sys" and x
    by (simp add: eval_nat_numeral)
  have "dm_ssh d2 = dm_ssh d" by (simp add: d2_def drop_input_def set_active_def split: option.split)
  then have ssh3: "dm_ssh d3 = map_option (remove_allowed_address i) (dm_ssh d)"
    by (simp add: d3_def forbid_address_def)
  have sess: "dm_sessions d3 = dm_sessions (set_active i None d)" by (simp add: d3_def d2_def forbid_address_def)
  have "(run_worker E t ^^ 5) \<lparr>sy_daemon = d, sy_pool = pool\<rparr> = \<lparr>sy_daemon = d', sy_pool = pool\<rparr>"
    unfolding five r2(1) r3(1) d'(1) ..
  then show ?thesis using d'(2) unfolding sess ssh3 by (intro exI [of _ d']) (simp add: option.map_comp comp_def)
qed

text \<open>C13. A session that is lost takes its SSH access with it: when the connection ends and the goroutine has run
  its callbacks, the address of the phone is no longer allowed, those of the other phones are, and
  if no other phone is connected the service has stopped listening and closed its connections.\<close>

theorem lost_session_revokes_ssh:
  assumes "in_session t i d" "wf_map (dm_sessions d)" "dm_ssh d = Some v"
    and "s = (run_worker E t ^^ 5) (sched_step E (WorkerTurn t InSessionEnded out) \<lparr>sy_daemon = d, sy_pool = pool\<rparr>)"
  shows "\<exists>v'. dm_ssh (sy_daemon s) = Some v' \<and> allowed v' = map_del i (allowed v) \<and>
    ((\<exists>j. j \<noteq> i \<and> active_of j d \<noteq> None) \<or> ssh_listener v' = None \<and> ssh_conns v' = [])"
proof -
  obtain w d1 where t: "sched_step E (WorkerTurn t InSessionEnded out) \<lparr>sy_daemon = d, sy_pool = pool\<rparr> = \<lparr>sy_daemon = d1, sy_pool = pool\<rparr>"
    and w: "find_worker t d1 = Some w" "wk_todo w = [UnpublishSession i (to_stop_ok out) (to_alive out)]"
    and d1: "dm_ssh d1 = dm_ssh d" "dm_sessions d1 = dm_sessions d"
    using session_ended_turn [OF assms(1)] by blast
  let ?left = "list_ex (\<lambda>(i, m). ms_active m \<noteq> None) (dm_sessions (set_active i None d1))"
  obtain d' where d': "s = \<lparr>sy_daemon = d', sy_pool = pool\<rparr>"
    "dm_ssh d' = (if ?left then map_option (remove_allowed_address i) (dm_ssh d1)
      else map_option (\<lambda>v. snd (stop_ssh (to_stop_ok out) (remove_allowed_address i v))) (dm_ssh d1))"
    using unpublish_run [OF w, of E pool] unfolding assms(4) t by blast
  have "dm_sessions (set_active i None d1) = dm_sessions (set_active i None d)"
    by (simp add: set_active_def d1(2) split: option.split)
  then have "\<exists>j. j \<noteq> i \<and> active_of j d \<noteq> None" if ?left
    using still_active [of i d] that assms(2) by simp
  then show ?thesis using d' assms(3) d1(1) by (cases ?left) (auto simp: stop_ssh_def remove_allowed_address_def)
qed

lemma lost_session_revokes_ssh_witness:
  "\<exists>v'. dm_ssh (sy_daemon ((run_worker home_env 0 ^^ 5) (sched_step home_env (WorkerTurn 0 InSessionEnded home_turn)
      \<lparr>sy_daemon = home_daemon, sy_pool = []\<rparr>))) = Some v' \<and> ssh_listener v' = None"
proof -
  have "active_of j home_daemon = None" if "j \<noteq> the_phone" for j
    using that by (simp add: active_of_def home_daemon_def)
  then show ?thesis
    using lost_session_revokes_ssh [OF home_in_session _ home_ssh refl, of home_env home_turn "[]"]
    by (fastforce simp: home_daemon_def)
qed

text \<open>C36. Unpairing a phone whose session is in use leaves its SSH access: after the phone is forgotten, its
  session cancelled and its goroutine gone, the SSH service is as before, still listening and with the
  address of the phone among the allowed ones.\<close>

theorem unpair_leaves_ssh_access:
  assumes "in_session t i d"
    and "s = fold (sched_step E) [RunThread 0, RunThread 0, RunThread 0, WorkerTurn t InSessionEnded out, EndWorker t alive]
      \<lparr>sy_daemon = d, sy_pool = [[ForgetDevice i x n None]]\<rparr>"
  shows "get_device (Some (dm_store (sy_daemon s))) i = None \<and> map_of (dm_sessions (sy_daemon s)) i = None \<and>
    find_worker t (sy_daemon s) = None \<and> dm_ssh (sy_daemon s) = dm_ssh d"
proof -
  obtain w m where f: "find_worker t d = Some w" "worker_id w = i" "wk_todo w = []"
    "run_phase (wk_run w) = RunConnected" "map_of (dm_sessions d) i = Some m" "ms_cancel m = t"
    using assms(1) unfolding in_session_def by blast
  let ?d = "d\<lparr>dm_owner := (if dm_owner d = i then [] else dm_owner d), dm_enabled := map_del i (dm_enabled d)\<rparr>"
  obtain e d1 where e: "change_store E x (remove_device i) ?d = (e, d1)" by fastforce
  let ?reset = "if dm_owner d = i then [ResetInput n] else []"
  let ?f = "\<lambda>w. w\<lparr>wk_run := run_turn InCancel (wk_run w)\<rparr>"
  define d2 where "d2 = update_worker t ?f d1"
  define d3 where "d3 = (if dm_owner d = i then snd (reset_remote_input n d2) else d2)"
  have w1: "find_worker t d1 = Some w"
    using f(1) core_change_store_eq [OF e] by (auto simp: core_def intro: find_worker_cong trans)
  have w3: "find_worker t d3 = Some (?f w)"
    using w1 find_worker_cong [of d3 d2 t] by (simp add: d3_def d2_def reset_ssh find_update)
  have k: "dm_ssh d3 = dm_ssh d" "dm_store d3 = dm_store d1"
    using store_ssh [OF e] by (simp_all add: d3_def d2_def reset_ssh)
  have "sched_step E (RunThread 0) (sched_step E (RunThread 0) (sched_step E (RunThread 0)
      \<lparr>sy_daemon = d, sy_pool = [[ForgetDevice i x n None]]\<rparr>)) = \<lparr>sy_daemon = d3, sy_pool = [[]]\<rparr>"
    using f(5,6) e
    by (simp add: run_thread_def forget_device_def answer_def cancel_as_update d2_def d3_def split: prod.split)
  then have s: "s = sched_step E (EndWorker t alive) (sched_step E (WorkerTurn t InSessionEnded out)
      \<lparr>sy_daemon = d3, sy_pool = [[]]\<rparr>)"
    unfolding assms(2) by simp
  have c: "worker_id (?f w) = i" "wk_todo (?f w) = []" "run_phase (wk_run (?f w)) = RunConnected"
    "run_cancelled (wk_run (?f w))"
    using f by (simp_all add: worker_id_def run_turn_def)
  obtain d' pool' where "s = \<lparr>sy_daemon = d', sy_pool = pool'\<rparr>" "dm_ssh d' = dm_ssh d3" "dm_store d' = dm_store d3"
    "map_of (dm_sessions d') i = None" "find_worker t d' = None"
    using end_cancelled [OF w3 c refl, of E alive out "[[]]"] unfolding s by auto
  then show ?thesis using k forget_store [OF e] by simp
qed

lemma unpair_leaves_ssh_access_witness:
  "\<forall>x out. dm_ssh (sy_daemon (fold (sched_step home_env)
      [RunThread 0, RunThread 0, RunThread 0, WorkerTurn 0 InSessionEnded out, EndWorker 0 8]
      \<lparr>sy_daemon = home_daemon, sy_pool = [[ForgetDevice the_phone x 8 None]]\<rparr>)) = dm_ssh home_daemon"
  using unpair_leaves_ssh_access [OF home_in_session refl] by blast

text \<open>C37. A connect that follows a disconnect is lost: while the goroutine of the cancelled session has not
  returned, the request is answered with success and changes nothing, and when the goroutine is
  gone the phone has no session.\<close>

theorem connect_after_disconnect_lost:
  assumes "in_session t i d" "get_device (Some (dm_store d)) i = Some p" "pr_peer_id p = i"
    and "get_identity (Some (dm_store d)) = Some me"
    and "s = fold (sched_step E)
      [RunThread 0, RunThread 0, RunThread 0, RunThread 1, RunThread 1, WorkerTurn t InSessionEnded out, EndWorker t alive]
      \<lparr>sy_daemon = d, sy_pool = [[Control k (Disconnect i)], [StartSession i (Some k')]]\<rparr>"
  shows "(k', RespOk) \<in> set (dm_replies (sy_daemon s)) \<and> map_of (dm_sessions (sy_daemon s)) i = None"
proof -
  obtain w m where f: "find_worker t d = Some w" "worker_id w = i" "wk_todo w = []"
    "run_phase (wk_run w) = RunConnected" "map_of (dm_sessions d) i = Some m" "ms_cancel m = t"
    using assms(1) unfolding in_session_def by blast
  let ?f = "\<lambda>w. w\<lparr>wk_run := run_turn InCancel (wk_run w)\<rparr>"
  define d1 where "d1 = update_worker t ?f d"
  define d2 where "d2 = send_response k RespOk d1"
  define d3 where "d3 = send_response k' RespOk d2"
  have g: "dm_store d2 = dm_store d" "dm_sessions d2 = dm_sessions d"
    by (simp_all add: d1_def d2_def send_response_def)
  have start: "start_session i (Some k') d2 = (d2, [Reply k' RespOk])"
    using assms(2-4) f(5) by (simp add: start_session_def g answer_def)
  have "fold (sched_step E) [RunThread 0, RunThread 0, RunThread 0, RunThread 1, RunThread 1]
      \<lparr>sy_daemon = d, sy_pool = [[Control k (Disconnect i)], [StartSession i (Some k')]]\<rparr> =
      \<lparr>sy_daemon = d3, sy_pool = [[], []]\<rparr>"
    using f(5,6) by (simp add: run_thread_def disconnect_def cancel_as_update start d1_def [symmetric] d2_def [symmetric] d3_def)
  then have s: "s = sched_step E (EndWorker t alive) (sched_step E (WorkerTurn t InSessionEnded out)
      \<lparr>sy_daemon = d3, sy_pool = [[], []]\<rparr>)"
    unfolding assms(5) by simp
  have "find_worker t d1 = Some (?f w)" using f(1) by (simp add: d1_def find_update)
  moreover have "find_worker t d3 = find_worker t d1"
    by (rule find_worker_cong) (simp add: d3_def d2_def send_response_def)
  ultimately have w3: "find_worker t d3 = Some (?f w)" by simp
  have c: "worker_id (?f w) = i" "wk_todo (?f w) = []" "run_phase (wk_run (?f w)) = RunConnected"
    "run_cancelled (wk_run (?f w))"
    using f by (simp_all add: worker_id_def run_turn_def)
  obtain d' pool' where "s = \<lparr>sy_daemon = d', sy_pool = pool'\<rparr>" "dm_replies d' = dm_replies d3"
    "map_of (dm_sessions d') i = None"
    using end_cancelled [OF w3 c refl, of E alive out "[[], []]"] unfolding s by auto
  then show ?thesis by (simp add: d3_def send_response_def)
qed

lemma connect_after_disconnect_lost_witness:
  "\<forall>out. (9, RespOk) \<in> set (dm_replies (sy_daemon (fold (sched_step home_env)
      [RunThread 0, RunThread 0, RunThread 0, RunThread 1, RunThread 1, WorkerTurn 0 InSessionEnded out, EndWorker 0 8]
      \<lparr>sy_daemon = home_daemon, sy_pool = [[Control 4 (Disconnect the_phone)], [StartSession the_phone (Some 9)]]\<rparr>)))"
  using connect_after_disconnect_lost [OF home_in_session _ the_phone_facts(3) _ refl]
  by (metis home_store_is home_store_facts(1,2))

text \<open>C38. Disabling the remote input of a phone does not end it at once: an event that was checked before and
  is applied after the request, with its release of all that is held, still reaches the emulator,
  although the device is no longer the owner and no thread is left that would release it.\<close>

theorem input_applied_after_disable:
  assumes "may_input i d" "get_device (Some (dm_store d)) i \<noteq> None" "dm_emulator d = Some em"
    and "s = fold (sched_step E) [RunThread 0, RunThread 1, RunThread 1, RunThread 1, RunThread 0]
      \<lparr>sy_daemon = d, sy_pool = [[Event (CheckInput i True created ev)], [Control k (SetInputEnabled i False alive)]]\<rparr>"
  shows "dm_owner (sy_daemon s) = [] \<and> \<not> get_or False (dm_enabled (sy_daemon s)) i \<and> concat (sy_pool s) = [] \<and>
    dm_emulator (sy_daemon s) = Some (snd (apply_input True ev (snd (reset_emulator alive em))))"
proof -
  have o: "dm_owner d = i" using assms(1) by (simp add: may_input_def)
  let ?d1 = "d\<lparr>dm_enabled := map_put i False (dm_enabled d), dm_owner := []\<rparr>"
  obtain es em1 where r: "reset_emulator alive em = (es, em1)" by fastforce
  obtain x em2 where a: "apply_input True ev em1 = (x, em2)" by fastforce
  have c: "set_input_enabled k i False alive d = (?d1, [ResetInputFor k alive])"
    using assms(2) o by (simp add: set_input_enabled_def)
  have "reset_remote_input alive ?d1 = (if es = [] then None else Some (DmReset es), ?d1\<lparr>dm_emulator := Some em1\<rparr>)"
    using assms(3) by (simp add: reset_remote_input_def r)
  then show ?thesis unfolding assms(4)
    using assms(1) by (simp add: run_thread_def check_input_def c apply_remote_input_def send_response_def log_input_def a r)
qed

lemma input_applied_after_disable_witness:
  "\<forall>created. dm_emulator (sy_daemon (fold (sched_step home_env) [RunThread 0, RunThread 1, RunThread 1, RunThread 1, RunThread 0]
      \<lparr>sy_daemon = home_daemon\<lparr>dm_emulator := Some (fresh_emulator [])\<rparr>,
       sy_pool = [[Event (CheckInput the_phone True created press_enter)], [Control 4 (SetInputEnabled the_phone False 8)]]\<rparr>)) =
     Some (snd (apply_input True press_enter (snd (reset_emulator 8 (fresh_emulator [])))))"
proof -
  let ?d = "home_daemon\<lparr>dm_emulator := Some (fresh_emulator [])\<rparr>"
  have "may_input the_phone ?d" "get_device (Some (dm_store ?d)) the_phone \<noteq> None" "dm_emulator ?d = Some (fresh_emulator [])"
    by (simp_all add: may_input_def get_or_def home_store_is home_store_facts) (simp_all add: home_daemon_def)
  from input_applied_after_disable [OF this refl] show ?thesis by blast
qed

end
