(* ===== verification/Daemon_Main.thy ===== *)
theory Daemon_Main
  imports Daemon Go_Path
begin

text \<open>
  The entry point of the daemon (\<open>quavad/main.go\<close>): the control socket, the order in which the services
  start, the loop that accepts connections, and the clean-up; and the server for profiles
  (\<open>libquava/profiling/pprof.go\<close>).

  A run of \<open>main\<close> is the list of what it does. A deferred call is put on a stack when the code reaches
  its \<open>defer\<close>, and the stack is run when \<open>main\<close> returns. What the system answers is a record; the loop
  runs over the list of what \<open>Accept\<close> returns and is \<open>None\<close> as long as it has not ended.
\<close>

subsection \<open>The control socket\<close>

datatype main_error = MainConfig | MainSocketEnv | MainSystemdSocket | MainRemove | MainListen | MainChmod

datatype removal = Removed | NothingThere | RemoveFailed

datatype main_service = SvcSsh | SvcProfiling | SvcMedia | SvcClipboard | SvcBridge | SvcNotifications | SvcWatcher

datatype main_event =
    Fatal main_error
  | Up main_service
  | Unavailable main_service
  | FiltersLoaded
  | AutoConnecting
  | Handling nat
  | AcceptFailed
  | ShuttingDown
  | HandlersDone
  | Down main_service
  | ContextDone main_service
  | ListenerClosed
  | SocketRemoved

record main_world =
  mw_store :: bool
  mw_listen_fds :: string
  mw_listen_pid :: string
  mw_pid :: int
  mw_file_listener :: bool
  mw_remove :: removal
  mw_listen :: bool
  mw_chmod :: bool
  mw_up :: "main_service \<Rightarrow> bool"

text \<open>\<open>systemdListener\<close>: is the daemon started with a socket of systemd?\<close>

definition systemd_listener :: "main_world \<Rightarrow> main_error + bool" where
  "systemd_listener w =
     (case parse_int64 (mw_listen_fds w) of
        None \<Rightarrow> Inr False
      | Some fds \<Rightarrow>
          if fds = 0 then Inr False
          else if parse_int64 (mw_listen_pid w) \<noteq> Some (mw_pid w) \<or> fds \<noteq> 1 then Inl MainSocketEnv
          else if \<not> mw_file_listener w then Inl MainSystemdSocket
          else Inr True)"

text \<open>The file of the socket is known by its mode: \<open>None\<close> when there is none. Closing a listener that
  made its file removes the file.\<close>

definition control_mode :: nat where "control_mode = 6 * 64"

definition open_control_socket :: "main_world \<Rightarrow> nat option \<Rightarrow> (main_error + bool) \<times> nat option" where
  "open_control_socket w file =
     (if \<not> mw_store w then (Inl MainConfig, file)
      else case systemd_listener w of
        Inl e \<Rightarrow> (Inl e, file)
      | Inr True \<Rightarrow> (Inr True, file)
      | Inr False \<Rightarrow>
          if mw_remove w = RemoveFailed then (Inl MainRemove, file)
          else if \<not> mw_listen w then (Inl MainListen, None)
          else if \<not> mw_chmod w then (Inl MainChmod, None)
          else (Inr False, Some control_mode))"

subsection \<open>Profiles\<close>

datatype profiling_error = ProfAddress | ProfNotLoopback | ProfListen

definition default_profiling :: string where "default_profiling = ''127.0.0.1:6060''"

text \<open>\<open>loopback\<close> is what \<open>net.ParseIP\<close> makes of the host, and whether that address is one of the
  loopback.\<close>

definition profiling_address :: "(string \<Rightarrow> bool option) \<Rightarrow> string \<Rightarrow> bool \<Rightarrow> profiling_error + string" where
  "profiling_address loopback address listen_ok =
     (let a = (if address = [] then default_profiling else address)
      in case split_host a of
           None \<Rightarrow> Inl ProfAddress
         | Some host \<Rightarrow>
             if loopback host \<noteq> Some True then Inl ProfNotLoopback
             else if \<not> listen_ok then Inl ProfListen
             else Inr a)"

subsection \<open>Start and stop\<close>

definition tried :: "main_world \<Rightarrow> main_service \<Rightarrow> main_event" where
  "tried w s = (if mw_up w s then Up s else Unavailable s)"

text \<open>What is done from the listener to the loop, and the stack of deferred calls there, the last one
  first. The clipboard and the watcher of the desktop's notifications are stopped also if they could not
  be started.\<close>

definition start_up :: "main_world \<Rightarrow> main_event list" where
  "start_up w =
     [tried w SvcSsh, tried w SvcProfiling, tried w SvcMedia, tried w SvcClipboard, tried w SvcBridge] @
     (if mw_up w SvcBridge then [FiltersLoaded] else []) @
     [tried w SvcNotifications, tried w SvcWatcher, AutoConnecting]"

definition deferred :: "main_world \<Rightarrow> bool \<Rightarrow> main_event list" where
  "deferred w activated =
     [ListenerClosed] @ (if activated then [] else [SocketRemoved]) @
     [Down SvcNotifications, ContextDone SvcNotifications] @
     (if mw_up w SvcBridge then [Down SvcBridge] else []) @
     [Down SvcClipboard, ContextDone SvcClipboard] @
     (if mw_up w SvcMedia then [Down SvcMedia] else []) @
     (if mw_up w SvcProfiling then [Down SvcProfiling] else [])"

datatype accepted = Connection nat | AcceptError bool

fun accept_loop :: "accepted list \<Rightarrow> main_event list option" where
  "accept_loop [] = None"
| "accept_loop (Connection k # as) = map_option (Cons (Handling k)) (accept_loop as)"
| "accept_loop (AcceptError ended # as) =
     (if ended then Some [] else map_option (Cons AcceptFailed) (accept_loop as))"

definition daemon_main :: "main_world \<Rightarrow> nat option \<Rightarrow> accepted list \<Rightarrow> main_event list option \<times> nat option" where
  "daemon_main w file as =
     (case open_control_socket w file of
        (Inl e, file) \<Rightarrow> (Some [Fatal e], file)
      | (Inr activated, file) \<Rightarrow>
          (case accept_loop as of
             None \<Rightarrow> (None, file)
           | Some handled \<Rightarrow>
               (Some (start_up w @ handled @ [ShuttingDown, HandlersDone] @ deferred w activated),
                if activated then file else None)))"

subsection \<open>What the start and the end leave\<close>

lemma accept_loop_ends: "AcceptError True \<in> set as \<Longrightarrow> \<exists>es. accept_loop as = Some es"
proof (induction as)
  case (Cons a as)
  then show ?case by (cases a) auto
qed simp

lemma accept_loop_handles:
  "accept_loop as = Some es \<Longrightarrow>
   \<exists>done rest. as = done @ AcceptError True # rest \<and>
     es = map (\<lambda>a. case a of Connection k \<Rightarrow> Handling k | AcceptError _ \<Rightarrow> AcceptFailed) done"
proof (induction as arbitrary: es)
  case (Cons a as)
  show ?case
  proof (cases "a = AcceptError True")
    case True
    then show ?thesis using Cons.prems by (intro exI [of _ "[]"] exI [of _ as]) simp
  next
    case False
    then obtain es' where es': "accept_loop as = Some es'"
      "es = (case a of Connection k \<Rightarrow> Handling k | AcceptError _ \<Rightarrow> AcceptFailed) # es'"
      using Cons.prems by (cases a) (auto split: if_splits)
    obtain ds rest where "as = ds @ AcceptError True # rest"
      "es' = map (\<lambda>a. case a of Connection k \<Rightarrow> Handling k | AcceptError _ \<Rightarrow> AcceptFailed) ds"
      using Cons.IH [OF es'(1)] by blast
    then show ?thesis using es'(2) by (intro exI [of _ "a # ds"] exI [of _ rest]) simp
  qed
qed simp

lemma socket_opened:
  "open_control_socket w file = (Inl e, file') \<Longrightarrow> file' = (if e \<in> {MainListen, MainChmod} then None else file)"
  "open_control_socket w file = (Inr activated, file') \<Longrightarrow> file' = (if activated then file else Some control_mode)"
proof -
  have e: "systemd_listener w \<noteq> Inl MainListen" "systemd_listener w \<noteq> Inl MainChmod"
    by (simp_all add: systemd_listener_def split: option.split)
  show "open_control_socket w file = (Inl e, file') \<Longrightarrow> file' = (if e \<in> {MainListen, MainChmod} then None else file)"
    using e unfolding open_control_socket_def by (auto split: if_split_asm sum.split_asm bool.split_asm)
  show "open_control_socket w file = (Inr activated, file') \<Longrightarrow> file' = (if activated then file else Some control_mode)"
    unfolding open_control_socket_def by (auto split: if_split_asm sum.split_asm bool.split_asm)
qed

lemma all_stopped:
  "list_all (\<lambda>s. Up s \<in> set (start_up w) \<longrightarrow> Down s \<in> set (deferred w activated))
     [SvcProfiling, SvcMedia, SvcClipboard, SvcBridge, SvcNotifications]"
  by (simp add: start_up_def deferred_def tried_def)

text \<open>The daemon's socket is private and does not outlive it: however the start goes, a socket file
  that the daemon made is open to its owner only while it accepts connections, and is gone when \<open>main\<close>
  has returned or failed after making it; a socket of systemd is left alone. The loop ends as soon as the
  listener is closed, and then every service that came up, except the two that the shutdown and the
  context end, is stopped after the last connection was handled.\<close>

theorem main_leaves_nothing:
  assumes "AcceptError True \<in> set as"
  shows "(\<exists>e. daemon_main w file as = (Some [Fatal e], if e \<in> {MainListen, MainChmod} then None else file)) \<or>
    (\<exists>activated handled ends.
       open_control_socket w file = (Inr activated, if activated then file else Some control_mode) \<and>
       daemon_main w file as = (Some (start_up w @ handled @ ShuttingDown # HandlersDone # ends), if activated then file else None) \<and>
       length handled < length as \<and>
       list_all (\<lambda>s. Up s \<in> set (start_up w) \<longrightarrow> Down s \<in> set ends)
         [SvcProfiling, SvcMedia, SvcClipboard, SvcBridge, SvcNotifications])"
proof (cases "open_control_socket w file")
  case (Pair r file')
  show ?thesis
  proof (cases r)
    case (Inl e)
    then show ?thesis using Pair socket_opened(1) [OF Pair [unfolded Inl]] by (intro disjI1 exI [of _ e]) (simp add: daemon_main_def)
  next
    case (Inr activated)
    note f = socket_opened(2) [OF Pair [unfolded Inr]]
    obtain es where es: "accept_loop as = Some es" using accept_loop_ends [OF assms] by blast
    have "length es < length as" using accept_loop_handles [OF es] by auto
    then show ?thesis
      using Pair Inr f es all_stopped [of w activated]
      by (intro disjI2 exI [of _ activated] exI [of _ es] exI [of _ "deferred w activated"] conjI)
        (simp_all only: daemon_main_def prod.case sum.case option.case append_Cons append_Nil append_assoc, simp_all)
  qed
qed

definition plain_main :: main_world where
  "plain_main = \<lparr>mw_store = True, mw_listen_fds = [], mw_listen_pid = [], mw_pid = 7, mw_file_listener = True,
     mw_remove = NothingThere, mw_listen = True, mw_chmod = True, mw_up = (\<lambda>_. True)\<rparr>"

theorem main_leaves_nothing_witness:
  "\<exists>evs. daemon_main plain_main None [Connection 1, AcceptError True] = (Some evs, None) \<and> Down SvcMedia \<in> set evs"
proof -
  have "systemd_listener plain_main = Inr False"
    by (simp add: systemd_listener_def plain_main_def parse_int64_def has_prefix_def)
  then have "open_control_socket plain_main None = (Inr False, Some control_mode)"
    by (simp add: open_control_socket_def plain_main_def)
  then show ?thesis
    using main_leaves_nothing [of "[Connection 1, AcceptError True]" plain_main None]
    by (auto simp: daemon_main_def start_up_def deferred_def plain_main_def tried_def)
qed

end
