(* ===== verification/Command_Line.thy ===== *)
theory Command_Line
  imports Daemon Discovery_Loops Go_Path Android_Bridge "HOL-Library.Signed_Division"
begin

text \<open>
  The command line \<open>quava\<close> (\<open>cli/main.go\<close>, \<open>cli/commands\<close>, \<open>cli/utils/ipc.go\<close>, \<open>cli/models/cli.go\<close>),
  up to the requests it sends to the daemon and what it prints.

  A command is a function of what the world answers and of the requests sent before; it gives an error
  or what is printed, with the requests sent. \<open>cw_reply\<close> is the other end of the control socket: the
  response to a request and the time until it arrives, or \<open>None\<close> when the connection ends without a
  response. A request and a response travel as JSON: strings arrive as they were sent (they are valid
  UTF-8), and \<open>omitempty\<close> turns an empty list into one that is absent. The arguments are those that the
  library cobra leaves when it has taken the flags out; the flags are two fields of the world.
\<close>

subsection \<open>Requests (\<open>cli/models/cli.go\<close>, \<open>cli/utils/ipc.go\<close>)\<close>

definition empty_request :: daemon_request where
  "empty_request =
     \<lparr>dr_command = [], dr_peer = [], dr_timeout = 0, dr_confirm = None, dr_bus_name = [], dr_offset = 0,
      dr_enabled = False, dr_loop = [], dr_volume = Fin 0, dr_position = 0, dr_device = [], dr_filters = None\<rparr>"

definition reply_timeout :: int where "reply_timeout = seconds 15"

datatype cli_error =
    CliArgs | CliUnknown string | CliUsage string | CliInvalid string | CliStore | CliUnreachable
  | CliDeadline | CliSend | CliTimeout | CliReply | CliDaemon daemon_error | CliNoCode | CliStdin

datatype cli_output =
    ShowText "string list"
  | ShowTable "string list list"
  | ShowDevice "pair_result option"
  | ShowDevices "pair_result list"
  | ShowDiscovered "device list"
  | ShowPlayers "media_player list"
  | ShowPlayer media_player

record cli_world =
  cw_store :: bool
  cw_dial :: bool
  cw_deadline :: bool
  cw_sent :: bool
  cw_reply :: "daemon_request list \<Rightarrow> daemon_request \<Rightarrow> (response \<times> int) option"
  cw_float :: "string \<Rightarrow> float64 option"
  cw_discover_timeout :: int
  cw_pair_timeout :: int
  cw_line :: string
  cw_line_ended :: bool

type_synonym 'a cli = "daemon_request list \<Rightarrow> (cli_error + 'a) \<times> daemon_request list"

definition cli_return :: "cli_error + 'a \<Rightarrow> 'a cli" where
  "cli_return r h = (r, h)"

definition cli_bind :: "'a cli \<Rightarrow> ('a \<Rightarrow> 'b cli) \<Rightarrow> 'b cli" where
  "cli_bind m f h = (case m h of (Inl e, h') \<Rightarrow> (Inl e, h') | (Inr x, h') \<Rightarrow> f x h')"

definition dial :: "cli_world \<Rightarrow> cli_error option" where
  "dial W = (if \<not> cw_store W then Some CliStore else if \<not> cw_dial W then Some CliUnreachable else None)"

text \<open>A number that is not finite has no JSON.\<close>

definition encodes :: "cli_world \<Rightarrow> daemon_request \<Rightarrow> bool" where
  "encodes W r \<longleftrightarrow> cw_sent W \<and> (case dr_volume r of Fin _ \<Rightarrow> True | _ \<Rightarrow> False)"

definition call_daemon :: "cli_world \<Rightarrow> daemon_request \<Rightarrow> response cli" where
  "call_daemon W r h =
     (case dial W of
        Some e \<Rightarrow> (Inl e, h)
      | None \<Rightarrow>
          if \<not> cw_deadline W then (Inl CliDeadline, h)
          else if \<not> encodes W r then (Inl CliSend, h)
          else (case cw_reply W h r of
              None \<Rightarrow> Inl CliReply
            | Some (res, t) \<Rightarrow>
                if t \<ge> reply_timeout then Inl CliTimeout
                else (case res of RespError e \<Rightarrow> Inl (CliDaemon e) | _ \<Rightarrow> Inr res), h @ [r]))"

subsection \<open>Commands for one device (\<open>peer.go\<close>, \<open>simple.go\<close>)\<close>

type_synonym peer_action = "string \<times> string"

text \<open>\<open>fmt.Sprintf\<close> with one verb \<open>%s\<close>.\<close>

fun sprintf_s :: "string \<Rightarrow> string \<Rightarrow> string" where
  "sprintf_s [] v = []"
| "sprintf_s (c # s) v = (if has_prefix (c # s) ''%s'' then v @ tl s else c # sprintf_s s v)"

definition run_peer_action :: "cli_world \<Rightarrow> peer_action \<Rightarrow> string \<Rightarrow> cli_output cli" where
  "run_peer_action W a i =
     cli_bind (call_daemon W (empty_request\<lparr>dr_command := fst a, dr_peer := i\<rparr>))
       (\<lambda>_. cli_return (Inr (ShowText [sprintf_s (snd a) i])))"

definition peer_command :: "cli_world \<Rightarrow> peer_action \<Rightarrow> string list \<Rightarrow> cli_output cli" where
  "peer_command W a args = (if length args \<noteq> 1 then cli_return (Inl CliArgs) else run_peer_action W a (hd args))"

definition action_command :: "cli_world \<Rightarrow> (string, peer_action) gomap \<Rightarrow> string list \<Rightarrow> cli_output cli" where
  "action_command W actions args =
     (if length args \<noteq> 2 then cli_return (Inl CliArgs)
      else (case map_of actions (args ! 0) of
          None \<Rightarrow> cli_return (Inl (CliUnknown (args ! 0)))
        | Some a \<Rightarrow> run_peer_action W a (args ! 1)))"

definition simple_commands :: "(string, peer_action) gomap" where
  "simple_commands =
     [(''connect'', ''connect'', ''Connect requested for %s''),
      (''disconnect'', ''disconnect'', ''Disconnect requested for %s''),
      (''unpair'', ''unpair'', ''Unpaired %s''),
      (''ping'', ''ping'', ''Ping sent to %s''),
      (''ring'', ''ring'', ''Ring requested for %s'')]"

definition clipboard_actions :: "(string, peer_action) gomap" where
  "clipboard_actions =
     [(''push'', ''clipboard-push'', ''Clipboard sent to %s''),
      (''start'', ''clipboard-service-start'', ''Clipboard watching started for %s''),
      (''stop'', ''clipboard-service-stop'', ''Clipboard watching stopped for %s''),
      (''sync-on'', ''clipboard-sync-on'', ''Automatic clipboard sync on for %s''),
      (''sync-off'', ''clipboard-sync-off'', ''Automatic clipboard sync off for %s'')]"

definition notification_directions :: "(string, peer_action) gomap" where
  "notification_directions =
     [(''both'', ''notif-sync-both'', ''Notification sync set to both ways for %s''),
      (''toHost'', ''notif-sync-tohost'', ''Notification sync set to phone to computer for %s''),
      (''toClient'', ''notif-sync-toclient'', ''Notification sync set to computer to phone for %s''),
      (''none'', ''notif-sync-stop'', ''Notification sync turned off for %s'')]"

definition input_actions :: "(string, peer_action) gomap" where
  "input_actions =
     [(''enable'', ''input-enable'', ''Remote input enabled for %s''),
      (''disable'', ''input-disable'', ''Remote input disabled for %s''),
      (''auto-on'', ''input-auto-on'', ''Remote input will turn on automatically for %s''),
      (''auto-off'', ''input-auto-off'', ''Remote input no longer turns on automatically for %s'')]"

definition auto_connect_actions :: "(string, peer_action) gomap" where
  "auto_connect_actions =
     [(''on'', ''autoconnect-on'', ''Auto-connect on for %s''),
      (''off'', ''autoconnect-off'', ''Auto-connect off for %s'')]"

definition action_commands :: "(string, (string, peer_action) gomap) gomap" where
  "action_commands =
     [(''clipboard'', clipboard_actions), (''notification'', notification_directions), (''input'', input_actions),
      (''autoconnect'', auto_connect_actions)]"

subsection \<open>Devices (\<open>devices.go\<close>, \<open>status.go\<close>)\<close>

definition run_devices :: "cli_world \<Rightarrow> string list \<Rightarrow> cli_output cli" where
  "run_devices W args =
     (if length args > 1 then cli_return (Inl CliArgs)
      else cli_bind (call_daemon W (empty_request\<lparr>dr_command := ''devices'', dr_peer := (if length args = 1 then hd args else [])\<rparr>))
        (\<lambda>res. cli_return (Inr (case res of
            RespDevice x \<Rightarrow> ShowDevice (Some x)
          | RespDevices ds _ _ _ \<Rightarrow> ShowDevices ds
          | _ \<Rightarrow> ShowDevices []))))"

definition run_discover :: "cli_world \<Rightarrow> string list \<Rightarrow> cli_output cli" where
  "run_discover W args =
     (if args \<noteq> [] then cli_return (Inl CliArgs)
      else cli_bind (call_daemon W (empty_request\<lparr>dr_command := ''discover'', dr_timeout := cw_discover_timeout W sdiv 1000000\<rparr>))
        (\<lambda>res. cli_return (Inr (case res of
            RespDiscovered (d # ds) \<Rightarrow> ShowDiscovered (d # ds)
          | _ \<Rightarrow> ShowText [''[]'']))))"

definition run_status :: "cli_world \<Rightarrow> string list \<Rightarrow> cli_output cli" where
  "run_status W args =
     (if args \<noteq> [] then cli_return (Inl CliArgs)
      else cli_bind (call_daemon W (empty_request\<lparr>dr_command := ''devices''\<rparr>))
        (\<lambda>res. cli_return (Inr (case res of
            RespDevices (d # ds) online _ _ \<Rightarrow>
              ShowTable ([''DEVICE ID'', ''NAME'', ''STATE''] #
                map (\<lambda>x. [pr_peer_id x, pr_peer_name x,
                           if pr_peer_id x \<in> set online then ''connected'' else ''disconnected'']) (d # ds))
          | _ \<Rightarrow> ShowText [''No paired devices.'']))))"

subsection \<open>Media (\<open>media.go\<close>)\<close>

definition bus_arg :: "nat \<Rightarrow> string list \<Rightarrow> string" where
  "bus_arg n args = (if length args = n + 1 then args ! n else [])"

definition between01 :: "float64 option \<Rightarrow> bool" where
  "between01 v = (case v of None \<Rightarrow> False | Some x \<Rightarrow> \<not> negative x \<and> \<not> above_one x)"

definition loop_statuses :: "(string, string) gomap" where
  "loop_statuses = [(''none'', ''None''), (''track'', ''Track''), (''playlist'', ''Playlist'')]"

definition media_args :: "(string \<Rightarrow> float64 option) \<Rightarrow> string list \<Rightarrow> cli_error + daemon_request" where
  "media_args P args =
     (let action = hd args; n = length args; r = empty_request; value = args ! 1 in
      if action \<in> {''list'', ''active''} then
        (if n \<noteq> 1 then Inl (CliUsage action)
         else Inr (r\<lparr>dr_command := if action = ''list'' then ''media-list'' else ''media-active''\<rparr>))
      else if action = ''set-active'' then
        (if n \<noteq> 2 then Inl (CliUsage action) else Inr (r\<lparr>dr_command := ''media-set-active'', dr_bus_name := value\<rparr>))
      else if action \<in> {''play-pause'', ''play'', ''pause'', ''stop'', ''next'', ''previous''} then
        (if n > 2 then Inl (CliUsage action)
         else Inr (r\<lparr>dr_command := ''media-'' @ action, dr_bus_name := bus_arg 1 args\<rparr>))
      else if action = ''seek'' then
        (if n < 2 \<or> n > 3 then Inl (CliUsage action)
         else case parse_int64 value of
           None \<Rightarrow> Inl (CliInvalid value)
         | Some i \<Rightarrow> Inr (r\<lparr>dr_command := ''media-seek'', dr_offset := of_int i, dr_bus_name := bus_arg 2 args\<rparr>))
      else if action = ''seek-to'' then
        (if n < 2 \<or> n > 3 then Inl (CliUsage action)
         else case parse_int64 value of
           None \<Rightarrow> Inl (CliInvalid value)
         | Some i \<Rightarrow>
             if i < 0 then Inl (CliInvalid value)
             else Inr (r\<lparr>dr_command := ''media-seek-to'', dr_position := of_int i, dr_bus_name := bus_arg 2 args\<rparr>))
      else if action = ''auto'' then
        (if n \<noteq> 1 then Inl (CliUsage action) else Inr (r\<lparr>dr_command := ''media-auto''\<rparr>))
      else if action = ''shuffle'' then
        (if n < 2 \<or> n > 3 then Inl (CliUsage action)
         else if to_lower value \<notin> {''on'', ''off''} then Inl (CliInvalid value)
         else Inr (r\<lparr>dr_command := ''media-shuffle'', dr_enabled := (to_lower value = ''on''), dr_bus_name := bus_arg 2 args\<rparr>))
      else if action = ''loop'' then
        (if n < 2 \<or> n > 3 then Inl (CliUsage action)
         else case map_of loop_statuses (to_lower value) of
           None \<Rightarrow> Inl (CliInvalid value)
         | Some st \<Rightarrow> Inr (r\<lparr>dr_command := ''media-loop'', dr_loop := st, dr_bus_name := bus_arg 2 args\<rparr>))
      else if action = ''volume'' then
        (if n < 2 \<or> n > 3 then Inl (CliUsage action)
         else if \<not> between01 (P value) then Inl (CliInvalid value)
         else Inr (r\<lparr>dr_command := ''media-volume'', dr_volume := the (P value), dr_bus_name := bus_arg 2 args\<rparr>))
      else Inl (CliUnknown action))"

definition completed :: "string \<Rightarrow> string \<Rightarrow> cli_output" where
  "completed what action = ShowText [what @ '' command '' @ action @ '' completed.'']"

definition run_media_args :: "cli_world \<Rightarrow> string list \<Rightarrow> cli_output cli" where
  "run_media_args W args =
     (if args = [] then cli_return (Inl CliArgs)
      else cli_bind (cli_return (media_args (cw_float W) args)) (\<lambda>r.
        cli_bind (call_daemon W r) (\<lambda>res. cli_return (Inr (case res of
            RespPlayers (p # ps) \<Rightarrow> ShowPlayers (p # ps)
          | RespPlayer p \<Rightarrow> ShowPlayer p
          | _ \<Rightarrow> completed ''Media'' (hd args))))))"

subsection \<open>Sound (\<open>audio.go\<close>)\<close>

definition audio_args :: "(string \<Rightarrow> float64 option) \<Rightarrow> string list \<Rightarrow> cli_error + daemon_request" where
  "audio_args P args =
     (let action = hd args; rest = tl args; n = length rest; r = empty_request in
      if action = ''list'' then
        (if n \<noteq> 0 then Inl (CliUsage action) else Inr (r\<lparr>dr_command := ''audio-list''\<rparr>))
      else if action = ''volume'' then
        (if n < 1 \<or> n > 2 then Inl (CliUsage action)
         else if \<not> between01 (P (rest ! 0)) then Inl (CliInvalid (rest ! 0))
         else Inr (r\<lparr>dr_command := ''audio-volume'', dr_volume := the (P (rest ! 0)), dr_device := bus_arg 1 rest\<rparr>))
      else if action \<in> {''mute'', ''unmute''} then
        (if n > 1 then Inl (CliUsage action)
         else Inr (r\<lparr>dr_device := bus_arg 0 rest, dr_command := ''audio-mute'', dr_enabled := (action = ''mute'')\<rparr>))
      else if action = ''default'' then
        (if n \<noteq> 1 then Inl (CliUsage action) else Inr (r\<lparr>dr_command := ''audio-default'', dr_device := rest ! 0\<rparr>))
      else Inl (CliUnknown action))"

text \<open>\<open>%.0f%%\<close> of a hundred times the volume.\<close>

definition volume_text :: "float64 \<Rightarrow> string" where
  "volume_text v =
     (case v of
        Fin r \<Rightarrow> (if r < 0 then ''-'' else []) @ dec_nat (nat (round_even (\<bar>r\<bar> * 100)))
      | NaN \<Rightarrow> ''NaN'' | PosInf \<Rightarrow> ''+Inf'' | NegInf \<Rightarrow> ''-Inf'') @ ''%''"

definition audio_row :: "audio_device \<Rightarrow> string list" where
  "audio_row a =
     [if ad_default a then ''*'' else [], volume_text (ad_volume a), if ad_muted a then ''true'' else ''false'',
      ad_name a, ad_description a]"

definition run_audio :: "cli_world \<Rightarrow> string list \<Rightarrow> cli_output cli" where
  "run_audio W args =
     (if args = [] then cli_return (Inl CliArgs)
      else cli_bind (cli_return (audio_args (cw_float W) args)) (\<lambda>r.
        cli_bind (call_daemon W r) (\<lambda>res. cli_return (Inr (
          if hd args = ''list''
          then ShowTable ([''DEFAULT'', ''VOLUME'', ''MUTED'', ''NAME'', ''DESCRIPTION''] #
                 map audio_row (case res of RespAudio ds \<Rightarrow> ds | _ \<Rightarrow> []))
          else completed ''Audio'' (hd args))))))"

subsection \<open>Notification filters (\<open>notification_filters.go\<close>)\<close>

definition fetch_filters :: "cli_world \<Rightarrow> notification_filters cli" where
  "fetch_filters W =
     cli_bind (call_daemon W (empty_request\<lparr>dr_command := ''notif-filters-get''\<rparr>))
       (\<lambda>res. cli_return (Inr (case res of RespFilters f \<Rightarrow> f | _ \<Rightarrow> empty_filters)))"

definition add_fold :: "string list \<Rightarrow> string \<Rightarrow> string list" where
  "add_fold xs v = (if list_ex (\<lambda>x. equal_fold x v) xs then xs else xs @ [v])"

definition remove_fold :: "string list \<Rightarrow> string \<Rightarrow> string list" where
  "remove_fold xs v = filter (\<lambda>x. \<not> equal_fold x v) xs"

definition edit_filters :: "string \<Rightarrow> string \<Rightarrow> notification_filters \<Rightarrow> cli_error + notification_filters" where
  "edit_filters action v f =
     (if action = ''mute-app'' then Inr (f\<lparr>muted_apps := add_fold (muted_apps f) v\<rparr>)
      else if action = ''unmute-app'' then Inr (f\<lparr>muted_apps := remove_fold (muted_apps f) v\<rparr>)
      else if action = ''only-app'' then Inr (f\<lparr>only_apps := add_fold (only_apps f) v\<rparr>)
      else if action = ''unonly-app'' then Inr (f\<lparr>only_apps := remove_fold (only_apps f) v\<rparr>)
      else if action = ''mute-category'' then Inr (f\<lparr>muted_categories := add_fold (muted_categories f) v\<rparr>)
      else if action = ''unmute-category'' then Inr (f\<lparr>muted_categories := remove_fold (muted_categories f) v\<rparr>)
      else if action = ''silent'' then Inr (f\<lparr>silent_policy := to_lower v\<rparr>)
      else if action = ''clear'' then Inr empty_filters
      else Inl (CliUnknown action))"

definition filter_items :: "string list \<Rightarrow> string" where
  "filter_items xs = (if xs = [] then ''(none)'' else join_with '', '' xs)"

definition filter_lines :: "notification_filters \<Rightarrow> string list" where
  "filter_lines f =
     [''muted apps:       '' @ filter_items (muted_apps f),
      ''only apps:        '' @ filter_items (only_apps f),
      ''muted categories: '' @ filter_items (muted_categories f),
      ''silent policy:    '' @ (if silent_policy f = [] then ''preserve (default)'' else silent_policy f)]"

definition run_filters :: "cli_world \<Rightarrow> string list \<Rightarrow> cli_output cli" where
  "run_filters W args =
     (let action = hd args; need = (action \<noteq> ''clear''); value = (if need then trim_space (args ! 1) else []) in
      if length args < 1 \<or> length args > 2 then cli_return (Inl CliArgs)
      else cli_bind (fetch_filters W) (\<lambda>f.
        if action = ''show'' then cli_return (Inr (ShowText (filter_lines f)))
        else if (need \<and> length args \<noteq> 2) \<or> (\<not> need \<and> length args \<noteq> 1) then cli_return (Inl (CliUsage action))
        else if need \<and> value = [] then cli_return (Inl (CliInvalid value))
        else cli_bind (cli_return (edit_filters action value f)) (\<lambda>f'.
          cli_bind (call_daemon W (empty_request\<lparr>dr_command := ''notif-filters-set'', dr_filters := Some f'\<rparr>))
            (\<lambda>res. cli_return (Inr (ShowText (case res of RespFilters g \<Rightarrow> filter_lines g | _ \<Rightarrow> [])))))))"

subsection \<open>Pairing (\<open>pair.go\<close>)\<close>

text \<open>\<open>%03d\<close>.\<close>

definition pad3 :: "nat \<Rightarrow> string" where
  "pad3 n = replicate (3 - length (dec_nat n)) (CHR ''0'') @ dec_nat n"

definition code_text :: "32 word \<Rightarrow> string" where
  "code_text code = pad3 (unat (code div 1000)) @ '' '' @ pad3 (unat (code mod 1000))"

definition user_accepts :: "string \<Rightarrow> bool" where
  "user_accepts line \<longleftrightarrow> to_lower (trim_space line) \<in> {''y'', ''yes''}"

text \<open>One connection without a deadline: the daemon's first reply, and its reply to the confirmation.\<close>

definition talk :: "cli_world \<Rightarrow> daemon_request \<Rightarrow> response cli" where
  "talk W r h =
     (if \<not> encodes W r then (Inl CliSend, h)
      else (case cw_reply W h r of
          None \<Rightarrow> Inl CliReply
        | Some (res, _) \<Rightarrow> (case res of RespError e \<Rightarrow> Inl (CliDaemon e) | _ \<Rightarrow> Inr res), h @ [r]))"

definition confirm_request :: "string \<Rightarrow> daemon_request" where
  "confirm_request line = empty_request\<lparr>dr_command := ''confirm_pairing'', dr_confirm := Some (user_accepts line)\<rparr>"

definition run_pair :: "cli_world \<Rightarrow> string list \<Rightarrow> cli_output cli" where
  "run_pair W args =
     (if length args \<noteq> 1 then cli_return (Inl CliArgs)
      else case dial W of
        Some e \<Rightarrow> cli_return (Inl e)
      | None \<Rightarrow>
          cli_bind (talk W (empty_request\<lparr>dr_command := ''pair'', dr_peer := hd args,
              dr_timeout := cw_pair_timeout W sdiv 1000000\<rparr>)) (\<lambda>res. case res of
            RespCode code name \<Rightarrow>
              if cw_line_ended W \<and> cw_line W = [] then cli_return (Inl CliStdin)
              else cli_bind (talk W (confirm_request (cw_line W))) (\<lambda>res.
                cli_return (Inr (case res of RespDevice x \<Rightarrow> ShowDevice (Some x) | _ \<Rightarrow> ShowDevice None)))
          | _ \<Rightarrow> cli_return (Inl CliNoCode)))"

definition pair_prompt :: "string \<Rightarrow> 32 word \<Rightarrow> string" where
  "pair_prompt name code = ''Pairing code for '' @ name @ '': '' @ code_text code"

subsection \<open>The root command (\<open>main.go\<close>, \<open>root.go\<close>)\<close>

definition run_root :: "cli_world \<Rightarrow> string list \<Rightarrow> cli_output cli" where
  "run_root W argv =
     (case argv of
        [] \<Rightarrow> cli_return (Inr (ShowText [''Quava works.'']))
      | name # args \<Rightarrow>
          (case map_of simple_commands name of
             Some a \<Rightarrow> peer_command W a args
           | None \<Rightarrow>
               (case map_of action_commands name of
                  Some actions \<Rightarrow> action_command W actions args
                | None \<Rightarrow>
                    if name = ''discover'' then run_discover W args
                    else if name = ''devices'' then run_devices W args
                    else if name = ''pair'' then run_pair W args
                    else if name = ''media'' then run_media_args W args
                    else if name = ''audio'' then run_audio W args
                    else if name = ''status'' then run_status W args
                    else cli_return (Inl (CliUnknown name)))))"

text \<open>The exit status and what goes to standard error: nothing, or one message.\<close>

definition cli_exit_status :: "cli_error + cli_output \<Rightarrow> nat" where
  "cli_exit_status r = (case r of Inl _ \<Rightarrow> 1 | Inr _ \<Rightarrow> 0)"

end
