(* ===== verification/Command_Requests.thy ===== *)
theory Command_Requests
  imports Command_Line
begin

text \<open>
  The command line and the daemon together: every request the command line sends is served, editing the
  filters reaches the bridge, pairing needs the user's answer, and a long search is lost.
\<close>

subsection \<open>The requests that are sent\<close>

definition sends :: "(daemon_request \<Rightarrow> bool) \<Rightarrow> 'a cli \<Rightarrow> bool" where
  "sends P m \<longleftrightarrow> (\<forall>h. \<exists>rs. snd (m h) = h @ rs \<and> list_all P rs)"

named_theorems sends_rules

lemma sends_return [sends_rules]: "sends P (cli_return r)"
  by (simp add: sends_def cli_return_def)

lemma sends_bind [sends_rules]:
  assumes "sends P m" and "\<And>x. sends P (f x)"
  shows "sends P (cli_bind m f)"
  unfolding sends_def
proof
  fix h
  obtain rs where rs: "snd (m h) = h @ rs" "list_all P rs" using assms(1) by (auto simp: sends_def)
  show "\<exists>rs. snd (cli_bind m f h) = h @ rs \<and> list_all P rs"
  proof (cases "m h")
    case (Pair r h')
    show ?thesis
    proof (cases r)
      case (Inr x)
      obtain qs where "snd (f x h') = h' @ qs" "list_all P qs" using assms(2) [of x] by (auto simp: sends_def)
      then show ?thesis using rs by (auto simp: cli_bind_def Pair Inr intro!: exI [of _ "rs @ qs"])
    qed (use rs in \<open>auto simp: cli_bind_def Pair\<close>)
  qed
qed

lemma sends_bind_return: "(\<And>x. r = Inr x \<Longrightarrow> sends P (f x)) \<Longrightarrow> sends P (cli_bind (cli_return r) f)"
  by (cases r) (auto simp: sends_def cli_bind_def cli_return_def)

lemma sends_call: "(encodes W r \<Longrightarrow> P r) \<Longrightarrow> sends P (call_daemon W r)"
  by (auto simp: sends_def call_daemon_def split: option.split)

lemma sends_talk: "(encodes W r \<Longrightarrow> P r) \<Longrightarrow> sends P (talk W r)"
  by (auto simp: sends_def talk_def split: option.split)

text \<open>The commands of the daemon's dispatch, and the requests it does not turn down for their
  arguments.\<close>

definition peer_commands :: "string list" where
  "peer_commands =
     [''pair'', ''connect'', ''disconnect'', ''unpair'', ''ping'', ''ring'', ''clipboard-push'', ''clipboard-service-start'',
      ''clipboard-service-stop'', ''clipboard-sync-on'', ''clipboard-sync-off'', ''notif-sync-both'', ''notif-sync-tohost'',
      ''notif-sync-toclient'', ''notif-sync-stop'', ''input-enable'', ''input-disable'', ''input-auto-on'',
      ''input-auto-off'', ''autoconnect-on'', ''autoconnect-off'']"

definition host_commands :: "string list" where
  "host_commands = [''devices'', ''discover'', ''media-list'', ''media-active'', ''media-set-active'', ''media-auto'',
     ''audio-list'', ''audio-volume'', ''audio-mute'', ''audio-default'', ''notif-filters-get'', ''notif-filters-set'']"

definition unsupported :: "daemon_request \<Rightarrow> bool" where
  "unsupported r \<longleftrightarrow> (\<exists>k v c. Reply k (RespError (DmUnsupported c)) \<in> set (request_actions k v r))"

lemma unsupportedD:
  assumes "unsupported r"
  shows "dr_command r \<notin> set peer_commands" "dr_command r \<notin> set host_commands" "dr_command r \<notin> set media_controls"
proof -
  obtain k v c where "Reply k (RespError (DmUnsupported c)) \<in> set (request_actions k v r)"
    using assms by (auto simp: unsupported_def)
  then show "dr_command r \<notin> set peer_commands" "dr_command r \<notin> set host_commands" "dr_command r \<notin> set media_controls"
    unfolding request_actions_def Let_def peer_commands_def host_commands_def
    by (auto split: if_split_asm)
qed

text \<open>A request is turned down when the dispatch does not know it, when the players' commands refuse it
  before they ask a player, or when the sound refuses the volume.\<close>

definition turned_down :: "daemon_request \<Rightarrow> bool" where
  "turned_down r \<longleftrightarrow> unsupported r \<or>
     dr_command r \<in> set media_controls \<and>
       (\<exists>b n s e. fst (run_media_command b (media_command_of r) n s) = Some e \<and> (\<forall>x. e \<noteq> MeMpris x)) \<or>
     dr_command r = ''audio-volume'' \<and> outside01 (dr_volume r)"

definition in_range :: "daemon_request \<Rightarrow> bool" where
  "in_range r \<longleftrightarrow>
     (dr_command r \<in> {''media-volume'', ''audio-volume''} \<longrightarrow> \<not> negative (dr_volume r) \<and> \<not> above_one (dr_volume r)) \<and>
     (dr_command r = ''media-loop'' \<longrightarrow> dr_loop r \<in> {''None'', ''Track'', ''Playlist''})"

lemma media_control_refusal:
  assumes "dr_command r \<in> set media_controls" and "in_range r"
    and e: "fst (run_media_command b (media_command_of r) n s) = Some e"
  shows "\<exists>x. e = MeMpris x"
proof -
  define c where "c = media_command_of r"
  have m: "mc_command c = dr_command r" "mc_volume c = dr_volume r" "mc_loop_status c = dr_loop r"
    by (simp_all add: c_def media_command_of_def)
  show ?thesis
    using assms(1,2) e [folded c_def]
    unfolding run_media_command_def Let_def m in_range_def media_controls_def
    by (auto split: if_split_asm)
qed

definition served :: "daemon_request \<Rightarrow> bool" where
  "served r \<longleftrightarrow>
     (dr_command r \<in> set peer_commands \<or> dr_command r \<in> set host_commands \<or> dr_command r \<in> set media_controls) \<and> in_range r"

lemma outside01_alt: "outside01 v \<longleftrightarrow> negative v \<or> above_one v"
  by (auto simp: outside01_def negative_def above_one_def split: float64.split)

lemma served_not_turned_down: "served r \<Longrightarrow> \<not> turned_down r"
  using unsupportedD [of r] media_control_refusal [of r]
  unfolding served_def turned_down_def outside01_alt by (auto simp: in_range_def)

definition plain_commands :: "string list" where
  "plain_commands = filter (\<lambda>c. c \<notin> {''audio-volume'', ''media-volume'', ''media-loop''})
     (peer_commands @ host_commands @ media_controls)"

lemma served_plain: "dr_command r \<in> set plain_commands \<Longrightarrow> served r"
  unfolding served_def in_range_def plain_commands_def by auto

lemma plain_commands_eq:
  "plain_commands = peer_commands @ [''devices'', ''discover'', ''media-list'', ''media-active'', ''media-set-active'',
     ''media-auto'', ''audio-list'', ''audio-mute'', ''audio-default'', ''notif-filters-get'', ''notif-filters-set'',
     ''media-play-pause'', ''media-next'', ''media-previous'', ''media-play'', ''media-pause'', ''media-stop'',
     ''media-seek'', ''media-seek-to'', ''media-shuffle'']"
  by code_simp

lemma served_volume:
  assumes "between01 v"
  shows "served (empty_request\<lparr>dr_command := ''media-volume'', dr_volume := the v, dr_bus_name := n\<rparr>)"
    and "served (empty_request\<lparr>dr_command := ''audio-volume'', dr_volume := the v, dr_device := n\<rparr>)"
proof -
  have v: "\<not> negative (the v)" "\<not> above_one (the v)" using assms by (auto simp: between01_def split: option.split_asm)
  have c: "''media-volume'' \<in> set media_controls" "''audio-volume'' \<in> set host_commands" by code_simp+
  show "served (empty_request\<lparr>dr_command := ''media-volume'', dr_volume := the v, dr_bus_name := n\<rparr>)"
    and "served (empty_request\<lparr>dr_command := ''audio-volume'', dr_volume := the v, dr_device := n\<rparr>)"
    using v c by (simp_all add: served_def in_range_def)
qed

lemma served_loop:
  assumes "map_of loop_statuses x = Some st"
  shows "served (empty_request\<lparr>dr_command := ''media-loop'', dr_loop := st, dr_bus_name := n\<rparr>)"
proof -
  have "st \<in> {''None'', ''Track'', ''Playlist''}" using assms by (auto simp: loop_statuses_def split: if_split_asm)
  moreover have "''media-loop'' \<in> set media_controls" by code_simp
  ultimately show ?thesis by (auto simp add: served_def in_range_def)
qed

lemma served_toggle:
  assumes "a \<in> {''play-pause'', ''play'', ''pause'', ''stop'', ''next'', ''previous''}"
  shows "served (empty_request\<lparr>dr_command := ''media-'' @ a, dr_bus_name := n\<rparr>)"
  by (rule served_plain) (use assms in \<open>auto simp: plain_commands_eq\<close>)

lemma served_media:
  "served (empty_request\<lparr>dr_command := ''media-list''\<rparr>)"
  "served (empty_request\<lparr>dr_command := ''media-active''\<rparr>)"
  "served (empty_request\<lparr>dr_command := ''media-set-active'', dr_bus_name := n\<rparr>)"
  "served (empty_request\<lparr>dr_command := ''media-auto''\<rparr>)"
  "served (empty_request\<lparr>dr_command := ''media-seek'', dr_offset := w, dr_bus_name := n\<rparr>)"
  "served (empty_request\<lparr>dr_command := ''media-seek-to'', dr_position := w, dr_bus_name := n\<rparr>)"
  "served (empty_request\<lparr>dr_command := ''media-shuffle'', dr_enabled := on, dr_bus_name := n\<rparr>)"
  "served (empty_request\<lparr>dr_command := ''audio-list''\<rparr>)"
  "served (empty_request\<lparr>dr_device := n, dr_command := ''audio-mute'', dr_enabled := on\<rparr>)"
  "served (empty_request\<lparr>dr_command := ''audio-default'', dr_device := n\<rparr>)"
  by (rule served_plain, simp add: plain_commands_eq)+

lemma served_list_active: "served (empty_request\<lparr>dr_command := if c then ''media-list'' else ''media-active''\<rparr>)"
  using served_media(1,2) by simp

definition yields :: "('a \<Rightarrow> bool) \<Rightarrow> cli_error + 'a \<Rightarrow> bool" where
  "yields P x \<longleftrightarrow> (\<forall>r. x = Inr r \<longrightarrow> P r)"

lemma yields_rules:
  "yields P (Inl e)"
  "P r \<Longrightarrow> yields P (Inr r)"
  "(c \<Longrightarrow> yields P x) \<Longrightarrow> (\<not> c \<Longrightarrow> yields P y) \<Longrightarrow> yields P (if c then x else y)"
  "(v = None \<Longrightarrow> yields P x) \<Longrightarrow> (\<And>i. v = Some i \<Longrightarrow> yields P (f i)) \<Longrightarrow> yields P (case v of None \<Rightarrow> x | Some i \<Rightarrow> f i)"
  by (auto simp: yields_def split: option.split)

lemma media_args_served: "yields served (media_args P args)"
  unfolding media_args_def Let_def
  by (intro yields_rules served_list_active served_media(3-7) served_toggle served_loop served_volume(1))
    (assumption | simp)+

lemma audio_args_served: "yields served (audio_args P args)"
  unfolding audio_args_def Let_def
  by (intro yields_rules served_media(8-10) served_volume(2)) simp_all

lemma action_tables_served:
  "map_of simple_commands n = Some a \<Longrightarrow> fst a \<in> set peer_commands"
  "map_of action_commands n = Some actions \<Longrightarrow> map_of actions x = Some a \<Longrightarrow> fst a \<in> set peer_commands"
proof -
  have "\<forall>(n, a) \<in> set simple_commands. fst a \<in> set peer_commands" by code_simp
  then show "map_of simple_commands n = Some a \<Longrightarrow> fst a \<in> set peer_commands" by (auto dest: map_of_SomeD)
  have "\<forall>(n, as) \<in> set action_commands. \<forall>(x, a) \<in> set as. fst a \<in> set peer_commands" by code_simp
  then show "map_of action_commands n = Some actions \<Longrightarrow> map_of actions x = Some a \<Longrightarrow> fst a \<in> set peer_commands"
    by (fastforce dest: map_of_SomeD)
qed

lemma run_peer_action_sends:
  assumes "fst a \<in> set peer_commands"
  shows "sends served (run_peer_action W a i)"
  unfolding run_peer_action_def using assms
  by (intro sends_rules sends_call served_plain) (simp add: plain_commands_eq)

text \<open>Every request but the answer to a pairing code is one for the dispatch.\<close>

definition sent_by :: "cli_world \<Rightarrow> daemon_request \<Rightarrow> bool" where
  "sent_by W r \<longleftrightarrow> r = confirm_request (cw_line W) \<or> served r"

lemma sends_mono: "sends P m \<Longrightarrow> (\<And>r. P r \<Longrightarrow> Q r) \<Longrightarrow> sends Q m"
  unfolding sends_def by (metis list.pred_mono_strong)

lemma served_hostI:
  "served (empty_request\<lparr>dr_command := ''devices'', dr_peer := i\<rparr>)"
  "served (empty_request\<lparr>dr_command := ''devices''\<rparr>)"
  "served (empty_request\<lparr>dr_command := ''discover'', dr_timeout := t\<rparr>)"
  "served (empty_request\<lparr>dr_command := ''notif-filters-get''\<rparr>)"
  "served (empty_request\<lparr>dr_command := ''notif-filters-set'', dr_filters := f\<rparr>)"
  "served (empty_request\<lparr>dr_command := ''pair'', dr_peer := i, dr_timeout := t\<rparr>)"
  by (rule served_plain, simp add: plain_commands_eq peer_commands_def)+

lemma sends_cases [sends_rules]:
  "(c \<Longrightarrow> sends P x) \<Longrightarrow> (\<not> c \<Longrightarrow> sends P y) \<Longrightarrow> sends P (if c then x else y)"
  "(v = None \<Longrightarrow> sends P x) \<Longrightarrow> (\<And>i. v = Some i \<Longrightarrow> sends P (f i)) \<Longrightarrow> sends P (case v of None \<Rightarrow> x | Some i \<Rightarrow> f i)"
  by (auto split: option.split)

lemma sends_yields [sends_rules]:
  "yields Q r \<Longrightarrow> (\<And>x. Q x \<Longrightarrow> sends P (f x)) \<Longrightarrow> sends P (cli_bind (cli_return r) f)"
  by (rule sends_bind_return) (simp add: yields_def)

lemma commands_send:
  "map_of simple_commands n = Some a \<Longrightarrow> sends served (peer_command W a args)"
  "map_of action_commands n = Some actions \<Longrightarrow> sends served (action_command W actions args)"
  "sends served (run_devices W args)"
  "sends served (run_discover W args)"
  "sends served (run_status W args)"
  "sends served (run_media_args W args)"
  "sends served (run_audio W args)"
proof -
  show "sends served (peer_command W a args)" if "map_of simple_commands n = Some a"
    unfolding peer_command_def by (intro sends_cases sends_return run_peer_action_sends action_tables_served(1) [OF that])
  show "sends served (action_command W actions args)" if "map_of action_commands n = Some actions"
    unfolding action_command_def
    by (intro sends_cases sends_return run_peer_action_sends action_tables_served(2) [OF that])
  show "sends served (run_devices W args)" "sends served (run_discover W args)" "sends served (run_status W args)"
    unfolding run_devices_def run_discover_def run_status_def
    by (intro sends_cases sends_return sends_bind sends_call served_hostI)+
  show "sends served (run_media_args W args)"
    unfolding run_media_args_def
    by (intro sends_cases sends_yields [OF media_args_served] sends_return sends_bind sends_call)
  show "sends served (run_audio W args)"
    unfolding run_audio_def
    by (intro sends_cases sends_yields [OF audio_args_served] sends_return sends_bind sends_call)
qed

lemma run_pair_sends: "sends (sent_by W) (run_pair W args)"
proof -
  have c: "sends (sent_by W) (talk W (confirm_request (cw_line W)))"
    by (rule sends_talk) (simp add: sent_by_def)
  show ?thesis
    unfolding run_pair_def
    by (intro sends_cases sends_return sends_bind [OF sends_talk])
      (auto simp: sent_by_def served_hostI split: response.split intro!: sends_return sends_bind [OF c])
qed

lemma run_root_sends: "sends (sent_by W) (run_root W argv)"
proof -
  have s: "sends (sent_by W) m" if "sends served m" for m :: "cli_output cli"
    using that by (rule sends_mono) (simp add: sent_by_def)
  show ?thesis
  proof (cases argv)
    case (Cons n args)
    show ?thesis
      unfolding run_root_def Cons list.case
      by (intro sends_cases run_pair_sends s commands_send(1,2) commands_send(3-) sends_return)
  qed (simp add: run_root_def sends_return)
qed


subsection \<open>Editing the filters\<close>

lemma contains_fold_canon: "contains_fold xs v \<longleftrightarrow> canon v \<in> canon ` set xs"
  unfolding contains_fold_def list_ex_iff equal_fold_def canon_def by (metis (no_types, lifting) image_iff)

text \<open>The filters the daemon holds: without blank items, and trimmed.\<close>

definition clean_list :: "string list \<Rightarrow> bool" where
  "clean_list xs \<longleftrightarrow> list_all (\<lambda>x. x \<noteq> [] \<and> trim_space x = x) xs"

definition clean_filters :: "notification_filters \<Rightarrow> bool" where
  "clean_filters f \<longleftrightarrow> clean_list (muted_apps f) \<and> clean_list (only_apps f) \<and> clean_list (muted_categories f)"

lemma canon_clean: "clean_list xs \<Longrightarrow> x \<in> set xs \<Longrightarrow> canon x = to_lower x \<and> canon x \<noteq> []"
  by (auto simp: clean_list_def list_all_iff canon_def to_lower_def)

lemma clean_items_clean: "clean_list (clean_items xs known)"
  using clean_items_props [of xs known] by (simp add: clean_list_def list_all_iff)

lemma clean_items_canon:
  "canon ` set (clean_items xs known) = canon ` set xs - set known - {[]}"
proof (induction xs arbitrary: known)
  case (Cons x xs)
  have c: "canon (trim_space x) = canon x" by (simp add: canon_def)
  have e: "trim_space x = [] \<longleftrightarrow> canon x = []" by (auto simp: canon_def to_lower_def)
  have k: "to_lower (trim_space x) = canon x" by (simp add: canon_def)
  show ?case using Cons.IH [of known] Cons.IH [of "canon x # known"] by (auto simp: Let_def e k c)
qed simp

lemma not_blank: "clean_list xs \<Longrightarrow> [] \<notin> canon ` set xs"
  using canon_clean [of xs] by fastforce

lemma clean_items_canon_clean: "clean_list xs \<Longrightarrow> canon ` set (clean_items xs []) = canon ` set xs"
  by (simp add: clean_items_canon not_blank)

lemma clean_items_in: "clean_list xs \<Longrightarrow> x \<in> set (clean_items xs []) \<Longrightarrow> canon x \<in> canon ` set xs"
  using clean_items_canon_clean [of xs] by blast

lemma add_fold_canon: "trim_space v = v \<Longrightarrow> canon ` set (add_fold xs v) = insert (canon v) (canon ` set xs)"
proof -
  assume v: "trim_space v = v"
  have "canon x = canon v" if "equal_fold x v" for x
    using that v trim_space_to_lower [of x] trim_space_to_lower [of v] by (simp add: canon_def equal_fold_def)
  then have "canon v \<in> canon ` set xs" if "list_ex (\<lambda>x. equal_fold x v) xs"
    using that unfolding list_ex_iff by (metis image_iff)
  then show ?thesis by (auto simp: add_fold_def)
qed

lemma remove_fold_canon:
  "trim_space v = v \<Longrightarrow> clean_list xs \<Longrightarrow> canon ` set (remove_fold xs v) = canon ` set xs - {canon v}"
  by (auto simp: remove_fold_def equal_fold_def clean_list_def list_all_iff canon_def)

text \<open>Filters that differ only in the case of their items and the spaces around them.\<close>

definition agree :: "notification_filters \<Rightarrow> notification_filters \<Rightarrow> bool" where
  "agree g f \<longleftrightarrow>
     canon ` set (muted_apps g) = canon ` set (muted_apps f) \<and> canon ` set (only_apps g) = canon ` set (only_apps f) \<and>
     canon ` set (muted_categories g) = canon ` set (muted_categories f) \<and> canon (silent_policy g) = canon (silent_policy f)"

lemma agree_trans: "agree f g \<Longrightarrow> agree g h \<Longrightarrow> agree f h"
  by (simp add: agree_def)

lemma agree_shows:
  assumes "agree g f"
  shows "should_show g n = should_show f n"
proof -
  have "only_apps g = [] \<longleftrightarrow> only_apps f = []" using assms by (auto simp: agree_def)
  then show ?thesis using assms unfolding should_show_def contains_fold_canon agree_def by (simp add: canon_def)
qed

lemma muting_hides:
  assumes "trim_space v = v"
  shows "should_show (f\<lparr>muted_apps := add_fold (muted_apps f) v\<rparr>) n =
    (if canon (an_app n) = canon v then (False, False) else should_show f n)"
  unfolding should_show_def contains_fold_canon by (simp add: add_fold_canon [OF assms])

lemma filters_set_done:
  assumes "filters_set E k (Some nf) x d = (d', [Reply k (RespFilters g)])"
  shows "muted_apps g = clean_items (muted_apps nf) [] \<and> only_apps g = clean_items (only_apps nf) [] \<and>
    muted_categories g = clean_items (muted_categories nf) [] \<and> silent_policy g = canon (silent_policy nf) \<and>
    get_filters (Some (dm_store d')) = g \<and> dm_bridge d' = map_option (\<lambda>_. g) (dm_bridge d)"
proof -
  obtain f where f: "set_notification_filters nf (dm_store d) = Inr f"
    using assms by (auto simp: filters_set_def change_store_def split: sum.splits)
  obtain e f' fs where s: "save_store (de_yaml E) x (de_tmp E) (config_path (de_dir E)) f (dm_files d) = (e, f', fs)"
    by (metis prod_cases3)
  have "cf_filters (fst (snd (save_store Y x tmp path f fs))) = cf_filters f" for Y tmp path fs
    by (simp add: save_store_def Let_def split: option.split prod.split)
  then have "cf_filters f' = cf_filters f" using s by (metis fst_conv snd_conv)
  moreover have "e = None \<and> g = cf_filters f' \<and> d' = d\<lparr>dm_store := f', dm_files := fs, dm_bridge := map_option (\<lambda>_. g) (dm_bridge d)\<rparr>"
    using assms f s by (cases e) (auto simp: filters_set_def change_store_def Let_def get_filters_def)
  ultimately show ?thesis
    using f by (auto simp: set_notification_filters_def Let_def get_filters_def split: if_splits)
qed

text \<open>A run of the command whose two requests were served by the daemon \<open>d\<close>, which became \<open>d'\<close>.\<close>

definition daemon_filters :: "daemon \<Rightarrow> notification_filters" where
  "daemon_filters d = get_filters (Some (dm_store d))"

definition filters_edited ::
    "cli_world \<Rightarrow> string list \<Rightarrow> daemon_env \<Rightarrow> nat \<Rightarrow> save_faults \<Rightarrow> daemon \<Rightarrow> daemon \<Rightarrow> bool" where
  "filters_edited W args E k x d d' \<longleftrightarrow>
     (case run_filters W args [] of
        (Inr out, [r1, r2]) \<Rightarrow>
          (case cw_reply W [] r1 of Some (res, t) \<Rightarrow> res = RespFilters (daemon_filters d) | None \<Rightarrow> False) \<and>
          filters_set E k (dr_filters r2) x d = (d', [Reply k (RespFilters (daemon_filters d'))])
      | _ \<Rightarrow> False)"

lemma call_daemon_Inr:
  assumes "call_daemon W r h = (Inr res, h')"
  shows "h' = h @ [r] \<and> (\<exists>t. cw_reply W h r = Some (res, t) \<and> t < reply_timeout)"
  using assms by (auto simp: call_daemon_def split: option.splits if_splits response.splits)

lemma cli_bind_Inr:
  "cli_bind m f h = (Inr y, h'') \<longleftrightarrow> (\<exists>x h'. m h = (Inr x, h') \<and> f x h' = (Inr y, h''))"
  by (auto simp: cli_bind_def split: prod.splits sum.splits)

lemma filters_edited_request:
  assumes "filters_edited W [action, v] E k x d d'" and "action \<noteq> ''show''" and "action \<noteq> ''clear''"
  shows "trim_space v \<noteq> [] \<and> (\<exists>nf. edit_filters action (trim_space v) (daemon_filters d) = Inr nf \<and>
    filters_set E k (Some nf) x d = (d', [Reply k (RespFilters (daemon_filters d'))]))"
proof -
  obtain out r1 r2 res t where r: "run_filters W [action, v] [] = (Inr out, [r1, r2])"
    "cw_reply W [] r1 = Some (res, t)" "res = RespFilters (daemon_filters d)"
    "filters_set E k (dr_filters r2) x d = (d', [Reply k (RespFilters (daemon_filters d'))])"
    using assms(1) unfolding filters_edited_def
    by (auto split: prod.splits sum.splits list.splits option.splits)
  obtain f h where f: "fetch_filters W [] = (Inr f, h)" and v: "trim_space v \<noteq> []"
    and s: "cli_bind (cli_return (edit_filters action (trim_space v) f)) (\<lambda>f'.
          cli_bind (call_daemon W (empty_request\<lparr>dr_command := ''notif-filters-set'', dr_filters := Some f'\<rparr>))
            (\<lambda>res. cli_return (Inr (ShowText (case res of RespFilters g \<Rightarrow> filter_lines g | _ \<Rightarrow> []))))) h = (Inr out, [r1, r2])"
    using r(1) assms(2,3) by (auto simp: run_filters_def cli_bind_Inr cli_return_def Let_def split: if_splits)
  have h: "h = [empty_request\<lparr>dr_command := ''notif-filters-get''\<rparr>]" and
    f': "\<exists>res t. cw_reply W [] (empty_request\<lparr>dr_command := ''notif-filters-get''\<rparr>) = Some (res, t) \<and>
      f = (case res of RespFilters f \<Rightarrow> f | _ \<Rightarrow> empty_filters)"
    using f by (auto simp: fetch_filters_def cli_bind_Inr cli_return_def dest: call_daemon_Inr)
  obtain nf where nf: "edit_filters action (trim_space v) f = Inr nf"
    and c: "\<exists>res. call_daemon W (empty_request\<lparr>dr_command := ''notif-filters-set'', dr_filters := Some nf\<rparr>) h = (Inr res, [r1, r2])"
    using s by (auto simp: cli_bind_Inr cli_return_def)
  have rs: "[r1, r2] = h @ [empty_request\<lparr>dr_command := ''notif-filters-set'', dr_filters := Some nf\<rparr>]"
    using c call_daemon_Inr by blast
  have "f = daemon_filters d" using f' r(2,3) rs h by auto
  moreover have "dr_filters r2 = Some nf" using rs h by auto
  ultimately show ?thesis using v nf r(4) by auto
qed

subsection \<open>The three lists of the filters\<close>

text \<open>The apps to hide, the apps to show alone and the categories to hide are edited alike: a word adds an
  item, another one removes it, and the rest of the filters stays.\<close>

locale filter_list =
  fixes items :: "notification_filters \<Rightarrow> string list"
    and put :: "string list \<Rightarrow> notification_filters \<Rightarrow> notification_filters"
    and add_word del_word :: string
  assumes words: "add_word \<notin> {''show'', ''clear''} \<and> del_word \<notin> {''show'', ''clear''}"
    and add: "edit_filters add_word v f = Inr (put (add_fold (items f) v) f)"
    and del: "edit_filters del_word v f = Inr (put (remove_fold (items f) v) f)"
    and lens: "items (put xs f) = xs" "put (items f) f = f" "put xs (put ys f) = put xs f"
    and clean_item: "clean_filters f \<Longrightarrow> clean_list (items f)"
    and items_agree: "agree g (put xs f) \<Longrightarrow> canon ` set (items g) = canon ` set xs"
    and agree_put: "agree g f \<Longrightarrow> canon ` set xs = canon ` set ys \<Longrightarrow> agree (put xs g) (put ys f)"
    and stored: "clean_filters f \<Longrightarrow> filters_set E k (Some (put xs f)) x d = (d', [Reply k (RespFilters g)]) \<Longrightarrow>
      items g = clean_items xs [] \<and> clean_filters g \<and> agree g (put (items g) f)"
begin

lemma set_list:
  assumes "clean_filters f" and "filters_set E k (Some (put xs f)) x d = (d', [Reply k (RespFilters g)])"
    and "[] \<notin> canon ` set xs"
  shows "agree g (put xs f) \<and> clean_filters g"
proof -
  note g = stored [OF assms(1,2)]
  have "canon ` set (items g) = canon ` set xs" using g assms(3) by (simp add: clean_items_canon)
  then have "agree (put (items g) f) (put xs f)" by (intro agree_put) (simp_all add: agree_def)
  then show ?thesis using g agree_trans [of g "put (items g) f" "put xs f"] by blast
qed

lemma added:
  assumes "filters_edited W [add_word, v] E k x d d'" and "clean_filters (daemon_filters d)"
  shows "agree (daemon_filters d') (put (add_fold (items (daemon_filters d)) (trim_space v)) (daemon_filters d)) \<and>
    clean_filters (daemon_filters d')"
proof -
  have s: "filters_set E k (Some (put (add_fold (items (daemon_filters d)) (trim_space v)) (daemon_filters d))) x d =
      (d', [Reply k (RespFilters (daemon_filters d'))])" and ne: "canon v \<noteq> []"
    using filters_edited_request [OF assms(1)] words by (auto simp: add canon_def to_lower_def)
  have "canon ` set (add_fold (items (daemon_filters d)) (trim_space v)) = insert (canon v) (canon ` set (items (daemon_filters d)))"
    using add_fold_canon [of "trim_space v"] by (simp add: canon_def)
  then show ?thesis
    using set_list [OF assms(2) s] ne not_blank [OF clean_item [OF assms(2)]] by auto
qed

lemma removed:
  assumes "filters_edited W [del_word, v] E k x d d'" and "clean_filters (daemon_filters d)"
  shows "agree (daemon_filters d') (put (remove_fold (items (daemon_filters d)) (trim_space v)) (daemon_filters d)) \<and>
    clean_filters (daemon_filters d')"
proof -
  have s: "filters_set E k (Some (put (remove_fold (items (daemon_filters d)) (trim_space v)) (daemon_filters d))) x d =
      (d', [Reply k (RespFilters (daemon_filters d'))])"
    using filters_edited_request [OF assms(1)] words by (auto simp: del)
  have "set (remove_fold (items (daemon_filters d)) (trim_space v)) \<subseteq> set (items (daemon_filters d))"
    by (auto simp: remove_fold_def)
  then show ?thesis
    using set_list [OF assms(2) s] not_blank [OF clean_item [OF assms(2)]] by blast
qed

lemma del_undoes_add:
  assumes "filters_edited W [add_word, v] E k x d d'" and "filters_edited W' [del_word, v'] E k' x' d' d''"
    and clean: "clean_filters (daemon_filters d)" and v': "canon v' = canon v"
    and new: "canon v \<notin> canon ` set (items (daemon_filters d))"
  shows "agree (daemon_filters d'') (daemon_filters d)"
proof -
  define f g where "f = daemon_filters d" and "g = daemon_filters d'"
  define xs where "xs = add_fold (items f) (trim_space v)"
  have g: "agree g (put xs f)" "clean_filters g" using added [OF assms(1) clean] by (simp_all add: f_def g_def xs_def)
  obtain ys where ys: "ys = remove_fold (items g) (trim_space v')"
    "agree (daemon_filters d'') (put ys g)" using removed [OF assms(2)] g(2) by (simp add: g_def)
  have "canon ` set (items g) = insert (canon v) (canon ` set (items f))"
  proof -
    have "canon ` set (items g) = canon ` set xs" using g(1) items_agree by blast
    then show ?thesis using add_fold_canon [of "trim_space v"] by (simp add: xs_def canon_def)
  qed
  then have "canon ` set ys = canon ` set (items f)"
    using remove_fold_canon [OF _ clean_item [OF g(2)], of "trim_space v'"] v' new
    by (auto simp: ys(1) canon_def f_def)
  then have "agree (put ys g) (put (items f) (put xs f))" by (rule agree_put [OF g(1)])
  then have "agree (put ys g) f" by (simp add: lens)
  then show ?thesis unfolding f_def by (rule agree_trans [OF ys(2)])
qed

end

interpretation muting: filter_list muted_apps "\<lambda>xs f. f\<lparr>muted_apps := xs\<rparr>" "''mute-app''" "''unmute-app''"
  by unfold_locales
    (auto simp: edit_filters_def agree_def clean_filters_def clean_items_clean clean_items_canon_clean dest!: filters_set_done
      intro: clean_items_in)

interpretation showing_only: filter_list only_apps "\<lambda>xs f. f\<lparr>only_apps := xs\<rparr>" "''only-app''" "''unonly-app''"
  by unfold_locales
    (auto simp: edit_filters_def agree_def clean_filters_def clean_items_clean clean_items_canon_clean dest!: filters_set_done
      intro: clean_items_in)

interpretation muting_categories: filter_list muted_categories "\<lambda>xs f. f\<lparr>muted_categories := xs\<rparr>" "''mute-category''"
    "''unmute-category''"
  by unfold_locales
    (auto simp: edit_filters_def agree_def clean_filters_def clean_items_clean clean_items_canon_clean dest!: filters_set_done
      intro: clean_items_in)


text \<open>\<open>unmute-app\<close> undoes \<open>mute-app\<close>, and likewise the other two pairs of words: two runs of the command,
  both served by the daemon, leave every notification shown as before them, if the item was not in the
  list already.\<close>

theorem unmute_undoes_mute:
  assumes "filters_edited W [''mute-app'', app] E k x d d'" and "filters_edited W' [''unmute-app'', app'] E k' x' d' d''"
    and "clean_filters (daemon_filters d)" and "canon app' = canon app"
    and "canon app \<notin> canon ` set (muted_apps (daemon_filters d))"
  shows "should_show (daemon_filters d'') n = should_show (daemon_filters d) n"
  by (rule agree_shows [OF muting.del_undoes_add [OF assms]])

text \<open>A host with one phone that is not connected, and a command line whose requests it serves.\<close>

definition cli_env :: daemon_env where
  "cli_env = \<lparr>de_crypto = plain_crypto, de_yaml = \<lparr>yaml_marshal = (\<lambda>_. Some []), yaml_unmarshal = (\<lambda>_ _. None)\<rparr>,
     de_base = None, de_dir = ''/quava'', de_tmp = ''/quava/tmp'', de_bus = one_player_bus, de_tools = one_sink,
     de_marshal = (\<lambda>_. Some []), de_hostname = None\<rparr>"

definition cli_host :: daemon where "cli_host = new_daemon cli_env empty_config [] True True True idle_world"

definition good_disk :: save_faults where
  "good_disk = \<lparr>temp_ok = True, chmod_ok = True, write_ok = True, written = 0, sync_ok = True, close_ok = True,
     rename_ok = True, remove_ok = True\<rparr>"

definition served_by :: "daemon \<Rightarrow> cli_world" where
  "served_by d =
     \<lparr>cw_store = True, cw_dial = True, cw_deadline = True, cw_sent = True,
      cw_reply = (\<lambda>h r.
        if dr_command r = ''discover'' then Some (RespDiscovered [], request_timeout (dr_timeout r) (seconds 10))
        else Some (if dr_command r = ''notif-filters-get'' then RespFilters (daemon_filters d)
           else if dr_command r = ''pair'' then RespCode 1234 ''Phone'' else RespOk, 0)),
      cw_float = (\<lambda>_. None), cw_discover_timeout = seconds 20, cw_pair_timeout = seconds 120,
      cw_line = ''y'', cw_line_ended = False\<rparr>"

definition with_filters :: "notification_filters \<Rightarrow> daemon \<Rightarrow> daemon" where
  "with_filters f d = fst (filters_set cli_env 1 (Some f) good_disk d)"

lemma with_filters:
  assumes "silent_policy f = []"
  shows "filters_set cli_env 1 (Some f) good_disk d = (with_filters f d, [Reply 1 (RespFilters (daemon_filters (with_filters f d)))])"
    and "daemon_filters (with_filters f d) = f\<lparr>muted_apps := clean_items (muted_apps f) [],
      only_apps := clean_items (only_apps f) [], muted_categories := clean_items (muted_categories f) []\<rparr>"
  using assms
  by (simp_all add: with_filters_def filters_set_def change_store_def set_notification_filters_def Let_def cli_env_def
      save_store_def good_disk_def save_cleanup_def daemon_filters_def get_filters_def)

lemma served_edit:
  assumes "edit_filters action (trim_space v) (daemon_filters d) = Inr f" and "silent_policy f = []"
    and "trim_space v \<noteq> []" and "action \<noteq> ''show''" and "action \<noteq> ''clear''"
  shows "filters_edited (served_by d) [action, v] cli_env 1 good_disk d (with_filters f d)"
proof -
  have "run_filters (served_by d) [action, v] [] =
      (Inr (ShowText []), [empty_request\<lparr>dr_command := ''notif-filters-get''\<rparr>,
         empty_request\<lparr>dr_command := ''notif-filters-set'', dr_filters := Some f\<rparr>])"
    using assms
    by (simp add: run_filters_def fetch_filters_def cli_bind_def cli_return_def call_daemon_def dial_def encodes_def
        served_by_def empty_request_def reply_timeout_def seconds_def second_def Let_def)
  then show ?thesis
    using with_filters(1) [OF assms(2)]
    by (simp add: filters_edited_def served_by_def empty_request_def)
qed

definition mail_filters :: notification_filters where
  "mail_filters = empty_filters\<lparr>muted_apps := [''Mail'']\<rparr>"

lemma mail_edits:
  "trim_space '' Mail'' = ''Mail''" "trim_space ''mail'' = ''mail''" "trim_space ''Mail'' = ''Mail''"
  "equal_fold ''Mail'' ''mail''"
  by code_simp+

lemma mail_filters_facts:
  "muted_apps mail_filters = [''Mail'']" "only_apps mail_filters = []" "muted_categories mail_filters = []"
  "silent_policy mail_filters = []" "silent_policy empty_filters = []" "muted_apps empty_filters = []"
  "empty_filters\<lparr>muted_apps := [''Mail'']\<rparr> = mail_filters" "mail_filters\<lparr>muted_apps := []\<rparr> = empty_filters"
  by (simp_all add: mail_filters_def empty_filters_def)

lemma mail_host:
  "daemon_filters cli_host = empty_filters"
  "daemon_filters (with_filters mail_filters d) = mail_filters"
  "daemon_filters (with_filters empty_filters d) = empty_filters"
  by (simp_all add: with_filters(2) mail_filters_facts mail_edits Let_def)
    (simp_all add: daemon_filters_def cli_host_def new_daemon_def get_filters_def empty_config_def mail_filters_def empty_filters_def)

lemma mail_muted:
  "filters_edited (served_by cli_host) [''mute-app'', '' Mail''] cli_env 1 good_disk cli_host (with_filters mail_filters cli_host)"
  by (rule served_edit) (simp_all add: mail_host mail_edits edit_filters_def add_fold_def mail_filters_facts)

definition mail_note :: "string \<Rightarrow> android_notification" where
  "mail_note app = \<lparr>an_key = ''k'', an_app = app, an_title = ''t'', an_body = [], an_icon = [], an_actions = [],
     an_category = [], an_silent = False\<rparr>"


theorem unmute_undoes_mute_witness:
  "should_show (daemon_filters (with_filters empty_filters (with_filters mail_filters cli_host))) (mail_note ''mail'') = (True, False)"
proof -
  let ?d = "with_filters mail_filters cli_host"
  have "filters_edited (served_by ?d) [''unmute-app'', ''mail''] cli_env 1 good_disk ?d (with_filters empty_filters ?d)"
    by (rule served_edit) (simp_all add: mail_host mail_edits edit_filters_def remove_fold_def mail_filters_facts)
  moreover have "clean_filters (daemon_filters cli_host)" by (simp add: mail_host clean_filters_def clean_list_def empty_filters_def)
  moreover have "canon ''mail'' = canon '' Mail''" by code_simp
  ultimately have "should_show (daemon_filters (with_filters empty_filters ?d)) (mail_note ''mail'') =
      should_show (daemon_filters cli_host) (mail_note ''mail'')"
    using unmute_undoes_mute [OF mail_muted] by (simp add: mail_host mail_filters_facts)
  then show ?thesis
    by (simp add: mail_host should_show_def contains_fold_def empty_filters_def mail_note_def)
qed

subsection \<open>A search that is too long\<close>

lemma open_search_fails: "discover_loop [] ts s = Some (ds, e) \<Longrightarrow> e \<noteq> None"
proof (induction ts arbitrary: s)
  case (Cons t ts)
  have "find (is_target []) xs = None" for xs by (simp add: find_None_iff is_target_def)
  then have "e' \<noteq> None" if "discover_turn [] t s = Ended ds' e'" for ds' e'
    using that by (auto simp: discover_turn_def Let_def split: if_splits socket_read.splits option.splits prod.splits)
  then show ?case using Cons by (auto split: search_result.splits)
qed simp

text \<open>How the daemon answers \<open>discover\<close>: a search for any device, which ends with an error; an error other
  than the end of its context is reported, otherwise the devices. The context ends when the timeout has
  passed.\<close>

definition search_answer :: "int \<Rightarrow> response \<Rightarrow> int \<Rightarrow> bool" where
  "search_answer timeout res t \<longleftrightarrow>
     (\<exists>opened ok now ts cl ds e ended. discover_devices opened ok now ts cl = Some (ds, e) \<and>
        res = (if e \<noteq> None \<and> \<not> ended then RespError DmDiscovery else RespDiscovered ds) \<and> (ended \<longrightarrow> timeout \<le> t))"

lemma discover_devices_error: "discover_devices opened ok now ts cl = Some (ds, e) \<Longrightarrow> e \<noteq> None"
  using open_search_fails
  by (auto simp: discover_devices_def client_discover_def split: option.splits sum.splits if_splits)

text \<open>C40. \<open>quava discover\<close> never finds anything when it is told to search for fifteen seconds or more: the
  daemon searches as long as it was asked to, and the command gives up on its answer after fifteen.\<close>

theorem long_search_is_lost:
  assumes "reply_timeout \<le> cw_discover_timeout W"
    and "\<And>h r res t. dr_command r = ''discover'' \<Longrightarrow> cw_reply W h r = Some (res, t) \<Longrightarrow>
      search_answer (request_timeout (dr_timeout r) (seconds 10)) res t"
  shows "\<exists>e. fst (run_root W [''discover''] []) = Inl e"
proof -
  define r where "r = empty_request\<lparr>dr_command := ''discover'', dr_timeout := cw_discover_timeout W sdiv 1000000\<rparr>"
  have "cw_discover_timeout W sdiv 1000000 = cw_discover_timeout W div 1000000"
    using assms(1) by (simp add: signed_divide_int_def sgn_if reply_timeout_def seconds_def second_def)
  moreover have "15000 \<le> cw_discover_timeout W div 1000000" using assms(1) by (simp add: reply_timeout_def seconds_def second_def)
  ultimately have long: "reply_timeout \<le> request_timeout (dr_timeout r) (seconds 10)"
    by (simp add: r_def request_timeout_def reply_timeout_def min_def seconds_def second_def)
  have "\<exists>e. fst (call_daemon W r []) = Inl e"
  proof (cases "cw_reply W [] r")
    case (Some a)
    obtain res t where a: "a = (res, t)" by (cases a)
    have "search_answer (request_timeout (dr_timeout r) (seconds 10)) res t"
      using assms(2) [of r "[]" res t] Some a by (simp add: r_def)
    then have "res = RespError DmDiscovery \<or> reply_timeout \<le> t"
      using long discover_devices_error unfolding search_answer_def by fastforce
    then show ?thesis using Some a by (auto simp: call_daemon_def split: option.split)
  qed (auto simp: call_daemon_def split: option.split)
  then show ?thesis
    unfolding run_root_def run_discover_def r_def
    by (auto simp: cli_bind_def simple_commands_def action_commands_def split: prod.split sum.split)
qed

lemma query_built: "\<exists>q. build_ptr_query ''_quava._udp.local.'' = Inr q"
proof -
  have "case build_ptr_query ''_quava._udp.local.'' of Inl _ \<Rightarrow> False | Inr _ \<Rightarrow> True" by code_simp
  then show ?thesis by (simp split: sum.splits)
qed

lemma ended_search: "discover_devices None True 0 [quiet_turn True] True = Some ([], Some DiscContext)"
  using query_built
  by (auto simp: discover_devices_def client_discover_def discover_turn_def quiet_turn_def Let_def device_list_def
      new_collector_def)

theorem long_search_is_lost_witness:
  "fst (run_root (served_by cli_host) [''discover''] []) = Inl CliTimeout"
proof -
  have "search_answer (request_timeout (dr_timeout r) (seconds 10)) res t"
    if "dr_command r = ''discover''" "cw_reply (served_by cli_host) h r = Some (res, t)" for h r res t
  proof -
    have "res = RespDiscovered [] \<and> t = request_timeout (dr_timeout r) (seconds 10)" using that by (simp add: served_by_def)
    then show ?thesis
      unfolding search_answer_def using ended_search
      by (metis (no_types, lifting) order_refl)
  qed
  then have "\<exists>e. fst (run_root (served_by cli_host) [''discover''] []) = Inl e"
    by (rule long_search_is_lost [rotated]) (simp_all add: served_by_def reply_timeout_def seconds_def second_def)
  then show ?thesis
    by (auto simp: run_root_def run_discover_def cli_bind_def simple_commands_def action_commands_def call_daemon_def
        dial_def encodes_def served_by_def empty_request_def reply_timeout_def request_timeout_def cli_return_def
        signed_divide_int_def seconds_def second_def)
qed


subsection \<open>Pairing\<close>

lemma run_pair_confirms:
  assumes "run_pair W args [] = (out, [r1, r2])"
  shows "r2 = confirm_request (cw_line W) \<and> (\<exists>code name t. cw_reply W [] r1 = Some (RespCode code name, t))"
  using assms
  by (auto simp: run_pair_def cli_bind_def cli_return_def talk_def split: if_splits option.splits response.splits)

text \<open>C24. Pairing from the command line needs the user's yes: if the daemon asks the command line for the
  confirmation (its second request on the connection, after the daemon has sent the code) and the
  exchange with the phone succeeds, then the user typed \<open>y\<close> or \<open>yes\<close>.\<close>

theorem pairing_needs_yes:
  assumes "run_pair W args [] = (out, [r1, r2])"
    and "\<And>code name. pe_confirm E code name = pair_confirmation True (Some r2)"
    and "initiate E opts s = (Inr r, t)"
  shows "to_lower (trim_space (cw_line W)) \<in> {''y'', ''yes''} \<and> (\<exists>code name t. cw_reply W [] r1 = Some (RespCode code name, t))"
proof -
  have c: "r2 = confirm_request (cw_line W)" "\<exists>code name t. cw_reply W [] r1 = Some (RespCode code name, t)"
    using run_pair_confirms [OF assms(1)] by blast+
  obtain w where "run_checks E opts w" by (rule initiate_run [OF assms(3)]) blast
  then have "pair_confirmation True (Some r2) = Inr True" by (simp add: run_checks_def Let_def assms(2))
  then show ?thesis using c by (simp add: pair_confirmation_def confirm_request_def user_accepts_def)
qed

theorem pairing_needs_yes_witness:
  "\<exists>out r1 r2. run_pair (served_by cli_host) [''ab''] [] = (out, [r1, r2]) \<and>
     to_lower (trim_space (cw_line (served_by cli_host))) \<in> {''y'', ''yes''}"
proof -
  let ?W = "served_by cli_host"
  let ?r1 = "empty_request\<lparr>dr_command := ''pair'', dr_peer := ''ab'', dr_timeout := seconds 120 sdiv 1000000\<rparr>"
  let ?r2 = "confirm_request ''y''"
  have run: "run_pair ?W [''ab''] [] = (Inr (ShowDevice None), [?r1, ?r2])"
    by (simp add: run_pair_def dial_def talk_def encodes_def cli_bind_def cli_return_def served_by_def empty_request_def
        confirm_request_def)
  have yes: "user_accepts ''y''" by code_simp
  have c: "pair_confirmation True (Some ?r2) = Inr True"
    by (simp add: pair_confirmation_def confirm_request_def yes)
  have i: "canon (hex_encode [1]) \<noteq> []" by code_simp
  obtain t where p: "initiate (sample_env (two_yaml my_config (result_config [1]))) sample_opts (sample_exchange [1]) =
      (Inr (sample_result [1]), t)"
    using sample_pairs [OF i] by blast
  have "pe_confirm (sample_env (two_yaml my_config (result_config [1]))) code name = pair_confirmation True (Some ?r2)" for code name
    unfolding c by (simp add: sample_env_def)
  then show ?thesis using pairing_needs_yes [OF run _ p] run by blast
qed

text \<open>The code on the screen determines the code: six digits in two groups.\<close>

lemma pad3_code: "digits_nat (pad3 n) 0 = Some n"
proof -
  have "digits_nat (replicate k (CHR ''0'') @ s) 0 = digits_nat s 0" for k s by (induction k) (auto simp: is_digit_def)
  then show ?thesis using digits_nat_dec [of n "[]" 0] by (simp add: pad3_def)
qed

lemma length_pad3: "n < 1000 \<Longrightarrow> length (pad3 n) = 3"
proof -
  assume n: "n < 1000"
  have one: "length (dec_nat m) = 1" if "m < 10" for m using that by (subst dec_nat.simps) simp
  have two: "length (dec_nat m) \<le> 2" if "m < 100" for m
    using that one [of "m div 10"] by (subst dec_nat.simps) simp
  have "length (dec_nat n) \<le> 3" using n two [of "n div 10"] by (subst dec_nat.simps) simp
  then show ?thesis by (simp add: pad3_def)
qed

lemma code_text_inject:
  fixes c c' :: "32 word"
  assumes "c < 1000000" and "c' < 1000000"
  shows "length (code_text c) = 7 \<and> (code_text c = code_text c' \<longleftrightarrow> c = c')"
proof -
  have h: "unat (x div 1000) < 1000 \<and> unat (x mod 1000) < 1000 \<and> unat x = 1000 * unat (x div 1000) + unat (x mod 1000)"
    if "x < 1000000" for x :: "32 word"
    using that by (auto simp: word_less_nat_alt unat_div unat_mod)
  note c = h [OF assms(1)] and c' = h [OF assms(2)]
  have "c = c'" if "code_text c = code_text c'"
  proof -
    have "pad3 (unat (c div 1000)) = pad3 (unat (c' div 1000)) \<and> pad3 (unat (c mod 1000)) = pad3 (unat (c' mod 1000))"
      using that c c' length_pad3 by (simp add: code_text_def append_eq_append_conv)
    then have "unat (c div 1000) = unat (c' div 1000) \<and> unat (c mod 1000) = unat (c' mod 1000)"
      by (metis option.inject pad3_code)
    then show ?thesis using c c' by (metis word_unat_eq_iff)
  qed
  then show ?thesis using c length_pad3 by (auto simp: code_text_def)
qed

end
