(* ===== verification/Ssh_Terminal.thy ===== *)
theory Ssh_Terminal
  imports Ssh_Service
begin

text \<open>
  The goroutines of a terminal session of the SSH service (\<open>runPTYShell\<close> in \<open>libquava/ssh/pty.go\<close>): the
  shell writes to the terminal, one goroutine copies its output to the client, one copies the client's
  input to the shell, one waits for the shell, and the session itself waits for the shell or the input
  to end and closes everything. An event is one step of one of them; they interleave in any order.
  What processes write that the shell leaves behind is not part of the model. The size of the terminal
  is in theory \<open>Ssh_Service\<close>.
\<close>

subsection \<open>The terminal and its goroutines\<close>

datatype terminal_phase = Selecting | Killing | Closing | Returned

text \<open>\<open>te_buffer\<close> is what the shell wrote and nobody has read from the terminal yet.\<close>

record terminal =
  te_written :: bytes
  te_buffer :: bytes
  te_sent :: bytes
  te_shell_dead :: bool
  te_input_done :: bool
  te_output_done :: bool
  te_phase :: terminal_phase

datatype terminal_event =
    ShellWrites bytes
  | ShellExits
  | OutputCopied nat
  | OutputEnds
  | InputEnds
  | SessionTurn

definition start_terminal :: "bool \<Rightarrow> bool \<Rightarrow> terminal option" where
  "start_terminal open_ok start_ok =
     (if open_ok \<and> start_ok
      then Some \<lparr>te_written = [], te_buffer = [], te_sent = [], te_shell_dead = False, te_input_done = False,
        te_output_done = False, te_phase = Selecting\<rparr>
      else None)"

definition is_closed :: "terminal \<Rightarrow> bool" where
  "is_closed t \<longleftrightarrow> te_phase t = Closing \<or> te_phase t = Returned"

text \<open>Of two channels that are ready, \<open>select\<close> takes any; both ways end in the same state, because a
  shell that is dead is not killed again.\<close>

fun terminal_step :: "terminal_event \<Rightarrow> terminal \<Rightarrow> terminal" where
  "terminal_step (ShellWrites bs) t =
     (if te_shell_dead t then t else t\<lparr>te_written := te_written t @ bs, te_buffer := te_buffer t @ bs\<rparr>)"
| "terminal_step ShellExits t = t\<lparr>te_shell_dead := True\<rparr>"
| "terminal_step (OutputCopied n) t =
     (if is_closed t \<or> te_output_done t then t
      else t\<lparr>te_sent := te_sent t @ take n (te_buffer t), te_buffer := drop n (te_buffer t)\<rparr>)"
| "terminal_step OutputEnds t =
     (if is_closed t \<or> te_shell_dead t \<and> te_buffer t = [] then t\<lparr>te_output_done := True\<rparr> else t)"
| "terminal_step InputEnds t = t\<lparr>te_input_done := True\<rparr>"
| "terminal_step SessionTurn t =
     (case te_phase t of
        Selecting \<Rightarrow>
          if te_shell_dead t then t\<lparr>te_phase := Closing\<rparr>
          else if te_input_done t then t\<lparr>te_phase := Killing\<rparr>
          else t
      | Killing \<Rightarrow> if te_shell_dead t then t\<lparr>te_phase := Closing\<rparr> else t
      | Closing \<Rightarrow> if te_output_done t \<and> te_input_done t then t\<lparr>te_phase := Returned\<rparr> else t
      | Returned \<Rightarrow> t)"

subsection \<open>What the client receives\<close>

definition terminal_ok :: "terminal \<Rightarrow> bool" where
  "terminal_ok t \<longleftrightarrow> te_written t = te_sent t @ te_buffer t \<and> (is_closed t \<longrightarrow> te_shell_dead t)"

lemma terminal_step_ok: "terminal_ok t \<Longrightarrow> terminal_ok (terminal_step e t)"
  by (cases e) (auto simp: terminal_ok_def is_closed_def split: terminal_phase.split)

interpretation terminals: step_system "\<lambda>t. start_terminal True True = Some t" "\<lambda>t t'. \<exists>e. t' = terminal_step e t" terminal_ok
proof
  show "terminal_ok t" if "start_terminal True True = Some t" for t
    using that by (auto simp: start_terminal_def terminal_ok_def is_closed_def)
  show "terminal_ok t'" if "terminal_ok t" "\<exists>e. t' = terminal_step e t" for t t'
    using that terminal_step_ok by blast
qed

lemma closed_stays:
  "is_closed t \<Longrightarrow> te_shell_dead t \<Longrightarrow>
   is_closed (terminal_step e t) \<and> te_shell_dead (terminal_step e t) \<and>
   te_sent (terminal_step e t) = te_sent t \<and> te_written (terminal_step e t) = te_written t"
  by (cases e) (auto simp: is_closed_def split: terminal_phase.split)

lemma closed_run:
  "is_closed t \<Longrightarrow> te_shell_dead t \<Longrightarrow>
   te_sent (fold terminal_step es t) = te_sent t \<and> te_written (fold terminal_step es t) = te_written t"
proof (induction es arbitrary: t)
  case (Cons e es)
  then show ?case using closed_stays [of t e] by simp
qed simp

text \<open>The client receives a prefix of what the shell wrote. The session closes the channel as soon as the
  shell has ended, without waiting for the output that is still in the terminal: the client receives all
  of it just if the copying goroutine was done by then.\<close>

theorem output_lost_unless_drained:
  assumes "reach (\<lambda>t. start_terminal True True = Some t) (\<lambda>t t'. \<exists>e. t' = terminal_step e t) t"
    and "\<not> is_closed t" and "is_closed (terminal_step SessionTurn t)"
  defines "final es \<equiv> fold terminal_step es (terminal_step SessionTurn t)"
  shows "te_written (final es) = te_sent (final es) @ te_buffer t \<and>
    (te_sent (final es) = te_written (final es) \<longleftrightarrow> te_buffer t = [])"
proof -
  have ok: "terminal_ok t" using terminals.reach_inv [OF assms(1)] .
  have "terminal_ok (terminal_step SessionTurn t)" using terminal_step_ok [OF ok] .
  then have "te_shell_dead (terminal_step SessionTurn t)" using assms(3) by (simp add: terminal_ok_def)
  then have "te_sent (final es) = te_sent (terminal_step SessionTurn t)" "te_written (final es) = te_written (terminal_step SessionTurn t)"
    using closed_run [OF assms(3)] by (simp_all add: final_def)
  moreover have "te_sent (terminal_step SessionTurn t) = te_sent t" "te_written (terminal_step SessionTurn t) = te_written t"
    by (auto split: terminal_phase.split)
  ultimately show ?thesis using ok by (simp add: terminal_ok_def)
qed

theorem output_lost_unless_drained_witness:
  "te_sent (fold terminal_step [OutputCopied 9, OutputEnds, InputEnds, SessionTurn]
     (terminal_step SessionTurn (fold terminal_step [ShellWrites [1], ShellExits] (the (start_terminal True True))))) = []"
proof -
  define t where "t = fold terminal_step [ShellWrites [1], ShellExits] (the (start_terminal True True))"
  let ?R = "reach (\<lambda>t. start_terminal True True = Some t) (\<lambda>t t'. \<exists>e. t' = terminal_step e t)"
  have "?R (the (start_terminal True True))" by (rule reach_init) (simp add: start_terminal_def)
  then have "?R (terminal_step (ShellWrites [1]) (the (start_terminal True True)))" by (rule reach_step) blast
  then have "?R (terminal_step ShellExits (terminal_step (ShellWrites [1]) (the (start_terminal True True))))"
    by (rule reach_step) blast
  then have "?R t" by (simp add: t_def)
  moreover have "\<not> is_closed t" "is_closed (terminal_step SessionTurn t)" "te_buffer t = [1]" "te_written t = [1]"
    by (simp_all add: t_def start_terminal_def is_closed_def)
  ultimately have "te_written (fold terminal_step [OutputCopied 9, OutputEnds, InputEnds, SessionTurn] (terminal_step SessionTurn t)) =
      te_sent (fold terminal_step [OutputCopied 9, OutputEnds, InputEnds, SessionTurn] (terminal_step SessionTurn t)) @ [1]"
    using output_lost_unless_drained by metis
  then show ?thesis by (simp add: t_def start_terminal_def is_closed_def)
qed

text \<open>The session ends: when the shell or the input has ended, at most two turns of the session and the
  end of the shell, which is killed if it still runs, close the channel; it returns when both copying
  goroutines are done.\<close>

lemma session_closes:
  assumes "te_shell_dead t \<or> te_input_done t"
  shows "is_closed (fold terminal_step [SessionTurn, ShellExits, SessionTurn] t)"
  using assms by (auto simp: is_closed_def split: terminal_phase.split)

lemma session_returns:
  assumes "te_phase t = Closing"
  shows "te_phase (fold terminal_step [OutputEnds, InputEnds, SessionTurn] t) = Returned"
  using assms by (simp add: is_closed_def)

end
