(* ===== verification/Spec2Isabelle.thy ===== *)
theory Spec2Isabelle
  imports Channel_Attacker Discovery_Loops Android_Bridge App_Icons Daemon_Answers Daemon_Sessions Daemon_Main
    Command_Requests Ssh_Terminal
begin

text \<open>
  Quava connects an Android phone to a Linux host: the daemon \<open>quavad\<close> finds phones by multicast
  DNS, pairs with one, keeps an authenticated encrypted session to it and serves clipboard,
  notifications, calls, media control and remote input over that session; the command line \<open>quava\<close>
  controls the daemon through a socket. These theories model the library \<open>src/daemon/libquava\<close>, the
  daemon \<open>src/daemon/quavad\<close> around it and the command line \<open>src/daemon/cli\<close>. Theory and code correspond as
  follows; each theory opens with a text on its own model.

  \<^item> \<open>Go_Prelude\<close>: what the code uses of Go: results (a sum, the error left), byte strings and
    strings, maps as lists of pairs with distinct keys (\<open>gomap\<close>), conversions, and the locales
    the components share: \<open>stream_codec\<close> and \<open>offset_codec\<close> (an encoder and the decoder that reads it
    back, from a stream or at an offset of a packet) and \<open>step_system\<close> (initial states, steps and an
    invariant). Three components have a contract of their own, \<open>device_switch\<close> in \<open>Config_Store\<close>,
    \<open>acknowledged\<close> in \<open>Session_Requests\<close> and \<open>filter_list\<close> in \<open>Command_Requests\<close>. Every locale is
    interpreted on the operations of the code.
  \<^item> \<open>Wire_Message\<close>, \<open>Framing\<close>, \<open>Secure_Channel\<close>, \<open>Channel_Attacker\<close>: \<open>libquava/protocol\<close>, the CBOR
    message with its payload accessors, the length-prefixed frame over a stream that delivers
    bytes in pieces, the frame cipher with its counters, and an attacker who owns the wire.
  \<^item> \<open>Dns_Packet\<close>, \<open>Discovery_Collector\<close>, \<open>Watcher\<close>, \<open>Discovery_Loops\<close>: \<open>libquava/discovery\<close>, the packet
    parser and printer, the collector that joins records to devices, the watcher whose sessions wait
    for a device and back off, and the loops of the client and the watcher over their sockets.
  \<^item> \<open>Crypto_Kdf\<close>, \<open>Config_Store\<close>, \<open>Exchange\<close>, \<open>Pairing\<close>: \<open>libquava/crypto\<close>, \<open>libquava/config\<close> and
    \<open>libquava/pairing\<close>. \<open>Exchange\<close> is the monad of a protocol run: a computation over the messages
    still to arrive, the messages sent and the channel keys.
  \<^item> \<open>Session_Handshake\<close>, \<open>Session_Core\<close>, \<open>Session_Requests\<close>, \<open>Session_Events\<close>, \<open>Utf8\<close>:
    \<open>libquava/session\<close>, the handshake and reconnect loop, the pending requests and queues of the
    dispatcher, the requests to the phone and the handlers of what it sends.
  \<^item> \<open>Remote_Input\<close>, \<open>Emulator\<close>: \<open>libquava/models/inputs.go\<close>, \<open>libquava/session/inputs.go\<close> and
    \<open>libquava/inputs\<close>, from the payload of an input event to the bytes written to \<open>/dev/uinput\<close>.
  \<^item> \<open>Media_Players\<close>, \<open>Artwork\<close>, \<open>Media_Session\<close>: \<open>libquava/media/mpris.go\<close> and
    \<open>libquava/session/media.go\<close>, the player cache, the artwork cache and compression, and media
    control from the phone. \<open>Media_Session\<close> also holds \<open>handleUnsolicited\<close>, which calls all handlers.
  \<^item> \<open>Go_Path\<close>, \<open>App_Icons\<close>: paths and decimal integers of Go's library, and \<open>libquava/media/icons.go\<close>, the
    search for the icon of a player, its scaling and its cache. \<open>Media_Session\<close> takes the icon from a
    function of its environment, for which \<open>app_icon_png\<close> stands.
  \<^item> \<open>Go_Text\<close>, \<open>System_Audio\<close>: fields, searching and the regular expressions the code uses on text, and
    \<open>libquava/media/system_audio.go\<close>, which drives the sound server through \<open>wpctl\<close> or \<open>pactl\<close>.
  \<^item> \<open>Notifications\<close>, \<open>Android_Bridge\<close>: \<open>libquava/notifications\<close>, the watcher that sends the notifications of
    the desktop to the phones, and the bridge that shows those of a phone.
  \<^item> \<open>Clipboard_Sync\<close>, \<open>Ssh_Service\<close>, \<open>Ssh_Terminal\<close>: \<open>libquava/clipboard\<close> and \<open>libquava/ssh\<close>, with the goroutines of
    a terminal session in a theory of their own.
  \<^item> \<open>Daemon_State\<close>, \<open>Daemon_Ops\<close>, \<open>Daemon_Control\<close>, \<open>Daemon\<close>: \<open>quavad\<close>, its state, the functions on it, the
    requests of the control socket, and the system of its goroutines. \<open>Daemon_Invariants\<close>,
    \<open>Daemon_Answers\<close> and \<open>Daemon_Sessions\<close> hold what is proved of every interleaving. \<open>Daemon_Main\<close> is the entry
    point \<open>quavad/main.go\<close> with the control socket, and the address check of \<open>libquava/profiling\<close>.
  \<^item> \<open>Command_Line\<close>, \<open>Command_Requests\<close>: \<open>cli\<close>, each command with its arguments, its requests and what it
    prints, and what is proved of the command line and the daemon together.

  How the parts meet: a session's messages are \<open>Wire_Message\<close> values sent through \<open>Exchange\<close>, whose
  frames \<open>Secure_Channel\<close> seals; the end-to-end statements of this theory join the handshake to
  the channel and its attacker. \<open>Session_Core\<close> decides which request, queue or refusal an arriving
  message goes to; the queues are emptied by the workers of \<open>Remote_Input\<close> and \<open>Media_Session\<close>. The
  daemon holds the configuration, the clipboard and SSH services, the emulator and the players as
  parts of its record and calls their operations; the goroutine of a session follows \<open>run_turn\<close> of
  \<open>Session_Handshake\<close>. A function of the daemon is a list of actions, each of which runs under one
  lock; a run is a list of choices of the scheduler, of phones, of the user and of the host, and the
  theorems about the daemon hold for every such list.

  What the lemmas show: codecs read back what they write, over any partition of the stream into
  reads; the channel delivers what was sent, in order and once, and nothing else, whatever an
  attacker does; handshake and pairing end with both ends agreeing on keys and identity; the
  caches (devices, players, artwork, configuration) keep an invariant under every operation and
  implement a simple specification; requests get their own answers; the emulator leaves no key
  down; limits on rate and size hold; in every interleaving the daemon runs one goroutine for each
  session, gives the remote input to one connected phone, applies only input it has checked, and
  answers every request once; what the bridge shows does not come back; a phone that announces
  itself is found; the command line sends only what the daemon serves. Where the code does not
  keep a promise, the theorem states what it does instead (\<open>name_cycle_never_returns\<close>,
  \<open>pairing_then_reopen\<close>, \<open>cancelled_session_stays_published\<close>, \<open>failed_report_leaves_key_down\<close>,
  \<open>message_lost_iff\<close>, \<open>unpair_leaves_ssh_access\<close>, \<open>connect_after_disconnect_lost\<close>,
  \<open>input_applied_after_disable\<close>, \<open>ended_watcher_not_restarted\<close>, \<open>partial_host_key_stays\<close>,
  \<open>moved_phone_not_found\<close>, \<open>long_search_is_lost\<close>, \<open>output_lost_unless_drained\<close>).

  Modelling choices. Code under locks is one step on a record; goroutines are events that
  interleave in any order. Machine integers are words where they can wrap. A \<open>float64\<close> is a real
  with infinities and NaN, and its arithmetic is exact, except in the scaling of icons, where rounding is a parameter. A channel is
  the list of its contents with the capacity of the code. Time is a real or a number of
  nanoseconds handed to the step. Loops are recursive functions with a termination proof; the one
  loop that need not end, following compression pointers in a DNS name, is a partial function, and
  no definition uses fuel. CBOR, YAML, Ed25519, X25519, HKDF, ChaCha20-Poly1305, D-Bus, the image
  codecs and the kernel are parameters; what a statement needs of them is a named hypothesis
  (\<open>cbor_roundtrip\<close>, \<open>yaml_roundtrip\<close>, \<open>aead_correct\<close>, \<open>aead_binds\<close>, \<open>hkdf_separates\<close>), and the witness
  of the statement instantiates it with a concrete function.

  The daemon's calls that wait for the network are one action each: pairing, with the code shown to
  the user and the answer, is the action \<open>pair_device\<close>; a request to a phone is the exchange of
  \<open>Session_Requests\<close> run at once. \<open>show_notification\<close> records the call of the bridge, whose work is in
  \<open>Android_Bridge\<close>. Timeouts are outcomes handed to the step.

  Not modelled: the SSH protocol itself; the watchdog that ends a
  hanging shutdown; the handlers of the profiling server, which are those of Go's library; JSON on the
  control socket, the flags that cobra takes out of a command line and the layout of its tables.
\<close>

section \<open>Sessions end to end\<close>

lemma reach_mono:
  "reach init step s \<Longrightarrow> (\<And>s. init s \<Longrightarrow> init' s) \<Longrightarrow> reach init' step s"
  by (induction rule: reach.induct) (auto intro: reach_init reach_step)

text \<open>The channel between the host, whose connection is \<open>c\<close>, and the phone, which holds the mirror
  image of its ciphers.\<close>

definition link_network :: "conn \<Rightarrow> network" where
  "link_network c =
     (let a = the (send_cipher c); b = the (recv_cipher c) in
      \<lparr>ends = (\<lambda>host. if host then \<lparr>e_send = a, e_recv = b, sent = [], accepted = []\<rparr>
                       else \<lparr>e_send = b, e_recv = a, sent = [], accepted = []\<rparr>), pool = []\<rparr>)"

definition link_keys :: "conn \<Rightarrow> bool \<Rightarrow> bytes" where
  "link_keys c host = aead_key (the (if host then send_cipher c else recv_cipher c))"

lemma connect_channel_init:
  assumes "connect E nil me peer s = (Inr r, t)" "hkdf_separates (se_crypto E)"
    and "nonce_size (se_aead E) = 12" "aead_binds (se_aead E)"
  shows "channel_init (se_aead E) (link_keys (link t)) (link_network (link t))"
proof (rule connect_run [OF assms(1)])
  fix tr h2p p2h c
  assume k: "session_keys (se_crypto E) (pr_credential peer) tr = Inr (h2p, p2h)"
    and e: "enable_encryption (se_aead E) h2p p2h (link s) = Inr c" "link t = c"
  have "h2p \<noteq> p2h" by (rule session_keys_differ [OF assms(2) k])
  moreover have "send_cipher (link t) = Some \<lparr>aead_key = h2p, counter = 0\<rparr>"
    "recv_cipher (link t) = Some \<lparr>aead_key = p2h, counter = 0\<rparr>"
    using enable_encryption_Inr [OF e(1)] e(2) by simp_all
  ultimately show ?thesis
    using assms(3,4) by (simp add: channel_init_def link_network_def link_keys_def Let_def)
qed


lemma plain_crypto_separates: "hkdf_separates plain_crypto"
proof -
  have "take 32 (str_bytes session_key_host_to_peer) \<noteq> take 32 (str_bytes session_key_peer_to_host)"
    "32 \<le> length (str_bytes session_key_host_to_peer)" "32 \<le> length (str_bytes session_key_peer_to_host)"
    by code_simp+
  then show ?thesis by (auto simp: hkdf_separates_def plain_crypto_def)
qed

lemma envelope_connects:
  "\<exists>r t. connect (sample_session_env\<lparr>se_aead := envelope_aead\<rparr>) False host_identity sample_peer
     handshake_start = (Inr r, t)"
proof -
  let ?E = "sample_session_env\<lparr>se_aead := envelope_aead\<rparr>"
  have e: "se_crypto ?E = plain_crypto" "se_aead ?E = envelope_aead" "se_tx ?E = se_tx sample_session_env"
    "se_nonce ?E = se_nonce sample_session_env" "se_crypto sample_session_env = plain_crypto"
    by (simp_all add: sample_session_env_def)
  obtain c where c: "enable_encryption envelope_aead (fst handshake_keys) (snd handshake_keys) new_conn = Inr c"
    using sample_session(6,7)
    by (auto simp: enable_encryption_def new_frame_cipher_def new_conn_def envelope_aead_def)
  show ?thesis
    using connect_with_paired_phone [of ?E host_identity sample_peer "replicate 16 0"
        "replicate 32 0" sample_transcript "[8]" "fst handshake_keys" "snd handshake_keys" handshake_start c "[]"]
      sample_session(1-4) c
    by (auto simp: e sample_transcript_def handshake_start_def)
qed




end
